(* ===== verification/Prelude.thy ===== *)
theory Prelude
  imports Complex_Main "HOL-Library.Word" "HOL-Library.Log_Nat"
begin

text \<open>
  Shared vocabulary of the development: the names of the machine integer types of the C and
  C++ sources, the sum type in which undefined behaviour and run-time failures are reported,
  the theorem collections the component theories add to, and generic lemmas on lists, sums and
  words.
\<close>

unbundle bit_operations_syntax

section \<open>Machine integers\<close>

text \<open>
  Signed and unsigned integers of one width share a type; \<open>uint\<close> and \<open>sint\<close> select the
  reading, as the C casts do.
\<close>

type_synonym u8 = "8 word"
type_synonym u16 = "16 word"
type_synonym u32 = "32 word"
type_synonym u64 = "64 word"
type_synonym i8 = "8 word"
type_synonym i16 = "16 word"
type_synonym i32 = "32 word"
type_synonym bytes = "8 word list"

section \<open>Failures as values\<close>

text \<open>
  A C++ expression whose behaviour the language leaves undefined, or that ends the program, is a
  branch of the model: \<open>Inl\<close> of one of these reasons.
\<close>

datatype ub =
    FloatToIntRange   \<comment> \<open>conversion of a float outside the target integer's range\<close>
  | IndexOutOfRange   \<comment> \<open>access past the end of an array\<close>
  | NullDereference   \<comment> \<open>member access through a null pointer\<close>
  | UnionMismatch     \<comment> \<open>read of a union member whose bytes were written through another one\<close>
  | UninitializedRead \<comment> \<open>use of a local that no path has assigned\<close>
  | SignedOverflow    \<comment> \<open>overflow of a signed integer\<close>
  | LibraryPrecondition \<comment> \<open>a call that the standard library leaves undefined\<close>
  | DivisionByZero    \<comment> \<open>integer division by zero\<close>
  | Blocked           \<comment> \<open>a wait that nothing can end\<close>
  | Thrown string     \<comment> \<open>an exception that leaves the function\<close>

type_synonym 'a res = "ub + 'a"

definition res_bind :: "'a res \<Rightarrow> ('a \<Rightarrow> 'b res) \<Rightarrow> 'b res" where
  "res_bind m f = (case m of Inl e \<Rightarrow> Inl e | Inr x \<Rightarrow> f x)"

fun is_ok :: "'a res \<Rightarrow> bool" where
  "is_ok (Inr x) = True"
| "is_ok (Inl e) = False"

section \<open>Theorem collections\<close>

named_theorems res_iff \<open>inversion rules for computations that succeed\<close>
named_theorems layout_defs \<open>definitions of the packed frame layouts\<close>
named_theorems fp_defs \<open>definitions of the floating-point operations\<close>

section \<open>Sums\<close>

lemma res_bind_simps [simp]:
  "res_bind (Inl e) f = Inl e"
  "res_bind (Inr x) f = f x"
  by (simp_all add: res_bind_def)

lemma res_bind_Inr [res_iff]: "res_bind m f = Inr y \<longleftrightarrow> (\<exists>x. m = Inr x \<and> f x = Inr y)"
  by (cases m) simp_all

lemma res_bind_Inl: "res_bind m f = Inl e \<longleftrightarrow> m = Inl e \<or> (\<exists>x. m = Inr x \<and> f x = Inl e)"
  by (cases m) simp_all

lemma is_ok_iff [res_iff]: "is_ok m \<longleftrightarrow> (\<exists>x. m = Inr x)"
  by (cases m) simp_all

section \<open>Lists\<close>

lemma length_eq_8E:
  assumes "length xs = 8"
  obtains a b c d e f g h where "xs = [a, b, c, d, e, f, g, h]"
  using assms by (auto simp: numeral_eq_Suc length_Suc_conv)

lemma list_update_same_length [simp]: "length (xs[i := v]) = length xs"
  by simp

lemma nth_list_update_iff: "i < length xs \<Longrightarrow> xs[i := v] ! j = (if i = j then v else xs ! j)"
  by (simp add: nth_list_update)

end
