(* ===== verification/Ieee754.thy ===== *)
theory Ieee754
  imports Prelude
begin

text \<open>
  IEEE 754 binary arithmetic as the C and C++ sources use it on their target (round to nearest,
  ties to even; \<open>float\<close> is binary32 and \<open>double\<close> is binary64, each operation evaluated in the
  format of its operands). A value is NaN, an infinity, or a sign with a non-negative rational
  magnitude, so that signed zeros are kept apart. NaN payloads and exception flags are not
  represented. Every definition computes, so that the theorems about the code can be evaluated at
  concrete inputs.
\<close>

section \<open>Formats and rounding\<close>

datatype fmt = B32 | B64

text \<open>Precision in bits, and the exponent of the last place of the smallest and largest values.\<close>

fun prec :: "fmt \<Rightarrow> int" where
  "prec B32 = 24"
| "prec B64 = 53"

fun emin :: "fmt \<Rightarrow> int" where
  "emin B32 = -149"
| "emin B64 = -1074"

fun emax :: "fmt \<Rightarrow> int" where
  "emax B32 = 104"
| "emax B64 = 971"

definition pow2 :: "int \<Rightarrow> rat" where
  "pow2 e = (if 0 \<le> e then 2 ^ nat e else 1 / 2 ^ nat (- e))"

definition max_finite :: "fmt \<Rightarrow> rat" where
  "max_finite f = (pow2 (prec f) - 1) * pow2 (emax f)"

text \<open>
  The binary exponent of a positive rational: from the length of its integer part, or of the
  integer part of its inverse.
\<close>

definition ilog2 :: "rat \<Rightarrow> int" where
  "ilog2 m = (if 1 \<le> m then bitlen \<lfloor>m\<rfloor> - 1 else - bitlen (\<lceil>1 / m\<rceil> - 1))"

definition round_even :: "rat \<Rightarrow> int" where
  "round_even x = (let f = \<lfloor>x\<rfloor>; d = x - of_int f in
     if d < 1 / 2 then f else if d > 1 / 2 then f + 1 else if even f then f else f + 1)"

definition ulp_exp :: "fmt \<Rightarrow> rat \<Rightarrow> int" where
  "ulp_exp f m = max (emin f) (ilog2 m - (prec f - 1))"

definition rnd :: "fmt \<Rightarrow> rat \<Rightarrow> rat" where
  "rnd f m = (if m = 0 then 0
     else of_int (round_even (m / pow2 (ulp_exp f m))) * pow2 (ulp_exp f m))"

section \<open>Values and operations\<close>

datatype fp = NaN | Inf bool | Fin bool rat \<comment> \<open>\<open>True\<close> is the negative sign\<close>

definition sgn_val :: "bool \<Rightarrow> rat \<Rightarrow> rat" where
  "sgn_val s m = (if s then - m else m)"

fun fval :: "fp \<Rightarrow> rat" where
  "fval (Fin s m) = sgn_val s m"
| "fval _ = 0"

fun is_fin :: "fp \<Rightarrow> bool" where
  "is_fin (Fin s m) = True"
| "is_fin _ = False"

fun isnan :: "fp \<Rightarrow> bool" where
  "isnan NaN = True"
| "isnan _ = False"

fun signbit :: "fp \<Rightarrow> bool" where
  "signbit NaN = False"
| "signbit (Inf s) = s"
| "signbit (Fin s m) = s"

text \<open>Rounding a magnitude into a format; past the largest finite value it is an infinity.\<close>

definition pack :: "fmt \<Rightarrow> bool \<Rightarrow> rat \<Rightarrow> fp" where
  "pack f s m = (let r = rnd f m in if r > max_finite f then Inf s else Fin s r)"

text \<open>A decimal literal of the source, or the conversion of an integer.\<close>

definition flit :: "fmt \<Rightarrow> rat \<Rightarrow> fp" where
  "flit f q = pack f (q < 0) \<bar>q\<bar>"

definition fint :: "fmt \<Rightarrow> int \<Rightarrow> fp" where
  "fint f n = flit f (of_int n)"

fun fcvt :: "fmt \<Rightarrow> fp \<Rightarrow> fp" where
  "fcvt f (Fin s m) = pack f s m"
| "fcvt f x = x"

fun fneg :: "fp \<Rightarrow> fp" where
  "fneg NaN = NaN"
| "fneg (Inf s) = Inf (\<not> s)"
| "fneg (Fin s m) = Fin (\<not> s) m"

fun fabs :: "fp \<Rightarrow> fp" where
  "fabs NaN = NaN"
| "fabs (Inf s) = Inf False"
| "fabs (Fin s m) = Fin False m"

fun fmul :: "fmt \<Rightarrow> fp \<Rightarrow> fp \<Rightarrow> fp" where
  "fmul f NaN y = NaN"
| "fmul f x NaN = NaN"
| "fmul f (Inf s) (Inf t) = Inf (s \<noteq> t)"
| "fmul f (Inf s) (Fin t n) = (if n = 0 then NaN else Inf (s \<noteq> t))"
| "fmul f (Fin s m) (Inf t) = (if m = 0 then NaN else Inf (s \<noteq> t))"
| "fmul f (Fin s m) (Fin t n) = pack f (s \<noteq> t) (m * n)"

fun fdiv :: "fmt \<Rightarrow> fp \<Rightarrow> fp \<Rightarrow> fp" where
  "fdiv f NaN y = NaN"
| "fdiv f x NaN = NaN"
| "fdiv f (Inf s) (Inf t) = NaN"
| "fdiv f (Inf s) (Fin t n) = Inf (s \<noteq> t)"
| "fdiv f (Fin s m) (Inf t) = Fin (s \<noteq> t) 0"
| "fdiv f (Fin s m) (Fin t n) =
     (if n = 0 then (if m = 0 then NaN else Inf (s \<noteq> t)) else pack f (s \<noteq> t) (m / n))"

fun fadd :: "fmt \<Rightarrow> fp \<Rightarrow> fp \<Rightarrow> fp" where
  "fadd f NaN y = NaN"
| "fadd f x NaN = NaN"
| "fadd f (Inf s) (Inf t) = (if s = t then Inf s else NaN)"
| "fadd f (Inf s) (Fin t n) = Inf s"
| "fadd f (Fin s m) (Inf t) = Inf t"
| "fadd f (Fin s m) (Fin t n) = (let v = sgn_val s m + sgn_val t n in
     if v = 0 then Fin (s \<and> t) 0 else pack f (v < 0) \<bar>v\<bar>)"

definition fsub :: "fmt \<Rightarrow> fp \<Rightarrow> fp \<Rightarrow> fp" where
  "fsub f x y = fadd f x (fneg y)"

section \<open>Comparisons\<close>

fun flt :: "fp \<Rightarrow> fp \<Rightarrow> bool" where
  "flt NaN y = False"
| "flt x NaN = False"
| "flt (Inf s) (Inf t) = (s \<and> \<not> t)"
| "flt (Inf s) (Fin t n) = s"
| "flt (Fin s m) (Inf t) = (\<not> t)"
| "flt (Fin s m) (Fin t n) = (sgn_val s m < sgn_val t n)"

fun feq :: "fp \<Rightarrow> fp \<Rightarrow> bool" where
  "feq NaN y = False"
| "feq x NaN = False"
| "feq (Inf s) (Inf t) = (s = t)"
| "feq (Inf s) (Fin t n) = False"
| "feq (Fin s m) (Inf t) = False"
| "feq (Fin s m) (Fin t n) = (sgn_val s m = sgn_val t n)"

definition fle :: "fp \<Rightarrow> fp \<Rightarrow> bool" where
  "fle x y = (flt x y \<or> feq x y)"

section \<open>Conversion to integers\<close>

text \<open>
  A conversion truncates towards zero; a NaN, an infinity or a value outside the target type is
  undefined behaviour.
\<close>

fun ftrunc :: "fp \<Rightarrow> int option" where
  "ftrunc (Fin s m) = Some (if s then - \<lfloor>m\<rfloor> else \<lfloor>m\<rfloor>)"
| "ftrunc _ = None"

definition to_int_in :: "int \<Rightarrow> int \<Rightarrow> fp \<Rightarrow> int res" where
  "to_int_in lo hi x = (case ftrunc x of None \<Rightarrow> Inl FloatToIntRange
     | Some n \<Rightarrow> if lo \<le> n \<and> n \<le> hi then Inr n else Inl FloatToIntRange)"

definition to_i8 :: "fp \<Rightarrow> i8 res" where
  "to_i8 x = map_sum id word_of_int (to_int_in (-128) 127 x)"

definition to_i16 :: "fp \<Rightarrow> i16 res" where
  "to_i16 x = map_sum id word_of_int (to_int_in (-32768) 32767 x)"

definition to_u16 :: "fp \<Rightarrow> u16 res" where
  "to_u16 x = map_sum id word_of_int (to_int_in 0 65535 x)"

text \<open>The macro \<open>M_PI\<close> of \<open>math.h\<close>.\<close>

definition M_PI :: fp where
  "M_PI = flit B64 (314159265358979323846 / 100000000000000000000)"

section \<open>Powers of two and binary exponents\<close>


lemma pow2_powi: "pow2 e = 2 powi e"
  unfolding pow2_def power_int_def by (simp add: inverse_eq_divide power_one_over)

lemma pow2_pos [simp]: "0 < pow2 e" and pow2_nonneg [simp]: "0 \<le> pow2 e" and pow2_neq0 [simp]: "pow2 e \<noteq> 0"
  by (simp_all add: pow2_def)

lemma pow2_add: "pow2 (a + b) = pow2 a * pow2 b"
  by (simp add: pow2_powi power_int_add)

lemma pow2_diff: "pow2 (a - b) = pow2 a / pow2 b"
  by (simp add: pow2_powi power_int_diff)

lemma pow2_minus: "pow2 (- a) = 1 / pow2 a"
  by (simp add: pow2_powi power_int_minus_divide)

lemma pow2_mono: "a \<le> b \<Longrightarrow> pow2 a \<le> pow2 b"
  by (simp add: pow2_powi power_int_increasing)

lemma pow2_strict_mono: "a < b \<Longrightarrow> pow2 a < pow2 b"
  by (simp add: pow2_powi power_int_strict_increasing)

lemma pow2_less_iff [simp]: "pow2 a < pow2 b \<longleftrightarrow> a < b"
  using pow2_strict_mono pow2_mono[of b a] by (meson leD leI)

lemma pow2_le_iff [simp]: "pow2 a \<le> pow2 b \<longleftrightarrow> a \<le> b"
  using pow2_less_iff[of b a] by (simp only: not_less[symmetric])

lemma pow2_nat: "pow2 (int n) = 2 ^ n"
  by (simp add: pow2_def)

lemma pow2_0 [simp]: "pow2 0 = 1" and pow2_1 [simp]: "pow2 1 = 2"
  by (simp_all add: pow2_def)

lemma pow2_numeral [simp]: "pow2 (numeral k) = 2 ^ numeral k" "pow2 (- numeral k) = 1 / 2 ^ numeral k"
  by (simp_all add: pow2_def)

lemma ilog2_ge1:
  assumes "1 \<le> m"
  shows "pow2 (ilog2 m) \<le> m \<and> m < pow2 (ilog2 m + 1)"
proof -
  let ?n = "\<lfloor>m\<rfloor>"
  have n: "0 < ?n" using assms by linarith
  have b: "2 ^ nat (bitlen ?n - 1) \<le> ?n \<and> ?n < 2 ^ nat (bitlen ?n)"
    using bitlen_bounds[OF n] .
  have k: "ilog2 m = bitlen ?n - 1" "0 < bitlen ?n" using assms n by (auto simp: ilog2_def bitlen_nonneg bitlen_eq_zero_iff order_less_le)
  have "pow2 (ilog2 m) = of_int (2 ^ nat (bitlen ?n - 1))" using k by (simp add: pow2_def)
  also have "\<dots> \<le> of_int ?n" using b by (simp only: of_int_le_iff)
  also have "\<dots> \<le> m" by simp
  finally have 1: "pow2 (ilog2 m) \<le> m" .
  have "m < of_int (?n + 1)" by linarith
  also have "\<dots> \<le> of_int (2 ^ nat (bitlen ?n))" using b by (simp only: of_int_le_iff) simp
  also have "\<dots> = pow2 (ilog2 m + 1)" using k by (simp add: pow2_def)
  finally show ?thesis using 1 by simp
qed

lemma ilog2_lt1:
  assumes "0 < m" "m < 1"
  shows "pow2 (ilog2 m) \<le> m \<and> m < pow2 (ilog2 m + 1)"
proof -
  let ?c = "\<lceil>1 / m\<rceil> - 1"
  have "1 < 1 / m" using assms by (simp add: field_simps)
  then have c: "0 < ?c" by linarith
  have b: "2 ^ nat (bitlen ?c - 1) \<le> ?c \<and> ?c < 2 ^ nat (bitlen ?c)"
    using bitlen_bounds[OF c] .
  have k: "ilog2 m = - bitlen ?c" "0 < bitlen ?c"
    using assms c by (auto simp: ilog2_def bitlen_nonneg bitlen_eq_zero_iff order_less_le)
  have "1 / m \<le> of_int (?c + 1)" by linarith
  also have "\<dots> \<le> of_int (2 ^ nat (bitlen ?c))" using b by (simp only: of_int_le_iff) simp
  also have "\<dots> = pow2 (bitlen ?c)" using k by (simp add: pow2_def)
  finally have 1: "pow2 (ilog2 m) \<le> m"
    using assms by (simp add: k pow2_minus field_simps)
  have "pow2 (bitlen ?c - 1) = of_int (2 ^ nat (bitlen ?c - 1))" using k by (simp add: pow2_def)
  also have "\<dots> \<le> of_int ?c" using b by (simp only: of_int_le_iff)
  also have "\<dots> < 1 / m" by linarith
  finally have "pow2 (bitlen ?c - 1) < 1 / m" .
  then have "m < 1 / pow2 (bitlen ?c - 1)" using assms by (simp add: field_simps)
  also have "\<dots> = pow2 (ilog2 m + 1)" by (simp add: k pow2_minus[symmetric])
  finally show ?thesis using 1 by simp
qed

lemma ilog2_bounds: "0 < m \<Longrightarrow> pow2 (ilog2 m) \<le> m \<and> m < pow2 (ilog2 m + 1)"
  using ilog2_ge1 ilog2_lt1 by (cases "1 \<le> m") auto

lemma ilog2_unique:
  assumes "pow2 k \<le> m" "m < pow2 (k + 1)"
  shows "ilog2 m = k"
proof -
  have "0 < m" using assms(1) pow2_pos[of k] by linarith
  then have "pow2 (ilog2 m) < pow2 (k + 1)" "pow2 k < pow2 (ilog2 m + 1)"
    using assms ilog2_bounds[of m] by linarith+
  then show ?thesis by simp
qed

lemma ilog2_mono: "0 < m \<Longrightarrow> m \<le> n \<Longrightarrow> ilog2 m \<le> ilog2 n"
proof -
  assume a: "0 < m" "m \<le> n"
  then have "pow2 (ilog2 m) < pow2 (ilog2 n + 1)"
    using ilog2_bounds[of m] ilog2_bounds[of n] by linarith
  then show ?thesis by simp
qed

section \<open>Rounding to integers\<close>

lemma round_even_near: "\<bar>of_int (round_even x) - x\<bar> \<le> 1 / 2"
proof -
  have "of_int \<lfloor>x\<rfloor> \<le> x" "x < of_int \<lfloor>x\<rfloor> + 1" by linarith+
  then show ?thesis unfolding round_even_def Let_def by (auto simp: abs_le_iff split: if_splits)
qed

lemma round_even_unique:
  assumes "\<bar>of_int n - x\<bar> < 1 / 2"
  shows "round_even x = n"
proof -
  have "\<bar>of_int (round_even x) - (of_int n :: rat)\<bar> < 1"
    using assms round_even_near[of x] by linarith
  then have "of_int \<bar>round_even x - n\<bar> < (of_int 1 :: rat)" by simp
  then show ?thesis by (simp only: of_int_less_iff)
qed

lemma round_even_int [simp]: "round_even (of_int n) = n"
  by (rule round_even_unique) simp

lemma round_even_mono:
  assumes "x \<le> y" shows "round_even x \<le> round_even y"
proof (rule ccontr)
  assume "\<not> ?thesis"
  then have lt: "round_even y + 1 \<le> round_even x" by simp
  then have "of_int (round_even y) + 1 \<le> (of_int (round_even x) :: rat)"
    by (metis of_int_1 of_int_add of_int_le_iff)
  then have "x = y" using round_even_near[of x] round_even_near[of y] assms by linarith
  then show False using lt by simp
qed

section \<open>Rounding into a format\<close>


lemma rnd_0 [simp]: "rnd f 0 = 0"
  by (simp add: rnd_def)

lemma rnd_nz: "0 < m \<Longrightarrow> rnd f m = of_int (round_even (m / pow2 (ulp_exp f m))) * pow2 (ulp_exp f m)"
  by (simp add: rnd_def)

lemma rnd_half_ulp:
  assumes "0 < m"
  shows "\<bar>rnd f m - m\<bar> \<le> pow2 (ulp_exp f m) / 2"
proof -
  let ?u = "pow2 (ulp_exp f m)"
  have "rnd f m - m = (of_int (round_even (m / ?u)) - m / ?u) * ?u"
    using assms by (simp add: rnd_nz left_diff_distrib)
  then have "\<bar>rnd f m - m\<bar> = \<bar>of_int (round_even (m / ?u)) - m / ?u\<bar> * ?u"
    by (simp add: abs_mult)
  also have "\<dots> \<le> 1 / 2 * ?u"
    by (rule mult_right_mono[OF round_even_near]) simp
  finally show ?thesis by simp
qed

lemma rnd_error:
  assumes "0 < m"
  shows "\<bar>rnd f m - m\<bar> \<le> max (pow2 (emin f) / 2) (m / pow2 (prec f))"
proof (cases "ilog2 m - (prec f - 1) \<le> emin f")
  case True
  then have "ulp_exp f m = emin f" by (simp add: ulp_exp_def)
  then show ?thesis using rnd_half_ulp[OF assms, of f] by (simp add: le_max_iff_disj)
next
  case False
  then have "ulp_exp f m = ilog2 m + 1 - prec f" by (simp add: ulp_exp_def)
  then have "pow2 (ulp_exp f m) / 2 = pow2 (ilog2 m) / pow2 (prec f)"
    by (simp add: pow2_diff pow2_add)
  also have "\<dots> \<le> m / pow2 (prec f)"
    using ilog2_bounds[OF assms] by (simp add: divide_right_mono)
  finally have "\<bar>rnd f m - m\<bar> \<le> m / pow2 (prec f)"
    using rnd_half_ulp[OF assms, of f] by linarith
  then show ?thesis by (simp add: le_max_iff_disj)
qed

lemma round_even_nonneg: "0 \<le> x \<Longrightarrow> 0 \<le> round_even x"
  using round_even_mono[of 0 x] round_even_int[of 0] by simp

lemma rnd_nonneg [simp]: "0 \<le> m \<Longrightarrow> 0 \<le> rnd f m"
  by (cases "m = 0") (simp_all add: rnd_def round_even_nonneg)

lemma ulp_exp_ge: "emin f \<le> ulp_exp f m"
  by (simp add: ulp_exp_def)

lemma below_pow2_prec:
  assumes "0 < m"
  shows "m < pow2 (ulp_exp f m + prec f)"
proof -
  have "m < pow2 (ilog2 m + 1)" using ilog2_bounds[OF assms] by simp
  also have "\<dots> \<le> pow2 (ulp_exp f m + prec f)"
    by (simp add: ulp_exp_def)
  finally show ?thesis .
qed

lemma prec_pos [simp]: "0 < prec f" "int (nat (prec f)) = prec f" "0 \<le> prec f"
  by (cases f; simp)+

lemma significand_le:
  assumes "0 < m"
  shows "round_even (m / pow2 (ulp_exp f m)) \<le> 2 ^ nat (prec f)"
proof -
  have "m / pow2 (ulp_exp f m) \<le> pow2 (prec f)"
    using below_pow2_prec[OF assms, of f] by (simp add: pow2_add field_simps)
  then have "m / pow2 (ulp_exp f m) \<le> of_int (2 ^ nat (prec f))"
    by (simp add: pow2_def)
  then show ?thesis by (metis round_even_mono round_even_int)
qed

lemma rnd_exact:
  assumes "0 \<le> k" "of_int k < pow2 (e' - e + prec f)" "emin f \<le> e'" "e' \<le> e"
  shows "rnd f (of_int k * pow2 e) = of_int k * pow2 e"
proof (cases "k = 0")
  case False
  let ?m = "of_int k * pow2 e"
  have m: "0 < ?m" using assms False by simp
  have "?m < pow2 (e' + prec f)"
  proof -
    have "?m < pow2 (e' - e + prec f) * pow2 e" using assms by simp
    then show ?thesis by (simp add: pow2_add[symmetric] algebra_simps)
  qed
  then have "ilog2 ?m < e' + prec f"
    using ilog2_bounds[OF m] by (meson pow2_less_iff le_less_trans)
  then have u: "ulp_exp f ?m \<le> e'" using assms(3) by (simp add: ulp_exp_def)
  define d where "d = nat (e - ulp_exp f ?m)"
  have "pow2 e / pow2 (ulp_exp f ?m) = pow2 (int d)"
    using u assms(4) by (simp add: d_def pow2_diff)
  then have "?m / pow2 (ulp_exp f ?m) = of_int (k * 2 ^ d)"
    by (simp add: pow2_nat times_divide_eq_right[symmetric] del: times_divide_eq_right)
  then have "round_even (?m / pow2 (ulp_exp f ?m)) = k * 2 ^ d"
    by (simp only: round_even_int)
  moreover have "pow2 (int d) * pow2 (ulp_exp f ?m) = pow2 e"
    using u assms(4) by (simp add: d_def pow2_add[symmetric])
  ultimately show ?thesis
    using m by (simp add: rnd_nz pow2_nat[symmetric] mult.assoc)
qed simp

lemma rnd_int:
  assumes "0 \<le> k" "of_int k < pow2 (prec f)"
  shows "rnd f (of_int k) = of_int k"
  using rnd_exact[of k 0 0 f] assms by (cases f) auto

lemma rnd_mono:
  assumes "0 \<le> m" "m \<le> n"
  shows "rnd f m \<le> rnd f n"
proof (cases "m = 0")
  case False
  then have m: "0 < m" and n: "0 < n" using assms by auto
  have ue: "ulp_exp f m \<le> ulp_exp f n"
    using ilog2_mono[OF m assms(2)] by (auto simp: ulp_exp_def)
  show ?thesis
  proof (cases "ulp_exp f m = ulp_exp f n")
    case True
    then show ?thesis using m n assms
      by (simp add: rnd_nz round_even_mono divide_right_mono)
  next
    case False
    with ue have lt: "ulp_exp f m + 1 \<le> ulp_exp f n" by simp
    let ?p = "nat (prec f)"
    have p: "int ?p = prec f" "int (?p - 1) = prec f - 1" by (cases f; simp)+
    have en: "ulp_exp f n = ilog2 n - (prec f - 1)"
      using lt ulp_exp_ge[of f m] by (auto simp: ulp_exp_def)
    have "rnd f m \<le> of_int (2 ^ ?p) * pow2 (ulp_exp f m)"
      unfolding rnd_nz[OF m] using significand_le[OF m, of f]
      by (intro mult_right_mono) (simp_all only: of_int_le_iff pow2_nonneg)
    also have "\<dots> = pow2 (ulp_exp f m + prec f)"
      by (simp add: pow2_add pow2_nat[symmetric] p mult.commute)
    also have "\<dots> \<le> pow2 (ulp_exp f n + (prec f - 1))" using lt by simp
    also have "\<dots> = of_int (2 ^ (?p - 1)) * pow2 (ulp_exp f n)"
      by (simp only: pow2_add of_int_power of_int_numeral pow2_nat[symmetric] p mult.commute)
    also have "\<dots> \<le> rnd f n"
    proof -
      have "of_int (2 ^ (?p - 1)) \<le> n / pow2 (ulp_exp f n)"
        using ilog2_bounds[OF n]
        by (simp only: of_int_power of_int_numeral pow2_nat[symmetric] p en)
          (simp add: pow2_diff field_simps pow2_add)
      then have "2 ^ (?p - 1) \<le> round_even (n / pow2 (ulp_exp f n))"
        by (metis round_even_mono round_even_int)
      then show ?thesis
        unfolding rnd_nz[OF n] by (intro mult_right_mono) (simp_all only: of_int_le_iff pow2_nonneg)
    qed
    finally show ?thesis .
  qed
qed (use assms in simp)

lemma rnd_eval:
  assumes "pow2 (e + prec f - 1) \<le> m" "m < pow2 (e + prec f)" "emin f \<le> e"
    and "\<bar>of_int n - m / pow2 e\<bar> < 1 / 2"
  shows "rnd f m = of_int n * pow2 e"
proof -
  have "ilog2 m = e + prec f - 1" by (rule ilog2_unique) (use assms in simp_all)
  then have u: "ulp_exp f m = e" using assms(3) by (simp add: ulp_exp_def)
  have "0 < m" using assms(1) pow2_pos[of "e + prec f - 1"] by linarith
  then show ?thesis using assms(4) by (simp add: rnd_nz u round_even_unique)
qed

lemma rnd_idem: 
  assumes "0 \<le> m" shows "rnd f (rnd f m) = rnd f m"
proof (cases "m = 0")
  case False
  then have m: "0 < m" using assms by simp
  let ?k = "round_even (m / pow2 (ulp_exp f m))" and ?e = "ulp_exp f m"
  let ?p = "nat (prec f)"
  have p: "int ?p = prec f" by (cases f; simp)
  have k: "?k \<le> 2 ^ ?p" by (rule significand_le[OF m])
  have k0: "0 \<le> ?k" using m by (simp add: round_even_nonneg)
  show ?thesis
  proof (cases "?k = 2 ^ ?p")
    case True
    then have r: "rnd f m = of_int 1 * pow2 (?e + prec f)"
      by (simp add: rnd_nz[OF m] pow2_add pow2_nat[symmetric] p mult.commute)
    show ?thesis unfolding r by (rule rnd_exact[where e' = "?e + prec f"])
        (use ulp_exp_ge[of f m] in \<open>cases f; simp\<close>)+
  next
    case False
    with k have "?k < 2 ^ ?p" by simp
    then have "of_int ?k < pow2 (prec f)"
      by (metis of_int_less_iff of_int_numeral of_int_power p pow2_nat)
    then show ?thesis unfolding rnd_nz[OF m]
      by (intro rnd_exact[where e' = ?e]) (use ulp_exp_ge[of f m] k0 in simp_all)
  qed
qed simp

section \<open>Values of a format\<close>


text \<open>The values of a format: what every operation returns and every variable holds.\<close>

fun fp_wf :: "fmt \<Rightarrow> fp \<Rightarrow> bool" where
  "fp_wf f (Fin s m) = (0 \<le> m \<and> rnd f m = m \<and> m \<le> max_finite f)"
| "fp_wf f _ = True"

lemma fp_wf_pack: "0 \<le> m \<Longrightarrow> fp_wf f (pack f s m)"
  by (simp add: pack_def Let_def rnd_idem)

lemma fp_wf_flit: "fp_wf f (flit f q)"
  by (simp add: flit_def fp_wf_pack)

lemma fp_wf_fint: "fp_wf f (fint f n)"
  by (simp add: fint_def fp_wf_flit)

lemma max_finite_ge: "pow2 100 \<le> max_finite f"
  by (cases f) (simp_all add: max_finite_def pow2_def)

lemma pack_small:
  assumes "0 \<le> m" "m \<le> pow2 100"
  shows "pack f s m = Fin s (rnd f m)"
proof -
  have "rnd f (pow2 100) = pow2 100"
    using rnd_exact[of 1 100 100 f] by (cases f) simp_all
  then have "rnd f m \<le> pow2 100" using rnd_mono[OF assms, of f] by simp
  also have "\<dots> \<le> max_finite f" by (rule max_finite_ge)
  finally show ?thesis by (simp add: pack_def Let_def)
qed

lemma pack_eval:
  assumes "pow2 (e + prec f - 1) \<le> m" "m < pow2 (e + prec f)" "emin f \<le> e" "m \<le> pow2 100"
    and "\<bar>of_int n - m / pow2 e\<bar> < 1 / 2"
  shows "pack f s m = Fin s (of_int n * pow2 e)"
proof -
  have "0 \<le> m" using assms(1) pow2_nonneg[of "e + prec f - 1"] by linarith
  then show ?thesis using rnd_eval[OF assms(1,2,3,5)] pack_small[OF _ assms(4)] by simp
qed

lemma fval_pack_error:
  assumes "0 \<le> m" "m \<le> b" "b \<le> pow2 100" "pow2 (emin f) / 2 \<le> d" "b / pow2 (prec f) \<le> d"
  shows "is_fin (pack f s m)" "\<bar>fval (pack f s m) - sgn_val s m\<bar> \<le> d"
proof -
  have p: "pack f s m = Fin s (rnd f m)" using assms by (intro pack_small) auto
  show "is_fin (pack f s m)" by (simp add: p)
  have d0: "0 \<le> d" using assms(4) pow2_nonneg[of "emin f"] by linarith
  have "\<bar>rnd f m - m\<bar> \<le> d"
  proof (cases "m = 0")
    case False
    have "m / pow2 (prec f) \<le> b / pow2 (prec f)" using assms by (simp add: divide_right_mono)
    then show ?thesis using rnd_error[of m f] False assms by linarith
  qed (use d0 in simp)
  then show "\<bar>fval (pack f s m) - sgn_val s m\<bar> \<le> d"
    by (auto simp: p sgn_val_def abs_if split: if_splits)
qed

lemma fint_exact:
  assumes "\<bar>n\<bar> \<le> 16777215"
  shows "fint f n = Fin (n < 0) (of_int \<bar>n\<bar>)"
proof -
  have "of_int \<bar>n\<bar> < pow2 (prec f)" 
  proof -
    have "of_int \<bar>n\<bar> \<le> (of_int 16777215 :: rat)" using assms by (simp only: of_int_le_iff)
    then show ?thesis by (cases f) simp_all
  qed
  then have "rnd f (of_int \<bar>n\<bar>) = of_int \<bar>n\<bar>" by (intro rnd_int) auto
  moreover have "(of_int \<bar>n\<bar> :: rat) \<le> pow2 100"
  proof -
    have "of_int \<bar>n\<bar> \<le> (of_int 16777215 :: rat)" using assms by (simp only: of_int_le_iff)
    then show ?thesis by (simp add: pow2_def)
  qed
  ultimately show ?thesis by (simp add: fint_def flit_def pack_small)
qed


lemma fint_value:
  assumes "\<bar>n\<bar> \<le> 16777215"
  shows "is_fin (fint f n)" "fval (fint f n) = of_int n" "fp_wf f (fint f n)"
proof -
  show "is_fin (fint f n)" "fval (fint f n) = of_int n"
    using fint_exact[OF assms, of f] by (simp_all add: sgn_val_def)
  show "fp_wf f (fint f n)" by (rule fp_wf_fint)
qed

lemma flit_numeral: "flit f (numeral k) = fint f (numeral k)"
  by (simp add: fint_def)

lemma fp_wf_fcvt: "fp_wf g x \<Longrightarrow> fp_wf f (fcvt f x)"
  by (cases x) (simp_all add: fp_wf_pack)

lemma fp_wf_fneg [simp]: "fp_wf f (fneg x) = fp_wf f x"
  by (cases x) simp_all

lemma fp_wf_fabs [simp]: "fp_wf f x \<Longrightarrow> fp_wf f (fabs x)"
  by (cases x) simp_all

lemma fp_wf_fmul: "fp_wf g x \<Longrightarrow> fp_wf h y \<Longrightarrow> fp_wf f (fmul f x y)"
  by (cases x; cases y) (simp_all add: fp_wf_pack)

lemma max_finite_nonneg [simp]: "0 \<le> max_finite f"
  using max_finite_ge[of f] pow2_nonneg[of 100] by linarith

lemma fp_wf_fdiv: "fp_wf g x \<Longrightarrow> fp_wf h y \<Longrightarrow> fp_wf f (fdiv f x y)"
  by (cases x; cases y) (simp_all add: fp_wf_pack)

lemma fp_wf_fadd: "fp_wf g x \<Longrightarrow> fp_wf h y \<Longrightarrow> fp_wf f (fadd f x y)"
  by (cases x; cases y) (simp_all add: fp_wf_pack Let_def)

lemma fp_wf_fsub: "fp_wf f x \<Longrightarrow> fp_wf f y \<Longrightarrow> fp_wf f (fsub f x y)"
  by (simp add: fsub_def fp_wf_fadd)

lemmas fp_wf_intros [intro] =
  fp_wf_pack fp_wf_flit fp_wf_fint fp_wf_fcvt fp_wf_fmul fp_wf_fdiv fp_wf_fadd fp_wf_fsub

lemma abs_sgn_val [simp]: "0 \<le> m \<Longrightarrow> \<bar>sgn_val s m\<bar> = m"
  by (simp add: sgn_val_def)

section \<open>Error of a single operation\<close>

text \<open>
  The absolute error of an operation whose exact result is at most \<open>b\<close> in magnitude; \<open>d\<close> is any
  bound that covers half a last place there.
\<close>

lemma fcvt_error:
  assumes "is_fin x" "fp_wf g x" "\<bar>fval x\<bar> \<le> b" "b \<le> pow2 100"
    and "pow2 (emin f) / 2 \<le> d" "b / pow2 (prec f) \<le> d"
  shows "is_fin (fcvt f x)" "\<bar>fval (fcvt f x) - fval x\<bar> \<le> d"
  using assms fval_pack_error[of _ b f d] by (cases x; auto)+

lemma fmul_error:
  assumes "is_fin x" "fp_wf g x" "is_fin y" "fp_wf h y" "\<bar>fval x * fval y\<bar> \<le> b" "b \<le> pow2 100"
    and "pow2 (emin f) / 2 \<le> d" "b / pow2 (prec f) \<le> d"
  shows "is_fin (fmul f x y)" "\<bar>fval (fmul f x y) - fval x * fval y\<bar> \<le> d"
proof -
  obtain s m t n where xy: "x = Fin s m" "y = Fin t n"
    using assms(1,3) by (cases x; cases y) auto
  have v: "fval x * fval y = sgn_val (s \<noteq> t) (m * n)" by (simp add: xy sgn_val_def)
  have b: "0 \<le> m * n" "m * n \<le> b" using assms(2,4,5) by (auto simp: xy abs_mult)
  show "is_fin (fmul f x y)" "\<bar>fval (fmul f x y) - fval x * fval y\<bar> \<le> d"
    using fval_pack_error[OF b assms(6-8), of "s \<noteq> t"] by (simp_all only: v) (simp_all add: xy)
qed

lemma fdiv_error:
  assumes "is_fin x" "fp_wf g x" "is_fin y" "fp_wf h y" "fval y \<noteq> 0" "\<bar>fval x / fval y\<bar> \<le> b" "b \<le> pow2 100"
    and "pow2 (emin f) / 2 \<le> d" "b / pow2 (prec f) \<le> d"
  shows "is_fin (fdiv f x y)" "\<bar>fval (fdiv f x y) - fval x / fval y\<bar> \<le> d"
proof -
  obtain s m t n where xy: "x = Fin s m" "y = Fin t n"
    using assms(1,3) by (cases x; cases y) auto
  have n: "n \<noteq> 0" using assms(5) by (auto simp: xy sgn_val_def split: if_splits)
  have v: "fval x / fval y = sgn_val (s \<noteq> t) (m / n)" by (simp add: xy sgn_val_def)
  have b: "0 \<le> m / n" "m / n \<le> b" using assms(2,4,6) by (auto simp: xy)
  show "is_fin (fdiv f x y)" "\<bar>fval (fdiv f x y) - fval x / fval y\<bar> \<le> d"
    using fval_pack_error[OF b assms(7-9), of "s \<noteq> t"] n by (simp_all only: v) (simp_all add: xy)
qed

section \<open>Truncation\<close>

lemma ftrunc_near:
  assumes "is_fin x" "fp_wf f x"
  obtains n where "ftrunc x = Some n" "\<bar>of_int n - fval x\<bar> < 1" "\<bar>of_int n\<bar> \<le> \<bar>fval x\<bar>"
proof (cases x)
  case (Fin s m)
  let ?n = "if s then - \<lfloor>m\<rfloor> else \<lfloor>m\<rfloor>"
  have "0 \<le> m" using assms Fin by simp
  then have "0 \<le> \<lfloor>m\<rfloor>" "of_int \<lfloor>m\<rfloor> \<le> m" "m < of_int \<lfloor>m\<rfloor> + 1" by linarith+
  then show ?thesis using that[of ?n] Fin by (auto simp: sgn_val_def)
qed (use assms in simp_all)

lemma to_int_in_ok:
  assumes "ftrunc x = Some n" "lo \<le> n" "n \<le> hi"
  shows "to_int_in lo hi x = Inr n"
  using assms by (simp add: to_int_in_def)

lemma to_int_in_nonfin: "\<not> is_fin x \<Longrightarrow> to_int_in lo hi x = Inl FloatToIntRange"
  by (cases x) (simp_all add: to_int_in_def)

lemma to_int_in_Inr [res_iff]:
  "to_int_in lo hi x = Inr n \<longleftrightarrow> ftrunc x = Some n \<and> lo \<le> n \<and> n \<le> hi"
  by (auto simp: to_int_in_def split: option.splits if_splits)

lemma to_i16_ok:
  assumes "is_fin x" "fp_wf f x" "\<bar>fval x\<bar> < 32768"
  obtains w where "to_i16 x = Inr w" "\<bar>of_int (sint w) - fval x\<bar> < 1" "ftrunc x = Some (sint w)"
proof -
  obtain n where n: "ftrunc x = Some n" "\<bar>of_int n - fval x\<bar> < 1" "\<bar>of_int n\<bar> \<le> \<bar>fval x\<bar>"
    using ftrunc_near[OF assms(1,2)] .
  have "\<bar>of_int n\<bar> < (32768 :: rat)" using n(3) assms(3) by linarith
  then have "of_int \<bar>n\<bar> < (of_int 32768 :: rat)" by simp
  then have nb: "\<bar>n\<bar> < 32768" by (simp only: of_int_less_iff)
  then have "sint (word_of_int n :: 16 word) = n"
    by (auto simp: signed_of_int signed_take_bit_int_eq_self_iff)
  then show ?thesis using that[of "word_of_int n"] n nb
    by (simp add: to_i16_def to_int_in_ok)
qed

lemma M_PI_value: "M_PI = Fin False (7074237752028440 / 2251799813685248)"
  unfolding M_PI_def flit_def by (subst pack_eval[where e = "-51" and n = 7074237752028440]) simp_all

section \<open>Signs, comparisons and sums\<close>

lemma fval_fneg [simp]: "fval (fneg x) = - fval x"
  by (cases x) (simp_all add: sgn_val_def)

lemma is_fin_fneg [simp]: "is_fin (fneg x) = is_fin x"
  by (cases x) simp_all

lemma flt_fin: "is_fin x \<Longrightarrow> is_fin y \<Longrightarrow> flt x y \<longleftrightarrow> fval x < fval y"
  by (cases x; cases y) simp_all

lemma fval_fabs: "fp_wf f v \<Longrightarrow> fval (fabs v) = \<bar>fval v\<bar>"
  by (cases v) (auto simp: sgn_val_def)

lemma is_fin_fabs [simp]: "is_fin (fabs v) = is_fin v"
  by (cases v) simp_all

lemma fin_not_nan: "is_fin x \<Longrightarrow> \<not> isnan x"
  by (cases x) simp_all

lemma fadd_error:
  assumes "is_fin x" "is_fin y" "\<bar>fval x + fval y\<bar> \<le> b" "b \<le> pow2 100" "pow2 (emin f) / 2 \<le> d" "b / pow2 (prec f) \<le> d"
  shows "is_fin (fadd f x y)" "\<bar>fval (fadd f x y) - (fval x + fval y)\<bar> \<le> d"
proof -
  obtain s m t n where xy: "x = Fin s m" "y = Fin t n" using assms(1,2) by (cases x; cases y) auto
  let ?v = "sgn_val s m + sgn_val t n"
  have d0: "0 \<le> d" using assms(5) pow2_nonneg[of "emin f"] by linarith
  have e: "is_fin (pack f (?v < 0) \<bar>?v\<bar>)" "\<bar>fval (pack f (?v < 0) \<bar>?v\<bar>) - sgn_val (?v < 0) \<bar>?v\<bar>\<bar> \<le> d"
    using fval_pack_error[OF _ _ assms(4-6), of "\<bar>?v\<bar>"] assms(3) by (simp_all add: xy)
  have "sgn_val (?v < 0) \<bar>?v\<bar> = ?v" by (simp add: sgn_val_def)
  then show "is_fin (fadd f x y)" "\<bar>fval (fadd f x y) - (fval x + fval y)\<bar> \<le> d"
    using e d0 by (simp_all add: xy Let_def sgn_val_def[of _ 0])
qed

lemma pack_nonneg: "0 \<le> m \<Longrightarrow> 0 \<le> fval (pack f False m)"
  by (simp add: pack_def Let_def sgn_val_def rnd_nonneg)

lemma fmul_self_nonneg: "0 \<le> fval (fmul f x x)"
  by (cases x) (simp_all add: pack_nonneg)

lemma fadd_nonneg: "0 \<le> fval x \<Longrightarrow> 0 \<le> fval y \<Longrightarrow> 0 \<le> fval (fadd f x y)"
  by (cases x; cases y) (auto simp: Let_def sgn_val_def[of _ 0] not_less pack_nonneg)

section \<open>Rounding of signed values\<close>

text \<open>
  The value of a finite result is the exact result rounded. Rounding is monotone and keeps the values of
  the format, so that bounds by such values carry over from the exact result.
\<close>

definition srnd :: "fmt \<Rightarrow> rat \<Rightarrow> rat" where
  "srnd f v = sgn_val (v < 0) (rnd f \<bar>v\<bar>)"

lemma srnd_0 [simp]: "srnd f 0 = 0"
  by (simp add: srnd_def sgn_val_def)

lemma srnd_minus: "srnd f (- v) = - srnd f v"
  by (cases "v = 0") (auto simp: srnd_def sgn_val_def)

lemma srnd_mono: "v \<le> w \<Longrightarrow> srnd f v \<le> srnd f w"
proof -
  assume vw: "v \<le> w"
  consider "0 \<le> v" | "v < 0" "0 \<le> w" | "w < 0" by linarith
  then show ?thesis
  proof cases
    case 2
    then have "srnd f v \<le> 0" "0 \<le> srnd f w" by (simp_all add: srnd_def sgn_val_def)
    then show ?thesis by linarith
  next
    case 3
    then have "rnd f (- w) \<le> rnd f (- v)" using vw by (intro rnd_mono) auto
    then show ?thesis using 3 vw by (simp add: srnd_def sgn_val_def)
  qed (use vw in \<open>simp add: srnd_def sgn_val_def rnd_mono\<close>)
qed

lemma srnd_wf: "fp_wf f x \<Longrightarrow> srnd f (fval x) = fval x"
  by (cases x) (auto simp: srnd_def sgn_val_def)

lemma fval_pack: "0 \<le> q \<Longrightarrow> q \<le> pow2 100 \<Longrightarrow> is_fin (pack f s q) \<and> fval (pack f s q) = srnd f (sgn_val s q)"
  by (cases "q = 0") (auto simp: pack_small srnd_def sgn_val_def)

lemma fval_fadd:
  assumes "is_fin x" "is_fin y" "\<bar>fval x + fval y\<bar> \<le> pow2 100"
  shows "is_fin (fadd f x y)" "fval (fadd f x y) = srnd f (fval x + fval y)"
proof -
  obtain s m t n where xy: "x = Fin s m" "y = Fin t n" using assms(1,2) by (cases x; cases y) auto
  let ?v = "sgn_val s m + sgn_val t n"
  have p: "is_fin (pack f (?v < 0) \<bar>?v\<bar>)" "fval (pack f (?v < 0) \<bar>?v\<bar>) = srnd f (sgn_val (?v < 0) \<bar>?v\<bar>)"
    using fval_pack[of "\<bar>?v\<bar>" f "?v < 0"] assms(3) by (simp_all add: xy)
  have "sgn_val (?v < 0) \<bar>?v\<bar> = ?v" by (simp add: sgn_val_def)
  then show "is_fin (fadd f x y)" "fval (fadd f x y) = srnd f (fval x + fval y)"
    using p by (simp_all add: xy Let_def sgn_val_def[of _ 0])
qed

lemma fval_fsub:
  assumes "is_fin x" "is_fin y" "\<bar>fval x - fval y\<bar> \<le> pow2 100"
  shows "is_fin (fsub f x y)" "fval (fsub f x y) = srnd f (fval x - fval y)"
  using fval_fadd[of x "fneg y" f] assms by (simp_all add: fsub_def)

lemma fval_fmul:
  assumes "is_fin x" "fp_wf g x" "is_fin y" "fp_wf h y" "\<bar>fval x * fval y\<bar> \<le> pow2 100"
  shows "is_fin (fmul f x y)" "fval (fmul f x y) = srnd f (fval x * fval y)"
proof -
  obtain s m t n where xy: "x = Fin s m" "y = Fin t n" using assms(1,3) by (cases x; cases y) auto
  have v: "fval x * fval y = sgn_val (s \<noteq> t) (m * n)" by (simp add: xy sgn_val_def)
  have b: "0 \<le> m * n" "m * n \<le> pow2 100" using assms(2,4,5) by (auto simp: xy abs_mult)
  show "is_fin (fmul f x y)" "fval (fmul f x y) = srnd f (fval x * fval y)"
    using fval_pack[OF b, of f "s \<noteq> t"] by (simp_all only: v) (simp_all add: xy)
qed

lemma fval_fdiv:
  assumes "is_fin x" "fp_wf g x" "is_fin y" "fp_wf h y" "fval y \<noteq> 0" "\<bar>fval x / fval y\<bar> \<le> pow2 100"
  shows "is_fin (fdiv f x y)" "fval (fdiv f x y) = srnd f (fval x / fval y)"
proof -
  obtain s m t n where xy: "x = Fin s m" "y = Fin t n" using assms(1,3) by (cases x; cases y) auto
  have n: "n \<noteq> 0" using assms(5) by (auto simp: xy sgn_val_def split: if_splits)
  have v: "fval x / fval y = sgn_val (s \<noteq> t) (m / n)" by (simp add: xy sgn_val_def)
  have b: "0 \<le> m / n" "m / n \<le> pow2 100" using assms(2,4,6) by (auto simp: xy)
  show "is_fin (fdiv f x y)" "fval (fdiv f x y) = srnd f (fval x / fval y)"
    using fval_pack[OF b, of f "s \<noteq> t"] n by (simp_all only: v) (simp_all add: xy)
qed

lemma srnd_error:
  assumes "\<bar>v\<bar> \<le> b" "pow2 (emin f) / 2 \<le> d" "b / pow2 (prec f) \<le> d"
  shows "\<bar>srnd f v - v\<bar> \<le> d"
proof (cases "v = 0")
  case True
  have "0 \<le> d" using assms(2) pow2_nonneg[of "emin f"] by linarith
  then show ?thesis using True by simp
next
  case False
  have "\<bar>v\<bar> / pow2 (prec f) \<le> b / pow2 (prec f)" using assms(1) by (simp add: divide_right_mono)
  then have "\<bar>rnd f \<bar>v\<bar> - \<bar>v\<bar>\<bar> \<le> d" using rnd_error[of "\<bar>v\<bar>" f] False assms by (simp add: max_def split: if_splits)
  then show ?thesis by (auto simp: srnd_def sgn_val_def abs_if split: if_splits)
qed

end
