(* ===== verification/Agx_Message.thy ===== *)
theory Agx_Message
  imports Ieee754
begin

text \<open>
  The data of the SDK: the enumerations of \<open>agilex_types.h\<close>, the message structs and the tagged
  union \<open>AgxMessage\<close> of \<open>agilex_message.h\<close>, and the \<open>can_frame\<close> of \<open>parser_base.hpp\<close>. A C
  enumeration variable can hold any value of its underlying type (the decoders store raw bytes in
  them), so an enumeration that is filled from the wire is a 32-bit word with named constants; the
  message tag, which only ever holds its enumerators, is a datatype. Fields carry a suffix naming
  their struct, since several structs use the same field names.
\<close>

section \<open>Enumerations\<close>

type_synonym AgxLightMode = u32
type_synonym AgxVehicleState = u32
type_synonym AgxControlMode = u32
type_synonym AgxBrakeMode = u32
type_synonym AgxRcSwitchState = u32
type_synonym SdkTimePoint = int

definition CONST_OFF :: AgxLightMode where "CONST_OFF = 0x00"
definition CONST_ON :: AgxLightMode where "CONST_ON = 0x01"
definition BREATH :: AgxLightMode where "BREATH = 0x02"
definition CUSTOM :: AgxLightMode where "CUSTOM = 0x03"

definition VEHICLE_STATE_NORMAL :: AgxVehicleState where "VEHICLE_STATE_NORMAL = 0x00"
definition VEHICLE_STATE_ESTOP :: AgxVehicleState where "VEHICLE_STATE_ESTOP = 0x01"
definition VEHICLE_STATE_EXCEPTION :: AgxVehicleState where "VEHICLE_STATE_EXCEPTION = 0x02"

definition CONTROL_MODE_STANDBY :: AgxControlMode where "CONTROL_MODE_STANDBY = 0x00"
definition CONTROL_MODE_CAN :: AgxControlMode where "CONTROL_MODE_CAN = 0x01"
definition CONTROL_MODE_UART :: AgxControlMode where "CONTROL_MODE_UART = 0x02"
definition CONTROL_MODE_RC :: AgxControlMode where "CONTROL_MODE_RC = 0x03"

definition BRAKE_MODE_UNLOCK :: AgxBrakeMode where "BRAKE_MODE_UNLOCK = 0x00"
definition BRAKE_MODE_LOCK :: AgxBrakeMode where "BRAKE_MODE_LOCK = 0x01"

definition RC_SWITCH_UP :: AgxRcSwitchState where "RC_SWITCH_UP = 0"
definition RC_SWITCH_MIDDLE :: AgxRcSwitchState where "RC_SWITCH_MIDDLE = 1"
definition RC_SWITCH_DOWN :: AgxRcSwitchState where "RC_SWITCH_DOWN = 2"

datatype ProtocolVersion = UNKONWN | AGX_V1 | AGX_V2

section \<open>Control messages\<close>

record AgxLightOperation =
  mode_light :: AgxLightMode
  custom_value :: u8

record MotionCommandMessage =
  linear_velocity_mc :: fp
  angular_velocity_mc :: fp
  lateral_velocity_mc :: fp
  steering_angle_mc :: fp

record LightCommandMessage =
  enable_cmd_ctrl :: bool
  front_light :: AgxLightOperation
  rear_light :: AgxLightOperation

record BrakingCommandMessage =
  enable_braking :: bool

record MotionModeCommandMessage =
  motion_mode_cmd :: u8

record MotionCommandMessageV1 =
  control_mode_v1 :: AgxControlMode
  clear_all_error :: bool
  linear_v1 :: fp
  angular_v1 :: fp
  lateral_v1 :: fp

record ValueSetCommandMessageV1 =
  set_neutral :: bool

section \<open>Feedback messages\<close>

record SystemStateMessage =
  vehicle_state :: AgxVehicleState
  control_mode :: AgxControlMode
  battery_voltage :: fp
  error_code :: u16

record MotionStateMessage =
  linear_velocity :: fp
  angular_velocity :: fp
  lateral_velocity :: fp
  steering_angle :: fp

record RcStateMessage =
  swa :: AgxRcSwitchState
  swb :: AgxRcSwitchState
  swc :: AgxRcSwitchState
  swd :: AgxRcSwitchState
  stick_right_v :: i8
  stick_right_h :: i8
  stick_left_v :: i8
  stick_left_h :: i8
  var_a :: i8

record ActuatorHSStateMessage =
  motor_id_hs :: u8
  rpm_hs :: i16
  current_hs :: fp
  pulse_count :: i32

record ActuatorLSStateMessage =
  motor_id_ls :: u8
  driver_voltage :: fp
  driver_temp :: fp
  motor_temp :: fp
  driver_state :: u8

record MotionModeStateMessage =
  motion_mode :: u8
  mode_changing :: u8

record ActuatorStateMessageV1 =
  motor_id_v1 :: u8
  current_v1 :: fp
  rpm_v1 :: i16
  driver_temp_v1 :: fp
  motor_temp_v1 :: fp

section \<open>Sensor messages\<close>

record OdometryMessage =
  left_wheel :: fp
  right_wheel :: fp

record ImuAccelMessage =
  accel_x :: fp
  accel_y :: fp
  accel_z :: fp

record ImuGyroMessage =
  gyro_x :: fp
  gyro_y :: fp
  gyro_z :: fp

record ImuEulerMessage =
  yaw :: fp
  pitch :: fp
  roll :: fp

record SafetyBumperMessage =
  trigger_state :: u8

record UltrasonicMessage =
  sensor_id_us :: u8
  distance_us :: bytes

record UwbMessage =
  sensor_id_uwb :: u8
  relative_distance :: fp
  relative_angle :: fp
  is_normal :: bool
  channels :: bytes

record BmsBasicMessage =
  battery_soc :: u8
  battery_soh :: u8
  voltage_bms :: fp
  current_bms :: fp
  temperature_bms :: fp

record MotorAngleMessage =
  angle_5 :: fp
  angle_6 :: fp
  angle_7 :: fp
  angle_8 :: fp

record MotorSpeedMessage =
  speed_1 :: fp
  speed_2 :: fp
  speed_3 :: fp
  speed_4 :: fp

record BmsExtendedMessage =
  alarm_status_1 :: u8
  alarm_status_2 :: u8
  warn_status_1 :: u8
  warn_status_2 :: u8

section \<open>Query and configuration messages\<close>

record VersionRequestMessage =
  request_vr :: bool

record VersionResponseMessage =
  bytes_vr :: bytes

record ControlModeConfigMessage =
  mode_cmc :: AgxControlMode

record BrakeModeConfigMessage =
  mode_bmc :: AgxBrakeMode

record SteerNeutralRequestMessage =
  set_as_neutral :: bool

record SteerNeutralResponseMessage =
  neutral_set_successful :: bool

record StateResetConfigMessage =
  error_clear_byte :: u8

section \<open>The tagged union\<close>

datatype MsgType =
    AgxMsgUnkonwn
  | AgxMsgMotionCommand | AgxMsgLightCommand | AgxMsgBrakingCommand | AgxMsgSetMotionModeCommand
  | AgxMsgSystemState | AgxMsgMotionState | AgxMsgLightState | AgxMsgMotionModeState | AgxMsgRcState
  | AgxMsgActuatorHSState | AgxMsgActuatorLSState | AgxMsgMotorAngle | AgxMsgMotorSpeed
  | AgxMsgOdometry | AgxMsgImuAccel | AgxMsgImuGyro | AgxMsgImuEuler | AgxMsgSafetyBumper
  | AgxMsgUltrasonic | AgxMsgUwb | AgxMsgBmsBasic | AgxMsgBmsExtended
  | AgxMsgVersionRequest | AgxMsgVersionResponse | AgxMsgControlModeConfig
  | AgxMsgSteerNeutralRequest | AgxMsgSteerNeutralResponse | AgxMsgStateResetConfig
  | AgxMsgBrakeModeConfig
  | AgxMsgMotionCommandV1 | AgxMsgValueSetCommandV1 | AgxMsgValueSetStateV1 | AgxMsgActuatorStateV1

text \<open>
  The contents of an uninitialised message: its tag, and its union seen through the two members that
  a decoder can leave partly unwritten (the switches of \<open>rc_state_msg\<close> and the steering angle of
  \<open>motion_state_msg\<close>).
\<close>

record RawUnion =
  raw_tag :: MsgType
  raw_rc :: RcStateMessage
  raw_motion :: MotionStateMessage

text \<open>
  The union, with one constructor for the member that was written last. \<open>light_command_msg\<close> and
  \<open>light_state_msg\<close> have the same type (a \<open>typedef\<close>), as have \<open>v1_value_set_command_msg\<close> and
  \<open>v1_value_set_state_msg\<close>, and share a constructor.
\<close>

datatype AgxBody =
    RawBody RawUnion
  | MotionCommandBody MotionCommandMessage
  | LightBody LightCommandMessage
  | BrakingCommandBody BrakingCommandMessage
  | MotionModeBody MotionModeCommandMessage
  | SystemStateBody SystemStateMessage
  | MotionStateBody MotionStateMessage
  | MotionModeStateBody MotionModeStateMessage
  | RcStateBody RcStateMessage
  | ActuatorHSBody ActuatorHSStateMessage
  | ActuatorLSBody ActuatorLSStateMessage
  | OdometryBody OdometryMessage
  | ImuAccelBody ImuAccelMessage
  | ImuGyroBody ImuGyroMessage
  | ImuEulerBody ImuEulerMessage
  | SafetyBumperBody SafetyBumperMessage
  | UltrasonicBody UltrasonicMessage
  | UwbBody UwbMessage
  | BmsBasicBody BmsBasicMessage
  | BmsExtendedBody BmsExtendedMessage
  | VersionRequestBody VersionRequestMessage
  | VersionResponseBody VersionResponseMessage
  | ControlModeConfigBody ControlModeConfigMessage
  | BrakeModeConfigBody BrakeModeConfigMessage
  | SteerNeutralRequestBody SteerNeutralRequestMessage
  | SteerNeutralResponseBody SteerNeutralResponseMessage
  | StateResetConfigBody StateResetConfigMessage
  | MotionCommandV1Body MotionCommandMessageV1
  | ValueSetV1Body ValueSetCommandMessageV1
  | ActuatorStateV1Body ActuatorStateMessageV1
  | MotorAngleBody MotorAngleMessage
  | MotorSpeedBody MotorSpeedMessage

record AgxMessage =
  type_of :: MsgType
  body :: AgxBody

text \<open>
  Reading \<open>control_mode_config_msg.mode\<close>: the two configuration members are structs of one
  enumeration of the same size, so the read also sees what was stored through
  \<open>brake_mode_config_msg\<close>.
\<close>

fun control_mode_config_msg :: "AgxBody \<Rightarrow> ControlModeConfigMessage res" where
  "control_mode_config_msg (ControlModeConfigBody m) = Inr m"
| "control_mode_config_msg (BrakeModeConfigBody m) = Inr \<lparr>mode_cmc = mode_bmc m\<rparr>"
| "control_mode_config_msg _ = Inl UnionMismatch"

section \<open>Agreement of tag and union member\<close>

text \<open>
  What a decoder promises of a message it has accepted: a tag that a consumer acts on comes with
  the union member of that tag, and actuator numbers are indices of the eight-entry state arrays.
\<close>

fun tag_ok :: "MsgType \<Rightarrow> AgxBody \<Rightarrow> bool" where
  "tag_ok AgxMsgMotionCommand b = (case b of MotionCommandBody _ \<Rightarrow> True | _ \<Rightarrow> False)"
| "tag_ok AgxMsgLightCommand b = (case b of LightBody _ \<Rightarrow> True | _ \<Rightarrow> False)"
| "tag_ok AgxMsgSystemState b = (case b of SystemStateBody _ \<Rightarrow> True | _ \<Rightarrow> False)"
| "tag_ok AgxMsgMotionState b = (case b of MotionStateBody _ \<Rightarrow> True | _ \<Rightarrow> False)"
| "tag_ok AgxMsgLightState b = (case b of LightBody _ \<Rightarrow> True | _ \<Rightarrow> False)"
| "tag_ok AgxMsgMotionModeState b = (case b of MotionModeStateBody _ \<Rightarrow> True | _ \<Rightarrow> False)"
| "tag_ok AgxMsgRcState b = (case b of RcStateBody _ \<Rightarrow> True | _ \<Rightarrow> False)"
| "tag_ok AgxMsgActuatorHSState b = (case b of ActuatorHSBody m \<Rightarrow> unat (motor_id_hs m) < 8 | _ \<Rightarrow> False)"
| "tag_ok AgxMsgActuatorLSState b = (case b of ActuatorLSBody m \<Rightarrow> unat (motor_id_ls m) < 8 | _ \<Rightarrow> False)"
| "tag_ok AgxMsgMotorAngle b = (case b of MotorAngleBody _ \<Rightarrow> True | _ \<Rightarrow> False)"
| "tag_ok AgxMsgMotorSpeed b = (case b of MotorSpeedBody _ \<Rightarrow> True | _ \<Rightarrow> False)"
| "tag_ok AgxMsgOdometry b = (case b of OdometryBody _ \<Rightarrow> True | _ \<Rightarrow> False)"
| "tag_ok AgxMsgBmsBasic b = (case b of BmsBasicBody _ \<Rightarrow> True | _ \<Rightarrow> False)"
| "tag_ok AgxMsgBmsExtended b = (case b of BmsExtendedBody _ \<Rightarrow> True | _ \<Rightarrow> False)"
| "tag_ok AgxMsgVersionResponse b = (case b of VersionResponseBody m \<Rightarrow> length (bytes_vr m) = 8 | _ \<Rightarrow> False)"
| "tag_ok AgxMsgControlModeConfig b = (case b of ControlModeConfigBody _ \<Rightarrow> True | _ \<Rightarrow> False)"
| "tag_ok AgxMsgStateResetConfig b = (case b of StateResetConfigBody _ \<Rightarrow> True | _ \<Rightarrow> False)"
| "tag_ok AgxMsgMotionCommandV1 b = (case b of MotionCommandV1Body _ \<Rightarrow> True | _ \<Rightarrow> False)"
| "tag_ok AgxMsgValueSetCommandV1 b = (case b of ValueSetV1Body _ \<Rightarrow> True | _ \<Rightarrow> False)"
| "tag_ok AgxMsgValueSetStateV1 b = (case b of ValueSetV1Body _ \<Rightarrow> True | _ \<Rightarrow> False)"
| "tag_ok AgxMsgActuatorStateV1 b = (case b of ActuatorStateV1Body m \<Rightarrow> unat (motor_id_v1 m) < 8 | _ \<Rightarrow> False)"
| "tag_ok _ b = True"

lemma tag_ok_elims:
  "tag_ok AgxMsgSystemState b \<Longrightarrow> \<exists>m. b = SystemStateBody m"
  "tag_ok AgxMsgMotionState b \<Longrightarrow> \<exists>m. b = MotionStateBody m"
  "tag_ok AgxMsgLightState b \<Longrightarrow> \<exists>m. b = LightBody m"
  "tag_ok AgxMsgMotionModeState b \<Longrightarrow> \<exists>m. b = MotionModeStateBody m"
  "tag_ok AgxMsgRcState b \<Longrightarrow> \<exists>m. b = RcStateBody m"
  "tag_ok AgxMsgActuatorHSState b \<Longrightarrow> \<exists>m. b = ActuatorHSBody m \<and> unat (motor_id_hs m) < 8"
  "tag_ok AgxMsgActuatorLSState b \<Longrightarrow> \<exists>m. b = ActuatorLSBody m \<and> unat (motor_id_ls m) < 8"
  "tag_ok AgxMsgMotorAngle b \<Longrightarrow> \<exists>m. b = MotorAngleBody m"
  "tag_ok AgxMsgMotorSpeed b \<Longrightarrow> \<exists>m. b = MotorSpeedBody m"
  "tag_ok AgxMsgOdometry b \<Longrightarrow> \<exists>m. b = OdometryBody m"
  "tag_ok AgxMsgBmsBasic b \<Longrightarrow> \<exists>m. b = BmsBasicBody m"
  "tag_ok AgxMsgBmsExtended b \<Longrightarrow> \<exists>m. b = BmsExtendedBody m"
  "tag_ok AgxMsgVersionResponse b \<Longrightarrow> \<exists>m. b = VersionResponseBody m \<and> length (bytes_vr m) = 8"
  "tag_ok AgxMsgActuatorStateV1 b \<Longrightarrow> \<exists>m. b = ActuatorStateV1Body m \<and> unat (motor_id_v1 m) < 8"
  by (cases b; simp)+

section \<open>CAN frames\<close>

record can_frame =
  can_id :: u32
  can_dlc :: u8
  data_of :: bytes \<comment> \<open>always eight bytes\<close>

definition frame_wf :: "can_frame \<Rightarrow> bool" where
  "frame_wf fr = (length (data_of fr) = 8)"

section \<open>Sample memory contents\<close>

definition rc_memory :: "AgxRcSwitchState \<Rightarrow> RcStateMessage" where
  "rc_memory v = \<lparr>swa = v, swb = v, swc = v, swd = v, stick_right_v = 0, stick_right_h = 0,
     stick_left_v = 0, stick_left_h = 0, var_a = 0\<rparr>"

definition zero_union :: RawUnion where
  "zero_union = \<lparr>raw_tag = AgxMsgUnkonwn, raw_rc = rc_memory 0, raw_motion = \<lparr>linear_velocity = Fin False 0, angular_velocity = Fin False 0,
     lateral_velocity = Fin False 0, steering_angle = Fin False 0\<rparr>\<rparr>"

end
