(* ===== verification/Frame_Layout.thy ===== *)
theory Frame_Layout
  imports Agx_Message
begin

text \<open>
  Packed frame structs (\<open>#pragma pack(1)\<close>) as byte layouts. The decoders cast the eight data bytes
  of a CAN frame to such a struct, the encoders fill one and copy it out with \<open>memcpy\<close>. The locale
  states what both sides rely on; every frame struct of the two protocols is an interpretation.
\<close>

section \<open>Multi-byte fields\<close>

record struct16_t =
  high_byte :: u8
  low_byte :: u8

record struct32_t =
  msb :: u8
  high_byte32 :: u8
  low_byte32 :: u8
  lsb :: u8

definition bytes16 :: "struct16_t \<Rightarrow> bytes" where [layout_defs]:
  "bytes16 s = [high_byte s, low_byte s]"

definition of16 :: "bytes \<Rightarrow> nat \<Rightarrow> struct16_t" where [layout_defs]:
  "of16 bs i = \<lparr>high_byte = bs ! i, low_byte = bs ! (i + 1)\<rparr>"

definition bytes32 :: "struct32_t \<Rightarrow> bytes" where [layout_defs]:
  "bytes32 s = [msb s, high_byte32 s, low_byte32 s, lsb s]"

definition of32 :: "bytes \<Rightarrow> nat \<Rightarrow> struct32_t" where [layout_defs]:
  "of32 bs i = \<lparr>msb = bs ! i, high_byte32 = bs ! (i + 1), low_byte32 = bs ! (i + 2),
     lsb = bs ! (i + 3)\<rparr>"

text \<open>\<open>(uint16_t)low | (uint16_t)high << 8\<close>, and the four-byte form.\<close>

definition word16 :: "struct16_t \<Rightarrow> u16" where
  "word16 s = ucast (low_byte s) OR push_bit 8 (ucast (high_byte s))"

definition word32 :: "struct32_t \<Rightarrow> u32" where
  "word32 s = ucast (lsb s) OR push_bit 8 (ucast (low_byte32 s)) OR
     push_bit 16 (ucast (high_byte32 s)) OR push_bit 24 (ucast (msb s))"

text \<open>\<open>(uint8_t)(x >> 8)\<close> and \<open>(uint8_t)(x & 0x00ff)\<close>.\<close>

definition split16 :: "u16 \<Rightarrow> struct16_t" where
  "split16 x = \<lparr>high_byte = ucast (drop_bit 8 x), low_byte = ucast (x AND 0xff)\<rparr>"

lemma low_mask: "(0xff :: u16) = mask 8"
  by (simp add: mask_eq_exp_minus_1)

lemma word16_split16 [simp]: "word16 (split16 x) = x"
  unfolding word16_def split16_def low_mask
  by (rule bit_word_eqI) (auto simp: bit_simps)

lemma split16_word16 [simp]: "split16 (word16 s) = s"
proof -
  have "ucast (drop_bit 8 (word16 s)) = high_byte s"
    unfolding word16_def by (rule bit_word_eqI) (auto simp: bit_simps dest: bit_imp_le_length)
  moreover have "ucast (word16 s AND 0xff) = low_byte s"
    unfolding word16_def low_mask by (rule bit_word_eqI) (auto simp: bit_simps)
  ultimately show ?thesis by (simp add: split16_def)
qed

section \<open>The layout contract\<close>

lemma take_8_nth: "8 \<le> length bs \<Longrightarrow>
  take 8 bs = [bs ! 0, bs ! 1, bs ! 2, bs ! 3, bs ! 4, bs ! 5, bs ! 6, bs ! 7]"
  by (auto simp: numeral_eq_Suc Suc_le_length_iff)

lemma take_2_nth: "2 \<le> length bs \<Longrightarrow> take 2 bs = [bs ! 0, bs ! 1]"
  by (auto simp: numeral_eq_Suc Suc_le_length_iff)

locale frame_layout =
  fixes size_of :: nat
    and to_bytes :: "'f \<Rightarrow> bytes"
    and of_bytes :: "bytes \<Rightarrow> 'f"
  assumes length_to_bytes: "length (to_bytes f) = size_of"
    and of_to_prefix: "of_bytes (to_bytes f @ rest) = f"
    and to_of_prefix: "size_of \<le> length bs \<Longrightarrow> to_bytes (of_bytes bs) = take size_of bs"
begin

lemma of_to: "of_bytes (to_bytes f) = f"
  using of_to_prefix[of f "[]"] by simp

lemma to_of: "length bs = size_of \<Longrightarrow> to_bytes (of_bytes bs) = bs"
  using to_of_prefix[of bs] by simp

lemma to_bytes_inj: "to_bytes f = to_bytes g \<longleftrightarrow> f = g"
  by (metis of_to)

lemma of_bytes_prefix: "size_of \<le> length bs \<Longrightarrow> of_bytes bs = of_bytes (take size_of bs)"
  by (metis of_to to_of_prefix)

end

text \<open>\<open>memcpy(dst, src, n)\<close> on byte arrays.\<close>

definition memcpy :: "bytes \<Rightarrow> bytes \<Rightarrow> nat \<Rightarrow> bytes" where
  "memcpy dst src n = take n src @ drop n dst"

lemma length_memcpy [simp]: "n \<le> length src \<Longrightarrow> n \<le> length dst \<Longrightarrow> length (memcpy dst src n) = length dst"
  by (simp add: memcpy_def)

lemma memcpy_all [simp]: "length src = n \<Longrightarrow> length dst = n \<Longrightarrow> memcpy dst src n = src"
  by (simp add: memcpy_def)

text \<open>The common tail of an encoder branch: identifier, length code and data bytes.\<close>

definition put_frame :: "u32 \<Rightarrow> u8 \<Rightarrow> bytes \<Rightarrow> can_frame \<Rightarrow> can_frame" where
  "put_frame fid dlc bs tx =
     tx\<lparr>can_id := fid, can_dlc := dlc, data_of := memcpy (data_of tx) bs (unat dlc)\<rparr>"

lemma put_frame_sel [simp]:
  "can_id (put_frame fid dlc bs tx) = fid" "can_dlc (put_frame fid dlc bs tx) = dlc"
  "data_of (put_frame fid dlc bs tx) = memcpy (data_of tx) bs (unat dlc)"
  by (simp_all add: put_frame_def)

lemma frame_wf_put_frame:
  "frame_wf tx \<Longrightarrow> unat dlc \<le> length bs \<Longrightarrow> unat dlc \<le> 8 \<Longrightarrow> frame_wf (put_frame fid dlc bs tx)"
  by (simp add: frame_wf_def)

end
