(* ===== verification/Protocol_V2_Frames.thy ===== *)
theory Protocol_V2_Frames
  imports Frame_Layout
begin

text \<open>
  \<open>agilex_protocol_v2.h\<close>: the message identifiers and the packed frame structs of protocol version 2.
  The frame structs that the parser only copies uninitialised (its branches marked TODO) have no
  record here.
\<close>

section \<open>Message identifiers\<close>

named_theorems v2_ids \<open>message identifiers of protocol version 2\<close>

definition CAN_MSG_MOTION_COMMAND_ID :: u32 where [v2_ids]: "CAN_MSG_MOTION_COMMAND_ID = 0x111"
definition CAN_MSG_LIGHT_COMMAND_ID :: u32 where [v2_ids]: "CAN_MSG_LIGHT_COMMAND_ID = 0x121"
definition CAN_MSG_BRAKING_COMMAND_ID :: u32 where [v2_ids]: "CAN_MSG_BRAKING_COMMAND_ID = 0x131"
definition CAN_MSG_SET_MOTION_MODE_ID :: u32 where [v2_ids]: "CAN_MSG_SET_MOTION_MODE_ID = 0x141"
definition CAN_MSG_SYSTEM_STATE_ID :: u32 where [v2_ids]: "CAN_MSG_SYSTEM_STATE_ID = 0x211"
definition CAN_MSG_MOTION_STATE_ID :: u32 where [v2_ids]: "CAN_MSG_MOTION_STATE_ID = 0x221"
definition CAN_MSG_LIGHT_STATE_ID :: u32 where [v2_ids]: "CAN_MSG_LIGHT_STATE_ID = 0x231"
definition CAN_MSG_RC_STATE_ID :: u32 where [v2_ids]: "CAN_MSG_RC_STATE_ID = 0x241"
definition CAN_MSG_ACTUATOR1_HS_STATE_ID :: u32 where [v2_ids]: "CAN_MSG_ACTUATOR1_HS_STATE_ID = 0x251"
definition CAN_MSG_ACTUATOR2_HS_STATE_ID :: u32 where [v2_ids]: "CAN_MSG_ACTUATOR2_HS_STATE_ID = 0x252"
definition CAN_MSG_ACTUATOR3_HS_STATE_ID :: u32 where [v2_ids]: "CAN_MSG_ACTUATOR3_HS_STATE_ID = 0x253"
definition CAN_MSG_ACTUATOR4_HS_STATE_ID :: u32 where [v2_ids]: "CAN_MSG_ACTUATOR4_HS_STATE_ID = 0x254"
definition CAN_MSG_ACTUATOR5_HS_STATE_ID :: u32 where [v2_ids]: "CAN_MSG_ACTUATOR5_HS_STATE_ID = 0x255"
definition CAN_MSG_ACTUATOR6_HS_STATE_ID :: u32 where [v2_ids]: "CAN_MSG_ACTUATOR6_HS_STATE_ID = 0x256"
definition CAN_MSG_ACTUATOR7_HS_STATE_ID :: u32 where [v2_ids]: "CAN_MSG_ACTUATOR7_HS_STATE_ID = 0x257"
definition CAN_MSG_ACTUATOR8_HS_STATE_ID :: u32 where [v2_ids]: "CAN_MSG_ACTUATOR8_HS_STATE_ID = 0x258"
definition CAN_MSG_ACTUATOR1_LS_STATE_ID :: u32 where [v2_ids]: "CAN_MSG_ACTUATOR1_LS_STATE_ID = 0x261"
definition CAN_MSG_ACTUATOR2_LS_STATE_ID :: u32 where [v2_ids]: "CAN_MSG_ACTUATOR2_LS_STATE_ID = 0x262"
definition CAN_MSG_ACTUATOR3_LS_STATE_ID :: u32 where [v2_ids]: "CAN_MSG_ACTUATOR3_LS_STATE_ID = 0x263"
definition CAN_MSG_ACTUATOR4_LS_STATE_ID :: u32 where [v2_ids]: "CAN_MSG_ACTUATOR4_LS_STATE_ID = 0x264"
definition CAN_MSG_ACTUATOR5_LS_STATE_ID :: u32 where [v2_ids]: "CAN_MSG_ACTUATOR5_LS_STATE_ID = 0x265"
definition CAN_MSG_ACTUATOR6_LS_STATE_ID :: u32 where [v2_ids]: "CAN_MSG_ACTUATOR6_LS_STATE_ID = 0x266"
definition CAN_MSG_ACTUATOR7_LS_STATE_ID :: u32 where [v2_ids]: "CAN_MSG_ACTUATOR7_LS_STATE_ID = 0x267"
definition CAN_MSG_ACTUATOR8_LS_STATE_ID :: u32 where [v2_ids]: "CAN_MSG_ACTUATOR8_LS_STATE_ID = 0x268"
definition CAN_MSG_MOTOR_ANGLE_INFO :: u32 where [v2_ids]: "CAN_MSG_MOTOR_ANGLE_INFO = 0x271"
definition CAN_MSG_MOTOR_SPEED_INFO :: u32 where [v2_ids]: "CAN_MSG_MOTOR_SPEED_INFO = 0x281"
definition CAN_MSG_CURRENT_CTRL_MODE :: u32 where [v2_ids]: "CAN_MSG_CURRENT_CTRL_MODE = 0x291"
definition CAN_MSG_ODOMETRY_ID :: u32 where [v2_ids]: "CAN_MSG_ODOMETRY_ID = 0x311"
definition CAN_MSG_IMU_ACCEL_ID :: u32 where [v2_ids]: "CAN_MSG_IMU_ACCEL_ID = 0x321"
definition CAN_MSG_IMU_GYRO_ID :: u32 where [v2_ids]: "CAN_MSG_IMU_GYRO_ID = 0x322"
definition CAN_MSG_IMU_EULER_ID :: u32 where [v2_ids]: "CAN_MSG_IMU_EULER_ID = 0x323"
definition CAN_MSG_SAFETY_BUMPER_ID :: u32 where [v2_ids]: "CAN_MSG_SAFETY_BUMPER_ID = 0x331"
definition CAN_MSG_ULTRASONIC_1_ID :: u32 where [v2_ids]: "CAN_MSG_ULTRASONIC_1_ID = 0x341"
definition CAN_MSG_ULTRASONIC_2_ID :: u32 where [v2_ids]: "CAN_MSG_ULTRASONIC_2_ID = 0x342"
definition CAN_MSG_ULTRASONIC_3_ID :: u32 where [v2_ids]: "CAN_MSG_ULTRASONIC_3_ID = 0x343"
definition CAN_MSG_ULTRASONIC_4_ID :: u32 where [v2_ids]: "CAN_MSG_ULTRASONIC_4_ID = 0x344"
definition CAN_MSG_ULTRASONIC_5_ID :: u32 where [v2_ids]: "CAN_MSG_ULTRASONIC_5_ID = 0x345"
definition CAN_MSG_ULTRASONIC_6_ID :: u32 where [v2_ids]: "CAN_MSG_ULTRASONIC_6_ID = 0x346"
definition CAN_MSG_ULTRASONIC_7_ID :: u32 where [v2_ids]: "CAN_MSG_ULTRASONIC_7_ID = 0x347"
definition CAN_MSG_ULTRASONIC_8_ID :: u32 where [v2_ids]: "CAN_MSG_ULTRASONIC_8_ID = 0x348"
definition CAN_MSG_UWB_1_ID :: u32 where [v2_ids]: "CAN_MSG_UWB_1_ID = 0x351"
definition CAN_MSG_UWB_2_ID :: u32 where [v2_ids]: "CAN_MSG_UWB_2_ID = 0x352"
definition CAN_MSG_UWB_3_ID :: u32 where [v2_ids]: "CAN_MSG_UWB_3_ID = 0x353"
definition CAN_MSG_UWB_4_ID :: u32 where [v2_ids]: "CAN_MSG_UWB_4_ID = 0x354"
definition CAN_MSG_BMS_BASIC_ID :: u32 where [v2_ids]: "CAN_MSG_BMS_BASIC_ID = 0x361"
definition CAN_MSG_BMS_EXTENDED_ID :: u32 where [v2_ids]: "CAN_MSG_BMS_EXTENDED_ID = 0x362"
definition CAN_MSG_VERSION_REQUEST_ID :: u32 where [v2_ids]: "CAN_MSG_VERSION_REQUEST_ID = 0x411"
definition CAN_MSG_VERSION_RESPONSE_ID :: u32 where [v2_ids]: "CAN_MSG_VERSION_RESPONSE_ID = 0x4a1"
definition CAN_MSG_CTRL_MODE_CONFIG_ID :: u32 where [v2_ids]: "CAN_MSG_CTRL_MODE_CONFIG_ID = 0x421"
definition CAN_MSG_STEER_NEUTRAL_REQUEST_ID :: u32 where [v2_ids]: "CAN_MSG_STEER_NEUTRAL_REQUEST_ID = 0x431"
definition CAN_MSG_STEER_NEUTRAL_RESPONSE_ID :: u32 where [v2_ids]: "CAN_MSG_STEER_NEUTRAL_RESPONSE_ID = 0x43a"
definition CAN_MSG_STATE_RESET_CONFIG_ID :: u32 where [v2_ids]: "CAN_MSG_STATE_RESET_CONFIG_ID = 0x441"

section \<open>Field values\<close>

named_theorems v2_masks \<open>field values and masks of protocol version 2\<close>

definition LIGHT_ENABLE_CMD_CTRL :: u8 where [v2_masks]: "LIGHT_ENABLE_CMD_CTRL = 0x01"
definition LIGHT_DISABLE_CMD_CTRL :: u8 where [v2_masks]: "LIGHT_DISABLE_CMD_CTRL = 0x00"
definition RC_SWA_MASK :: u8 where [v2_masks]: "RC_SWA_MASK = 0b00000011"
definition RC_SWA_UP_MASK :: u8 where [v2_masks]: "RC_SWA_UP_MASK = 0b00000010"
definition RC_SWA_DOWN_MASK :: u8 where [v2_masks]: "RC_SWA_DOWN_MASK = 0b00000011"
definition RC_SWB_MASK :: u8 where [v2_masks]: "RC_SWB_MASK = 0b00001100"
definition RC_SWB_UP_MASK :: u8 where [v2_masks]: "RC_SWB_UP_MASK = 0b00001000"
definition RC_SWB_MIDDLE_MASK :: u8 where [v2_masks]: "RC_SWB_MIDDLE_MASK = 0b00000100"
definition RC_SWB_DOWN_MASK :: u8 where [v2_masks]: "RC_SWB_DOWN_MASK = 0b00001100"
definition RC_SWC_MASK :: u8 where [v2_masks]: "RC_SWC_MASK = 0b00110000"
definition RC_SWC_UP_MASK :: u8 where [v2_masks]: "RC_SWC_UP_MASK = 0b00100000"
definition RC_SWC_MIDDLE_MASK :: u8 where [v2_masks]: "RC_SWC_MIDDLE_MASK = 0b00010000"
definition RC_SWC_DOWN_MASK :: u8 where [v2_masks]: "RC_SWC_DOWN_MASK = 0b00110000"
definition RC_SWD_MASK :: u8 where [v2_masks]: "RC_SWD_MASK = 0b11000000"
definition RC_SWD_UP_MASK :: u8 where [v2_masks]: "RC_SWD_UP_MASK = 0b10000000"
definition RC_SWD_DOWN_MASK :: u8 where [v2_masks]: "RC_SWD_DOWN_MASK = 0b11000000"
definition VERSION_REQUEST_VALUE :: u8 where [v2_masks]: "VERSION_REQUEST_VALUE = 0x01"
definition STEER_NEUTRAL_REQUEST_VALUE :: u8 where [v2_masks]: "STEER_NEUTRAL_REQUEST_VALUE = 0xee"
definition STEER_NEUTRAL_RESPONSE_SUCCESS_VALUE :: u8 where [v2_masks]: "STEER_NEUTRAL_RESPONSE_SUCCESS_VALUE = 0xee"
definition STEER_NEUTRAL_RESPONSE_FAILURE_VALUE :: u8 where [v2_masks]: "STEER_NEUTRAL_RESPONSE_FAILURE_VALUE = 0xff"

section \<open>Frame structs\<close>

record MotionCommandFrame =
  linear_velocity_mcf :: struct16_t
  angular_velocity_mcf :: struct16_t
  lateral_velocity_mcf :: struct16_t
  steering_angle_mcf :: struct16_t

definition MotionCommandFrame_bytes :: "MotionCommandFrame \<Rightarrow> bytes" where [layout_defs]:
  "MotionCommandFrame_bytes f = bytes16 (linear_velocity_mcf f) @
     bytes16 (angular_velocity_mcf f) @ bytes16 (lateral_velocity_mcf f) @
     bytes16 (steering_angle_mcf f)"

definition MotionCommandFrame_of :: "bytes \<Rightarrow> MotionCommandFrame" where [layout_defs]:
  "MotionCommandFrame_of bs = \<lparr>linear_velocity_mcf = of16 bs 0,
     angular_velocity_mcf = of16 bs 2, lateral_velocity_mcf = of16 bs 4,
     steering_angle_mcf = of16 bs 6\<rparr>"

interpretation mcf: frame_layout 8 MotionCommandFrame_bytes MotionCommandFrame_of
  by unfold_locales (simp_all add: layout_defs take_8_nth)

record LightCommandFrame =
  enable_cmd_ctrl_lcf :: u8
  front_mode_lcf :: u8
  front_custom_lcf :: u8
  rear_mode_lcf :: u8
  rear_custom_lcf :: u8
  reserved0_lcf :: u8
  reserved1_lcf :: u8
  count_lcf :: u8

definition LightCommandFrame_bytes :: "LightCommandFrame \<Rightarrow> bytes" where [layout_defs]:
  "LightCommandFrame_bytes f = [enable_cmd_ctrl_lcf f, front_mode_lcf f, front_custom_lcf f,
     rear_mode_lcf f, rear_custom_lcf f, reserved0_lcf f, reserved1_lcf f, count_lcf f]"

definition LightCommandFrame_of :: "bytes \<Rightarrow> LightCommandFrame" where [layout_defs]:
  "LightCommandFrame_of bs = \<lparr>enable_cmd_ctrl_lcf = bs ! 0, front_mode_lcf = bs ! 1,
     front_custom_lcf = bs ! 2, rear_mode_lcf = bs ! 3, rear_custom_lcf = bs ! 4,
     reserved0_lcf = bs ! 5, reserved1_lcf = bs ! 6, count_lcf = bs ! 7\<rparr>"

interpretation lcf: frame_layout 8 LightCommandFrame_bytes LightCommandFrame_of
  by unfold_locales (simp_all add: layout_defs take_8_nth)

record SetMotionModeFrame =
  motion_mode_smm :: u8
  reserved0_smm :: u8
  reserved1_smm :: u8
  reserved2_smm :: u8
  reserved3_smm :: u8
  reserved4_smm :: u8
  reserved5_smm :: u8
  reserved6_smm :: u8

definition SetMotionModeFrame_bytes :: "SetMotionModeFrame \<Rightarrow> bytes" where [layout_defs]:
  "SetMotionModeFrame_bytes f = [motion_mode_smm f, reserved0_smm f, reserved1_smm f,
     reserved2_smm f, reserved3_smm f, reserved4_smm f, reserved5_smm f, reserved6_smm f]"

definition SetMotionModeFrame_of :: "bytes \<Rightarrow> SetMotionModeFrame" where [layout_defs]:
  "SetMotionModeFrame_of bs = \<lparr>motion_mode_smm = bs ! 0, reserved0_smm = bs ! 1,
     reserved1_smm = bs ! 2, reserved2_smm = bs ! 3, reserved3_smm = bs ! 4,
     reserved4_smm = bs ! 5, reserved5_smm = bs ! 6, reserved6_smm = bs ! 7\<rparr>"

interpretation smm: frame_layout 8 SetMotionModeFrame_bytes SetMotionModeFrame_of
  by unfold_locales (simp_all add: layout_defs take_8_nth)

record SystemStateFrame =
  vehicle_state_ssf :: u8
  control_mode_ssf :: u8
  battery_voltage_ssf :: struct16_t
  error_code_ssf :: struct16_t
  reserved0_ssf :: u8
  count_ssf :: u8

definition SystemStateFrame_bytes :: "SystemStateFrame \<Rightarrow> bytes" where [layout_defs]:
  "SystemStateFrame_bytes f = [vehicle_state_ssf f, control_mode_ssf f] @
     bytes16 (battery_voltage_ssf f) @ bytes16 (error_code_ssf f) @ [reserved0_ssf f,
     count_ssf f]"

definition SystemStateFrame_of :: "bytes \<Rightarrow> SystemStateFrame" where [layout_defs]:
  "SystemStateFrame_of bs = \<lparr>vehicle_state_ssf = bs ! 0, control_mode_ssf = bs ! 1,
     battery_voltage_ssf = of16 bs 2, error_code_ssf = of16 bs 4, reserved0_ssf = bs ! 6,
     count_ssf = bs ! 7\<rparr>"

interpretation ssf: frame_layout 8 SystemStateFrame_bytes SystemStateFrame_of
  by unfold_locales (simp_all add: layout_defs take_8_nth)

record MotionStateFrame =
  linear_velocity_msf :: struct16_t
  angular_velocity_msf :: struct16_t
  lateral_velocity_msf :: struct16_t
  steering_angle_msf :: struct16_t

definition MotionStateFrame_bytes :: "MotionStateFrame \<Rightarrow> bytes" where [layout_defs]:
  "MotionStateFrame_bytes f = bytes16 (linear_velocity_msf f) @
     bytes16 (angular_velocity_msf f) @ bytes16 (lateral_velocity_msf f) @
     bytes16 (steering_angle_msf f)"

definition MotionStateFrame_of :: "bytes \<Rightarrow> MotionStateFrame" where [layout_defs]:
  "MotionStateFrame_of bs = \<lparr>linear_velocity_msf = of16 bs 0,
     angular_velocity_msf = of16 bs 2, lateral_velocity_msf = of16 bs 4,
     steering_angle_msf = of16 bs 6\<rparr>"

interpretation msf: frame_layout 8 MotionStateFrame_bytes MotionStateFrame_of
  by unfold_locales (simp_all add: layout_defs take_8_nth)

record LightStateFrame =
  enable_cmd_ctrl_lsf :: u8
  front_mode_lsf :: u8
  front_custom_lsf :: u8
  rear_mode_lsf :: u8
  rear_custom_lsf :: u8
  reserved0_lsf :: u8
  reserved1_lsf :: u8
  count_lsf :: u8

definition LightStateFrame_bytes :: "LightStateFrame \<Rightarrow> bytes" where [layout_defs]:
  "LightStateFrame_bytes f = [enable_cmd_ctrl_lsf f, front_mode_lsf f, front_custom_lsf f,
     rear_mode_lsf f, rear_custom_lsf f, reserved0_lsf f, reserved1_lsf f, count_lsf f]"

definition LightStateFrame_of :: "bytes \<Rightarrow> LightStateFrame" where [layout_defs]:
  "LightStateFrame_of bs = \<lparr>enable_cmd_ctrl_lsf = bs ! 0, front_mode_lsf = bs ! 1,
     front_custom_lsf = bs ! 2, rear_mode_lsf = bs ! 3, rear_custom_lsf = bs ! 4,
     reserved0_lsf = bs ! 5, reserved1_lsf = bs ! 6, count_lsf = bs ! 7\<rparr>"

interpretation lsf: frame_layout 8 LightStateFrame_bytes LightStateFrame_of
  by unfold_locales (simp_all add: layout_defs take_8_nth)

record RcStateFrame =
  sws_rcf :: u8
  stick_right_h_rcf :: i8
  stick_right_v_rcf :: i8
  stick_left_v_rcf :: i8
  stick_left_h_rcf :: i8
  var_a_rcf :: i8
  reserved0_rcf :: u8
  count_rcf :: u8

definition RcStateFrame_bytes :: "RcStateFrame \<Rightarrow> bytes" where [layout_defs]:
  "RcStateFrame_bytes f = [sws_rcf f, stick_right_h_rcf f, stick_right_v_rcf f,
     stick_left_v_rcf f, stick_left_h_rcf f, var_a_rcf f, reserved0_rcf f, count_rcf f]"

definition RcStateFrame_of :: "bytes \<Rightarrow> RcStateFrame" where [layout_defs]:
  "RcStateFrame_of bs = \<lparr>sws_rcf = bs ! 0, stick_right_h_rcf = bs ! 1,
     stick_right_v_rcf = bs ! 2, stick_left_v_rcf = bs ! 3, stick_left_h_rcf = bs ! 4,
     var_a_rcf = bs ! 5, reserved0_rcf = bs ! 6, count_rcf = bs ! 7\<rparr>"

interpretation rcf: frame_layout 8 RcStateFrame_bytes RcStateFrame_of
  by unfold_locales (simp_all add: layout_defs take_8_nth)

record ActuatorHSStateFrame =
  rpm_hsf :: struct16_t
  current_hsf :: struct16_t
  pulse_count_hsf :: struct32_t

definition ActuatorHSStateFrame_bytes :: "ActuatorHSStateFrame \<Rightarrow> bytes" where [layout_defs]:
  "ActuatorHSStateFrame_bytes f = bytes16 (rpm_hsf f) @ bytes16 (current_hsf f) @
     bytes32 (pulse_count_hsf f)"

definition ActuatorHSStateFrame_of :: "bytes \<Rightarrow> ActuatorHSStateFrame" where [layout_defs]:
  "ActuatorHSStateFrame_of bs = \<lparr>rpm_hsf = of16 bs 0, current_hsf = of16 bs 2,
     pulse_count_hsf = of32 bs 4\<rparr>"

interpretation hsf: frame_layout 8 ActuatorHSStateFrame_bytes ActuatorHSStateFrame_of
  by unfold_locales (simp_all add: layout_defs take_8_nth)

record ActuatorLSStateFrame =
  driver_voltage_lsaf :: struct16_t
  driver_temp_lsaf :: struct16_t
  motor_temp_lsaf :: i8
  driver_state_lsaf :: u8
  reserved0_lsaf :: u8
  reserved1_lsaf :: u8

definition ActuatorLSStateFrame_bytes :: "ActuatorLSStateFrame \<Rightarrow> bytes" where [layout_defs]:
  "ActuatorLSStateFrame_bytes f = bytes16 (driver_voltage_lsaf f) @
     bytes16 (driver_temp_lsaf f) @ [motor_temp_lsaf f, driver_state_lsaf f, reserved0_lsaf f,
     reserved1_lsaf f]"

definition ActuatorLSStateFrame_of :: "bytes \<Rightarrow> ActuatorLSStateFrame" where [layout_defs]:
  "ActuatorLSStateFrame_of bs = \<lparr>driver_voltage_lsaf = of16 bs 0,
     driver_temp_lsaf = of16 bs 2, motor_temp_lsaf = bs ! 4, driver_state_lsaf = bs ! 5,
     reserved0_lsaf = bs ! 6, reserved1_lsaf = bs ! 7\<rparr>"

interpretation lsaf: frame_layout 8 ActuatorLSStateFrame_bytes ActuatorLSStateFrame_of
  by unfold_locales (simp_all add: layout_defs take_8_nth)

record MotionModeStateFrame =
  motion_mode_mmf :: u8
  mode_changing_mmf :: u8

definition MotionModeStateFrame_bytes :: "MotionModeStateFrame \<Rightarrow> bytes" where [layout_defs]:
  "MotionModeStateFrame_bytes f = [motion_mode_mmf f, mode_changing_mmf f]"

definition MotionModeStateFrame_of :: "bytes \<Rightarrow> MotionModeStateFrame" where [layout_defs]:
  "MotionModeStateFrame_of bs = \<lparr>motion_mode_mmf = bs ! 0,
     mode_changing_mmf = bs ! 1\<rparr>"

interpretation mmf: frame_layout 2 MotionModeStateFrame_bytes MotionModeStateFrame_of
  by unfold_locales (simp_all add: layout_defs take_2_nth)

record OdometryFrame =
  left_wheel_odf :: struct32_t
  right_wheel_odf :: struct32_t

definition OdometryFrame_bytes :: "OdometryFrame \<Rightarrow> bytes" where [layout_defs]:
  "OdometryFrame_bytes f = bytes32 (left_wheel_odf f) @ bytes32 (right_wheel_odf f)"

definition OdometryFrame_of :: "bytes \<Rightarrow> OdometryFrame" where [layout_defs]:
  "OdometryFrame_of bs = \<lparr>left_wheel_odf = of32 bs 0, right_wheel_odf = of32 bs 4\<rparr>"

interpretation odf: frame_layout 8 OdometryFrame_bytes OdometryFrame_of
  by unfold_locales (simp_all add: layout_defs take_8_nth numeral_2_eq_2)

record BmsBasicFrame =
  battery_soc_bbf :: u8
  battery_soh_bbf :: u8
  voltage_bbf :: struct16_t
  current_bbf :: struct16_t
  temperature_bbf :: struct16_t

definition BmsBasicFrame_bytes :: "BmsBasicFrame \<Rightarrow> bytes" where [layout_defs]:
  "BmsBasicFrame_bytes f = [battery_soc_bbf f, battery_soh_bbf f] @ bytes16 (voltage_bbf f) @
     bytes16 (current_bbf f) @ bytes16 (temperature_bbf f)"

definition BmsBasicFrame_of :: "bytes \<Rightarrow> BmsBasicFrame" where [layout_defs]:
  "BmsBasicFrame_of bs = \<lparr>battery_soc_bbf = bs ! 0, battery_soh_bbf = bs ! 1,
     voltage_bbf = of16 bs 2, current_bbf = of16 bs 4, temperature_bbf = of16 bs 6\<rparr>"

interpretation bbf: frame_layout 8 BmsBasicFrame_bytes BmsBasicFrame_of
  by unfold_locales (simp_all add: layout_defs take_8_nth)

record BmsExtendedFrame =
  alarm_status_1_bef :: u8
  alarm_status_2_bef :: u8
  warn_status_1_bef :: u8
  warn_status_2_bef :: u8
  reserved0_bef :: u8
  reserved1_bef :: u8
  reserved2_bef :: u8
  reserved3_bef :: u8

definition BmsExtendedFrame_bytes :: "BmsExtendedFrame \<Rightarrow> bytes" where [layout_defs]:
  "BmsExtendedFrame_bytes f = [alarm_status_1_bef f, alarm_status_2_bef f, warn_status_1_bef f,
     warn_status_2_bef f, reserved0_bef f, reserved1_bef f, reserved2_bef f, reserved3_bef f]"

definition BmsExtendedFrame_of :: "bytes \<Rightarrow> BmsExtendedFrame" where [layout_defs]:
  "BmsExtendedFrame_of bs = \<lparr>alarm_status_1_bef = bs ! 0, alarm_status_2_bef = bs ! 1,
     warn_status_1_bef = bs ! 2, warn_status_2_bef = bs ! 3, reserved0_bef = bs ! 4,
     reserved1_bef = bs ! 5, reserved2_bef = bs ! 6, reserved3_bef = bs ! 7\<rparr>"

interpretation bef: frame_layout 8 BmsExtendedFrame_bytes BmsExtendedFrame_of
  by unfold_locales (simp_all add: layout_defs take_8_nth)

record VersionResponseFrame =
  res0_vrf :: u8
  res1_vrf :: u8
  res2_vrf :: u8
  res3_vrf :: u8
  res4_vrf :: u8
  res5_vrf :: u8
  res6_vrf :: u8
  res7_vrf :: u8

definition VersionResponseFrame_bytes :: "VersionResponseFrame \<Rightarrow> bytes" where [layout_defs]:
  "VersionResponseFrame_bytes f = [res0_vrf f, res1_vrf f, res2_vrf f, res3_vrf f, res4_vrf f,
     res5_vrf f, res6_vrf f, res7_vrf f]"

definition VersionResponseFrame_of :: "bytes \<Rightarrow> VersionResponseFrame" where [layout_defs]:
  "VersionResponseFrame_of bs = \<lparr>res0_vrf = bs ! 0, res1_vrf = bs ! 1,
     res2_vrf = bs ! 2, res3_vrf = bs ! 3, res4_vrf = bs ! 4, res5_vrf = bs ! 5,
     res6_vrf = bs ! 6, res7_vrf = bs ! 7\<rparr>"

interpretation vrf: frame_layout 8 VersionResponseFrame_bytes VersionResponseFrame_of
  by unfold_locales (simp_all add: layout_defs take_8_nth)

record ControlModeConfigFrame =
  mode_cmf :: u8
  reserved0_cmf :: u8
  reserved1_cmf :: u8
  reserved2_cmf :: u8
  reserved3_cmf :: u8
  reserved4_cmf :: u8
  reserved5_cmf :: u8
  reserved6_cmf :: u8

definition ControlModeConfigFrame_bytes :: "ControlModeConfigFrame \<Rightarrow> bytes" where [layout_defs]:
  "ControlModeConfigFrame_bytes f = [mode_cmf f, reserved0_cmf f, reserved1_cmf f,
     reserved2_cmf f, reserved3_cmf f, reserved4_cmf f, reserved5_cmf f, reserved6_cmf f]"

definition ControlModeConfigFrame_of :: "bytes \<Rightarrow> ControlModeConfigFrame" where [layout_defs]:
  "ControlModeConfigFrame_of bs = \<lparr>mode_cmf = bs ! 0, reserved0_cmf = bs ! 1,
     reserved1_cmf = bs ! 2, reserved2_cmf = bs ! 3, reserved3_cmf = bs ! 4,
     reserved4_cmf = bs ! 5, reserved5_cmf = bs ! 6, reserved6_cmf = bs ! 7\<rparr>"

interpretation cmf: frame_layout 8 ControlModeConfigFrame_bytes ControlModeConfigFrame_of
  by unfold_locales (simp_all add: layout_defs take_8_nth)

record BrakeModeConfigFrame =
  mode_bmf :: u8
  reserved0_bmf :: u8
  reserved1_bmf :: u8
  reserved2_bmf :: u8
  reserved3_bmf :: u8
  reserved4_bmf :: u8
  reserved5_bmf :: u8
  reserved6_bmf :: u8

definition BrakeModeConfigFrame_bytes :: "BrakeModeConfigFrame \<Rightarrow> bytes" where [layout_defs]:
  "BrakeModeConfigFrame_bytes f = [mode_bmf f, reserved0_bmf f, reserved1_bmf f,
     reserved2_bmf f, reserved3_bmf f, reserved4_bmf f, reserved5_bmf f, reserved6_bmf f]"

definition BrakeModeConfigFrame_of :: "bytes \<Rightarrow> BrakeModeConfigFrame" where [layout_defs]:
  "BrakeModeConfigFrame_of bs = \<lparr>mode_bmf = bs ! 0, reserved0_bmf = bs ! 1,
     reserved1_bmf = bs ! 2, reserved2_bmf = bs ! 3, reserved3_bmf = bs ! 4,
     reserved4_bmf = bs ! 5, reserved5_bmf = bs ! 6, reserved6_bmf = bs ! 7\<rparr>"

interpretation bmf: frame_layout 8 BrakeModeConfigFrame_bytes BrakeModeConfigFrame_of
  by unfold_locales (simp_all add: layout_defs take_8_nth)

record StateResetConfigFrame =
  error_clear_byte_srf :: u8
  reserved0_srf :: u8
  reserved1_srf :: u8
  reserved2_srf :: u8
  reserved3_srf :: u8
  reserved4_srf :: u8
  reserved5_srf :: u8
  reserved6_srf :: u8

definition StateResetConfigFrame_bytes :: "StateResetConfigFrame \<Rightarrow> bytes" where [layout_defs]:
  "StateResetConfigFrame_bytes f = [error_clear_byte_srf f, reserved0_srf f, reserved1_srf f,
     reserved2_srf f, reserved3_srf f, reserved4_srf f, reserved5_srf f, reserved6_srf f]"

definition StateResetConfigFrame_of :: "bytes \<Rightarrow> StateResetConfigFrame" where [layout_defs]:
  "StateResetConfigFrame_of bs = \<lparr>error_clear_byte_srf = bs ! 0, reserved0_srf = bs ! 1,
     reserved1_srf = bs ! 2, reserved2_srf = bs ! 3, reserved3_srf = bs ! 4,
     reserved4_srf = bs ! 5, reserved5_srf = bs ! 6, reserved6_srf = bs ! 7\<rparr>"

interpretation srf: frame_layout 8 StateResetConfigFrame_bytes StateResetConfigFrame_of
  by unfold_locales (simp_all add: layout_defs take_8_nth)

record MoterAngleFrame =
  angle_5_maf :: struct16_t
  angle_6_maf :: struct16_t
  angle_7_maf :: struct16_t
  angle_8_maf :: struct16_t

definition MoterAngleFrame_bytes :: "MoterAngleFrame \<Rightarrow> bytes" where [layout_defs]:
  "MoterAngleFrame_bytes f = bytes16 (angle_5_maf f) @ bytes16 (angle_6_maf f) @
     bytes16 (angle_7_maf f) @ bytes16 (angle_8_maf f)"

definition MoterAngleFrame_of :: "bytes \<Rightarrow> MoterAngleFrame" where [layout_defs]:
  "MoterAngleFrame_of bs = \<lparr>angle_5_maf = of16 bs 0, angle_6_maf = of16 bs 2,
     angle_7_maf = of16 bs 4, angle_8_maf = of16 bs 6\<rparr>"

interpretation maf: frame_layout 8 MoterAngleFrame_bytes MoterAngleFrame_of
  by unfold_locales (simp_all add: layout_defs take_8_nth)

record MoterSpeedFrame =
  speed_1_mspf :: struct16_t
  speed_2_mspf :: struct16_t
  speed_3_mspf :: struct16_t
  speed_4_mspf :: struct16_t

definition MoterSpeedFrame_bytes :: "MoterSpeedFrame \<Rightarrow> bytes" where [layout_defs]:
  "MoterSpeedFrame_bytes f = bytes16 (speed_1_mspf f) @ bytes16 (speed_2_mspf f) @
     bytes16 (speed_3_mspf f) @ bytes16 (speed_4_mspf f)"

definition MoterSpeedFrame_of :: "bytes \<Rightarrow> MoterSpeedFrame" where [layout_defs]:
  "MoterSpeedFrame_of bs = \<lparr>speed_1_mspf = of16 bs 0, speed_2_mspf = of16 bs 2,
     speed_3_mspf = of16 bs 4, speed_4_mspf = of16 bs 6\<rparr>"

interpretation mspf: frame_layout 8 MoterSpeedFrame_bytes MoterSpeedFrame_of
  by unfold_locales (simp_all add: layout_defs take_8_nth)

end
