(* ===== verification/Protocol_V2.thy ===== *)
theory Protocol_V2
  imports Protocol_V2_Frames
begin

text \<open>
  \<open>agilex_msg_parser_v2.c\<close>: the decoder and encoder of protocol version 2, with the wrapper class
  \<open>ProtocolV2Parser\<close>. Each \<open>case\<close> of the two switches that does work is a definition of its own. The
  caller's message and the encoder's local frame are uninitialised memory in the program: the decoder
  takes the contents of the caller's union (\<open>raw\<close>), the encoder those of its local struct (\<open>stk\<close>).
  The encoder's \<open>static\<close> counter is passed and returned.
\<close>

section \<open>Conversions in the parser's expressions\<close>

text \<open>\<open>n / 1000.0\<close>, \<open>n * 0.1\<close>, \<open>n * 0.001\<close> (double, stored to a float) and \<open>n * 0.1f\<close>.\<close>

definition div1000 :: "int \<Rightarrow> fp" where
  "div1000 n = fcvt B32 (fdiv B64 (fint B64 n) (flit B64 1000))"

definition mul0_1 :: "int \<Rightarrow> fp" where
  "mul0_1 n = fcvt B32 (fmul B64 (fint B64 n) (flit B64 (1 / 10)))"

definition mul0_001 :: "int \<Rightarrow> fp" where
  "mul0_001 n = fcvt B32 (fmul B64 (fint B64 n) (flit B64 (1 / 1000)))"

definition mul0_1f :: "int \<Rightarrow> fp" where
  "mul0_1f n = fmul B32 (fint B32 n) (flit B32 (1 / 10))"

text \<open>\<open>(int16_t)(v * 1000)\<close> on a float.\<close>

definition mul1000_i16 :: "fp \<Rightarrow> i16 res" where
  "mul1000_i16 v = to_i16 (fmul B32 v (fint B32 1000))"

section \<open>Decoder\<close>

definition decode_motion_command :: "MotionCommandFrame \<Rightarrow> MotionCommandMessage" where
  "decode_motion_command fr =
     \<lparr>linear_velocity_mc = div1000 (sint (word16 (linear_velocity_mcf fr))),
      angular_velocity_mc = div1000 (sint (word16 (angular_velocity_mcf fr))),
      lateral_velocity_mc = div1000 (sint (word16 (lateral_velocity_mcf fr))),
      steering_angle_mc = div1000 (sint (word16 (steering_angle_mcf fr)))\<rparr>"

definition decode_light_command :: "LightCommandFrame \<Rightarrow> LightCommandMessage" where
  "decode_light_command fr =
     \<lparr>enable_cmd_ctrl = (enable_cmd_ctrl_lcf fr \<noteq> 0),
      front_light = \<lparr>mode_light = ucast (front_mode_lcf fr), custom_value = front_custom_lcf fr\<rparr>,
      rear_light = \<lparr>mode_light = ucast (rear_mode_lcf fr), custom_value = rear_custom_lcf fr\<rparr>\<rparr>"

definition decode_system_state :: "SystemStateFrame \<Rightarrow> SystemStateMessage" where
  "decode_system_state fr =
     \<lparr>vehicle_state = ucast (vehicle_state_ssf fr), control_mode = ucast (control_mode_ssf fr),
      battery_voltage = mul0_1 (sint (word16 (battery_voltage_ssf fr))),
      error_code = word16 (error_code_ssf fr)\<rparr>"

definition decode_motion_state :: "MotionStateFrame \<Rightarrow> MotionStateMessage" where
  "decode_motion_state fr =
     \<lparr>linear_velocity = div1000 (sint (word16 (linear_velocity_msf fr))),
      angular_velocity = div1000 (sint (word16 (angular_velocity_msf fr))),
      lateral_velocity = div1000 (sint (word16 (lateral_velocity_msf fr))),
      steering_angle = div1000 (sint (word16 (steering_angle_msf fr)))\<rparr>"

definition decode_light_state :: "LightStateFrame \<Rightarrow> LightCommandMessage" where
  "decode_light_state fr =
     \<lparr>enable_cmd_ctrl = (enable_cmd_ctrl_lsf fr \<noteq> 0),
      front_light = \<lparr>mode_light = ucast (front_mode_lsf fr), custom_value = front_custom_lsf fr\<rparr>,
      rear_light = \<lparr>mode_light = ucast (rear_mode_lsf fr), custom_value = rear_custom_lsf fr\<rparr>\<rparr>"

definition decode_rc_state :: "RcStateMessage \<Rightarrow> RcStateFrame \<Rightarrow> RcStateMessage" where
  "decode_rc_state old fr =
     \<lparr>swa = (if sws_rcf fr AND RC_SWA_MASK = RC_SWA_UP_MASK then RC_SWITCH_UP
             else if sws_rcf fr AND RC_SWA_MASK = RC_SWA_DOWN_MASK then RC_SWITCH_DOWN
             else swa old),
      swb = (if sws_rcf fr AND RC_SWB_MASK = RC_SWB_UP_MASK then RC_SWITCH_UP
             else if sws_rcf fr AND RC_SWB_MASK = RC_SWB_MIDDLE_MASK then RC_SWITCH_MIDDLE
             else if sws_rcf fr AND RC_SWB_MASK = RC_SWB_DOWN_MASK then RC_SWITCH_DOWN
             else swb old),
      swc = (if sws_rcf fr AND RC_SWC_MASK = RC_SWC_UP_MASK then RC_SWITCH_UP
             else if sws_rcf fr AND RC_SWC_MASK = RC_SWC_MIDDLE_MASK then RC_SWITCH_MIDDLE
             else if sws_rcf fr AND RC_SWC_MASK = RC_SWC_DOWN_MASK then RC_SWITCH_DOWN
             else swc old),
      swd = (if sws_rcf fr AND RC_SWD_MASK = RC_SWD_UP_MASK then RC_SWITCH_UP
             else if sws_rcf fr AND RC_SWD_MASK = RC_SWD_DOWN_MASK then RC_SWITCH_DOWN
             else swd old),
      stick_right_v = stick_right_v_rcf fr, stick_right_h = stick_right_h_rcf fr,
      stick_left_v = stick_left_v_rcf fr, stick_left_h = stick_left_h_rcf fr,
      var_a = var_a_rcf fr\<rparr>"

definition decode_actuator_hs :: "u32 \<Rightarrow> ActuatorHSStateFrame \<Rightarrow> ActuatorHSStateMessage" where
  "decode_actuator_hs fid fr =
     \<lparr>motor_id_hs = ucast (fid - CAN_MSG_ACTUATOR1_HS_STATE_ID),
      rpm_hs = word16 (rpm_hsf fr),
      current_hs = mul0_1 (sint (word16 (current_hsf fr))),
      pulse_count = word32 (pulse_count_hsf fr)\<rparr>"

definition decode_actuator_ls :: "u32 \<Rightarrow> ActuatorLSStateFrame \<Rightarrow> ActuatorLSStateMessage" where
  "decode_actuator_ls fid fr =
     \<lparr>motor_id_ls = ucast (fid - CAN_MSG_ACTUATOR1_LS_STATE_ID),
      driver_voltage = mul0_1 (uint (word16 (driver_voltage_lsaf fr))),
      driver_temp = fint B32 (sint (word16 (driver_temp_lsaf fr))),
      motor_temp = fint B32 (sint (motor_temp_lsaf fr)),
      driver_state = driver_state_lsaf fr\<rparr>"

definition decode_motion_mode_state :: "MotionModeStateFrame \<Rightarrow> MotionModeStateMessage" where
  "decode_motion_mode_state fr =
     \<lparr>motion_mode = motion_mode_mmf fr, mode_changing = mode_changing_mmf fr\<rparr>"

definition decode_odometry :: "OdometryFrame \<Rightarrow> OdometryMessage" where
  "decode_odometry fr =
     \<lparr>left_wheel = fint B32 (sint (word32 (left_wheel_odf fr))),
      right_wheel = fint B32 (sint (word32 (right_wheel_odf fr)))\<rparr>"

definition decode_bms_basic :: "BmsBasicFrame \<Rightarrow> BmsBasicMessage" where
  "decode_bms_basic fr =
     \<lparr>battery_soc = battery_soc_bbf fr, battery_soh = battery_soh_bbf fr,
      voltage_bms = mul0_1f (sint (word16 (voltage_bbf fr))),
      current_bms = mul0_1f (sint (word16 (current_bbf fr))),
      temperature_bms = mul0_1f (sint (word16 (temperature_bbf fr)))\<rparr>"

definition decode_bms_extended :: "BmsExtendedFrame \<Rightarrow> BmsExtendedMessage" where
  "decode_bms_extended fr =
     \<lparr>alarm_status_1 = alarm_status_1_bef fr, alarm_status_2 = alarm_status_2_bef fr,
      warn_status_1 = warn_status_1_bef fr, warn_status_2 = warn_status_2_bef fr\<rparr>"

definition decode_version_response :: "VersionResponseFrame \<Rightarrow> VersionResponseMessage" where
  "decode_version_response fr =
     \<lparr>bytes_vr = [res0_vrf fr, res1_vrf fr, res2_vrf fr, res3_vrf fr,
                  res4_vrf fr, res5_vrf fr, res6_vrf fr, res7_vrf fr]\<rparr>"

definition decode_motor_angle :: "MoterAngleFrame \<Rightarrow> MotorAngleMessage" where
  "decode_motor_angle fr =
     \<lparr>angle_5 = mul0_001 (sint (word16 (angle_5_maf fr))),
      angle_6 = mul0_001 (sint (word16 (angle_6_maf fr))),
      angle_7 = mul0_001 (sint (word16 (angle_7_maf fr))),
      angle_8 = mul0_001 (sint (word16 (angle_8_maf fr)))\<rparr>"

definition decode_motor_speed :: "MoterSpeedFrame \<Rightarrow> MotorSpeedMessage" where
  "decode_motor_speed fr =
     \<lparr>speed_1 = mul0_001 (sint (word16 (speed_1_mspf fr))),
      speed_2 = mul0_001 (sint (word16 (speed_2_mspf fr))),
      speed_3 = mul0_001 (sint (word16 (speed_3_mspf fr))),
      speed_4 = mul0_001 (sint (word16 (speed_4_mspf fr)))\<rparr>"

text \<open>
  The two halves of the switch. A result \<open>None\<close> is the \<open>default\<close> branch; a branch marked TODO in the
  source sets the type and leaves the body as it was.
\<close>

definition decode_core_v2 :: "RawUnion \<Rightarrow> u32 \<Rightarrow> bytes \<Rightarrow> (MsgType \<times> AgxBody) option" where
  "decode_core_v2 raw fid bs =
    (if fid = CAN_MSG_MOTION_COMMAND_ID then
       Some (AgxMsgMotionCommand, MotionCommandBody (decode_motion_command (MotionCommandFrame_of bs)))
     else if fid = CAN_MSG_LIGHT_COMMAND_ID then
       Some (AgxMsgLightCommand, LightBody (decode_light_command (LightCommandFrame_of bs)))
     else if fid = CAN_MSG_BRAKING_COMMAND_ID then Some (AgxMsgBrakingCommand, RawBody raw)
     else if fid = CAN_MSG_SYSTEM_STATE_ID then
       Some (AgxMsgSystemState, SystemStateBody (decode_system_state (SystemStateFrame_of bs)))
     else if fid = CAN_MSG_MOTION_STATE_ID then
       Some (AgxMsgMotionState, MotionStateBody (decode_motion_state (MotionStateFrame_of bs)))
     else if fid = CAN_MSG_LIGHT_STATE_ID then
       Some (AgxMsgLightState, LightBody (decode_light_state (LightStateFrame_of bs)))
     else if fid = CAN_MSG_RC_STATE_ID then
       Some (AgxMsgRcState, RcStateBody (decode_rc_state (raw_rc raw) (RcStateFrame_of bs)))
     else if fid \<in> {CAN_MSG_ACTUATOR1_HS_STATE_ID, CAN_MSG_ACTUATOR2_HS_STATE_ID,
       CAN_MSG_ACTUATOR3_HS_STATE_ID, CAN_MSG_ACTUATOR4_HS_STATE_ID, CAN_MSG_ACTUATOR5_HS_STATE_ID,
       CAN_MSG_ACTUATOR6_HS_STATE_ID, CAN_MSG_ACTUATOR7_HS_STATE_ID, CAN_MSG_ACTUATOR8_HS_STATE_ID}
     then Some (AgxMsgActuatorHSState,
       ActuatorHSBody (decode_actuator_hs fid (ActuatorHSStateFrame_of bs)))
     else if fid \<in> {CAN_MSG_ACTUATOR1_LS_STATE_ID, CAN_MSG_ACTUATOR2_LS_STATE_ID,
       CAN_MSG_ACTUATOR3_LS_STATE_ID, CAN_MSG_ACTUATOR4_LS_STATE_ID, CAN_MSG_ACTUATOR5_LS_STATE_ID,
       CAN_MSG_ACTUATOR6_LS_STATE_ID, CAN_MSG_ACTUATOR7_LS_STATE_ID, CAN_MSG_ACTUATOR8_LS_STATE_ID}
     then Some (AgxMsgActuatorLSState,
       ActuatorLSBody (decode_actuator_ls fid (ActuatorLSStateFrame_of bs)))
     else if fid = CAN_MSG_CURRENT_CTRL_MODE then
       Some (AgxMsgMotionModeState,
         MotionModeStateBody (decode_motion_mode_state (MotionModeStateFrame_of bs)))
     else None)"

definition decode_sensor_v2 :: "RawUnion \<Rightarrow> u32 \<Rightarrow> bytes \<Rightarrow> (MsgType \<times> AgxBody) option" where
  "decode_sensor_v2 raw fid bs =
    (if fid = CAN_MSG_ODOMETRY_ID then
       Some (AgxMsgOdometry, OdometryBody (decode_odometry (OdometryFrame_of bs)))
     else if fid = CAN_MSG_IMU_ACCEL_ID then Some (AgxMsgImuAccel, RawBody raw)
     else if fid = CAN_MSG_IMU_GYRO_ID then Some (AgxMsgImuGyro, RawBody raw)
     else if fid = CAN_MSG_IMU_EULER_ID then Some (AgxMsgImuEuler, RawBody raw)
     else if fid = CAN_MSG_SAFETY_BUMPER_ID then Some (AgxMsgSafetyBumper, RawBody raw)
     else if fid \<in> {CAN_MSG_ULTRASONIC_1_ID, CAN_MSG_ULTRASONIC_2_ID, CAN_MSG_ULTRASONIC_3_ID,
       CAN_MSG_ULTRASONIC_4_ID, CAN_MSG_ULTRASONIC_5_ID, CAN_MSG_ULTRASONIC_6_ID,
       CAN_MSG_ULTRASONIC_7_ID, CAN_MSG_ULTRASONIC_8_ID} then Some (AgxMsgUltrasonic, RawBody raw)
     else if fid \<in> {CAN_MSG_UWB_1_ID, CAN_MSG_UWB_2_ID, CAN_MSG_UWB_3_ID, CAN_MSG_UWB_4_ID}
     then Some (AgxMsgUwb, RawBody raw)
     else if fid = CAN_MSG_BMS_BASIC_ID then
       Some (AgxMsgBmsBasic, BmsBasicBody (decode_bms_basic (BmsBasicFrame_of bs)))
     else if fid = CAN_MSG_BMS_EXTENDED_ID then
       Some (AgxMsgBmsExtended, BmsExtendedBody (decode_bms_extended (BmsExtendedFrame_of bs)))
     else if fid = CAN_MSG_VERSION_REQUEST_ID then Some (AgxMsgVersionRequest, RawBody raw)
     else if fid = CAN_MSG_VERSION_RESPONSE_ID then
       Some (AgxMsgVersionResponse,
         VersionResponseBody (decode_version_response (VersionResponseFrame_of bs)))
     else if fid = CAN_MSG_CTRL_MODE_CONFIG_ID then
       Some (AgxMsgControlModeConfig,
         ControlModeConfigBody \<lparr>mode_cmc = ucast (mode_cmf (ControlModeConfigFrame_of bs))\<rparr>)
     else if fid = CAN_MSG_STEER_NEUTRAL_REQUEST_ID then Some (AgxMsgSteerNeutralRequest, RawBody raw)
     else if fid = CAN_MSG_STEER_NEUTRAL_RESPONSE_ID then Some (AgxMsgSteerNeutralResponse, RawBody raw)
     else if fid = CAN_MSG_STATE_RESET_CONFIG_ID then
       Some (AgxMsgStateResetConfig, StateResetConfigBody
         \<lparr>error_clear_byte = error_clear_byte_srf (StateResetConfigFrame_of bs)\<rparr>)
     else if fid = CAN_MSG_MOTOR_ANGLE_INFO then
       Some (AgxMsgMotorAngle, MotorAngleBody (decode_motor_angle (MoterAngleFrame_of bs)))
     else if fid = CAN_MSG_MOTOR_SPEED_INFO then
       Some (AgxMsgMotorSpeed, MotorSpeedBody (decode_motor_speed (MoterSpeedFrame_of bs)))
     else None)"

definition DecodeCanFrameV2 :: "RawUnion \<Rightarrow> can_frame \<Rightarrow> bool \<times> AgxMessage" where
  "DecodeCanFrameV2 raw rx =
    (case decode_core_v2 raw (can_id rx) (data_of rx) of
       Some (t, b) \<Rightarrow> (True, \<lparr>type_of = t, body = b\<rparr>)
     | None \<Rightarrow>
        (case decode_sensor_v2 raw (can_id rx) (data_of rx) of
           Some (t, b) \<Rightarrow> (True, \<lparr>type_of = t, body = b\<rparr>)
         | None \<Rightarrow> (False, \<lparr>type_of = AgxMsgUnkonwn, body = RawBody raw\<rparr>)))"

section \<open>Encoder\<close>

record StaticsV2 =
  light_count_v2 :: u8

text \<open>\<open>frame.count = count++\<close>\<close>

definition bump_light_v2 :: "StaticsV2 \<Rightarrow> StaticsV2" where
  "bump_light_v2 st = st\<lparr>light_count_v2 := light_count_v2 st + 1\<rparr>"

definition encode_motion_command :: "MotionCommandMessage \<Rightarrow> MotionCommandFrame res" where
  "encode_motion_command m =
     res_bind (mul1000_i16 (linear_velocity_mc m)) (\<lambda>linear_cmd.
     res_bind (mul1000_i16 (angular_velocity_mc m)) (\<lambda>angular_cmd.
     res_bind (mul1000_i16 (lateral_velocity_mc m)) (\<lambda>lateral_cmd.
     res_bind (mul1000_i16 (steering_angle_mc m)) (\<lambda>steering_cmd.
       Inr \<lparr>linear_velocity_mcf = split16 linear_cmd, angular_velocity_mcf = split16 angular_cmd,
            lateral_velocity_mcf = split16 lateral_cmd, steering_angle_mcf = split16 steering_cmd\<rparr>))))"

definition encode_light_command :: "u8 \<Rightarrow> LightCommandMessage \<Rightarrow> LightCommandFrame" where
  "encode_light_command count m =
     (if enable_cmd_ctrl m then
        \<lparr>enable_cmd_ctrl_lcf = LIGHT_ENABLE_CMD_CTRL,
         front_mode_lcf = ucast (mode_light (front_light m)),
         front_custom_lcf = custom_value (front_light m),
         rear_mode_lcf = ucast (mode_light (rear_light m)),
         rear_custom_lcf = custom_value (rear_light m),
         reserved0_lcf = 0, reserved1_lcf = 0, count_lcf = count\<rparr>
      else
        \<lparr>enable_cmd_ctrl_lcf = LIGHT_DISABLE_CMD_CTRL, front_mode_lcf = 0, front_custom_lcf = 0,
         rear_mode_lcf = 0, rear_custom_lcf = 0,
         reserved0_lcf = 0, reserved1_lcf = 0, count_lcf = count\<rparr>)"

definition encode_set_motion_mode :: "MotionModeCommandMessage \<Rightarrow> SetMotionModeFrame" where
  "encode_set_motion_mode m =
     \<lparr>motion_mode_smm = motion_mode_cmd m, reserved0_smm = 0, reserved1_smm = 0, reserved2_smm = 0,
      reserved3_smm = 0, reserved4_smm = 0, reserved5_smm = 0, reserved6_smm = 0\<rparr>"

definition encode_system_state :: "bytes \<Rightarrow> SystemStateMessage \<Rightarrow> SystemStateFrame res" where
  "encode_system_state stk m =
     res_bind (to_u16 (fmul B32 (battery_voltage m) (fint B32 10))) (\<lambda>battery.
       Inr \<lparr>vehicle_state_ssf = ucast (vehicle_state m), control_mode_ssf = ucast (control_mode m),
            battery_voltage_ssf = split16 battery, error_code_ssf = split16 (error_code m),
            reserved0_ssf = stk ! 6, count_ssf = stk ! 7\<rparr>)"

definition encode_motion_state :: "MotionStateMessage \<Rightarrow> MotionStateFrame res" where
  "encode_motion_state m =
     res_bind (mul1000_i16 (linear_velocity m)) (\<lambda>linear.
     res_bind (mul1000_i16 (angular_velocity m)) (\<lambda>angular.
     res_bind (mul1000_i16 (lateral_velocity m)) (\<lambda>lateral.
     res_bind (mul1000_i16 (steering_angle m)) (\<lambda>steering.
       Inr \<lparr>linear_velocity_msf = split16 linear, angular_velocity_msf = split16 angular,
            lateral_velocity_msf = split16 lateral, steering_angle_msf = split16 steering\<rparr>))))"

definition encode_control_mode :: "ControlModeConfigMessage \<Rightarrow> ControlModeConfigFrame" where
  "encode_control_mode m =
     \<lparr>mode_cmf = ucast (mode_cmc m), reserved0_cmf = 0, reserved1_cmf = 0, reserved2_cmf = 0,
      reserved3_cmf = 0, reserved4_cmf = 0, reserved5_cmf = 0, reserved6_cmf = 0\<rparr>"

definition encode_brake_mode :: "ControlModeConfigMessage \<Rightarrow> BrakeModeConfigFrame" where
  "encode_brake_mode m =
     \<lparr>mode_bmf = ucast (mode_cmc m), reserved0_bmf = 0, reserved1_bmf = 0, reserved2_bmf = 0,
      reserved3_bmf = 0, reserved4_bmf = 0, reserved5_bmf = 0, reserved6_bmf = 0\<rparr>"

text \<open>The command and configuration branches, which fill their frame.\<close>

definition encode_command_v2 ::
  "bytes \<Rightarrow> StaticsV2 \<Rightarrow> AgxMessage \<Rightarrow> can_frame \<Rightarrow> (bool \<times> can_frame \<times> StaticsV2) res" where
  "encode_command_v2 stk st msg tx =
    (case (type_of msg, body msg) of
       (AgxMsgMotionCommand, MotionCommandBody m) \<Rightarrow>
         res_bind (encode_motion_command m) (\<lambda>fr.
           Inr (True, put_frame CAN_MSG_MOTION_COMMAND_ID 8 (MotionCommandFrame_bytes fr) tx, st))
     | (AgxMsgLightCommand, LightBody m) \<Rightarrow>
         Inr (True, put_frame CAN_MSG_LIGHT_COMMAND_ID 8
           (LightCommandFrame_bytes (encode_light_command (light_count_v2 st) m)) tx, bump_light_v2 st)
     | (AgxMsgSetMotionModeCommand, MotionModeBody m) \<Rightarrow>
         Inr (True, put_frame CAN_MSG_SET_MOTION_MODE_ID 8
           (SetMotionModeFrame_bytes (encode_set_motion_mode m)) tx, st)
     | (AgxMsgSystemState, SystemStateBody m) \<Rightarrow>
         res_bind (encode_system_state stk m) (\<lambda>fr.
           Inr (True, put_frame CAN_MSG_SYSTEM_STATE_ID 8 (SystemStateFrame_bytes fr) tx, st))
     | (AgxMsgMotionState, MotionStateBody m) \<Rightarrow>
         res_bind (encode_motion_state m) (\<lambda>fr.
           Inr (True, put_frame CAN_MSG_MOTION_STATE_ID 8 (MotionStateFrame_bytes fr) tx, st))
     | (AgxMsgControlModeConfig, b) \<Rightarrow>
         res_bind (control_mode_config_msg b) (\<lambda>m.
           Inr (True, put_frame CAN_MSG_CTRL_MODE_CONFIG_ID 8
             (ControlModeConfigFrame_bytes (encode_control_mode m)) tx, st))
     | (AgxMsgBrakeModeConfig, b) \<Rightarrow>
         res_bind (control_mode_config_msg b) (\<lambda>m.
           Inr (True, put_frame CAN_MSG_BRAKING_COMMAND_ID 8
             (BrakeModeConfigFrame_bytes (encode_brake_mode m)) tx, st))
     | _ \<Rightarrow> Inl UnionMismatch)"

text \<open>
  The branches marked TODO copy their uninitialised frame; the identifier may depend on the
  message's actuator or sensor number.
\<close>

definition encode_blank_v2 :: "bytes \<Rightarrow> AgxMessage \<Rightarrow> can_frame \<Rightarrow> can_frame res" where
  "encode_blank_v2 stk msg tx =
    (case (type_of msg, body msg) of
       (AgxMsgBrakingCommand, _) \<Rightarrow> Inr (put_frame CAN_MSG_BRAKING_COMMAND_ID 2 stk tx)
     | (AgxMsgLightState, _) \<Rightarrow> Inr (put_frame CAN_MSG_LIGHT_STATE_ID 8 stk tx)
     | (AgxMsgRcState, _) \<Rightarrow> Inr (put_frame CAN_MSG_RC_STATE_ID 8 stk tx)
     | (AgxMsgActuatorHSState, ActuatorHSBody m) \<Rightarrow>
         Inr (put_frame (ucast (motor_id_hs m) + CAN_MSG_ACTUATOR1_HS_STATE_ID) 8 stk tx)
     | (AgxMsgActuatorLSState, ActuatorLSBody m) \<Rightarrow>
         Inr (put_frame (ucast (motor_id_ls m) + CAN_MSG_ACTUATOR1_LS_STATE_ID) 8 stk tx)
     | (AgxMsgOdometry, _) \<Rightarrow> Inr (put_frame CAN_MSG_ODOMETRY_ID 8 stk tx)
     | (AgxMsgImuAccel, _) \<Rightarrow> Inr (put_frame CAN_MSG_IMU_ACCEL_ID 8 stk tx)
     | (AgxMsgImuGyro, _) \<Rightarrow> Inr (put_frame CAN_MSG_IMU_GYRO_ID 8 stk tx)
     | (AgxMsgImuEuler, _) \<Rightarrow> Inr (put_frame CAN_MSG_IMU_EULER_ID 8 stk tx)
     | (AgxMsgSafetyBumper, _) \<Rightarrow> Inr (put_frame CAN_MSG_SAFETY_BUMPER_ID 8 stk tx)
     | (AgxMsgUltrasonic, UltrasonicBody m) \<Rightarrow>
         Inr (put_frame (ucast (sensor_id_us m) + CAN_MSG_ULTRASONIC_1_ID) 8 stk tx)
     | (AgxMsgUwb, UwbBody m) \<Rightarrow>
         Inr (put_frame (ucast (sensor_id_uwb m) + CAN_MSG_UWB_1_ID) 8 stk tx)
     | (AgxMsgBmsBasic, _) \<Rightarrow> Inr (put_frame CAN_MSG_BMS_BASIC_ID 8 stk tx)
     | (AgxMsgBmsExtended, _) \<Rightarrow> Inr (put_frame CAN_MSG_BMS_EXTENDED_ID 8 stk tx)
     | (AgxMsgVersionRequest, _) \<Rightarrow> Inr (put_frame CAN_MSG_VERSION_REQUEST_ID 8 stk tx)
     | (AgxMsgVersionResponse, _) \<Rightarrow> Inr (put_frame CAN_MSG_VERSION_RESPONSE_ID 8 stk tx)
     | (AgxMsgSteerNeutralRequest, _) \<Rightarrow> Inr (put_frame CAN_MSG_STEER_NEUTRAL_REQUEST_ID 8 stk tx)
     | (AgxMsgSteerNeutralResponse, _) \<Rightarrow> Inr (put_frame CAN_MSG_STEER_NEUTRAL_RESPONSE_ID 8 stk tx)
     | (AgxMsgStateResetConfig, _) \<Rightarrow> Inr (put_frame CAN_MSG_STATE_RESET_CONFIG_ID 8 stk tx)
     | _ \<Rightarrow> Inl UnionMismatch)"

text \<open>The message types of the \<open>default\<close> branch, and those whose branch fills its frame.\<close>

definition unencoded_v2 :: "MsgType \<Rightarrow> bool" where
  "unencoded_v2 t = (t \<in> {AgxMsgUnkonwn, AgxMsgMotionModeState, AgxMsgMotorAngle, AgxMsgMotorSpeed,
     AgxMsgMotionCommandV1, AgxMsgValueSetCommandV1, AgxMsgValueSetStateV1, AgxMsgActuatorStateV1})"

definition filled_v2 :: "MsgType \<Rightarrow> bool" where
  "filled_v2 t = (t \<in> {AgxMsgMotionCommand, AgxMsgLightCommand, AgxMsgSetMotionModeCommand,
     AgxMsgSystemState, AgxMsgMotionState, AgxMsgControlModeConfig, AgxMsgBrakeModeConfig})"

definition EncodeCanFrameV2 ::
  "bytes \<Rightarrow> StaticsV2 \<Rightarrow> AgxMessage \<Rightarrow> can_frame \<Rightarrow> (bool \<times> can_frame \<times> StaticsV2) res" where
  "EncodeCanFrameV2 stk st msg tx =
    (if unencoded_v2 (type_of msg) then Inr (False, tx, st)
     else if filled_v2 (type_of msg) then encode_command_v2 stk st msg tx
     else res_bind (encode_blank_v2 stk msg tx) (\<lambda>fr. Inr (True, fr, st)))"

section \<open>Checksum\<close>

text \<open>
  The \<open>int\<close> loop \<open>for (i = 0; i < dlc - 1; ++i)\<close>: no pass for \<open>dlc\<close> 0 or 1, and a read past the
  eight data bytes when \<open>dlc\<close> exceeds nine.
\<close>

fun sum_bytes :: "nat \<Rightarrow> bytes \<Rightarrow> u8 res" where
  "sum_bytes 0 bs = Inr 0"
| "sum_bytes (Suc n) [] = Inl IndexOutOfRange"
| "sum_bytes (Suc n) (b # bs) = res_bind (sum_bytes n bs) (\<lambda>s. Inr (b + s))"

definition CalcCanFrameChecksumV2 :: "u16 \<Rightarrow> bytes \<Rightarrow> u8 \<Rightarrow> u8 res" where
  "CalcCanFrameChecksumV2 fid bs dlc =
     res_bind (sum_bytes (unat dlc - 1) bs) (\<lambda>s.
       Inr (ucast (fid AND 0xff) + ucast (drop_bit 8 fid) + dlc + s))"

end
