(* ===== verification/Protocol_V2_Theorems.thy ===== *)
theory Protocol_V2_Theorems
  imports Protocol_V2
begin

text \<open>
  What the version 2 parser does: accuracy of the fixed-point conversions, round trips through the
  wire, agreement of tag and union member, and the checksum.
\<close>

section \<open>Vocabulary of the statements\<close>

definition velocity_ok :: "fp \<Rightarrow> bool" where
  "velocity_ok v = (is_fin v \<and> fp_wf B32 v \<and> \<bar>fval v\<bar> \<le> 32767 / 1000)"

definition reencoded :: "i16 \<Rightarrow> i16 \<Rightarrow> bool" where
  "reencoded w w' = (mul1000_i16 (div1000 (sint w)) = Inr w' \<and> sint w' \<in> {sint w, sint w - sgn (sint w)})"

definition light_off :: LightCommandMessage where
  "light_off = \<lparr>enable_cmd_ctrl = False, front_light = \<lparr>mode_light = 0, custom_value = 0\<rparr>,
     rear_light = \<lparr>mode_light = 0, custom_value = 0\<rparr>\<rparr>"

definition sample_frame :: "u32 \<Rightarrow> can_frame" where
  "sample_frame fid = \<lparr>can_id = fid, can_dlc = 8, data_of = [0, 250, 0, 0, 255, 255, 0, 0]\<rparr>"

section \<open>Fixed-point conversions\<close>

lemmas fint_1000 = fint_value[of 1000, simplified]

lemma div1000_value:
  assumes "\<bar>n\<bar> \<le> 32768"
  shows "is_fin (div1000 n)" "fp_wf B32 (div1000 n)" "\<bar>fval (div1000 n) - of_int n / 1000\<bar> \<le> 1 / 400000"
proof -
  let ?x = "fint B64 n" and ?q = "fdiv B64 (fint B64 n) (flit B64 1000)"
  have nb: "\<bar>of_int n\<bar> \<le> (32768 :: rat)" using assms by linarith
  have n: "\<bar>n\<bar> \<le> 16777215" using assms by simp
  note x = fint_value[OF n, of B64]
  have q: "is_fin ?q" "\<bar>fval ?q - of_int n / 1000\<bar> \<le> 1 / 100000000" "fp_wf B64 ?q"
    using fdiv_error[OF x(1,3) fint_1000(1,3)[of B64], of 33 B64 "1 / 100000000"] nb x fint_1000
    by (auto simp: pow2_def flit_numeral)
  have "\<bar>fval ?q\<bar> \<le> 33" using q(2) nb by linarith
  then have c: "is_fin (fcvt B32 ?q)" "\<bar>fval (fcvt B32 ?q) - fval ?q\<bar> \<le> 1 / 500000"
    using fcvt_error[OF q(1,3), of 33 B32 "1 / 500000"] by (auto simp: pow2_def)
  then show "is_fin (div1000 n)" "fp_wf B32 (div1000 n)"
    using c fp_wf_fcvt[OF q(3), of B32] by (simp_all add: div1000_def)
  show "\<bar>fval (div1000 n) - of_int n / 1000\<bar> \<le> 1 / 400000"
    using q(2) c(2) unfolding div1000_def by linarith
qed

lemma mul1000_value:
  assumes "is_fin v" "fp_wf B32 v" "\<bar>1000 * fval v\<bar> \<le> 32768 + 1 / 100"
  shows "is_fin (fmul B32 v (fint B32 1000))" "fp_wf B32 (fmul B32 v (fint B32 1000))"
    "\<bar>fval (fmul B32 v (fint B32 1000)) - 1000 * fval v\<bar> \<le> 1 / 500"
  using fmul_error[OF assms(1,2) fint_1000(1,3)[of B32], of 32769 B32 "1 / 500"] assms fint_1000
  by (auto simp: pow2_def mult.commute)


lemma mul1000_i16_ok:
  assumes "is_fin v" "fp_wf B32 v" "\<bar>1000 * fval v - c\<bar> \<le> 1 / 100" "\<bar>c\<bar> \<le> 32767"
  obtains w where "mul1000_i16 v = Inr w" "\<bar>of_int (sint w) - 1000 * fval v\<bar> < 1 + 1 / 500"
proof -
  let ?g = "fmul B32 v (fint B32 1000)"
  have b: "\<bar>1000 * fval v\<bar> \<le> 32768 + 1 / 100" using assms(3,4) by linarith
  note g = mul1000_value[OF assms(1,2) b]
  have "\<bar>fval ?g\<bar> < 32768" using g(3) assms(3,4) by linarith
  then obtain w where "to_i16 ?g = Inr w" "\<bar>of_int (sint w) - fval ?g\<bar> < 1"
    using to_i16_ok[OF g(1,2)] by metis
  then show ?thesis using g(3) by (intro that[of w]) (simp add: mul1000_i16_def, linarith)
qed

lemma encode_command_value:
  assumes "is_fin v" "fp_wf B32 v" "\<bar>fval v\<bar> \<le> 32767 / 1000"
  obtains w where "mul1000_i16 v = Inr w" "\<bar>fval (div1000 (sint w)) - fval v\<bar> < 1 / 990"
proof -
  have "\<bar>1000 * fval v\<bar> \<le> 32767" using assms(3) by linarith
  then obtain w where w: "mul1000_i16 v = Inr w" "\<bar>of_int (sint w) - 1000 * fval v\<bar> < 1 + 1 / 500"
    using mul1000_i16_ok[OF assms(1,2), of "1000 * fval v"] by auto
  have "\<bar>sint w\<bar> \<le> 32768" using sint_greater_eq[of w] sint_less[of w] by simp
  then show ?thesis using that[OF w(1)] w(2) div1000_value(3)[of "sint w"] by linarith
qed

lemma floor_near:
  assumes "0 \<le> m" "\<bar>m - of_int n\<bar> < (1 / 2 :: rat)"
  shows "\<lfloor>m\<rfloor> = n \<or> \<lfloor>m\<rfloor> = n - sgn n"
proof -
  have "of_int n > (- 1 :: rat)" using assms by linarith
  then have n: "0 \<le> n" by simp
  have f: "of_int \<lfloor>m\<rfloor> \<le> m" "m < of_int \<lfloor>m\<rfloor> + 1" "0 \<le> \<lfloor>m\<rfloor>" using assms(1) by linarith+
  have "of_int \<lfloor>m\<rfloor> < (of_int n + 1 :: rat)" "of_int n - 2 < (of_int \<lfloor>m\<rfloor> :: rat)"
    using f assms(2) by linarith+
  then have "\<lfloor>m\<rfloor> < n + 1" "n - 2 < \<lfloor>m\<rfloor>" by linarith+
  then have "\<lfloor>m\<rfloor> = n \<or> (0 < n \<and> \<lfloor>m\<rfloor> = n - 1)" using n f(3) by linarith
  then show ?thesis by auto
qed

lemma ftrunc_near_int:
  assumes "is_fin x" "fp_wf f x" "\<bar>fval x - of_int n\<bar> < 1 / 2" "ftrunc x = Some k"
  shows "k = n \<or> k = n - sgn n"
proof -
  obtain s m where x: "x = Fin s m" and m: "0 \<le> m" using assms by (cases x) auto
  show ?thesis
  proof (cases s)
    case True
    then have k: "k = - \<lfloor>m\<rfloor>" and "\<bar>- m - of_int n\<bar> < 1 / 2"
      using assms x by (auto simp: sgn_val_def)
    then have "\<bar>m - of_int (- n)\<bar> < 1 / 2" unfolding of_int_minus by linarith
    then show ?thesis using k floor_near[OF m, of "- n"] by auto
  next
    case False
    then show ?thesis using assms x floor_near[OF m, of n] by (auto simp: sgn_val_def)
  qed
qed

lemma mul1000_div1000:
  obtains w' where "mul1000_i16 (div1000 (sint w)) = Inr w'"
    "sint w' = sint w \<or> sint w' = sint w - sgn (sint (w :: i16))"
proof -
  let ?n = "sint w" and ?v = "div1000 (sint w)"
  let ?g = "fmul B32 ?v (fint B32 1000)"
  have nb: "- 32768 \<le> ?n" "?n < 32768" using sint_greater_eq[of w] sint_less[of w] by simp_all
  then have nr: "\<bar>of_int ?n\<bar> \<le> (32768 :: rat)" by linarith
  have "\<bar>?n\<bar> \<le> 32768" using nb by simp
  note v = div1000_value[OF this]
  have b: "\<bar>1000 * fval ?v\<bar> \<le> 32768 + 1 / 100" using v(3) nr by linarith
  note g = mul1000_value[OF v(1,2) b]
  have near: "\<bar>fval ?g - of_int ?n\<bar> < 1 / 2" using g(3) v(3) by linarith
  obtain k where k: "ftrunc ?g = Some k" using ftrunc_near[OF g(1,2)] by metis
  have kn: "k = ?n \<or> k = ?n - sgn ?n" by (rule ftrunc_near_int[OF g(1,2) near k])
  then have kb: "- 32768 \<le> k" "k \<le> 32767" using nb by (auto simp: sgn_if)
  have "sint (word_of_int k :: i16) = k"
    using kb by (simp add: signed_of_int signed_take_bit_int_eq_self_iff)
  then show ?thesis using that[of "word_of_int k"] kn k kb
    by (simp add: mul1000_i16_def to_i16_def to_int_in_ok)
qed

section \<open>Frames of the encoder seen by the decoder\<close>

lemma decode_encoded:
  assumes "frame_wf tx" "length bs = 8"
  shows "data_of (put_frame fid 8 bs tx) = bs"
  using assms by (simp add: frame_wf_def)

lemmas encode_defs = EncodeCanFrameV2_def unencoded_v2_def filled_v2_def encode_command_v2_def
lemmas decode_defs = DecodeCanFrameV2_def decode_core_v2_def decode_sensor_v2_def

lemma velocity_okE:
  assumes "velocity_ok v"
  obtains w where "mul1000_i16 v = Inr w" "\<bar>fval (div1000 (sint w)) - fval v\<bar> < 1 / 990"
  using assms encode_command_value unfolding velocity_ok_def by metis

lemma reencode_field: "\<exists>w'. reencoded w w'"
  unfolding reencoded_def using mul1000_div1000[of w] by blast

lemma ucast_down_up: "(x :: u32) < 256 \<Longrightarrow> ucast (ucast x :: u8) = x"
  by (simp add: word_uint_eq_iff unsigned_ucast_eq unsigned_take_bit_eq word_less_def take_bit_int_eq_self)

lemma light_bytes_roundtrip:
  assumes "mode_light (front_light m) < 256" "mode_light (rear_light m) < 256"
  shows "decode_light_command (encode_light_command c m) = (if enable_cmd_ctrl m then m else light_off)"
  using assms
  by (simp add: decode_light_command_def encode_light_command_def light_off_def v2_masks ucast_down_up)

lemma sum_bytes_ok: "n \<le> length bs \<Longrightarrow> sum_bytes n bs = Inr (sum_list (take n bs))"
  by (induction n bs rule: sum_bytes.induct) simp_all

lemma sum_bytes_short: "length bs < n \<Longrightarrow> sum_bytes n bs = Inl IndexOutOfRange"
  by (induction n bs rule: sum_bytes.induct) simp_all

lemma id_bytes:
  "(ucast ((fid :: u16) AND 0xff) :: u8) = word_of_int (uint fid mod 256)"
  "(ucast (drop_bit 8 fid) :: u8) = word_of_int (uint fid div 256)"
proof -
  have "uint (fid AND 0xff) = uint fid mod 256"
    unfolding low_mask by (simp add: take_bit_eq_mod uint_mod flip: take_bit_eq_mask)
  moreover have "uint (drop_bit 8 fid) = uint fid div 256"
    by (simp add: drop_bit_eq_div uint_div)
  ultimately show "(ucast (fid AND 0xff) :: u8) = word_of_int (uint fid mod 256)"
    "(ucast (drop_bit 8 fid) :: u8) = word_of_int (uint fid div 256)"
    by (metis ucast_eq)+
qed

lemma sum_list_uint: "sum_list bs = word_of_int (sum_list (map uint bs))"
  by (induction bs) simp_all

lemma velocity_ok_fint: "\<bar>n\<bar> \<le> 32 \<Longrightarrow> velocity_ok (fint B32 n)"
  using fint_value[of n B32] by (simp add: velocity_ok_def)

lemma frame_wf_sample [simp]: "frame_wf (sample_frame fid)"
  by (simp add: sample_frame_def frame_wf_def)

lemma div1000_251: "div1000 251 = Fin False (8422162 / 2 ^ 25)"
proof -
  have 1: "pack B64 False (251 / 1000) = Fin False (of_int 4521614025879978 * pow2 (- 54))"
    by (rule pack_eval) (simp_all add: pow2_def)
  have 2: "pack B32 False (of_int 4521614025879978 * pow2 (- 54)) = Fin False (of_int 8422162 * pow2 (- 25))"
    by (rule pack_eval) (simp_all add: pow2_def)
  show ?thesis using 1 2 by (simp add: div1000_def flit_numeral fint_exact)
qed

lemma mul1000_251: "mul1000_i16 (div1000 251) = Inr 250"
proof -
  have 1: "pack B32 False (8422162 / 2 ^ 25 * 1000) = Fin False (of_int 16449535 * pow2 (- 16))"
    by (rule pack_eval) (simp_all add: pow2_def)
  have "\<lfloor>16449535 / 65536 :: rat\<rfloor> = 250" by (simp add: floor_eq_iff)
  then show ?thesis using 1 by (simp add: mul1000_i16_def div1000_251 fint_exact to_i16_def to_int_in_def)
qed

lemma mul1000_0: "mul1000_i16 (div1000 0) = Inr 0"
  by (simp add: mul1000_i16_def div1000_def flit_numeral fint_exact to_i16_def to_int_in_def
    pack_small rnd_def)

lemma to_i16_big:
  assumes "is_fin x" "32768 \<le> fval x \<or> fval x \<le> - 32769"
  shows "to_i16 x = Inl FloatToIntRange"
proof -
  obtain s m where x: "x = Fin s m" using assms by (cases x) auto
  show ?thesis
    using assms(2) by (cases s) (simp_all add: x to_i16_def to_int_in_def sgn_val_def floor_less_iff, linarith+)
qed

lemma mul1000_i16_undefined:
  assumes "fp_wf B32 v" "\<not> is_fin v \<or> 32768 / 1000 \<le> fval v \<or> fval v \<le> - 32769 / 1000"
  shows "mul1000_i16 v = Inl FloatToIntRange"
proof (cases v)
  case (Fin s m)
  have r: "rnd B32 (of_int k) = of_int k" if "0 \<le> k" "k \<le> 32769" for k
    using that by (intro rnd_int) (simp_all add: pow2_def)
  have ge: "of_int k \<le> rnd B32 (m * 1000)" if "0 \<le> k" "k \<le> 32769" "of_int k \<le> m * 1000" for k
    using rnd_mono[of "of_int k" "m * 1000" B32] r[OF that(1,2)] that by simp
  let ?p = "fmul B32 v (fint B32 1000)"
  have p: "?p = pack B32 s (m * 1000)" by (simp add: Fin fint_exact)
  show ?thesis
  proof (cases "is_fin ?p")
    case True
    then have "?p = Fin s (rnd B32 (m * 1000))" by (simp add: p pack_def Let_def split: if_splits)
    moreover have "32768 \<le> fval ?p \<or> fval ?p \<le> - 32769"
      using assms ge[of 32768] ge[of 32769] Fin calculation by (auto simp: sgn_val_def split: if_splits)
    ultimately show ?thesis using to_i16_big[OF True] by (simp add: mul1000_i16_def)
  qed (simp add: mul1000_i16_def to_i16_def to_int_in_nonfin)
qed (simp_all add: mul1000_i16_def to_i16_def to_int_in_def fint_exact)

lemma All_less_8: "(\<forall>n < 8. P (n :: nat)) \<longleftrightarrow> P 0 \<and> P 1 \<and> P 2 \<and> P 3 \<and> P 4 \<and> P 5 \<and> P 6 \<and> P 7"
  by (simp add: numeral_eq_Suc All_less_Suc) blast

lemma u8_eq_iff: "(v :: u8) = w \<longleftrightarrow> (\<forall>n < 8. bit v n = bit w n)"
  using bit_word_eqI[of v w] by auto

lemma rc_masks:
  "(w AND 3 = 2 \<or> w AND 3 = 3) \<longleftrightarrow> bit (w :: u8) 1"
  "(w AND 12 = 8 \<or> w AND 12 = 4 \<or> w AND 12 = 12) \<longleftrightarrow> bit w 2 \<or> bit w 3"
  "(w AND 48 = 32 \<or> w AND 48 = 16 \<or> w AND 48 = 48) \<longleftrightarrow> bit w 4 \<or> bit w 5"
  "(w AND 192 = 128 \<or> w AND 192 = 192) \<longleftrightarrow> bit w 7"
  by (auto simp: u8_eq_iff All_less_8 bit_and_iff)

lemma decode_tag_v2:
  assumes "DecodeCanFrameV2 raw rx = (True, msg)"
  shows "tag_ok (type_of msg) (body msg)"
  using assms
  by (auto simp: decode_defs decode_actuator_hs_def decode_actuator_ls_def
     decode_version_response_def v2_ids split: if_splits)

section \<open>Properties\<close>

text \<open>
  C7: a motion command whose four velocities are finite floats of at most 32.767 in magnitude is
  encoded without undefined behaviour into frame 0x111 of eight bytes, and the decoder reads back the
  same kind of message with each velocity within 1/990 of what was commanded.
\<close>

theorem motion_command_roundtrip:
  assumes "velocity_ok (linear_velocity_mc m)" "velocity_ok (angular_velocity_mc m)"
    "velocity_ok (lateral_velocity_mc m)" "velocity_ok (steering_angle_mc m)" "frame_wf tx"
  shows "\<exists>tx' m'. EncodeCanFrameV2 stk st \<lparr>type_of = AgxMsgMotionCommand, body = MotionCommandBody m\<rparr> tx
      = Inr (True, tx', st) \<and>
    can_id tx' = CAN_MSG_MOTION_COMMAND_ID \<and> can_dlc tx' = 8 \<and> frame_wf tx' \<and>
    DecodeCanFrameV2 raw tx' = (True, \<lparr>type_of = AgxMsgMotionCommand, body = MotionCommandBody m'\<rparr>) \<and>
    (\<forall>get \<in> {linear_velocity_mc, angular_velocity_mc, lateral_velocity_mc, steering_angle_mc}.
       \<bar>fval (get m') - fval (get m)\<bar> < 1 / 990)"
proof -
  obtain a b c d where w: "mul1000_i16 (linear_velocity_mc m) = Inr a"
      "mul1000_i16 (angular_velocity_mc m) = Inr b" "mul1000_i16 (lateral_velocity_mc m) = Inr c"
      "mul1000_i16 (steering_angle_mc m) = Inr d"
    and e: "\<bar>fval (div1000 (sint a)) - fval (linear_velocity_mc m)\<bar> < 1 / 990"
      "\<bar>fval (div1000 (sint b)) - fval (angular_velocity_mc m)\<bar> < 1 / 990"
      "\<bar>fval (div1000 (sint c)) - fval (lateral_velocity_mc m)\<bar> < 1 / 990"
      "\<bar>fval (div1000 (sint d)) - fval (steering_angle_mc m)\<bar> < 1 / 990"
    using assms(1-4) velocity_okE by metis
  show ?thesis
    using w e assms(5)
    by (auto simp: encode_defs decode_defs encode_motion_command_def decode_encoded mcf.length_to_bytes
      mcf.of_to decode_motion_command_def frame_wf_put_frame simp del: put_frame_sel(3))
qed

theorem motion_command_roundtrip_witness:
  "velocity_ok (fint B32 2) \<and> velocity_ok (fint B32 0) \<and> frame_wf (sample_frame 0) \<and>
   (\<exists>tx' m'. EncodeCanFrameV2 [] \<lparr>light_count_v2 = 0\<rparr> \<lparr>type_of = AgxMsgMotionCommand,
      body = MotionCommandBody \<lparr>linear_velocity_mc = fint B32 2, angular_velocity_mc = fint B32 0,
        lateral_velocity_mc = fint B32 0, steering_angle_mc = fint B32 0\<rparr>\<rparr> (sample_frame 0)
      = Inr (True, tx', \<lparr>light_count_v2 = 0\<rparr>) \<and>
     DecodeCanFrameV2 zero_union tx' = (True, \<lparr>type_of = AgxMsgMotionCommand, body = MotionCommandBody m'\<rparr>) \<and>
     \<bar>fval (linear_velocity_mc m') - 2\<bar> < 1 / 990)"
  using motion_command_roundtrip[of "\<lparr>linear_velocity_mc = fint B32 2, angular_velocity_mc = fint B32 0,
        lateral_velocity_mc = fint B32 0, steering_angle_mc = fint B32 0\<rparr>" "sample_frame 0" "[]"
        "\<lparr>light_count_v2 = 0\<rparr>" zero_union] velocity_ok_fint[of 2] velocity_ok_fint[of 0] fint_value(2)[of 2 B32]
  by fastforce

text \<open>
  Decoding any motion state frame and encoding the message again always succeeds, keeps the
  identifier, and gives in each of the four 16-bit fields the same integer or the one next to it
  towards zero.
\<close>

lemma motion_state_reencode:
  assumes "frame_wf rx" "frame_wf tx" "can_id rx = CAN_MSG_MOTION_STATE_ID"
  shows "\<exists>msg tx'. DecodeCanFrameV2 raw rx = (True, msg) \<and>
    EncodeCanFrameV2 stk st msg tx = Inr (True, tx', st) \<and> can_id tx' = can_id rx \<and> can_dlc tx' = 8 \<and>
    (\<forall>i \<in> {0, 2, 4, 6}. sint (word16 (of16 (data_of tx') i)) \<in>
       {sint (word16 (of16 (data_of rx) i)),
        sint (word16 (of16 (data_of rx) i)) - sgn (sint (word16 (of16 (data_of rx) i)))})"
proof -
  let ?f = "\<lambda>i. word16 (of16 (data_of rx) i)"
  obtain g where g: "mul1000_i16 (div1000 (sint (?f i))) = Inr (g i)"
      "sint (g i) \<in> {sint (?f i), sint (?f i) - sgn (sint (?f i))}" for i
    using choice[OF allI, of "\<lambda>i. reencoded (?f i)", OF reencode_field] unfolding reencoded_def by auto
  let ?fr = "\<lparr>linear_velocity_msf = split16 (g 0), angular_velocity_msf = split16 (g 2),
    lateral_velocity_msf = split16 (g 4), steering_angle_msf = split16 (g 6)\<rparr>"
  have "of16 (MotionStateFrame_bytes ?fr) 0 = split16 (g 0)"
    "of16 (MotionStateFrame_bytes ?fr) 2 = split16 (g 2)"
    "of16 (MotionStateFrame_bytes ?fr) 4 = split16 (g 4)"
    "of16 (MotionStateFrame_bytes ?fr) 6 = split16 (g 6)"
    by (simp_all add: layout_defs)
  moreover have "MotionStateFrame_of (data_of rx) = \<lparr>linear_velocity_msf = of16 (data_of rx) 0,
     angular_velocity_msf = of16 (data_of rx) 2, lateral_velocity_msf = of16 (data_of rx) 4,
     steering_angle_msf = of16 (data_of rx) 6\<rparr>" by (simp add: MotionStateFrame_of_def)
  ultimately show ?thesis
    using g assms
    by (simp add: encode_defs decode_defs decode_encoded msf.length_to_bytes
      decode_motion_state_def encode_motion_state_def v2_ids del: put_frame_sel(3))
qed



text \<open>
  A light command with modes of one byte is encoded and decoded back to itself when control is
  enabled, and to the cleared command when it is not; the last byte carries the rolling counter, which
  advances by one and wraps after 255.
\<close>

lemma light_command_roundtrip:
  assumes "frame_wf tx" "mode_light (front_light m) < 256" "mode_light (rear_light m) < 256"
  shows "\<exists>tx'. EncodeCanFrameV2 stk st \<lparr>type_of = AgxMsgLightCommand, body = LightBody m\<rparr> tx
      = Inr (True, tx', \<lparr>light_count_v2 = light_count_v2 st + 1\<rparr>) \<and>
    can_id tx' = CAN_MSG_LIGHT_COMMAND_ID \<and> can_dlc tx' = 8 \<and> data_of tx' ! 7 = light_count_v2 st \<and>
    DecodeCanFrameV2 raw tx' = (True, \<lparr>type_of = AgxMsgLightCommand,
      body = LightBody (if enable_cmd_ctrl m then m else light_off)\<rparr>)"
proof -
  have "LightCommandFrame_bytes (encode_light_command c m) ! 7 = c" for c
    by (simp add: layout_defs encode_light_command_def)
  then show ?thesis using assms
    by (simp add: encode_defs decode_defs decode_encoded lcf.length_to_bytes lcf.of_to v2_ids
      light_bytes_roundtrip bump_light_v2_def del: put_frame_sel(3))
qed

text \<open>
  the checksum is the sum modulo 256 of the two identifier bytes, the length code and the first
  \<open>dlc - 1\<close> data bytes; a length code above nine reads past the data.
\<close>

lemma checksum_v2:
  assumes "length bs = 8"
  shows "CalcCanFrameChecksumV2 fid bs dlc = (if unat dlc \<le> 9
    then Inr (word_of_int (uint fid mod 256 + uint fid div 256 + uint dlc +
      sum_list (map uint (take (unat dlc - 1) bs))))
    else Inl IndexOutOfRange)"
  using assms by (auto simp: CalcCanFrameChecksumV2_def sum_bytes_ok sum_bytes_short id_bytes sum_list_uint)

text \<open>
  A linear velocity that is not finite, or at or beyond the range of the 16-bit field, makes the
  encoder convert a float out of the range of \<open>int16_t\<close>, whatever the rest of the command is.
\<close>

lemma motion_command_undefined:
  assumes "fp_wf B32 (linear_velocity_mc m)" "\<not> is_fin (linear_velocity_mc m) \<or> 32768 / 1000 \<le> fval (linear_velocity_mc m) \<or>
    fval (linear_velocity_mc m) \<le> - 32769 / 1000"
  shows "EncodeCanFrameV2 stk st \<lparr>type_of = AgxMsgMotionCommand, body = MotionCommandBody m\<rparr> tx = Inl FloatToIntRange"
  using mul1000_i16_undefined[OF assms] by (simp add: encode_defs encode_motion_command_def)

text \<open>
  the conversion truncates instead of rounding: a linear velocity of 251 on the wire is encoded
  again as 250.
\<close>

lemma motion_state_loses_unit:
  "\<exists>msg tx'. DecodeCanFrameV2 raw \<lparr>can_id = 0x221, can_dlc = 8, data_of = [0, 251, 0, 0, 0, 0, 0, 0]\<rparr> = (True, msg) \<and>
     EncodeCanFrameV2 stk st msg \<lparr>can_id = 0, can_dlc = 0, data_of = [0, 0, 0, 0, 0, 0, 0, 0]\<rparr> = Inr (True, tx', st) \<and>
     data_of tx' = [0, 250, 0, 0, 0, 0, 0, 0]"
  using mul1000_251 mul1000_0
  by (simp add: encode_defs decode_defs decode_motion_state_def encode_motion_state_def v2_ids
     layout_defs word16_def split16_def memcpy_def)

text \<open>
  The four switches of a decoded remote control state depend on the frame alone exactly when the
  upper bit of fields A and D and some bit of fields B and C are set; for any other pattern a switch
  keeps what the uninitialised message held.
\<close>

lemma rc_switches_defined:
  "(\<forall>old old'. decode_rc_state old fr = decode_rc_state old' fr) \<longleftrightarrow>
     bit (sws_rcf fr) 1 \<and> (bit (sws_rcf fr) 2 \<or> bit (sws_rcf fr) 3) \<and>
     (bit (sws_rcf fr) 4 \<or> bit (sws_rcf fr) 5) \<and> bit (sws_rcf fr) 7"
  (is "?L \<longleftrightarrow> ?R")
proof
  assume ?L
  then have "decode_rc_state (rc_memory 5) fr = decode_rc_state (rc_memory 6) fr" by blast
  then show ?R
    unfolding rc_masks[symmetric]
    by (simp add: decode_rc_state_def rc_memory_def v2_masks split: if_splits)
next
  assume ?R
  then show ?L
    unfolding rc_masks[symmetric] by (auto simp: decode_rc_state_def v2_masks)
qed

end
