(* ===== verification/Protocol_V1_Frames.thy ===== *)
theory Protocol_V1_Frames
  imports Frame_Layout
begin

text \<open>
  \<open>agilex_protocol_v1.h\<close>: the message identifiers and the packed frame structs of protocol version 1.
  The names carry the suffix V1 where version 2 has the same name. The state frames are not structs of
  the decoder: it reads their bytes by index, except for the light state, which has the layout of the
  light command.
\<close>

section \<open>Message identifiers and field values\<close>

named_theorems v1_ids \<open>message identifiers of protocol version 1\<close>

definition CAN_MSG_MOTION_COMMAND_ID_V1 :: u32 where [v1_ids]: "CAN_MSG_MOTION_COMMAND_ID_V1 = 0x130"
definition CAN_MSG_LIGHT_COMMAND_ID_V1 :: u32 where [v1_ids]: "CAN_MSG_LIGHT_COMMAND_ID_V1 = 0x140"
definition CAN_MSG_VALUE_SET_COMMAND_ID_V1 :: u32 where [v1_ids]: "CAN_MSG_VALUE_SET_COMMAND_ID_V1 = 0x210"
definition CAN_MSG_MOTION_STATE_ID_V1 :: u32 where [v1_ids]: "CAN_MSG_MOTION_STATE_ID_V1 = 0x131"
definition CAN_MSG_LIGHT_STATE_ID_V1 :: u32 where [v1_ids]: "CAN_MSG_LIGHT_STATE_ID_V1 = 0x141"
definition CAN_MSG_SYSTEM_STATE_ID_V1 :: u32 where [v1_ids]: "CAN_MSG_SYSTEM_STATE_ID_V1 = 0x151"
definition CAN_MSG_VALUE_SET_STATE_ID_V1 :: u32 where [v1_ids]: "CAN_MSG_VALUE_SET_STATE_ID_V1 = 0x211"
definition CAN_MSG_ACTUATOR1_STATE_ID_V1 :: u32 where [v1_ids]: "CAN_MSG_ACTUATOR1_STATE_ID_V1 = 0x200"
definition CAN_MSG_ACTUATOR2_STATE_ID_V1 :: u32 where [v1_ids]: "CAN_MSG_ACTUATOR2_STATE_ID_V1 = 0x201"
definition CAN_MSG_ACTUATOR3_STATE_ID_V1 :: u32 where [v1_ids]: "CAN_MSG_ACTUATOR3_STATE_ID_V1 = 0x202"
definition CAN_MSG_ACTUATOR4_STATE_ID_V1 :: u32 where [v1_ids]: "CAN_MSG_ACTUATOR4_STATE_ID_V1 = 0x203"

definition CTRL_MODE_CMD_CAN :: u8 where "CTRL_MODE_CMD_CAN = 0x01"
definition ERROR_CLR_NONE :: u8 where "ERROR_CLR_NONE = 0x00"
definition LIGHT_ENABLE_CMD_CTRL_V1 :: u8 where "LIGHT_ENABLE_CMD_CTRL_V1 = 0x01"
definition LIGHT_DISABLE_CMD_CTRL_V1 :: u8 where "LIGHT_DISABLE_CMD_CTRL_V1 = 0x00"

section \<open>Frame structs\<close>

record MotionCommandFrameV1 =
  control_mode_mcf1 :: u8
  error_clear_byte_mcf1 :: u8
  linear_percentage_mcf1 :: i8
  angular_percentage_mcf1 :: i8
  lateral_percentage_mcf1 :: i8
  reserved0_mcf1 :: u8
  count_mcf1 :: u8
  checksum_mcf1 :: u8

definition MotionCommandFrameV1_bytes :: "MotionCommandFrameV1 \<Rightarrow> bytes" where [layout_defs]:
  "MotionCommandFrameV1_bytes f = [control_mode_mcf1 f, error_clear_byte_mcf1 f,
     linear_percentage_mcf1 f, angular_percentage_mcf1 f, lateral_percentage_mcf1 f,
     reserved0_mcf1 f, count_mcf1 f, checksum_mcf1 f]"

definition MotionCommandFrameV1_of :: "bytes \<Rightarrow> MotionCommandFrameV1" where [layout_defs]:
  "MotionCommandFrameV1_of bs = \<lparr>control_mode_mcf1 = bs ! 0,
     error_clear_byte_mcf1 = bs ! 1, linear_percentage_mcf1 = bs ! 2,
     angular_percentage_mcf1 = bs ! 3, lateral_percentage_mcf1 = bs ! 4,
     reserved0_mcf1 = bs ! 5, count_mcf1 = bs ! 6, checksum_mcf1 = bs ! 7\<rparr>"

interpretation mcf1: frame_layout 8 MotionCommandFrameV1_bytes MotionCommandFrameV1_of
  by unfold_locales (simp_all add: layout_defs take_8_nth)

record LightCommandFrameV1 =
  enable_cmd_ctrl_lcf1 :: u8
  front_mode_lcf1 :: u8
  front_custom_lcf1 :: u8
  rear_mode_lcf1 :: u8
  rear_custom_lcf1 :: u8
  reserved0_lcf1 :: u8
  count_lcf1 :: u8
  checksum_lcf1 :: u8

definition LightCommandFrameV1_bytes :: "LightCommandFrameV1 \<Rightarrow> bytes" where [layout_defs]:
  "LightCommandFrameV1_bytes f = [enable_cmd_ctrl_lcf1 f, front_mode_lcf1 f,
     front_custom_lcf1 f, rear_mode_lcf1 f, rear_custom_lcf1 f, reserved0_lcf1 f, count_lcf1 f,
     checksum_lcf1 f]"

definition LightCommandFrameV1_of :: "bytes \<Rightarrow> LightCommandFrameV1" where [layout_defs]:
  "LightCommandFrameV1_of bs = \<lparr>enable_cmd_ctrl_lcf1 = bs ! 0, front_mode_lcf1 = bs ! 1,
     front_custom_lcf1 = bs ! 2, rear_mode_lcf1 = bs ! 3, rear_custom_lcf1 = bs ! 4,
     reserved0_lcf1 = bs ! 5, count_lcf1 = bs ! 6, checksum_lcf1 = bs ! 7\<rparr>"

interpretation lcf1: frame_layout 8 LightCommandFrameV1_bytes LightCommandFrameV1_of
  by unfold_locales (simp_all add: layout_defs take_8_nth)

record ValueSetCommandFrame =
  set_neutral_vscf :: u8
  reserved0_vscf :: u8
  reserved1_vscf :: u8
  reserved2_vscf :: u8
  reserved3_vscf :: u8
  reserved4_vscf :: u8
  count_vscf :: u8
  checksum_vscf :: u8

definition ValueSetCommandFrame_bytes :: "ValueSetCommandFrame \<Rightarrow> bytes" where [layout_defs]:
  "ValueSetCommandFrame_bytes f = [set_neutral_vscf f, reserved0_vscf f, reserved1_vscf f,
     reserved2_vscf f, reserved3_vscf f, reserved4_vscf f, count_vscf f, checksum_vscf f]"

definition ValueSetCommandFrame_of :: "bytes \<Rightarrow> ValueSetCommandFrame" where [layout_defs]:
  "ValueSetCommandFrame_of bs = \<lparr>set_neutral_vscf = bs ! 0, reserved0_vscf = bs ! 1,
     reserved1_vscf = bs ! 2, reserved2_vscf = bs ! 3, reserved3_vscf = bs ! 4,
     reserved4_vscf = bs ! 5, count_vscf = bs ! 6, checksum_vscf = bs ! 7\<rparr>"

interpretation vscf: frame_layout 8 ValueSetCommandFrame_bytes ValueSetCommandFrame_of
  by unfold_locales (simp_all add: layout_defs take_8_nth)


end
