(* ===== verification/Protocol_V1.thy ===== *)
theory Protocol_V1
  imports Protocol_V1_Frames
begin

text \<open>
  \<open>agilex_msg_parser_v1.c\<close>, \<open>robot_limits.hpp\<close> and \<open>protocol_v1_parser.hpp\<close>: the decoder and encoder
  of protocol version 1, and the parser class that turns velocities into percentages of a robot's
  limits before it encodes them. The three \<open>static\<close> counters of the encoder are a record that is passed
  and returned; the caller's uninitialised message is the argument \<open>raw\<close>.
\<close>

section \<open>Checksum\<close>

text \<open>The same \<open>int\<close> loop as in version 2, over the first \<open>dlc - 1\<close> bytes.\<close>

fun sum_data_v1 :: "nat \<Rightarrow> bytes \<Rightarrow> u8 \<Rightarrow> u8 res" where
  "sum_data_v1 0 bs checksum = Inr checksum"
| "sum_data_v1 (Suc n) [] checksum = Inl IndexOutOfRange"
| "sum_data_v1 (Suc n) (b # bs) checksum = sum_data_v1 n bs (checksum + b)"

definition CalcCanFrameChecksumV1 :: "u16 \<Rightarrow> bytes \<Rightarrow> u8 \<Rightarrow> u8 res" where
  "CalcCanFrameChecksumV1 fid bs dlc =
     sum_data_v1 (unat dlc - 1) bs (ucast (fid AND 0xff) + ucast (drop_bit 8 fid) + dlc)"

section \<open>Decoder\<close>

text \<open>\<open>((uint16_t)data[i] << 8) | (uint16_t)data[i + 1]\<close>\<close>

definition be16 :: "bytes \<Rightarrow> nat \<Rightarrow> u16" where
  "be16 bs i = push_bit 8 (ucast (bs ! i)) OR ucast (bs ! (i + 1))"

definition decode_system_state_v1 :: "bytes \<Rightarrow> SystemStateMessage" where
  "decode_system_state_v1 bs =
     \<lparr>vehicle_state = ucast (bs ! 0), control_mode = ucast (bs ! 1),
      battery_voltage = fdiv B32 (fint B32 (uint (be16 bs 2))) (flit B32 10),
      error_code = be16 bs 4\<rparr>"

definition decode_motion_state_v1 :: "MotionStateMessage \<Rightarrow> bytes \<Rightarrow> MotionStateMessage" where
  "decode_motion_state_v1 old bs =
     old\<lparr>linear_velocity := fdiv B32 (fint B32 (sint (be16 bs 0))) (flit B32 1000),
         angular_velocity := fdiv B32 (fint B32 (sint (be16 bs 2))) (flit B32 1000),
         lateral_velocity := fdiv B32 (fint B32 (sint (be16 bs 4))) (flit B32 1000)\<rparr>"

definition decode_light_state_v1 :: "LightCommandFrameV1 \<Rightarrow> LightCommandMessage" where
  "decode_light_state_v1 fr =
     \<lparr>enable_cmd_ctrl = (enable_cmd_ctrl_lcf1 fr \<noteq> 0),
      front_light = \<lparr>mode_light = ucast (front_mode_lcf1 fr), custom_value = front_custom_lcf1 fr\<rparr>,
      rear_light = \<lparr>mode_light = ucast (rear_mode_lcf1 fr), custom_value = rear_custom_lcf1 fr\<rparr>\<rparr>"

definition decode_actuator_state_v1 :: "u32 \<Rightarrow> bytes \<Rightarrow> ActuatorStateMessageV1" where
  "decode_actuator_state_v1 fid bs =
     \<lparr>motor_id_v1 = ucast (fid - CAN_MSG_ACTUATOR1_STATE_ID_V1),
      current_v1 = fcvt B32 (fmul B64 (fint B64 (sint (be16 bs 0))) (flit B64 (1 / 10))),
      rpm_v1 = be16 bs 2,
      driver_temp_v1 = fint B32 (uint (bs ! 4)),
      motor_temp_v1 = fint B32 (uint (bs ! 5))\<rparr>"

text \<open>The switch on the identifier; \<open>None\<close> is the \<open>default\<close> branch.\<close>

definition decode_switch_v1 :: "RawUnion \<Rightarrow> u32 \<Rightarrow> bytes \<Rightarrow> (MsgType \<times> AgxBody) option" where
  "decode_switch_v1 raw fid bs =
    (if fid = CAN_MSG_SYSTEM_STATE_ID_V1 then
       Some (AgxMsgSystemState, SystemStateBody (decode_system_state_v1 bs))
     else if fid = CAN_MSG_MOTION_STATE_ID_V1 then
       Some (AgxMsgMotionState, MotionStateBody (decode_motion_state_v1 (raw_motion raw) bs))
     else if fid = CAN_MSG_LIGHT_STATE_ID_V1 then
       Some (AgxMsgLightState, LightBody (decode_light_state_v1 (LightCommandFrameV1_of bs)))
     else if fid = CAN_MSG_VALUE_SET_STATE_ID_V1 then
       Some (AgxMsgValueSetStateV1, ValueSetV1Body \<lparr>set_neutral = (bs ! 0 = 0xaa)\<rparr>)
     else if fid \<in> {CAN_MSG_ACTUATOR1_STATE_ID_V1, CAN_MSG_ACTUATOR2_STATE_ID_V1,
       CAN_MSG_ACTUATOR3_STATE_ID_V1, CAN_MSG_ACTUATOR4_STATE_ID_V1} then
       Some (AgxMsgActuatorStateV1, ActuatorStateV1Body (decode_actuator_state_v1 fid bs))
     else None)"

text \<open>
  The test at the top is on the value of the checksum, not on its agreement with the last data byte.
  A refused frame leaves the message as it was.
\<close>

definition DecodeCanFrameV1 :: "RawUnion \<Rightarrow> can_frame \<Rightarrow> (bool \<times> AgxMessage) res" where
  "DecodeCanFrameV1 raw rx =
     res_bind (CalcCanFrameChecksumV1 (ucast (can_id rx)) (data_of rx) (can_dlc rx)) (\<lambda>checksum.
       let unchanged = \<lparr>type_of = raw_tag raw, body = RawBody raw\<rparr> in
       if checksum = 0 then Inr (False, unchanged)
       else case decode_switch_v1 raw (can_id rx) (data_of rx) of
              Some (t, b) \<Rightarrow> Inr (True, \<lparr>type_of = t, body = b\<rparr>)
            | None \<Rightarrow> Inr (False, unchanged))"

section \<open>Encoder\<close>

record StaticsV1 =
  motion_count_v1 :: u8
  value_set_count_v1 :: u8
  light_count_v1 :: u8

definition encode_motion_command_v1 :: "u8 \<Rightarrow> MotionCommandMessageV1 \<Rightarrow> u8 \<Rightarrow> MotionCommandFrameV1 res" where
  "encode_motion_command_v1 count m stk =
     res_bind (to_i8 (linear_v1 m)) (\<lambda>linear.
     res_bind (to_i8 (angular_v1 m)) (\<lambda>angular.
     res_bind (to_i8 (lateral_v1 m)) (\<lambda>lateral.
       Inr \<lparr>control_mode_mcf1 = CTRL_MODE_CMD_CAN, error_clear_byte_mcf1 = ERROR_CLR_NONE,
            linear_percentage_mcf1 = linear, angular_percentage_mcf1 = angular,
            lateral_percentage_mcf1 = lateral, reserved0_mcf1 = 0, count_mcf1 = count,
            checksum_mcf1 = stk\<rparr>)))"

definition encode_value_set_v1 :: "u8 \<Rightarrow> ValueSetCommandMessageV1 \<Rightarrow> u8 \<Rightarrow> ValueSetCommandFrame" where
  "encode_value_set_v1 count m stk =
     \<lparr>set_neutral_vscf = (if set_neutral m then 0xaa else 0x00), reserved0_vscf = 0, reserved1_vscf = 0,
      reserved2_vscf = 0, reserved3_vscf = 0, reserved4_vscf = 0, count_vscf = count,
      checksum_vscf = stk\<rparr>"

definition encode_light_command_v1 :: "u8 \<Rightarrow> LightCommandMessage \<Rightarrow> u8 \<Rightarrow> LightCommandFrameV1" where
  "encode_light_command_v1 count m stk =
     (if enable_cmd_ctrl m then
        \<lparr>enable_cmd_ctrl_lcf1 = LIGHT_ENABLE_CMD_CTRL_V1,
         front_mode_lcf1 = ucast (mode_light (front_light m)),
         front_custom_lcf1 = custom_value (front_light m),
         rear_mode_lcf1 = ucast (mode_light (rear_light m)),
         rear_custom_lcf1 = custom_value (rear_light m),
         reserved0_lcf1 = 0, count_lcf1 = count, checksum_lcf1 = stk\<rparr>
      else
        \<lparr>enable_cmd_ctrl_lcf1 = LIGHT_DISABLE_CMD_CTRL_V1, front_mode_lcf1 = 0, front_custom_lcf1 = 0,
         rear_mode_lcf1 = 0, rear_custom_lcf1 = 0,
         reserved0_lcf1 = 0, count_lcf1 = count, checksum_lcf1 = stk\<rparr>)"

text \<open>
  The common tail of the three branches: copy the struct, then overwrite the last byte by the
  checksum. The struct's own checksum byte is uninitialised (\<open>stk\<close>) until then.
\<close>

definition put_checked_v1 :: "u32 \<Rightarrow> bytes \<Rightarrow> can_frame \<Rightarrow> can_frame res" where
  "put_checked_v1 fid bs tx =
     (let tx1 = put_frame fid 8 bs tx in
      res_bind (CalcCanFrameChecksumV1 (ucast (can_id tx1)) (data_of tx1) (can_dlc tx1)) (\<lambda>c.
        Inr (tx1\<lparr>data_of := (data_of tx1)[7 := c]\<rparr>)))"

definition EncodeCanFrameV1 ::
  "u8 \<Rightarrow> StaticsV1 \<Rightarrow> AgxMessage \<Rightarrow> can_frame \<Rightarrow> (bool \<times> can_frame \<times> StaticsV1) res" where
  "EncodeCanFrameV1 stk st msg tx =
    (case type_of msg of
       AgxMsgMotionCommandV1 \<Rightarrow>
        (case body msg of
           MotionCommandV1Body m \<Rightarrow>
             res_bind (encode_motion_command_v1 (motion_count_v1 st) m stk) (\<lambda>fr.
             res_bind (put_checked_v1 CAN_MSG_MOTION_COMMAND_ID_V1 (MotionCommandFrameV1_bytes fr) tx) (\<lambda>tx'.
               Inr (True, tx', st\<lparr>motion_count_v1 := motion_count_v1 st + 1\<rparr>)))
         | _ \<Rightarrow> Inl UnionMismatch)
     | AgxMsgValueSetCommandV1 \<Rightarrow>
        (case body msg of
           ValueSetV1Body m \<Rightarrow>
             res_bind (put_checked_v1 CAN_MSG_VALUE_SET_COMMAND_ID_V1
               (ValueSetCommandFrame_bytes (encode_value_set_v1 (value_set_count_v1 st) m stk)) tx) (\<lambda>tx'.
               Inr (True, tx', st\<lparr>value_set_count_v1 := value_set_count_v1 st + 1\<rparr>))
         | _ \<Rightarrow> Inl UnionMismatch)
     | AgxMsgLightCommand \<Rightarrow>
        (case body msg of
           LightBody m \<Rightarrow>
             res_bind (put_checked_v1 CAN_MSG_LIGHT_COMMAND_ID_V1
               (LightCommandFrameV1_bytes (encode_light_command_v1 (light_count_v1 st) m stk)) tx) (\<lambda>tx'.
               Inr (True, tx', st\<lparr>light_count_v1 := light_count_v1 st + 1\<rparr>))
         | _ \<Rightarrow> Inl UnionMismatch)
     | _ \<Rightarrow> Inr (False, tx, st))"

section \<open>Robot limits and the parser class\<close>

text \<open>The \<open>static constexpr double\<close> members of a limits struct, the template argument of the parser.\<close>

record RobotLimits =
  max_linear :: fp
  min_linear :: fp
  max_angular :: fp
  min_angular :: fp
  max_lateral :: fp
  min_lateral :: fp

definition ScoutV2Limits :: RobotLimits where
  "ScoutV2Limits = \<lparr>max_linear = flit B64 (15 / 10), min_linear = fneg (flit B64 (15 / 10)),
     max_angular = flit B64 (5235 / 10000), min_angular = fneg (flit B64 (5235 / 10000)),
     max_lateral = flit B64 0, min_lateral = flit B64 0\<rparr>"

definition ScoutMiniLimits :: RobotLimits where
  "ScoutMiniLimits = \<lparr>max_linear = flit B64 3, min_linear = fneg (flit B64 3),
     max_angular = flit B64 (25235 / 10000), min_angular = fneg (flit B64 (25235 / 10000)),
     max_lateral = flit B64 2, min_lateral = fneg (flit B64 2)\<rparr>"

definition BunkerLimits :: RobotLimits where
  "BunkerLimits = \<lparr>max_linear = flit B64 3, min_linear = fneg (flit B64 3),
     max_angular = flit B64 (25235 / 10000), min_angular = fneg (flit B64 (25235 / 10000)),
     max_lateral = flit B64 0, min_lateral = flit B64 0\<rparr>"

definition HunterV1Limits :: RobotLimits where
  "HunterV1Limits = \<lparr>max_linear = flit B64 (15 / 10), min_linear = fneg (flit B64 (15 / 10)),
     max_angular = flit B64 (444 / 1000), min_angular = fneg (flit B64 (444 / 1000)),
     max_lateral = flit B64 0, min_lateral = flit B64 0\<rparr>"

text \<open>\<open>TracerProtocolV1Parser\<close> is instantiated with the limits of Bunker.\<close>

abbreviation TracerLimits :: RobotLimits where
  "TracerLimits \<equiv> BunkerLimits"

text \<open>
  One velocity: clamp the float against the two double limits (storing a limit rounds it to float),
  then \<open>v / max * 100.0\<close> in double, stored to the float field.
\<close>

definition clamp_v1 :: "fp \<Rightarrow> fp \<Rightarrow> fp \<Rightarrow> fp" where
  "clamp_v1 hi lo v = (if flt hi v then fcvt B32 hi else if flt v lo then fcvt B32 lo else v)"

definition percent_v1 :: "fp \<Rightarrow> fp \<Rightarrow> fp" where
  "percent_v1 hi v = fcvt B32 (fmul B64 (fdiv B64 v hi) (flit B64 100))"

definition scale_command_v1 :: "RobotLimits \<Rightarrow> MotionCommandMessageV1 \<Rightarrow> MotionCommandMessageV1" where
  "scale_command_v1 rl m =
     m\<lparr>linear_v1 := percent_v1 (max_linear rl) (clamp_v1 (max_linear rl) (min_linear rl) (linear_v1 m)),
       angular_v1 := percent_v1 (max_angular rl) (clamp_v1 (max_angular rl) (min_angular rl) (angular_v1 m)),
       lateral_v1 := percent_v1 (max_lateral rl) (clamp_v1 (max_lateral rl) (min_lateral rl) (lateral_v1 m))\<rparr>"

definition EncodeMessageV1 ::
  "RobotLimits \<Rightarrow> u8 \<Rightarrow> StaticsV1 \<Rightarrow> AgxMessage \<Rightarrow> can_frame \<Rightarrow> (bool \<times> can_frame \<times> StaticsV1) res" where
  "EncodeMessageV1 rl stk st msg tx =
    (case type_of msg of
       AgxMsgMotionCommandV1 \<Rightarrow>
        (case body msg of
           MotionCommandV1Body m \<Rightarrow>
             EncodeCanFrameV1 stk st (msg\<lparr>body := MotionCommandV1Body (scale_command_v1 rl m)\<rparr>) tx
         | _ \<Rightarrow> Inl UnionMismatch)
     | _ \<Rightarrow> EncodeCanFrameV1 stk st msg tx)"

end
