(* ===== verification/Protocol_V1_Theorems.thy ===== *)
theory Protocol_V1_Theorems
  imports Protocol_V1
begin

text \<open>
  What the version 1 parser does: percentages stay within a hundred, frames carry the checksum of
  their bytes, the decoder is memory safe and tags its messages correctly, and the two defects of the
  version: the checksum is computed but not compared, and limits of zero turn every command into NaN.
\<close>

section \<open>Checksum\<close>

lemma sum_data_v1_ok: "n \<le> length bs \<Longrightarrow> sum_data_v1 n bs c = Inr (c + sum_list (take n bs))"
  by (induction n bs c rule: sum_data_v1.induct) (simp_all add: add.assoc)

lemma sum_data_v1_short: "length bs < n \<Longrightarrow> sum_data_v1 n bs c = Inl IndexOutOfRange"
  by (induction n bs c rule: sum_data_v1.induct) simp_all

lemma checksum_v1_value:
  assumes "unat dlc \<le> Suc (length bs)"
  shows "CalcCanFrameChecksumV1 fid bs dlc =
    Inr (ucast (fid AND 0xff) + ucast (drop_bit 8 fid) + dlc + sum_list (take (unat dlc - 1) bs))"
  using assms by (simp add: CalcCanFrameChecksumV1_def sum_data_v1_ok)

lemma checksum_v1_last_byte:
  assumes "length bs = 8" "unat dlc \<le> 8"
  shows "CalcCanFrameChecksumV1 fid (bs[7 := b]) dlc = CalcCanFrameChecksumV1 fid bs dlc"
  using assms by (simp add: checksum_v1_value)

section \<open>Percentages\<close>

text \<open>A limit as the limits structs have them: finite and neither tiny nor huge.\<close>

definition limit_ok :: "fp \<Rightarrow> bool" where
  "limit_ok hi = (is_fin hi \<and> fp_wf B64 hi \<and> 1 / 10 \<le> fval hi \<and> fval hi \<le> 10)"

definition velocities_v1 :: "MotionCommandMessageV1 \<Rightarrow> fp list" where
  "velocities_v1 m = [linear_v1 m, angular_v1 m, lateral_v1 m]"

lemma clamp_v1_fin:
  assumes "limit_ok hi" "\<not> isnan v" "fp_wf B32 v"
  shows "is_fin (clamp_v1 hi (fneg hi) v)" "fp_wf B32 (clamp_v1 hi (fneg hi) v)"
    "\<bar>fval (clamp_v1 hi (fneg hi) v)\<bar> \<le> fval hi + 1 / 1000000"
proof -
  have h: "is_fin hi" "fp_wf B64 hi" "1 / 10 \<le> fval hi" "\<bar>fval hi\<bar> \<le> 10"
    using assms(1) by (auto simp: limit_ok_def)
  have c: "is_fin (fcvt B32 x) \<and> \<bar>fval (fcvt B32 x) - fval x\<bar> \<le> 1 / 1000000"
    if "is_fin x" "fp_wf B64 x" "\<bar>fval x\<bar> \<le> 10" for x
    using fcvt_error[OF that, of B32 "1 / 1000000"] by (simp add: pow2_def)
  have hi: "is_fin (fcvt B32 hi)" "\<bar>fval (fcvt B32 hi) - fval hi\<bar> \<le> 1 / 1000000"
    and lo: "is_fin (fcvt B32 (fneg hi))" "\<bar>fval (fcvt B32 (fneg hi)) + fval hi\<bar> \<le> 1 / 1000000"
    using c[of hi] c[of "fneg hi"] h by auto
  have v: "is_fin v \<and> \<bar>fval v\<bar> \<le> fval hi" if "\<not> flt hi v" "\<not> flt v (fneg hi)"
    using that assms(2) h by (cases v; cases hi) (auto simp: sgn_val_def split: if_splits)
  show "is_fin (clamp_v1 hi (fneg hi) v)" using hi lo v by (simp add: clamp_v1_def)
  show "fp_wf B32 (clamp_v1 hi (fneg hi) v)"
    using assms(3) h(2) fp_wf_fcvt[of B64] by (simp add: clamp_v1_def)
  show "\<bar>fval (clamp_v1 hi (fneg hi) v)\<bar> \<le> fval hi + 1 / 1000000"
    using hi(2) lo(2) h(3) v unfolding clamp_v1_def by (auto simp: abs_if split: if_splits)
qed

lemma percent_v1_value:
  assumes "limit_ok hi" "is_fin v" "fp_wf B32 v" "\<bar>fval v\<bar> \<le> fval hi + 1 / 1000000"
  shows "is_fin (percent_v1 hi v)" "fp_wf B32 (percent_v1 hi v)"
    "\<bar>fval (percent_v1 hi v) - 100 * fval v / fval hi\<bar> \<le> 1 / 10000"
proof -
  have h: "is_fin hi" "fp_wf B64 hi" "1 / 10 \<le> fval hi" "fval hi \<noteq> 0"
    using assms(1) by (auto simp: limit_ok_def)
  let ?r = "fval v / fval hi" and ?q = "fdiv B64 v hi" and ?p = "fmul B64 (fdiv B64 v hi) (flit B64 100)"
  have "\<bar>?r\<bar> \<le> (fval hi + 1 / 1000000) / fval hi"
    using assms(4) h(3) by (simp add: abs_divide divide_right_mono)
  also have "\<dots> \<le> 1 + 1 / 100000" using h(3) by (simp add: field_simps)
  finally have r: "\<bar>?r\<bar> \<le> 1 + 1 / 100000" .
  have r2: "\<bar>?r\<bar> \<le> 2" using r by linarith
  have q: "is_fin ?q" "\<bar>fval ?q - ?r\<bar> \<le> 1 / 10000000" "fp_wf B64 ?q"
    using fdiv_error[OF assms(2,3) h(1,2,4) r2, of B64 "1 / 10000000"] fp_wf_fdiv[OF assms(3) h(2)]
    by (simp_all add: pow2_def)
  note hundred = fint_value[of 100 B64, simplified]
  have "\<bar>fval ?q\<bar> \<le> 101 / 100" using q(2) r by linarith
  then have m: "\<bar>fval ?q * 100\<bar> \<le> 101" by (simp add: abs_mult)
  have p: "is_fin ?p" "\<bar>fval ?p - fval ?q * 100\<bar> \<le> 1 / 1000000" "fp_wf B64 ?p"
    using fmul_error[OF q(1,3) hundred(1,3), of 101 B64 "1 / 1000000"] m hundred
      fp_wf_fmul[OF q(3) hundred(3)]
    by (auto simp: pow2_def flit_numeral)
  have "\<bar>fval ?p\<bar> \<le> 102" using p(2) m by linarith
  then have c: "is_fin (fcvt B32 ?p)" "\<bar>fval (fcvt B32 ?p) - fval ?p\<bar> \<le> 1 / 100000"
    using fcvt_error[OF p(1,3), of 102 B32 "1 / 100000"] by (auto simp: pow2_def)
  show "is_fin (percent_v1 hi v)" using c by (simp add: percent_v1_def)
  show "fp_wf B32 (percent_v1 hi v)" using fp_wf_fcvt[OF p(3)] by (simp add: percent_v1_def)
  have "100 * fval v / fval hi = 100 * ?r" by simp
  then show "\<bar>fval (percent_v1 hi v) - 100 * fval v / fval hi\<bar> \<le> 1 / 10000"
    using c(2) p(2) q(2) unfolding percent_v1_def by linarith
qed

lemma to_i8_ok:
  assumes "is_fin x" "fp_wf f x" "\<bar>fval x\<bar> < 101"
  obtains w where "to_i8 x = Inr w" "\<bar>of_int (sint w) - fval x\<bar> < 1" "\<bar>sint w\<bar> \<le> 100"
proof -
  obtain n where n: "ftrunc x = Some n" "\<bar>of_int n - fval x\<bar> < 1" "\<bar>of_int n\<bar> \<le> \<bar>fval x\<bar>"
    using ftrunc_near[OF assms(1,2)] .
  have "of_int \<bar>n\<bar> < (of_int 101 :: rat)" using n(3) assms(3) by simp
  then have b: "\<bar>n\<bar> \<le> 100" by (simp only: of_int_less_iff)
  then have s: "sint (word_of_int n :: i8) = n"
    by (simp add: signed_of_int signed_take_bit_int_eq_self_iff abs_le_iff)
  show ?thesis
    using that[of "word_of_int n"] n b s by (simp add: to_i8_def to_int_in_ok abs_le_iff)
qed

lemma to_i8_Inl: "to_i8 x = Inl e \<Longrightarrow> e = FloatToIntRange"
  by (auto simp: to_i8_def to_int_in_def split: option.splits if_splits)

lemma scaled_velocity_v1:
  assumes "limit_ok hi" "\<not> isnan v" "fp_wf B32 v"
  obtains w where "to_i8 (percent_v1 hi (clamp_v1 hi (fneg hi) v)) = Inr w" "\<bar>sint w\<bar> \<le> 100"
    "\<bar>of_int (sint w) - 100 * fval (clamp_v1 hi (fneg hi) v) / fval hi\<bar> < 1 + 1 / 10000"
proof -
  let ?c = "clamp_v1 hi (fneg hi) v"
  note c = clamp_v1_fin[OF assms]
  note p = percent_v1_value[OF assms(1) c]
  have h: "1 / 10 \<le> fval hi" using assms(1) by (simp add: limit_ok_def)
  have "\<bar>100 * fval ?c / fval hi\<bar> \<le> 100 * (fval hi + 1 / 1000000) / fval hi"
    using c(3) h by (simp add: abs_divide abs_mult divide_right_mono)
  also have "\<dots> \<le> 100 + 1 / 1000" using h by (simp add: field_simps)
  finally have "\<bar>fval (percent_v1 hi ?c)\<bar> < 101" using p(3) by linarith
  then obtain w where "to_i8 (percent_v1 hi ?c) = Inr w"
      "\<bar>of_int (sint w) - fval (percent_v1 hi ?c)\<bar> < 1" "\<bar>sint w\<bar> \<le> 100"
    using to_i8_ok[OF p(1,2)] by metis
  then show ?thesis using that[of w] p(3) by linarith
qed

section \<open>Frames of the encoder\<close>

lemma put_checked_v1_ok:
  assumes "frame_wf tx" "length bs = 8"
  obtains tx' where "put_checked_v1 fid bs tx = Inr tx'" "can_id tx' = fid" "can_dlc tx' = 8" "frame_wf tx'"
    "take 7 (data_of tx') = take 7 bs"
    "CalcCanFrameChecksumV1 (ucast fid) (data_of tx') 8 = Inr (data_of tx' ! 7)"
proof -
  let ?c = "ucast (ucast fid AND 0xff :: u16) + ucast (drop_bit 8 (ucast fid :: u16)) + 8 + sum_list (take 7 bs) :: u8"
  have c: "CalcCanFrameChecksumV1 (ucast fid) bs 8 = Inr ?c"
    using assms(2) by (simp add: checksum_v1_value)
  then have "put_checked_v1 fid bs tx = Inr \<lparr>can_id = fid, can_dlc = 8, data_of = bs[7 := ?c]\<rparr>"
    using assms by (simp add: put_checked_v1_def frame_wf_def put_frame_def)
  then show ?thesis
    using that[of "\<lparr>can_id = fid, can_dlc = 8, data_of = bs[7 := ?c]\<rparr>"] c assms(2)
    by (simp add: frame_wf_def checksum_v1_last_byte)
qed

lemma ScoutMini_limits:
  "limit_ok (max_linear ScoutMiniLimits)" "limit_ok (max_angular ScoutMiniLimits)"
  "limit_ok (max_lateral ScoutMiniLimits)"
proof -
  have n: "limit_ok (flit B64 3)" "limit_ok (flit B64 2)"
    using fint_value[of 3 B64] fint_value[of 2 B64] by (simp_all add: limit_ok_def flit_numeral)
  have "is_fin (flit B64 (25235 / 10000))" "\<bar>fval (flit B64 (25235 / 10000)) - 25235 / 10000\<bar> \<le> 1"
    using fval_pack_error[of "25235 / 10000" 3 B64 1 False] by (auto simp: flit_def pow2_def sgn_val_def)
  then have "limit_ok (flit B64 (25235 / 10000))"
    using fp_wf_flit[of B64 "25235 / 10000"] by (auto simp: limit_ok_def)
  then show "limit_ok (max_linear ScoutMiniLimits)" "limit_ok (max_angular ScoutMiniLimits)"
    "limit_ok (max_lateral ScoutMiniLimits)"
    using n by (simp_all add: ScoutMiniLimits_def)
qed

lemma ScoutMini_symmetric:
  "min_linear ScoutMiniLimits = fneg (max_linear ScoutMiniLimits)"
  "min_angular ScoutMiniLimits = fneg (max_angular ScoutMiniLimits)"
  "min_lateral ScoutMiniLimits = fneg (max_lateral ScoutMiniLimits)"
  by (simp_all add: ScoutMiniLimits_def)

lemma decode_in_bounds_v1:
  assumes "frame_wf rx" "unat (can_dlc rx) \<le> 9"
  shows "\<exists>ok msg. DecodeCanFrameV1 raw rx = Inr (ok, msg) \<and> (ok \<longrightarrow> tag_ok (type_of msg) (body msg))"
proof -
  have "tag_ok t b" if "decode_switch_v1 raw (can_id rx) (data_of rx) = Some (t, b)" for t b
    using that by (auto simp: decode_switch_v1_def decode_actuator_state_v1_def v1_ids split: if_splits)
  then show ?thesis using assms
    by (auto simp: DecodeCanFrameV1_def Let_def checksum_v1_value frame_wf_def split: option.splits)
qed

section \<open>Properties\<close>

text \<open>
  With the limits of Scout Mini, every motion command without NaN (infinities included) is encoded:
  the frame has identifier 0x130 and eight bytes, the three percentages lie between -100 and 100, the
  seventh byte is the rolling counter, which advances by one, and the last byte is the checksum.
\<close>

lemma scout_mini_command_v1:
  assumes "\<forall>v \<in> set (velocities_v1 m). \<not> isnan v \<and> fp_wf B32 v" "frame_wf tx"
  shows "\<exists>tx'. EncodeMessageV1 ScoutMiniLimits stk st
        \<lparr>type_of = AgxMsgMotionCommandV1, body = MotionCommandV1Body m\<rparr> tx
      = Inr (True, tx', st\<lparr>motion_count_v1 := motion_count_v1 st + 1\<rparr>) \<and>
    can_id tx' = 0x130 \<and> can_dlc tx' = 8 \<and> frame_wf tx' \<and>
    data_of tx' ! 6 = motion_count_v1 st \<and> (\<forall>i \<in> {2, 3, 4}. \<bar>sint (data_of tx' ! i)\<bar> \<le> 100) \<and>
    CalcCanFrameChecksumV1 0x130 (data_of tx') 8 = Inr (data_of tx' ! 7)"
proof -
  let ?m = "scale_command_v1 ScoutMiniLimits m"
  have v: "\<not> isnan (linear_v1 m)" "fp_wf B32 (linear_v1 m)" "\<not> isnan (angular_v1 m)" "fp_wf B32 (angular_v1 m)"
    "\<not> isnan (lateral_v1 m)" "fp_wf B32 (lateral_v1 m)"
    using assms(1) by (simp_all add: velocities_v1_def)
  obtain a where a: "to_i8 (linear_v1 ?m) = Inr a" "\<bar>sint a\<bar> \<le> 100"
    using scaled_velocity_v1[OF ScoutMini_limits(1) v(1,2)] by (auto simp: scale_command_v1_def ScoutMini_symmetric)
  obtain b where b: "to_i8 (angular_v1 ?m) = Inr b" "\<bar>sint b\<bar> \<le> 100"
    using scaled_velocity_v1[OF ScoutMini_limits(2) v(3,4)] by (auto simp: scale_command_v1_def ScoutMini_symmetric)
  obtain c where c: "to_i8 (lateral_v1 ?m) = Inr c" "\<bar>sint c\<bar> \<le> 100"
    using scaled_velocity_v1[OF ScoutMini_limits(3) v(5,6)] by (auto simp: scale_command_v1_def ScoutMini_symmetric)
  let ?bs = "[CTRL_MODE_CMD_CAN, ERROR_CLR_NONE, a, b, c, 0, motion_count_v1 st, stk]"
  obtain tx' where t: "put_checked_v1 0x130 ?bs tx = Inr tx'" "can_id tx' = 0x130" "can_dlc tx' = 8" "frame_wf tx'"
      "take 7 (data_of tx') = take 7 ?bs" "CalcCanFrameChecksumV1 0x130 (data_of tx') 8 = Inr (data_of tx' ! 7)"
    using put_checked_v1_ok[OF assms(2), of ?bs "0x130"] by auto
  have "data_of tx' ! i = take 7 ?bs ! i" if "i < 7" for i using t(5) that by (metis nth_take)
  from this[of 2] this[of 3] this[of 4] this[of 6]
  have "data_of tx' ! 2 = a" "data_of tx' ! 3 = b" "data_of tx' ! 4 = c" "data_of tx' ! 6 = motion_count_v1 st" by simp_all
  then show ?thesis
    using a b c t by (simp add: EncodeMessageV1_def EncodeCanFrameV1_def encode_motion_command_v1_def
      MotionCommandFrameV1_bytes_def v1_ids)
qed

text \<open>
  With the limits of Scout, Bunker, Tracer and Hunter, whose lateral limit is zero, no motion
  command at all is encoded with defined behaviour: the lateral percentage is zero divided by zero,
  and converting that NaN to \<open>int8_t\<close> is undefined.
\<close>

lemma zero_lateral_limit_v1:
  assumes "rl \<in> {ScoutV2Limits, BunkerLimits, TracerLimits, HunterV1Limits}"
  shows "EncodeMessageV1 rl stk st \<lparr>type_of = AgxMsgMotionCommandV1, body = MotionCommandV1Body m\<rparr> tx
    = Inl FloatToIntRange"
proof -
  have z: "max_lateral rl = Fin False 0" "min_lateral rl = Fin False 0"
    using assms by (auto simp: ScoutV2Limits_def BunkerLimits_def HunterV1Limits_def flit_def pack_small rnd_def)
  have "percent_v1 (Fin False 0) (clamp_v1 (Fin False 0) (Fin False 0) v) = NaN" for v
    by (cases v) (auto simp: percent_v1_def clamp_v1_def pack_small rnd_def sgn_val_def)
  then have "to_i8 (lateral_v1 (scale_command_v1 rl m)) = Inl FloatToIntRange"
    using z by (simp add: scale_command_v1_def to_i8_def to_int_in_def)
  then show ?thesis
    by (cases "to_i8 (linear_v1 (scale_command_v1 rl m))"; cases "to_i8 (angular_v1 (scale_command_v1 rl m))")
      (auto simp: EncodeMessageV1_def EncodeCanFrameV1_def encode_motion_command_v1_def dest: to_i8_Inl)
qed

text \<open>
  C32: the decoder of version 1 does not verify checksums: replacing the checksum byte of an eight-byte
  frame by any other value does not change what it returns.
\<close>

theorem checksum_byte_ignored_v1:
  assumes "frame_wf rx" "can_dlc rx = 8"
  shows "DecodeCanFrameV1 raw (rx\<lparr>data_of := (data_of rx)[7 := b]\<rparr>) = DecodeCanFrameV1 raw rx"
proof -
  have n: "(data_of rx)[7 := b] ! i = data_of rx ! i" if "i \<noteq> 7" for i using that by simp
  have "decode_switch_v1 raw (can_id rx) ((data_of rx)[7 := b]) = decode_switch_v1 raw (can_id rx) (data_of rx)"
    by (simp add: decode_switch_v1_def decode_system_state_v1_def decode_motion_state_v1_def
      decode_light_state_v1_def decode_actuator_state_v1_def LightCommandFrameV1_of_def be16_def n)
  then show ?thesis
    using assms by (simp add: DecodeCanFrameV1_def frame_wf_def checksum_v1_last_byte Let_def cong: if_cong)
qed

theorem checksum_byte_ignored_v1_witness:
  "DecodeCanFrameV1 zero_union \<lparr>can_id = 0x211, can_dlc = 8, data_of = [0xaa, 0, 0, 0, 0, 0, 0, 1]\<rparr> =
   DecodeCanFrameV1 zero_union \<lparr>can_id = 0x211, can_dlc = 8, data_of = [0xaa, 0, 0, 0, 0, 0, 0, 0]\<rparr>"
  using checksum_byte_ignored_v1[of "\<lparr>can_id = 0x211, can_dlc = 8, data_of = [0xaa, 0, 0, 0, 0, 0, 0, 0]\<rparr>" zero_union 1]
  by (simp add: frame_wf_def)

text \<open>
  For a length code of at most nine the decoder reads only the frame's own bytes and returns, and
  a message it accepts holds the union member of its tag with an actuator number below eight.
\<close>

lemma decode_safe_v1:
  assumes "frame_wf rx" "unat (can_dlc rx) \<le> 9"
  shows "\<exists>ok msg. DecodeCanFrameV1 raw rx = Inr (ok, msg) \<and> (ok \<longrightarrow> tag_ok (type_of msg) (body msg))"
  by (rule decode_in_bounds_v1[OF assms])

end
