(* ===== verification/Async_Can.thy ===== *)
theory Async_Can
  imports Agx_Message
begin

text \<open>
  \<open>async_can.cpp\<close>: the socketcan port. The results of the system calls and of the stream's
  \<open>assign\<close> are arguments; what the stream is asked to transmit is a log. The I/O thread of the port is
  represented by whether it can be joined, and each operation is told whether it runs on that thread.
\<close>

definition IFNAMSIZ :: nat where "IFNAMSIZ = 16"

text \<open>\<open>strlen\<close> stops at the first NUL of the name.\<close>

definition c_strlen :: "string \<Rightarrow> nat" where
  "c_strlen s = length (takeWhile (\<lambda>c. c \<noteq> CHR 0x00) s)"

record CanCalls =
  socket_result :: int
  ioctl_result :: int
  bind_result :: int
  assign_throws :: bool

record AsyncCAN =
  port :: string
  port_opened :: bool
  io_joinable :: bool             \<comment> \<open>\<open>io_thread_.joinable()\<close>\<close>
  read_pending :: bool            \<comment> \<open>a read was handed to the I/O context\<close>
  can_fd :: "int option"         \<comment> \<open>\<open>None\<close> while the member is uninitialised\<close>
  rcv_cb_set :: bool              \<comment> \<open>\<open>rcv_cb_ != nullptr\<close>\<close>
  tx_log :: "can_frame list"

definition AsyncCAN_new :: "string \<Rightarrow> AsyncCAN" where
  "AsyncCAN_new can_port = \<lparr>port = can_port, port_opened = False, io_joinable = False,
     read_pending = False, can_fd = None, rcv_cb_set = False, tx_log = []\<rparr>"

text \<open>
  \<open>Close\<close>: joining the I/O thread from itself is an error that \<open>std::thread\<close> reports by an exception.
\<close>

definition CanClose :: "bool \<Rightarrow> AsyncCAN \<Rightarrow> AsyncCAN res" where
  "CanClose on_io_thread can =
    (if io_joinable can \<and> on_io_thread then Inl (Thrown ''resource_deadlock_would_occur'')
     else case can_fd can of
            None \<Rightarrow> Inl UninitializedRead
          | Some fd \<Rightarrow> Inr (can\<lparr>io_joinable := False, read_pending := False,
                             can_fd := Some (- 1), port_opened := False\<rparr>))"

definition CanOpen :: "CanCalls \<Rightarrow> AsyncCAN \<Rightarrow> (bool \<times> AsyncCAN) res" where
  "CanOpen os can =
    (if c_strlen (port can) + 1 > IFNAMSIZ then Inr (False, can)
     else let can1 = can\<lparr>can_fd := Some (socket_result os)\<rparr> in
       if socket_result os < 0 then Inr (False, can1)
       else if ioctl_result os < 0 then res_bind (CanClose False can1) (\<lambda>can2. Inr (False, can2))
       else if bind_result os < 0 then res_bind (CanClose False can1) (\<lambda>can2. Inr (False, can2))
       else if assign_throws os then Inl (Thrown ''assign'')
       else Inr (True, can1\<lparr>port_opened := True, read_pending := True, io_joinable := True\<rparr>))"

definition IsOpened :: "AsyncCAN \<Rightarrow> bool" where
  "IsOpened can = port_opened can"

definition SetReceiveCallback :: "AsyncCAN \<Rightarrow> AsyncCAN" where
  "SetReceiveCallback can = can\<lparr>rcv_cb_set := True\<rparr>"

definition SendFrame :: "can_frame \<Rightarrow> AsyncCAN \<Rightarrow> AsyncCAN" where
  "SendFrame frame can = can\<lparr>tx_log := tx_log can @ [frame]\<rparr>"

text \<open>
  Completion of a read on the I/O thread: an error closes the port from that thread; otherwise the
  frame goes to the callback, or to \<open>DefaultReceiveCallback\<close>, which prints the first \<open>can_dlc\<close> bytes,
  and the next read is started.
\<close>

datatype read_event = ReadError | ReadFrame can_frame

definition DefaultReceiveCallback :: "can_frame \<Rightarrow> bytes res" where
  "DefaultReceiveCallback rx =
    (if unat (can_dlc rx) \<le> length (data_of rx) then Inr (take (unat (can_dlc rx)) (data_of rx))
     else Inl IndexOutOfRange)"

definition ReadFromPort ::
  "(can_frame \<Rightarrow> 's \<Rightarrow> 's res) \<Rightarrow> read_event \<Rightarrow> AsyncCAN \<times> 's \<Rightarrow> (AsyncCAN \<times> 's) res" where
  "ReadFromPort cb ev s =
    (case ev of
       ReadError \<Rightarrow> res_bind (CanClose True (fst s)) (\<lambda>can. Inr (can, snd s))
     | ReadFrame rx \<Rightarrow>
         if rcv_cb_set (fst s) then res_bind (cb rx (snd s)) (\<lambda>t. Inr ((fst s)\<lparr>read_pending := True\<rparr>, t))
         else res_bind (DefaultReceiveCallback rx) (\<lambda>_. Inr ((fst s)\<lparr>read_pending := True\<rparr>, snd s)))"

section \<open>State invariant of the port\<close>

text \<open>
  A port that is open has a file descriptor and a running I/O thread with a read pending; one that is
  not open has none of them.
\<close>

definition can_inv :: "AsyncCAN \<Rightarrow> bool" where
  "can_inv can = ((port_opened can \<longleftrightarrow> io_joinable can) \<and> (port_opened can \<longleftrightarrow> read_pending can) \<and>
     (port_opened can \<longrightarrow> (\<exists>fd. can_fd can = Some fd \<and> 0 \<le> fd)))"

lemma can_inv_new: "can_inv (AsyncCAN_new p)"
  by (simp add: can_inv_def AsyncCAN_new_def)

lemma can_inv_close: "CanClose t can = Inr can' \<Longrightarrow> can_inv can'"
  by (auto simp: CanClose_def can_inv_def split: if_splits option.splits)

lemma can_inv_open:
  assumes "can_inv can" "CanOpen os can = Inr (ok, can')"
  shows "can_inv can' \<or> port_opened can"
  using assms can_inv_close
  by (auto simp: CanOpen_def Let_def res_iff can_inv_def split: if_splits)

lemma can_inv_send: "can_inv (SendFrame f can) = can_inv can"
  by (simp add: SendFrame_def can_inv_def)

lemma open_result:
  assumes "CanOpen os can = Inr (ok, can')" "\<not> port_opened can"
  shows "ok = port_opened can'"
  using assms by (auto simp: CanOpen_def CanClose_def Let_def res_iff split: if_splits)

end
