(* ===== verification/Agilex_Base.thy ===== *)
theory Agilex_Base
  imports Protocol_V1_Theorems Protocol_V2_Theorems Async_Can
begin

text \<open>
  \<open>parser_base.hpp\<close> and \<open>agilex_base.hpp\<close>: the parser interface and the base class of every robot.
  \<open>AgilexBase\<close> is a template over its parser; the parser is a record of its virtual functions, and
  version 1 (per limits struct) and version 2 are two values of it. \<open>SdkClock::now()\<close> is an argument
  (\<open>now\<close>), uninitialised locals come from an argument (\<open>mem\<close>), and the encoder's \<open>static\<close> counters are
  part of the state. Operations that can fault return a sum.
\<close>

section \<open>Parsers\<close>

record Mem =
  mem_msg :: RawUnion            \<comment> \<open>an uninitialised \<open>AgxMessage\<close>\<close>
  mem_light :: LightCommandMessage \<comment> \<open>the same memory seen as a light command\<close>
  mem_frame :: can_frame         \<comment> \<open>an uninitialised \<open>can_frame\<close>\<close>
  mem_struct :: bytes            \<comment> \<open>the encoder's local frame struct\<close>

definition mem_wf :: "Mem \<Rightarrow> bool" where
  "mem_wf mem = (frame_wf (mem_frame mem) \<and> length (mem_struct mem) = 8)"

record 'st ParserBase =
  VersionNumber :: ProtocolVersion
  DecodeMessage :: "RawUnion \<Rightarrow> can_frame \<Rightarrow> (bool \<times> AgxMessage) res"
  EncodeMessage :: "bytes \<Rightarrow> 'st \<Rightarrow> AgxMessage \<Rightarrow> can_frame \<Rightarrow> (bool \<times> can_frame \<times> 'st) res"
  CalculateChecksum :: "u16 \<Rightarrow> bytes \<Rightarrow> u8 \<Rightarrow> u8 res"

definition ProtocolV2Parser :: "StaticsV2 ParserBase" where
  "ProtocolV2Parser = \<lparr>VersionNumber = AGX_V2,
     DecodeMessage = (\<lambda>raw rx. Inr (DecodeCanFrameV2 raw rx)),
     EncodeMessage = EncodeCanFrameV2,
     CalculateChecksum = CalcCanFrameChecksumV2\<rparr>"

definition ProtocolV1Parser :: "RobotLimits \<Rightarrow> StaticsV1 ParserBase" where
  "ProtocolV1Parser rl = \<lparr>VersionNumber = AGX_V1,
     DecodeMessage = DecodeCanFrameV1,
     EncodeMessage = (\<lambda>stk. EncodeMessageV1 rl (stk ! 7)),
     CalculateChecksum = CalcCanFrameChecksumV1\<rparr>"

section \<open>State\<close>

record CoreStateMsgGroup =
  time_stamp_core :: SdkTimePoint
  system_state :: SystemStateMessage
  motion_state :: MotionStateMessage
  light_state :: LightCommandMessage
  motion_mode_state :: MotionModeStateMessage
  rc_state :: RcStateMessage

definition AGX_MAX_ACTUATOR_NUM :: nat where "AGX_MAX_ACTUATOR_NUM = 8"

record ActuatorStateMsgGroup =
  time_stamp_act :: SdkTimePoint
  actuator_hs_state :: "ActuatorHSStateMessage list"
  actuator_ls_state :: "ActuatorLSStateMessage list"
  actuator_state_v1 :: "ActuatorStateMessageV1 list"
  motor_angles :: MotorAngleMessage
  motor_speeds :: MotorSpeedMessage

record CommonSensorStateMsgGroup =
  time_stamp_sensor :: SdkTimePoint
  bms_basic_state :: BmsBasicMessage
  bms_extend_state :: BmsExtendedMessage

record 'st AgilexBase =
  core_state_msgs :: CoreStateMsgGroup
  actuator_state_msgs :: ActuatorStateMsgGroup
  common_sensor_state_msgs :: CommonSensorStateMsgGroup
  version_string_buffer :: bytes
  can_ptr :: "AsyncCAN option"
  statics :: 'st

section \<open>Commands\<close>

text \<open>
  The guard \<open>can_ != nullptr && can_->IsOpened()\<close>, and the tail of every command: encode the message
  into an uninitialised frame and send the frame when the encoder accepts the message.
\<close>

definition can_ready :: "'st AgilexBase \<Rightarrow> bool" where
  "can_ready s = (case can_ptr s of None \<Rightarrow> False | Some can \<Rightarrow> IsOpened can)"

definition can_send :: "can_frame \<Rightarrow> 'st AgilexBase \<Rightarrow> 'st AgilexBase" where
  "can_send fr s = s\<lparr>can_ptr := map_option (SendFrame fr) (can_ptr s)\<rparr>"

definition encode_and_send :: "'st ParserBase \<Rightarrow> Mem \<Rightarrow> AgxMessage \<Rightarrow> 'st AgilexBase \<Rightarrow> 'st AgilexBase res" where
  "encode_and_send P mem msg s =
     res_bind (EncodeMessage P (mem_struct mem) (statics s) msg (mem_frame mem)) (\<lambda>(ok, frame, st).
       let s' = s\<lparr>statics := st\<rparr> in Inr (if ok then can_send frame s' else s'))"

definition EnableCommandedMode :: "'st ParserBase \<Rightarrow> Mem \<Rightarrow> 'st AgilexBase \<Rightarrow> 'st AgilexBase res" where
  "EnableCommandedMode P mem s =
    (let msg = \<lparr>type_of = AgxMsgControlModeConfig,
                body = ControlModeConfigBody \<lparr>mode_cmc = CONTROL_MODE_CAN\<rparr>\<rparr> in
     if can_ready s then encode_and_send P mem msg s else Inr s)"

definition motion_command_message ::
  "'st ParserBase \<Rightarrow> Mem \<Rightarrow> fp \<Rightarrow> fp \<Rightarrow> fp \<Rightarrow> fp \<Rightarrow> AgxMessage" where
  "motion_command_message P mem linear_vel angular_vel lateral_vel steering =
    (case VersionNumber P of
       AGX_V1 \<Rightarrow>
         \<lparr>type_of = AgxMsgMotionCommandV1, body = MotionCommandV1Body
           \<lparr>control_mode_v1 = CONTROL_MODE_CAN, clear_all_error = False,
            linear_v1 = fcvt B32 linear_vel,
            angular_v1 = fcvt B32 (if flt (fabs steering) (fabs angular_vel) then angular_vel
                                   else steering),
            lateral_v1 = fcvt B32 lateral_vel\<rparr>\<rparr>
     | AGX_V2 \<Rightarrow>
         \<lparr>type_of = AgxMsgMotionCommand, body = MotionCommandBody
           \<lparr>linear_velocity_mc = fcvt B32 linear_vel, angular_velocity_mc = fcvt B32 angular_vel,
            lateral_velocity_mc = fcvt B32 lateral_vel, steering_angle_mc = fcvt B32 steering\<rparr>\<rparr>
     | UNKONWN \<Rightarrow> \<lparr>type_of = raw_tag (mem_msg mem), body = RawBody (mem_msg mem)\<rparr>)"

definition SendMotionCommand ::
  "'st ParserBase \<Rightarrow> Mem \<Rightarrow> fp \<Rightarrow> fp \<Rightarrow> fp \<Rightarrow> fp \<Rightarrow> 'st AgilexBase \<Rightarrow> 'st AgilexBase res" where
  "SendMotionCommand P mem linear_vel angular_vel lateral_vel steering s =
    (if can_ready s then
       encode_and_send P mem
         (motion_command_message P mem linear_vel angular_vel lateral_vel steering) s
     else Inr s)"

definition SendLightCommand ::
  "'st ParserBase \<Rightarrow> Mem \<Rightarrow> AgxLightMode \<Rightarrow> u8 \<Rightarrow> AgxLightMode \<Rightarrow> u8 \<Rightarrow> 'st AgilexBase \<Rightarrow> 'st AgilexBase res" where
  "SendLightCommand P mem front_mode front_custom_value rear_mode rear_custom_value s =
    (if can_ready s then
       encode_and_send P mem
         \<lparr>type_of = AgxMsgLightCommand, body = LightBody
           \<lparr>enable_cmd_ctrl = True,
            front_light = \<lparr>mode_light = front_mode, custom_value = front_custom_value\<rparr>,
            rear_light = \<lparr>mode_light = rear_mode, custom_value = rear_custom_value\<rparr>\<rparr>\<rparr> s
     else Inr s)"

definition DisableLightControl :: "'st ParserBase \<Rightarrow> Mem \<Rightarrow> 'st AgilexBase \<Rightarrow> 'st AgilexBase res" where
  "DisableLightControl P mem s =
    (if can_ready s then
       encode_and_send P mem
         \<lparr>type_of = AgxMsgLightCommand, body = LightBody ((mem_light mem)\<lparr>enable_cmd_ctrl := False\<rparr>)\<rparr> s
     else Inr s)"

definition SetMotionMode :: "'st ParserBase \<Rightarrow> Mem \<Rightarrow> u8 \<Rightarrow> 'st AgilexBase \<Rightarrow> 'st AgilexBase res" where
  "SetMotionMode P mem mode s =
    (if can_ready s then
       encode_and_send P mem
         \<lparr>type_of = AgxMsgSetMotionModeCommand, body = MotionModeBody \<lparr>motion_mode_cmd = mode\<rparr>\<rparr> s
     else Inr s)"

definition SetBrakeMode :: "'st ParserBase \<Rightarrow> Mem \<Rightarrow> AgxBrakeMode \<Rightarrow> 'st AgilexBase \<Rightarrow> 'st AgilexBase res" where
  "SetBrakeMode P mem mode s =
    (let msg = \<lparr>type_of = AgxMsgBrakeModeConfig, body = BrakeModeConfigBody \<lparr>mode_bmc = mode\<rparr>\<rparr> in
     if can_ready s then encode_and_send P mem msg s else Inr s)"

definition ResetRobotState :: "'st AgilexBase \<Rightarrow> 'st AgilexBase" where
  "ResetRobotState s = s"

definition GetParserProtocolVersion :: "'st ParserBase \<Rightarrow> ProtocolVersion" where
  "GetParserProtocolVersion P = VersionNumber P"

section \<open>Connection\<close>

text \<open>
  \<open>Connect\<close> replaces the port object. A replaced object that has a read pending is kept alive by the
  completion handler, which holds a shared pointer to it; otherwise it is destroyed, and its
  destructor closes it.
\<close>

definition ConnectPort :: "CanCalls \<Rightarrow> string \<Rightarrow> 'st AgilexBase \<Rightarrow> (bool \<times> 'st AgilexBase) res" where
  "ConnectPort os dev_name s =
    (let released = (case can_ptr s of None \<Rightarrow> Inr () | Some old \<Rightarrow>
           if read_pending old then Inr () else map_sum id (\<lambda>_. ()) (CanClose False old)) in
     res_bind released (\<lambda>_.
     res_bind (CanOpen os (SetReceiveCallback (AsyncCAN_new dev_name))) (\<lambda>(ok, can).
       Inr (ok, s\<lparr>can_ptr := Some can\<rparr>))))"

definition Connect :: "CanCalls \<Rightarrow> string \<Rightarrow> 'st AgilexBase \<Rightarrow> (bool \<times> 'st AgilexBase) res" where
  "Connect os can_name s = ConnectPort os can_name s"

definition DisconnectPort :: "'st AgilexBase \<Rightarrow> 'st AgilexBase res" where
  "DisconnectPort s =
    (case can_ptr s of
       None \<Rightarrow> Inr s
     | Some can \<Rightarrow> if IsOpened can then res_bind (CanClose False can) (\<lambda>can'. Inr (s\<lparr>can_ptr := Some can'\<rparr>))
                   else Inr s)"

section \<open>Feedback\<close>

definition UpdateRobotCoreState :: "SdkTimePoint \<Rightarrow> AgxMessage \<Rightarrow> 'st AgilexBase \<Rightarrow> 'st AgilexBase res" where
  "UpdateRobotCoreState now m s =
    (let put = (\<lambda>f. Inr (s\<lparr>core_state_msgs := (f (core_state_msgs s))\<lparr>time_stamp_core := now\<rparr>\<rparr>)) in
     case type_of m of
       AgxMsgSystemState \<Rightarrow>
         (case body m of SystemStateBody x \<Rightarrow> put (system_state_update (\<lambda>_. x)) | _ \<Rightarrow> Inl UnionMismatch)
     | AgxMsgMotionState \<Rightarrow>
         (case body m of MotionStateBody x \<Rightarrow> put (motion_state_update (\<lambda>_. x)) | _ \<Rightarrow> Inl UnionMismatch)
     | AgxMsgLightState \<Rightarrow>
         (case body m of LightBody x \<Rightarrow> put (light_state_update (\<lambda>_. x)) | _ \<Rightarrow> Inl UnionMismatch)
     | AgxMsgMotionModeState \<Rightarrow>
         (case body m of MotionModeStateBody x \<Rightarrow> put (motion_mode_state_update (\<lambda>_. x)) | _ \<Rightarrow> Inl UnionMismatch)
     | AgxMsgRcState \<Rightarrow>
         (case body m of RcStateBody x \<Rightarrow> put (rc_state_update (\<lambda>_. x)) | _ \<Rightarrow> Inl UnionMismatch)
     | _ \<Rightarrow> Inr s)"

text \<open>Assignment to an element of one of the eight-entry arrays.\<close>

definition array_set :: "'a list \<Rightarrow> nat \<Rightarrow> 'a \<Rightarrow> 'a list res" where
  "array_set xs i x = (if i < length xs then Inr (xs[i := x]) else Inl IndexOutOfRange)"

definition UpdateActuatorState :: "SdkTimePoint \<Rightarrow> AgxMessage \<Rightarrow> 'st AgilexBase \<Rightarrow> 'st AgilexBase res" where
  "UpdateActuatorState now m s =
    (let a = (actuator_state_msgs s)\<lparr>time_stamp_act := now\<rparr>;
         put = (\<lambda>a'. Inr (s\<lparr>actuator_state_msgs := a'\<rparr>)) in
     case type_of m of
       AgxMsgMotorAngle \<Rightarrow>
         (case body m of MotorAngleBody x \<Rightarrow> put (a\<lparr>motor_angles := x\<rparr>) | _ \<Rightarrow> Inl UnionMismatch)
     | AgxMsgMotorSpeed \<Rightarrow>
         (case body m of MotorSpeedBody x \<Rightarrow> put (a\<lparr>motor_speeds := x\<rparr>) | _ \<Rightarrow> Inl UnionMismatch)
     | AgxMsgActuatorHSState \<Rightarrow>
         (case body m of
            ActuatorHSBody x \<Rightarrow>
              res_bind (array_set (actuator_hs_state a) (unat (motor_id_hs x)) x) (\<lambda>xs.
                put (a\<lparr>actuator_hs_state := xs\<rparr>))
          | _ \<Rightarrow> Inl UnionMismatch)
     | AgxMsgActuatorLSState \<Rightarrow>
         (case body m of
            ActuatorLSBody x \<Rightarrow>
              res_bind (array_set (actuator_ls_state a) (unat (motor_id_ls x)) x) (\<lambda>xs.
                put (a\<lparr>actuator_ls_state := xs\<rparr>))
          | _ \<Rightarrow> Inl UnionMismatch)
     | AgxMsgActuatorStateV1 \<Rightarrow>
         (case body m of
            ActuatorStateV1Body x \<Rightarrow>
              res_bind (array_set (actuator_state_v1 a) (unat (motor_id_v1 x)) x) (\<lambda>xs.
                put (a\<lparr>actuator_state_v1 := xs\<rparr>))
          | _ \<Rightarrow> Inl UnionMismatch)
     | _ \<Rightarrow> put a)"

text \<open>The branch of the extended battery message has no \<open>break\<close> and sets no time stamp.\<close>

definition UpdateCommonSensorState :: "SdkTimePoint \<Rightarrow> AgxMessage \<Rightarrow> 'st AgilexBase \<Rightarrow> 'st AgilexBase res" where
  "UpdateCommonSensorState now m s =
    (let c = common_sensor_state_msgs s in
     case type_of m of
       AgxMsgBmsBasic \<Rightarrow>
         (case body m of
            BmsBasicBody x \<Rightarrow>
              Inr (s\<lparr>common_sensor_state_msgs := c\<lparr>time_stamp_sensor := now, bms_basic_state := x\<rparr>\<rparr>)
          | _ \<Rightarrow> Inl UnionMismatch)
     | AgxMsgBmsExtended \<Rightarrow>
         (case body m of
            BmsExtendedBody x \<Rightarrow> Inr (s\<lparr>common_sensor_state_msgs := c\<lparr>bms_extend_state := x\<rparr>\<rparr>)
          | _ \<Rightarrow> Inl UnionMismatch)
     | _ \<Rightarrow> Inr s)"

definition printable :: "u8 \<Rightarrow> u8" where
  "printable d = (if d < 32 \<or> d > 126 then 32 else d)"

definition UpdateResponseVersion :: "AgxMessage \<Rightarrow> 'st AgilexBase \<Rightarrow> 'st AgilexBase res" where
  "UpdateResponseVersion m s =
    (case type_of m of
       AgxMsgVersionResponse \<Rightarrow>
         (case body m of
            VersionResponseBody x \<Rightarrow>
              if 8 \<le> length (bytes_vr x)
              then Inr (s\<lparr>version_string_buffer := version_string_buffer s @ map printable (take 8 (bytes_vr x))\<rparr>)
              else Inl IndexOutOfRange
          | _ \<Rightarrow> Inl UnionMismatch)
     | _ \<Rightarrow> Inr s)"

definition ParseCANFrame ::
  "'st ParserBase \<Rightarrow> RawUnion \<Rightarrow> SdkTimePoint \<Rightarrow> can_frame \<Rightarrow> 'st AgilexBase \<Rightarrow> 'st AgilexBase res" where
  "ParseCANFrame P raw now rx s =
     res_bind (DecodeMessage P raw rx) (\<lambda>(ok, status_msg).
       if ok then
         res_bind (UpdateRobotCoreState now status_msg s) (\<lambda>s1.
         res_bind (UpdateActuatorState now status_msg s1) (\<lambda>s2.
         res_bind (UpdateCommonSensorState now status_msg s2) (\<lambda>s3.
           UpdateResponseVersion status_msg s3)))
       else Inr s)"

text \<open>A sequence of received frames, each with its time of reception.\<close>

fun ParseFrames ::
  "'st ParserBase \<Rightarrow> RawUnion \<Rightarrow> (SdkTimePoint \<times> can_frame) list \<Rightarrow> 'st AgilexBase \<Rightarrow> 'st AgilexBase res" where
  "ParseFrames P raw [] s = Inr s"
| "ParseFrames P raw ((now, rx) # rest) s = res_bind (ParseCANFrame P raw now rx s) (ParseFrames P raw rest)"

section \<open>Version request\<close>

definition version_request_frame :: "Mem \<Rightarrow> can_frame" where
  "version_request_frame mem =
     (mem_frame mem)\<lparr>can_id := 0x4a1, can_dlc := 1, data_of := (data_of (mem_frame mem))[0 := 0x01]\<rparr>"

text \<open>
  The polling loop. Each entry of \<open>polls\<close> is one evaluation of the loop condition: the whole seconds
  elapsed since the start, and the frames that the I/O thread handles between that evaluation and the
  copy of the buffer. A list that ends before the loop does gives \<open>None\<close>.
\<close>

fun version_wait ::
  "'st ParserBase \<Rightarrow> RawUnion \<Rightarrow> int \<Rightarrow> (int \<times> (SdkTimePoint \<times> can_frame) list) list \<Rightarrow> bytes
    \<Rightarrow> 'st AgilexBase \<Rightarrow> (bytes \<times> 'st AgilexBase) option res" where
  "version_wait P raw timeout [] v s = Inr None"
| "version_wait P raw timeout ((elapsed, rxs) # polls) v s =
    (if elapsed < timeout then
       res_bind (ParseFrames P raw rxs s) (\<lambda>s'.
         let v' = version_string_buffer s' in
         if 80 \<le> length v' then Inr (Some (v', s')) else version_wait P raw timeout polls v' s')
     else Inr (Some (v, s)))"

definition RequestVersion ::
  "'st ParserBase \<Rightarrow> Mem \<Rightarrow> int \<Rightarrow> (int \<times> (SdkTimePoint \<times> can_frame) list) list
    \<Rightarrow> 'st AgilexBase \<Rightarrow> (bytes \<times> 'st AgilexBase) option res" where
  "RequestVersion P mem timeout_sec polls s =
    (let s0 = s\<lparr>version_string_buffer := []\<rparr> in
     case can_ptr s0 of
       None \<Rightarrow> Inl NullDereference
     | Some can \<Rightarrow>
         res_bind (version_wait P (mem_msg mem) timeout_sec polls []
             (can_send (version_request_frame mem) s0)) (\<lambda>r.
           Inr (map_option (\<lambda>(v, s'). (if length v < 80 then [] else v, s')) r)))"

end
