(* ===== verification/Agilex_Base_Theorems.thy ===== *)
theory Agilex_Base_Theorems
  imports Agilex_Base
begin

text \<open>
  The contract between \<open>AgilexBase\<close> and its parser as a locale, with the lemmas about the base class
  that follow from it, and its interpretation for both protocol versions.
\<close>

section \<open>Invariant of the base class\<close>

definition base_wf :: "'st AgilexBase \<Rightarrow> bool" where
  "base_wf s = (length (actuator_hs_state (actuator_state_msgs s)) = AGX_MAX_ACTUATOR_NUM \<and>
     length (actuator_ls_state (actuator_state_msgs s)) = AGX_MAX_ACTUATOR_NUM \<and>
     length (actuator_state_v1 (actuator_state_msgs s)) = AGX_MAX_ACTUATOR_NUM \<and>
     list_all (\<lambda>c. 32 \<le> c \<and> c \<le> 126) (version_string_buffer s))"

text \<open>What a handler of received frames leaves alone: the port and the encoder's counters.\<close>

definition same_port :: "'st AgilexBase \<Rightarrow> 'st AgilexBase \<Rightarrow> bool" where
  "same_port s s' = (can_ptr s' = can_ptr s \<and> statics s' = statics s)"

lemma same_port_trans: "same_port a b \<Longrightarrow> same_port b c \<Longrightarrow> same_port a c"
  by (simp add: same_port_def)

lemma printable_range: "32 \<le> printable c \<and> printable c \<le> 126"
  by (auto simp: printable_def not_less)

lemma printable_all: "list_all (\<lambda>c. 32 \<le> c \<and> c \<le> 126) (map printable xs)"
  by (simp add: list_all_iff printable_range)

lemma array_set_ok: "i < length xs \<Longrightarrow> array_set xs i x = Inr (xs[i := x])"
  by (simp add: array_set_def)

lemma core_ok:
  assumes "tag_ok (type_of m) (body m)"
  obtains s' where "UpdateRobotCoreState now m s = Inr s'" "base_wf s' = base_wf s" "same_port s s'"
  using assms that
  by (cases "type_of m") (auto dest!: tag_ok_elims simp: UpdateRobotCoreState_def Let_def base_wf_def same_port_def
      simp del: tag_ok.simps)

lemma actuator_ok:
  assumes "tag_ok (type_of m) (body m)" "base_wf s"
  obtains s' where "UpdateActuatorState now m s = Inr s'" "base_wf s'" "same_port s s'"
  using assms that
  by (cases "type_of m") (auto dest!: tag_ok_elims simp: UpdateActuatorState_def Let_def base_wf_def
      same_port_def AGX_MAX_ACTUATOR_NUM_def array_set_ok simp del: tag_ok.simps)

lemma sensor_ok:
  assumes "tag_ok (type_of m) (body m)"
  obtains s' where "UpdateCommonSensorState now m s = Inr s'" "base_wf s' = base_wf s" "same_port s s'"
  using assms that
  by (cases "type_of m") (auto dest!: tag_ok_elims simp: UpdateCommonSensorState_def Let_def base_wf_def same_port_def
      simp del: tag_ok.simps)

lemma version_ok:
  assumes "tag_ok (type_of m) (body m)" "base_wf s"
  obtains s' where "UpdateResponseVersion m s = Inr s'" "base_wf s'" "same_port s s'"
  using assms that
  by (cases "type_of m") (auto dest!: tag_ok_elims simp: UpdateResponseVersion_def base_wf_def same_port_def
      printable_all simp del: tag_ok.simps)

section \<open>The parser contract\<close>

definition rx_ok :: "can_frame \<Rightarrow> bool" where
  "rx_ok rx = (frame_wf rx \<and> unat (can_dlc rx) \<le> 8)"

locale agx_parser =
  fixes P :: "'st ParserBase"
  assumes decode_safe: "rx_ok rx \<Longrightarrow>
      \<exists>ok m. DecodeMessage P raw rx = Inr (ok, m) \<and> (ok \<longrightarrow> tag_ok (type_of m) (body m))"
    and encode_frame: "frame_wf tx \<Longrightarrow> length stk = 8 \<Longrightarrow>
      EncodeMessage P stk st msg tx = Inr (True, tx', st') \<Longrightarrow> rx_ok tx'"
begin

lemma parse_total:
  assumes "rx_ok rx" "base_wf s"
  obtains s' where "ParseCANFrame P raw now rx s = Inr s'" "base_wf s'" "same_port s s'"
proof -
  obtain ok m where d: "DecodeMessage P raw rx = Inr (ok, m)" "ok \<longrightarrow> tag_ok (type_of m) (body m)"
    using decode_safe[OF assms(1)] by blast
  show ?thesis
  proof (cases ok)
    case True
    then have t: "tag_ok (type_of m) (body m)" using d(2) by simp
    obtain s1 where 1: "UpdateRobotCoreState now m s = Inr s1" "base_wf s1" "same_port s s1"
      using core_ok[OF t, of now s] assms(2) by metis
    obtain s2 where 2: "UpdateActuatorState now m s1 = Inr s2" "base_wf s2" "same_port s1 s2"
      using actuator_ok[OF t 1(2)] .
    obtain s3 where 3: "UpdateCommonSensorState now m s2 = Inr s3" "base_wf s3" "same_port s2 s3"
      using sensor_ok[OF t, of now s2] 2(2) by metis
    obtain s4 where 4: "UpdateResponseVersion m s3 = Inr s4" "base_wf s4" "same_port s3 s4"
      using version_ok[OF t 3(2)] .
    show ?thesis using that[of s4] d True 1 2 3 4 same_port_trans[OF 1(3)] same_port_trans[OF 2(3)] same_port_trans[OF 3(3)]
      by (simp add: ParseCANFrame_def)
  next
    case False
    then show ?thesis using that[of s] d assms(2) by (simp add: ParseCANFrame_def same_port_def)
  qed
qed

lemma parse_frames_total:
  assumes "list_all (\<lambda>(now, rx). rx_ok rx) rxs" "base_wf s"
  obtains s' where "ParseFrames P raw rxs s = Inr s'" "base_wf s'" "same_port s s'"
  using assms
proof (induction rxs arbitrary: s thesis)
  case Nil
  then show ?case by (simp add: same_port_def)
next
  case (Cons x rxs)
  obtain now rx where x: "x = (now, rx)" by force
  have "rx_ok rx" using Cons.prems(2) by (simp add: x)
  then obtain s1 where 1: "ParseCANFrame P raw now rx s = Inr s1" "base_wf s1" "same_port s s1"
    using parse_total Cons.prems(3) by metis
  obtain s' where 2: "ParseFrames P raw rxs s1 = Inr s'" "base_wf s'" "same_port s1 s'"
    using Cons.IH[OF _ _ 1(2)] Cons.prems(2) by auto
  show ?case using Cons.prems(1)[of s'] 1 2 same_port_trans by (simp add: x) blast
qed

lemma version_wait_total:
  assumes "list_all (\<lambda>(e, rxs). list_all (\<lambda>(now, rx). rx_ok rx) rxs) polls" "base_wf s"
    and "\<exists>(e, rxs) \<in> set polls. timeout \<le> e" "list_all (\<lambda>c. 32 \<le> c \<and> c \<le> 126) v"
  obtains v' s' where "version_wait P raw timeout polls v s = Inr (Some (v', s'))" "base_wf s'" "same_port s s'"
    "list_all (\<lambda>c. 32 \<le> c \<and> c \<le> 126) v'"
  using assms
proof (induction polls arbitrary: v s thesis)
  case (Cons p polls)
  obtain e rxs where p: "p = (e, rxs)" by force
  show ?case
  proof (cases "e < timeout")
    case True
    obtain s1 where 1: "ParseFrames P raw rxs s = Inr s1" "base_wf s1" "same_port s s1"
      using parse_frames_total[of rxs s] Cons.prems(2,3) by (auto simp: p)
    have b: "list_all (\<lambda>c. 32 \<le> c \<and> c \<le> 126) (version_string_buffer s1)" using 1(2) by (simp add: base_wf_def)
    have r: "\<exists>(e, rxs) \<in> set polls. timeout \<le> e" using Cons.prems(4) True by (auto simp: p)
    show ?thesis
    proof (cases "80 \<le> length (version_string_buffer s1)")
      case long: True
      then show ?thesis using Cons.prems(1)[of "version_string_buffer s1" s1] 1 b True by (simp add: p)
    next
      case False
      obtain v' s' where "version_wait P raw timeout polls (version_string_buffer s1) s1 = Inr (Some (v', s'))"
          "base_wf s'" "same_port s1 s'" "list_all (\<lambda>c. 32 \<le> c \<and> c \<le> 126) v'"
        using Cons.IH[OF _ _ 1(2) r b] Cons.prems(2) by auto
      then show ?thesis using Cons.prems(1)[of v' s'] 1 False True same_port_trans by (simp add: p Let_def) blast
    qed
  next
    case False
    then show ?thesis using Cons.prems(1)[of v s] Cons.prems by (simp add: p same_port_def)
  qed
qed simp

end

section \<open>Both protocol versions meet the contract\<close>

lemma decode_safe_v2:
  "\<exists>ok m. DecodeCanFrameV2 raw rx = (ok, m) \<and> (ok \<longrightarrow> tag_ok (type_of m) (body m))"
  by (cases "DecodeCanFrameV2 raw rx") (auto dest: decode_tag_v2)

lemma encode_frame_v2:
  assumes "frame_wf tx" "length stk = 8" "EncodeCanFrameV2 stk st msg tx = Inr (True, tx', st')"
  shows "rx_ok tx'"
proof -
  have p: "rx_ok (put_frame fid dlc bs tx)" if "length bs = 8" "unat dlc \<le> 8" for fid dlc bs
    using that assms(1) frame_wf_put_frame[of tx dlc bs fid] by (simp add: rx_ok_def)
  have blank: "rx_ok fr" if "encode_blank_v2 stk msg tx = Inr fr" for fr
    using that assms(2) by (auto simp: encode_blank_v2_def p split: MsgType.splits AgxBody.splits)
  have cmd: "rx_ok tx'" if "encode_command_v2 stk st msg tx = Inr (True, tx', st')"
    using that by (auto simp: encode_command_v2_def res_iff p mcf.length_to_bytes lcf.length_to_bytes
      smm.length_to_bytes ssf.length_to_bytes msf.length_to_bytes cmf.length_to_bytes bmf.length_to_bytes
      split: MsgType.splits AgxBody.splits)
  show ?thesis using assms(3) blank cmd by (auto simp: EncodeCanFrameV2_def res_iff split: if_splits)
qed

interpretation v2: agx_parser ProtocolV2Parser
  using decode_safe_v2 encode_frame_v2
  by unfold_locales (simp_all add: ProtocolV2Parser_def)

lemma encode_can_frame_v1:
  assumes "frame_wf tx" "EncodeCanFrameV1 stk st msg tx = Inr (True, tx', st')"
  shows "rx_ok tx'"
proof -
  have p: "rx_ok tx'" if "put_checked_v1 fid bs tx = Inr tx'" "length bs = 8" for fid bs
    by (rule put_checked_v1_ok[OF assms(1) that(2), of fid]) (use that(1) in \<open>simp add: rx_ok_def\<close>)
  show ?thesis
  proof (cases "type_of msg")
    case AgxMsgMotionCommandV1
    then show ?thesis using assms(2) p[OF _ mcf1.length_to_bytes]
      by (cases "body msg") (auto simp: EncodeCanFrameV1_def res_iff)
  next
    case AgxMsgValueSetCommandV1
    then show ?thesis using assms(2) p[OF _ vscf.length_to_bytes]
      by (cases "body msg") (auto simp: EncodeCanFrameV1_def res_iff)
  next
    case AgxMsgLightCommand
    then show ?thesis using assms(2) p[OF _ lcf1.length_to_bytes]
      by (cases "body msg") (auto simp: EncodeCanFrameV1_def res_iff)
  qed (use assms(2) in \<open>simp_all add: EncodeCanFrameV1_def\<close>)
qed

lemma encode_frame_v1:
  assumes "frame_wf tx" "EncodeMessageV1 rl stk st msg tx = Inr (True, tx', st')"
  shows "rx_ok tx'"
proof (cases "type_of msg = AgxMsgMotionCommandV1")
  case True
  then show ?thesis using assms(2) encode_can_frame_v1[OF assms(1)]
    by (cases "body msg") (auto simp: EncodeMessageV1_def)
next
  case False
  then have "EncodeMessageV1 rl stk st msg tx = EncodeCanFrameV1 stk st msg tx"
    by (cases "type_of msg") (simp_all add: EncodeMessageV1_def)
  then show ?thesis using assms encode_can_frame_v1 by metis
qed

interpretation v1: agx_parser "ProtocolV1Parser rl" for rl
proof
  fix rx raw
  assume "rx_ok rx"
  then show "\<exists>ok m. DecodeMessage (ProtocolV1Parser rl) raw rx = Inr (ok, m) \<and>
      (ok \<longrightarrow> tag_ok (type_of m) (body m))"
    using decode_in_bounds_v1[of rx raw] by (simp add: ProtocolV1Parser_def rx_ok_def)
next
  fix tx stk st msg tx' st'
  assume "frame_wf tx" "EncodeMessage (ProtocolV1Parser rl) stk st msg tx = Inr (True, tx', st')"
  then show "rx_ok tx'" by (simp add: ProtocolV1Parser_def encode_frame_v1)
qed

section \<open>Commands on the bus\<close>

lemma can_ready_iff: "can_ready s \<longleftrightarrow> (\<exists>can. can_ptr s = Some can \<and> port_opened can)"
  by (auto simp: can_ready_def IsOpened_def split: option.splits)

definition sent :: "'st AgilexBase \<Rightarrow> can_frame list" where
  "sent s = (case can_ptr s of None \<Rightarrow> [] | Some can \<Rightarrow> tx_log can)"

lemma sent_can_send: "can_ready s \<Longrightarrow> sent (can_send fr s) = sent s @ [fr]"
  by (auto simp: can_ready_iff sent_def can_send_def SendFrame_def)

lemma sent_statics [simp]: "sent (s\<lparr>statics := st\<rparr>) = sent s" "can_ready (s\<lparr>statics := st\<rparr>) = can_ready s"
  by (simp_all add: sent_def can_ready_def)

lemma encode_and_send_ok:
  assumes "can_ready s" "EncodeMessage P (mem_struct mem) (statics s) msg (mem_frame mem) = Inr (True, fr, st)"
  shows "encode_and_send P mem msg s = Inr (can_send fr (s\<lparr>statics := st\<rparr>))"
    "sent (can_send fr (s\<lparr>statics := st\<rparr>)) = sent s @ [fr]"
  using assms by (simp_all add: encode_and_send_def sent_can_send)

text \<open>A double command that fits the 16-bit field with room for the rounding to float.\<close>

definition command_ok :: "fp \<Rightarrow> bool" where
  "command_ok v = (is_fin v \<and> fp_wf B64 v \<and> \<bar>fval v\<bar> \<le> 32)"

lemma command_ok_float:
  assumes "command_ok v"
  shows "velocity_ok (fcvt B32 v)" "\<bar>fval (fcvt B32 v) - fval v\<bar> \<le> 1 / 100000"
proof -
  have v: "is_fin v" "fp_wf B64 v" "\<bar>fval v\<bar> \<le> 32" using assms by (simp_all add: command_ok_def)
  have c: "is_fin (fcvt B32 v)" "\<bar>fval (fcvt B32 v) - fval v\<bar> \<le> 1 / 100000"
    using fcvt_error[OF v, of B32 "1 / 100000"] by (simp_all add: pow2_def)
  then show "\<bar>fval (fcvt B32 v) - fval v\<bar> \<le> 1 / 100000" by simp
  have "\<bar>fval (fcvt B32 v)\<bar> \<le> 32767 / 1000" using c(2) v(3) by linarith
  then show "velocity_ok (fcvt B32 v)" using c(1) fp_wf_fcvt[OF v(2)] by (simp add: velocity_ok_def)
qed

lemma command_field:
  assumes "command_ok v"
  obtains w where "mul1000_i16 (fcvt B32 v) = Inr w" "\<bar>fval (div1000 (sint w)) - fval v\<bar> < 1 / 900"
proof -
  obtain w where w: "mul1000_i16 (fcvt B32 v) = Inr w" "\<bar>fval (div1000 (sint w)) - fval (fcvt B32 v)\<bar> < 1 / 990"
    using velocity_okE[OF command_ok_float(1)[OF assms]] .
  show ?thesis using that[OF w(1)] w(2) command_ok_float(2)[OF assms] by linarith
qed

lemma send_motion_ok:
  assumes "can_ready s" "mem_wf mem" "command_ok lin" "command_ok ang" "command_ok lat" "command_ok steer"
  shows "\<exists>s' fr m. SendMotionCommand ProtocolV2Parser mem lin ang lat steer s = Inr s' \<and>
    s' = can_send fr s \<and> sent s' = sent s @ [fr] \<and> can_id fr = 0x111 \<and>
    DecodeCanFrameV2 raw fr = (True, \<lparr>type_of = AgxMsgMotionCommand, body = MotionCommandBody m\<rparr>) \<and>
    \<bar>fval (linear_velocity_mc m) - fval lin\<bar> < 1 / 900 \<and> \<bar>fval (angular_velocity_mc m) - fval ang\<bar> < 1 / 900 \<and>
    \<bar>fval (lateral_velocity_mc m) - fval lat\<bar> < 1 / 900 \<and> \<bar>fval (steering_angle_mc m) - fval steer\<bar> < 1 / 900"
proof -
  obtain a where a: "mul1000_i16 (fcvt B32 lin) = Inr a" "\<bar>fval (div1000 (sint a)) - fval lin\<bar> < 1 / 900"
    using command_field[OF assms(3)] .
  obtain b where b: "mul1000_i16 (fcvt B32 ang) = Inr b" "\<bar>fval (div1000 (sint b)) - fval ang\<bar> < 1 / 900"
    using command_field[OF assms(4)] .
  obtain c where c: "mul1000_i16 (fcvt B32 lat) = Inr c" "\<bar>fval (div1000 (sint c)) - fval lat\<bar> < 1 / 900"
    using command_field[OF assms(5)] .
  obtain d where d: "mul1000_i16 (fcvt B32 steer) = Inr d" "\<bar>fval (div1000 (sint d)) - fval steer\<bar> < 1 / 900"
    using command_field[OF assms(6)] .
  have m: "frame_wf (mem_frame mem)" using assms(2) by (simp add: mem_wf_def)
  show ?thesis
    using a b c d m assms(1)
    by (auto simp: SendMotionCommand_def motion_command_message_def ProtocolV2Parser_def encode_and_send_def
      encode_defs decode_defs encode_motion_command_def decode_motion_command_def decode_encoded
      mcf.length_to_bytes mcf.of_to sent_can_send v2_ids simp del: put_frame_sel(3))
qed

section \<open>Sample states\<close>

definition zero_fp :: fp where "zero_fp = Fin False 0"

definition sample_mem :: Mem where
  "sample_mem = \<lparr>mem_msg = zero_union, mem_light = light_off, mem_frame = sample_frame 0,
     mem_struct = [0, 0, 0, 0, 0, 0, 0, 0]\<rparr>"

definition sample_can :: AsyncCAN where
  "sample_can = (AsyncCAN_new ''can0'')\<lparr>port_opened := True, io_joinable := True, read_pending := True,
     can_fd := Some 3, rcv_cb_set := True\<rparr>"

definition sample_base :: "'st \<Rightarrow> 'st AgilexBase" where
  "sample_base st =
     \<lparr>core_state_msgs = \<lparr>time_stamp_core = 0,
        system_state = \<lparr>vehicle_state = 0, control_mode = 0, battery_voltage = zero_fp, error_code = 0\<rparr>,
        motion_state = raw_motion zero_union, light_state = light_off,
        motion_mode_state = \<lparr>motion_mode = 0, mode_changing = 0\<rparr>, rc_state = rc_memory 0\<rparr>,
      actuator_state_msgs = \<lparr>time_stamp_act = 0,
        actuator_hs_state = replicate 8 \<lparr>motor_id_hs = 0, rpm_hs = 0, current_hs = zero_fp, pulse_count = 0\<rparr>,
        actuator_ls_state = replicate 8 \<lparr>motor_id_ls = 0, driver_voltage = zero_fp, driver_temp = zero_fp,
          motor_temp = zero_fp, driver_state = 0\<rparr>,
        actuator_state_v1 = replicate 8 \<lparr>motor_id_v1 = 0, current_v1 = zero_fp, rpm_v1 = 0,
          driver_temp_v1 = zero_fp, motor_temp_v1 = zero_fp\<rparr>,
        motor_angles = \<lparr>angle_5 = zero_fp, angle_6 = zero_fp, angle_7 = zero_fp, angle_8 = zero_fp\<rparr>,
        motor_speeds = \<lparr>speed_1 = zero_fp, speed_2 = zero_fp, speed_3 = zero_fp, speed_4 = zero_fp\<rparr>\<rparr>,
      common_sensor_state_msgs = \<lparr>time_stamp_sensor = 0,
        bms_basic_state = \<lparr>battery_soc = 0, battery_soh = 0, voltage_bms = zero_fp, current_bms = zero_fp,
          temperature_bms = zero_fp\<rparr>,
        bms_extend_state = \<lparr>alarm_status_1 = 0, alarm_status_2 = 0, warn_status_1 = 0, warn_status_2 = 0\<rparr>\<rparr>,
      version_string_buffer = [], can_ptr = Some sample_can, statics = st\<rparr>"

lemma sample_facts [simp]:
  "can_ready (sample_base st)" "base_wf (sample_base st)" "mem_wf sample_mem" "can_inv sample_can"
  "IsOpened sample_can"
  "sent (sample_base st) = []"
  by (simp_all add: can_ready_def sample_base_def sample_can_def IsOpened_def base_wf_def AGX_MAX_ACTUATOR_NUM_def
    mem_wf_def sample_mem_def can_inv_def AsyncCAN_new_def sent_def)

lemma sample_rx_ok [simp]: "rx_ok (sample_frame fid)"
  by (simp add: rx_ok_def sample_frame_def frame_wf_def)

lemma command_ok_fint: "\<bar>n\<bar> \<le> 32 \<Longrightarrow> command_ok (fint B64 n)"
  using fint_value[of n B64] by (simp add: command_ok_def)

section \<open>Properties\<close>

text \<open>
  C8: on a robot of protocol version 2 with an open port, a motion command of finite doubles up to 32
  in magnitude puts exactly one frame on the bus and changes nothing else; the frame has identifier
  0x111, and the robot's decoder reads from it each of the four commanded values within 1/900.
\<close>

theorem send_motion_command_v2:
  assumes "can_ready s" "mem_wf mem" "command_ok lin" "command_ok ang" "command_ok lat" "command_ok steer"
  shows "\<exists>s' fr m. SendMotionCommand ProtocolV2Parser mem lin ang lat steer s = Inr s' \<and>
    s' = can_send fr s \<and> sent s' = sent s @ [fr] \<and> can_id fr = 0x111 \<and>
    DecodeCanFrameV2 raw fr = (True, \<lparr>type_of = AgxMsgMotionCommand, body = MotionCommandBody m\<rparr>) \<and>
    \<bar>fval (linear_velocity_mc m) - fval lin\<bar> < 1 / 900 \<and> \<bar>fval (angular_velocity_mc m) - fval ang\<bar> < 1 / 900 \<and>
    \<bar>fval (lateral_velocity_mc m) - fval lat\<bar> < 1 / 900 \<and> \<bar>fval (steering_angle_mc m) - fval steer\<bar> < 1 / 900"
  by (rule send_motion_ok[OF assms])

theorem send_motion_command_v2_witness:
  "\<exists>s' fr. SendMotionCommand ProtocolV2Parser sample_mem (fint B64 1) (fint B64 0) (fint B64 0) (fint B64 0)
       (sample_base \<lparr>light_count_v2 = 0\<rparr>) = Inr s' \<and> sent s' = [fr] \<and> can_id fr = 0x111"
  using send_motion_command_v2[of "sample_base \<lparr>light_count_v2 = 0\<rparr>" sample_mem "fint B64 1" "fint B64 0" "fint B64 0" "fint B64 0" zero_union]
    command_ok_fint[of 1] command_ok_fint[of 0] by auto

text \<open>
  C9: whatever well-formed frames arrive, in whatever order, a robot of either protocol version handles
  them without a fault (no union member is read under a wrong tag, no array is indexed out of range);
  the invariant of its state holds afterwards and its port and counters are as before.
\<close>

theorem parse_frames_safe:
  assumes "list_all (\<lambda>(now, rx). rx_ok rx) rxs" "base_wf s" "base_wf t"
  shows "(\<exists>s'. ParseFrames ProtocolV2Parser raw rxs s = Inr s' \<and> base_wf s' \<and> same_port s s') \<and>
    (\<exists>t'. ParseFrames (ProtocolV1Parser rl) raw rxs t = Inr t' \<and> base_wf t' \<and> same_port t t')"
  using v2.parse_frames_total[OF assms(1,2)] v1.parse_frames_total[OF assms(1,3)] by metis

theorem parse_frames_safe_witness:
  "\<exists>s'. ParseFrames ProtocolV2Parser zero_union [(1, sample_frame 0x258), (2, sample_frame 0x221), (3, sample_frame 7)]
      (sample_base \<lparr>light_count_v2 = 0\<rparr>) = Inr s' \<and> base_wf s'"
  using parse_frames_safe[of "[(1, sample_frame 0x258), (2, sample_frame 0x221), (3, sample_frame 7)]"
      "sample_base \<lparr>light_count_v2 = 0\<rparr>"
      "sample_base \<lparr>motion_count_v1 = 0, value_set_count_v1 = 0, light_count_v1 = 0\<rparr>" zero_union ScoutMiniLimits]
  by auto

text \<open>
  C22: \<open>RequestVersion\<close> on a connected robot returns once the clock has passed the timeout, whatever
  frames arrive meanwhile; it returns either the empty string or at least 80 printable characters, and
  it has put one request on the bus.
\<close>

theorem request_version_returns:
  assumes "can_ready s" "base_wf s" "\<exists>(e, rxs) \<in> set polls. timeout \<le> e"
    and "list_all (\<lambda>(e, rxs). list_all (\<lambda>(now, rx). rx_ok rx) rxs) polls"
  shows "\<exists>v s'. RequestVersion ProtocolV2Parser mem timeout polls s = Inr (Some (v, s')) \<and> base_wf s' \<and>
    (v = [] \<or> 80 \<le> length v) \<and> list_all (\<lambda>c. 32 \<le> c \<and> c \<le> 126) v \<and>
    sent s' = sent s @ [version_request_frame mem]"
proof -
  let ?s = "can_send (version_request_frame mem) (s\<lparr>version_string_buffer := []\<rparr>)"
  have "base_wf ?s" using assms(2) by (simp add: base_wf_def can_send_def)
  then obtain v s' where r: "version_wait ProtocolV2Parser (mem_msg mem) timeout polls [] ?s = Inr (Some (v, s'))"
      "base_wf s'" "same_port ?s s'" "list_all (\<lambda>c. 32 \<le> c \<and> c \<le> 126) v"
    using v2.version_wait_total[OF assms(4) _ assms(3), of ?s "[]" "mem_msg mem"] by auto
  moreover have "sent s' = sent ?s" using r(3) by (simp add: sent_def same_port_def)
  moreover have "sent ?s = sent s @ [version_request_frame mem]"
    using sent_can_send[of "s\<lparr>version_string_buffer := []\<rparr>"] assms(1) by (simp add: can_ready_def sent_def)
  ultimately show ?thesis using assms(1) by (auto simp: RequestVersion_def can_ready_iff)
qed

theorem request_version_returns_witness:
  "\<exists>v s'. RequestVersion ProtocolV2Parser sample_mem 3 [(0, [(1, sample_frame 0x4a1)]), (3, [])]
      (sample_base \<lparr>light_count_v2 = 0\<rparr>) = Inr (Some (v, s')) \<and> (v = [] \<or> 80 \<le> length v)"
  using request_version_returns[of "sample_base \<lparr>light_count_v2 = 0\<rparr>" "[(0, [(1, sample_frame 0x4a1)]), (3, [])]" 3 sample_mem]
  by auto

text \<open>
  the frame that \<open>RequestVersion\<close> sends carries the identifier of a version response: the SDK's own
  decoder takes it for the response and not for a request.
\<close>

lemma version_request_uses_response_id:
  "can_id (version_request_frame mem) = CAN_MSG_VERSION_RESPONSE_ID \<and>
   type_of (snd (DecodeCanFrameV2 raw (version_request_frame mem))) = AgxMsgVersionResponse"
  by (simp add: version_request_frame_def decode_defs v2_ids)

text \<open>
  Without a port, or with a port that is not open, no command of the base class has any effect.
\<close>

lemma commands_need_port:
  assumes "\<not> can_ready s"
  shows "SendMotionCommand P mem lin ang lat steer s = Inr s \<and> EnableCommandedMode P mem s = Inr s \<and>
    SendLightCommand P mem fm fc rm rc s = Inr s \<and> DisableLightControl P mem s = Inr s \<and>
    SetMotionMode P mem mode s = Inr s \<and> SetBrakeMode P mem brake s = Inr s"
  using assms
  by (simp add: SendMotionCommand_def EnableCommandedMode_def SendLightCommand_def DisableLightControl_def
    SetMotionMode_def SetBrakeMode_def)

text \<open>
  the encoder of version 1 has no branch for mode, brake and motion mode messages, so that these
  three commands put nothing on the bus of a version 1 robot even when its port is open.
\<close>

lemma mode_commands_silent_v1:
  "EnableCommandedMode (ProtocolV1Parser rl) mem s = Inr s \<and>
   SetMotionMode (ProtocolV1Parser rl) mem mode s = Inr s \<and> SetBrakeMode (ProtocolV1Parser rl) mem brake s = Inr s"
  by (simp add: EnableCommandedMode_def SetMotionMode_def SetBrakeMode_def encode_and_send_def
    ProtocolV1Parser_def EncodeMessageV1_def EncodeCanFrameV1_def)

text \<open>
  a failing read ends the program: the completion handler runs on the I/O thread of the open port
  and \<open>Close\<close> makes that thread join itself.
\<close>

lemma read_error_is_fatal:
  assumes "can_inv can" "IsOpened can"
  shows "ReadFromPort cb ReadError (can, s) = Inl (Thrown ''resource_deadlock_would_occur'')"
  using assms by (simp add: ReadFromPort_def CanClose_def can_inv_def IsOpened_def)

end
