(* ===== verification/Ranger_Base.thy ===== *)
theory Ranger_Base
  imports Agilex_Base_Theorems
begin

text \<open>
  \<open>ranger_interface.hpp\<close>, \<open>ranger_base.hpp\<close> and \<open>ranger_robot.cpp\<close>: the Ranger robots. The three robot
  classes differ in the operations they override; \<open>RangerRobot\<close> dispatches on the variant it was made
  with. A getter fills an uninitialised struct, which is the argument \<open>mem\<close>.
\<close>

type_synonym ranger = "StaticsV2 AgilexBase"

section \<open>Interface types\<close>

record RangerCoreState =
  time_stamp_rcs :: SdkTimePoint
  system_state_rcs :: SystemStateMessage
  motion_state_rcs :: MotionStateMessage
  light_state_rcs :: LightCommandMessage
  motion_mode_state_rcs :: MotionModeStateMessage
  rc_state_rcs :: RcStateMessage
  odometry_rcs :: OdometryMessage

record RangerActuatorState =
  time_stamp_ras :: SdkTimePoint
  motor_angles_ras :: MotorAngleMessage
  motor_speeds_ras :: MotorSpeedMessage
  actuator_hs_state_ras :: "ActuatorHSStateMessage list"
  actuator_ls_state_ras :: "ActuatorLSStateMessage list"

record RangerCommonSensorState =
  time_stamp_rss :: SdkTimePoint
  bms_basic_state_rss :: BmsBasicMessage
  bms_extended_state_rss :: BmsExtendedMessage

named_theorems motion_modes \<open>values of the enumeration \<open>RangerInterface::MotionMode\<close>\<close>

definition kDualAckerman :: u8 where [motion_modes]: "kDualAckerman = 0"
definition kParallel :: u8 where [motion_modes]: "kParallel = 1"
definition kSpinning :: u8 where [motion_modes]: "kSpinning = 2"
definition kPark :: u8 where [motion_modes]: "kPark = 3"
definition kSideSlip :: u8 where [motion_modes]: "kSideSlip = 4"

datatype RangerVariant = kRangerMiniV1 | kRangerMiniV2 | kRangerMiniV3 | kRanger

section \<open>RangerBase\<close>

definition Ranger_SetMotionMode :: "Mem \<Rightarrow> u8 \<Rightarrow> ranger \<Rightarrow> ranger res" where
  "Ranger_SetMotionMode mem mode s = SetMotionMode ProtocolV2Parser mem mode s"

definition Ranger_SetMotionCommand :: "Mem \<Rightarrow> fp \<Rightarrow> fp \<Rightarrow> fp \<Rightarrow> ranger \<Rightarrow> ranger res" where
  "Ranger_SetMotionCommand mem linear_vel steer_angle angular_vel s =
     SendMotionCommand ProtocolV2Parser mem linear_vel angular_vel (flit B64 0) steer_angle s"

definition Ranger_SetLightCommand :: "Mem \<Rightarrow> AgxLightMode \<Rightarrow> u8 \<Rightarrow> AgxLightMode \<Rightarrow> u8 \<Rightarrow> ranger \<Rightarrow> ranger res" where
  "Ranger_SetLightCommand mem f_mode f_value r_mode r_value s =
     SendLightCommand ProtocolV2Parser mem f_mode f_value r_mode r_value s"

definition Ranger_DisableLightControl :: "Mem \<Rightarrow> ranger \<Rightarrow> ranger res" where
  "Ranger_DisableLightControl mem s = DisableLightControl ProtocolV2Parser mem s"

definition Ranger_GetRobotState :: "RangerCoreState \<Rightarrow> ranger \<Rightarrow> RangerCoreState" where
  "Ranger_GetRobotState mem s =
    (let state = core_state_msgs s in
     mem\<lparr>time_stamp_rcs := time_stamp_core state, system_state_rcs := system_state state,
         motion_state_rcs := motion_state state, light_state_rcs := light_state state,
         rc_state_rcs := rc_state state, motion_mode_state_rcs := motion_mode_state state\<rparr>)"

text \<open>The loop \<open>for (int i = 0; i < 8; ++i)\<close> that copies an eight-entry array.\<close>

definition copy8 :: "'a list \<Rightarrow> 'a list" where
  "copy8 xs = map (\<lambda>i. xs ! i) [0..<8]"

definition Ranger_GetActuatorState :: "ranger \<Rightarrow> RangerActuatorState" where
  "Ranger_GetActuatorState s =
    (let actuator = actuator_state_msgs s in
     \<lparr>time_stamp_ras = time_stamp_act actuator, motor_angles_ras = motor_angles actuator,
      motor_speeds_ras = motor_speeds actuator,
      actuator_hs_state_ras = copy8 (actuator_hs_state actuator),
      actuator_ls_state_ras = copy8 (actuator_ls_state actuator)\<rparr>)"

text \<open>Only the basic battery message is copied; the extended one stays uninitialised.\<close>

definition Ranger_GetCommonSensorState :: "RangerCommonSensorState \<Rightarrow> ranger \<Rightarrow> RangerCommonSensorState" where
  "Ranger_GetCommonSensorState mem s =
    (let common_sensor = common_sensor_state_msgs s in
     mem\<lparr>time_stamp_rss := time_stamp_sensor common_sensor,
         bms_basic_state_rss := bms_basic_state common_sensor\<rparr>)"

section \<open>RangerMiniV2Base and RangerMiniV1Base\<close>

definition RangerMiniV2_GetCommonSensorState :: "RangerCommonSensorState \<Rightarrow> ranger \<Rightarrow> RangerCommonSensorState" where
  "RangerMiniV2_GetCommonSensorState mem s =
    (let common_sensor = common_sensor_state_msgs s; bms = bms_basic_state common_sensor in
     mem\<lparr>time_stamp_rss := time_stamp_sensor common_sensor,
         bms_basic_state_rss := bms\<lparr>voltage_bms := fmul B32 (voltage_bms bms) (flit B32 (1 / 10))\<rparr>\<rparr>)"

definition RangerMiniV1_SetMotionMode :: "Mem \<Rightarrow> u8 \<Rightarrow> ranger \<Rightarrow> ranger res" where
  "RangerMiniV1_SetMotionMode mem mode s =
    (if mode = kPark then Inr s
     else if mode = kSideSlip then SetMotionMode ProtocolV2Parser mem 3 s
     else SetMotionMode ProtocolV2Parser mem mode s)"

text \<open>\<open>-state.motion_state.steering_angle * 10 / 180.0 * 3.14\<close>, float then double, stored to a float.\<close>

definition mini_v1_steering :: "fp \<Rightarrow> fp" where
  "mini_v1_steering a = fcvt B32 (fmul B64 (fdiv B64 (fmul B32 (fneg a) (fint B32 10)) (flit B64 180))
     (flit B64 (314 / 100)))"

definition RangerMiniV1_GetRobotState :: "RangerCoreState \<Rightarrow> ranger \<Rightarrow> RangerCoreState" where
  "RangerMiniV1_GetRobotState mem s =
    (let state = core_state_msgs s; mot = motion_state state; mode = motion_mode (motion_mode_state state);
         old = motion_state_rcs mem;
         base = mem\<lparr>time_stamp_rcs := time_stamp_core state, system_state_rcs := system_state state,
                    light_state_rcs := light_state state, rc_state_rcs := rc_state state,
                    motion_mode_state_rcs := motion_mode_state state\<rparr> in
     if mode = kSpinning then
       base\<lparr>motion_state_rcs := \<lparr>linear_velocity = fint B32 0,
          angular_velocity = fcvt B32 (fdiv B64 (fneg (linear_velocity mot)) (flit B64 (254558 / 1000000))),
          lateral_velocity = lateral_velocity mot,
          steering_angle = mini_v1_steering (steering_angle mot)\<rparr>\<rparr>
     else if mode = kSideSlip then
       base\<lparr>motion_state_rcs := \<lparr>linear_velocity = fneg (linear_velocity mot),
          angular_velocity = angular_velocity old, \<comment> \<open>the statement in the source assigns nothing\<close>
          lateral_velocity = lateral_velocity mot,
          steering_angle = mini_v1_steering (steering_angle mot)\<rparr>\<rparr>
     else
       base\<lparr>motion_state_rcs := \<lparr>linear_velocity = linear_velocity mot,
          angular_velocity = fneg (angular_velocity mot),
          lateral_velocity = lateral_velocity mot,
          steering_angle = mini_v1_steering (steering_angle mot)\<rparr>\<rparr>)"

definition RangerMiniV1_SetMotionCommand :: "Mem \<Rightarrow> fp \<Rightarrow> fp \<Rightarrow> fp \<Rightarrow> ranger \<Rightarrow> ranger res" where
  "RangerMiniV1_SetMotionCommand mem linear_vel steer_angle angular_vel s =
    (let mode = motion_mode (motion_mode_state (core_state_msgs s));
         angular = (if mode = kSpinning then fmul B64 angular_vel (flit B64 (254558 / 1000000)) else angular_vel) in
     SendMotionCommand ProtocolV2Parser mem linear_vel (flit B64 0) (fneg angular)
       (fmul B64 (fdiv B64 (fdiv B64 (fneg steer_angle) (flit B64 10)) (flit B64 (314 / 100))) (fint B64 180)) s)"

text \<open>\<open>-angle / 18.0 * M_PI\<close>.\<close>

definition mini_v1_angle :: "fp \<Rightarrow> fp" where
  "mini_v1_angle a = fcvt B32 (fmul B64 (fdiv B64 (fneg a) (flit B64 18)) M_PI)"

definition RangerMiniV1_GetActuatorState :: "ranger \<Rightarrow> RangerActuatorState" where
  "RangerMiniV1_GetActuatorState s =
    (let actuator = actuator_state_msgs s; a = motor_angles actuator in
     \<lparr>time_stamp_ras = time_stamp_act actuator,
      motor_angles_ras = \<lparr>angle_5 = mini_v1_angle (angle_5 a), angle_6 = mini_v1_angle (angle_6 a),
        angle_7 = mini_v1_angle (angle_7 a), angle_8 = mini_v1_angle (angle_8 a)\<rparr>,
      motor_speeds_ras = motor_speeds actuator,
      actuator_hs_state_ras = copy8 (actuator_hs_state actuator),
      actuator_ls_state_ras = copy8 (actuator_ls_state actuator)\<rparr>)"

section \<open>RangerRobot\<close>

text \<open>The virtual calls of \<open>RangerRobot\<close>, resolved by the class its constructor chose.\<close>

definition RangerRobot_SetMotionMode :: "RangerVariant \<Rightarrow> Mem \<Rightarrow> u8 \<Rightarrow> ranger \<Rightarrow> ranger res" where
  "RangerRobot_SetMotionMode variant =
    (case variant of kRangerMiniV1 \<Rightarrow> RangerMiniV1_SetMotionMode | _ \<Rightarrow> Ranger_SetMotionMode)"

definition RangerRobot_SetMotionCommand :: "RangerVariant \<Rightarrow> Mem \<Rightarrow> fp \<Rightarrow> fp \<Rightarrow> fp \<Rightarrow> ranger \<Rightarrow> ranger res" where
  "RangerRobot_SetMotionCommand variant =
    (case variant of kRangerMiniV1 \<Rightarrow> RangerMiniV1_SetMotionCommand | _ \<Rightarrow> Ranger_SetMotionCommand)"

definition RangerRobot_SetLightCommand ::
  "RangerVariant \<Rightarrow> Mem \<Rightarrow> AgxLightMode \<Rightarrow> u8 \<Rightarrow> AgxLightMode \<Rightarrow> u8 \<Rightarrow> ranger \<Rightarrow> ranger res" where
  "RangerRobot_SetLightCommand variant = Ranger_SetLightCommand"

definition RangerRobot_DisableLightControl :: "ranger \<Rightarrow> ranger" where
  "RangerRobot_DisableLightControl s = s"

definition RangerRobot_GetRobotState :: "RangerVariant \<Rightarrow> RangerCoreState \<Rightarrow> ranger \<Rightarrow> RangerCoreState" where
  "RangerRobot_GetRobotState variant =
    (case variant of kRangerMiniV1 \<Rightarrow> RangerMiniV1_GetRobotState | _ \<Rightarrow> Ranger_GetRobotState)"

definition RangerRobot_GetActuatorState :: "RangerVariant \<Rightarrow> ranger \<Rightarrow> RangerActuatorState" where
  "RangerRobot_GetActuatorState variant =
    (case variant of kRangerMiniV1 \<Rightarrow> RangerMiniV1_GetActuatorState | _ \<Rightarrow> Ranger_GetActuatorState)"

definition RangerRobot_GetCommonSensorState ::
  "RangerVariant \<Rightarrow> RangerCommonSensorState \<Rightarrow> ranger \<Rightarrow> RangerCommonSensorState" where
  "RangerRobot_GetCommonSensorState variant =
    (case variant of kRangerMiniV2 \<Rightarrow> RangerMiniV2_GetCommonSensorState | _ \<Rightarrow> Ranger_GetCommonSensorState)"

definition RangerRobot_Connect :: "CanCalls \<Rightarrow> string \<Rightarrow> ranger \<Rightarrow> (bool \<times> ranger) res" where
  "RangerRobot_Connect os can_name s = Connect os can_name s"

definition RangerRobot_EnableCommandedMode :: "Mem \<Rightarrow> ranger \<Rightarrow> ranger res" where
  "RangerRobot_EnableCommandedMode mem s = EnableCommandedMode ProtocolV2Parser mem s"

definition RangerRobot_RequestVersion ::
  "Mem \<Rightarrow> int \<Rightarrow> (int \<times> (SdkTimePoint \<times> can_frame) list) list \<Rightarrow> ranger \<Rightarrow> (bytes \<times> ranger) option res" where
  "RangerRobot_RequestVersion mem timeout_sec polls s = RequestVersion ProtocolV2Parser mem timeout_sec polls s"

section \<open>Library\<close>

lemma length_copy8 [simp]: "length (copy8 xs) = 8"
  by (simp add: copy8_def)

lemma copy8_id: "length xs = 8 \<Longrightarrow> copy8 xs = xs"
  unfolding copy8_def by (metis map_nth)

definition set_mode_frame :: "Mem \<Rightarrow> u8 \<Rightarrow> can_frame" where
  "set_mode_frame mem mode = put_frame 0x141 8 [mode, 0, 0, 0, 0, 0, 0, 0] (mem_frame mem)"

lemma SetMotionMode_v2:
  assumes "can_ready s"
  shows "SetMotionMode ProtocolV2Parser mem mode s = Inr (can_send (set_mode_frame mem mode) s)"
  using assms by (simp add: SetMotionMode_def encode_and_send_def ProtocolV2Parser_def encode_defs
    encode_set_motion_mode_def set_mode_frame_def SetMotionModeFrame_bytes_def v2_ids)

lemma GetActuatorState_fields:
  "time_stamp_ras (RangerRobot_GetActuatorState variant s) = time_stamp_act (actuator_state_msgs s)"
  "actuator_hs_state_ras (RangerRobot_GetActuatorState variant s) = copy8 (actuator_hs_state (actuator_state_msgs s))"
  "actuator_ls_state_ras (RangerRobot_GetActuatorState variant s) = copy8 (actuator_ls_state (actuator_state_msgs s))"
  by (cases variant; simp add: RangerRobot_GetActuatorState_def Ranger_GetActuatorState_def
    RangerMiniV1_GetActuatorState_def Let_def)+

lemma parse_v2:
  assumes "DecodeCanFrameV2 raw rx = (True, m)"
  shows "ParseCANFrame ProtocolV2Parser raw now rx s =
    res_bind (UpdateRobotCoreState now m s) (\<lambda>s1. res_bind (UpdateActuatorState now m s1) (\<lambda>s2.
    res_bind (UpdateCommonSensorState now m s2) (\<lambda>s3. UpdateResponseVersion m s3)))"
  using assms by (simp add: ParseCANFrame_def ProtocolV2Parser_def)

lemmas update_defs = UpdateRobotCoreState_def UpdateActuatorState_def UpdateCommonSensorState_def
  UpdateResponseVersion_def Let_def

lemma hs_decoded:
  assumes "fid \<in> {0x251, 0x252, 0x253, 0x254, 0x255, 0x256, 0x257, 0x258}"
  shows "decode_core_v2 raw fid bs =
    Some (AgxMsgActuatorHSState, ActuatorHSBody (decode_actuator_hs fid (ActuatorHSStateFrame_of bs)))"
proof -
  have "fid \<notin> {0x111, 0x121, 0x131, 0x211, 0x221, 0x231, 0x241}" using assms by auto
  then show ?thesis using assms unfolding decode_core_v2_def v2_ids by (simp only: insert_iff empty_iff if_False if_True de_Morgan_disj simp_thms)
qed

lemma hs_motor_id:
  assumes "i < 8"
  shows "DecodeCanFrameV2 raw \<lparr>can_id = 0x251 + of_nat i, can_dlc = d, data_of = bs\<rparr> =
    (True, \<lparr>type_of = AgxMsgActuatorHSState,
       body = ActuatorHSBody (decode_actuator_hs (0x251 + of_nat i) (ActuatorHSStateFrame_of bs))\<rparr>)"
    "unat (motor_id_hs (decode_actuator_hs (0x251 + of_nat i) (ActuatorHSStateFrame_of bs))) = i"
proof -
  have i: "i \<in> {0, 1, 2, 3, 4, 5, 6, 7}" using assms by auto
  then have "(0x251 + of_nat i :: u32) \<in> {0x251, 0x252, 0x253, 0x254, 0x255, 0x256, 0x257, 0x258}" by auto
  then show "DecodeCanFrameV2 raw \<lparr>can_id = 0x251 + of_nat i, can_dlc = d, data_of = bs\<rparr> =
    (True, \<lparr>type_of = AgxMsgActuatorHSState,
       body = ActuatorHSBody (decode_actuator_hs (0x251 + of_nat i) (ActuatorHSStateFrame_of bs))\<rparr>)"
    by (simp add: DecodeCanFrameV2_def hs_decoded)
  show "unat (motor_id_hs (decode_actuator_hs (0x251 + of_nat i) (ActuatorHSStateFrame_of bs))) = i"
    using i by (auto simp: decode_actuator_hs_def CAN_MSG_ACTUATOR1_HS_STATE_ID_def)
qed

definition sample_core :: RangerCoreState where
  "sample_core = \<lparr>time_stamp_rcs = 0,
     system_state_rcs = \<lparr>vehicle_state = 0, control_mode = 0, battery_voltage = zero_fp, error_code = 0\<rparr>,
     motion_state_rcs = raw_motion zero_union, light_state_rcs = light_off,
     motion_mode_state_rcs = \<lparr>motion_mode = 0, mode_changing = 0\<rparr>, rc_state_rcs = rc_memory 0,
     odometry_rcs = \<lparr>left_wheel = zero_fp, right_wheel = zero_fp\<rparr>\<rparr>"

definition side_slip_base :: ranger where
  "side_slip_base = (sample_base \<lparr>light_count_v2 = 0\<rparr>)\<lparr>core_state_msgs :=
     (core_state_msgs (sample_base \<lparr>light_count_v2 = 0\<rparr>))\<lparr>motion_mode_state := \<lparr>motion_mode = kSideSlip, mode_changing = 0\<rparr>\<rparr>\<rparr>"

section \<open>Properties\<close>

text \<open>
  Setting the motion mode on an open port puts one frame 0x141 on the bus with the requested mode
  in its first byte, with two exceptions of Ranger Mini V1: parking sends nothing, and side slip is
  sent as mode 3.
\<close>

lemma set_motion_mode_frames:
  assumes "can_ready s"
  shows "RangerRobot_SetMotionMode variant mem mode s =
    (if variant = kRangerMiniV1 \<and> mode = kPark then Inr s
     else Inr (can_send (set_mode_frame mem (if variant = kRangerMiniV1 \<and> mode = kSideSlip then 3 else mode)) s))"
  using assms by (cases variant) (simp_all add: RangerRobot_SetMotionMode_def RangerMiniV1_SetMotionMode_def
    Ranger_SetMotionMode_def SetMotionMode_v2 motion_modes)

text \<open>
  The state a Ranger (any variant but Mini V1) reports after a motion state frame was received is
  exactly what the frame encodes, with its time of reception, in the motion state; system, light,
  mode and remote control state are as before.
\<close>

lemma motion_feedback:
  assumes "can_id rx = 0x221" "variant \<noteq> kRangerMiniV1"
  shows "\<exists>s'. ParseCANFrame ProtocolV2Parser raw now rx s = Inr s' \<and>
    RangerRobot_GetRobotState variant mem s' = (RangerRobot_GetRobotState variant mem s)
      \<lparr>time_stamp_rcs := now, motion_state_rcs := decode_motion_state (MotionStateFrame_of (data_of rx))\<rparr>"
proof -
  have "DecodeCanFrameV2 raw rx = (True, \<lparr>type_of = AgxMsgMotionState,
      body = MotionStateBody (decode_motion_state (MotionStateFrame_of (data_of rx)))\<rparr>)"
    using assms(1) by (simp add: decode_defs v2_ids)
  then show ?thesis using assms(2)
    by (cases variant) (auto simp: parse_v2 update_defs RangerRobot_GetRobotState_def Ranger_GetRobotState_def)
qed

text \<open>
  The high-speed state of actuator i (identifier 0x251 + i) is stored at index i of the reported
  actuator state and at no other index, and the time stamp is the time of reception.
\<close>

lemma actuator_feedback:
  assumes "base_wf s" "i < 8" "j < 8"
  shows "\<exists>s'. ParseCANFrame ProtocolV2Parser raw now \<lparr>can_id = 0x251 + of_nat i, can_dlc = d, data_of = bs\<rparr> s = Inr s' \<and>
    time_stamp_ras (RangerRobot_GetActuatorState variant s') = now \<and>
    actuator_hs_state_ras (RangerRobot_GetActuatorState variant s') ! j =
      (if j = i then decode_actuator_hs (0x251 + of_nat i) (ActuatorHSStateFrame_of bs)
       else actuator_hs_state_ras (RangerRobot_GetActuatorState variant s) ! j) \<and>
    actuator_ls_state_ras (RangerRobot_GetActuatorState variant s') =
      actuator_ls_state_ras (RangerRobot_GetActuatorState variant s)"
proof -
  have len: "length (actuator_hs_state (actuator_state_msgs s)) = 8"
    using assms(1) by (simp add: base_wf_def AGX_MAX_ACTUATOR_NUM_def)
  show ?thesis
    using assms(2,3) len hs_motor_id[OF assms(2)]
    by (simp add: parse_v2 update_defs array_set_def GetActuatorState_fields copy8_id nth_list_update)
qed

text \<open>
  in side slip the angular velocity that Ranger Mini V1 reports is whatever the uninitialised
  result held: two contents of that memory give two reports, for the same robot state.
\<close>

lemma mini_v1_side_slip_uninitialised:
  assumes "motion_mode (motion_mode_state (core_state_msgs s)) = kSideSlip"
  shows "angular_velocity (motion_state_rcs (RangerRobot_GetRobotState kRangerMiniV1 mem s)) =
    angular_velocity (motion_state_rcs mem)"
  using assms by (simp add: RangerRobot_GetRobotState_def RangerMiniV1_GetRobotState_def Let_def motion_modes)

end
