(* ===== verification/Ranger_Messenger.thy ===== *)
theory Ranger_Messenger
  imports Ranger_Base
begin

text \<open>
  \<open>ranger_params.hpp\<close>, \<open>kinematics_model.hpp\<close>, \<open>ranger_messenger.hpp\<close> and \<open>ranger_messenger.cpp\<close>: the ROS
  node of the robot. It turns velocity commands into motion modes and motion commands, and robot
  feedback into published messages and integrated odometry. The transcendental functions of the C
  library, boost's integrator, tf2's quaternion and the clock arithmetic of rclcpp are arguments
  (records \<open>Libm\<close> and \<open>Ros\<close>). Published messages are a log in the state.
\<close>

section \<open>Robot parameters\<close>

record RobotParams =
  track :: fp
  wheelbase :: fp
  max_linear_speed :: fp
  max_angular_speed :: fp
  max_speed_cmd :: fp
  max_steer_angle_central :: fp
  max_steer_angle_parallel :: fp
  max_steer_angle_ackermann :: fp
  max_round_angle :: fp
  min_turn_radius :: fp

definition RangerParams :: RobotParams where
  "RangerParams = \<lparr>track = flit B64 (56 / 100), wheelbase = flit B64 (90 / 100),
     max_linear_speed = flit B64 (27 / 10), max_angular_speed = flit B64 (7853 / 10000),
     max_speed_cmd = flit B64 10, max_steer_angle_central = flit B64 (6981 / 10000),
     max_steer_angle_parallel = flit B64 (1570 / 1000), max_steer_angle_ackermann = flit B64 (6981 / 10000),
     max_round_angle = flit B64 (10057 / 10000), min_turn_radius = flit B64 (810330349 / 1000000000)\<rparr>"

definition RangerMiniV1Params :: RobotParams where
  "RangerMiniV1Params = \<lparr>track = flit B64 (36 / 100), wheelbase = flit B64 (36 / 100),
     max_linear_speed = flit B64 (15 / 10), max_angular_speed = flit B64 (3 / 10),
     max_speed_cmd = flit B64 5, max_steer_angle_central = flit B64 (4280 / 10000),
     max_steer_angle_parallel = flit B64 (6981 / 10000), max_steer_angle_ackermann = flit B64 (6981 / 10000),
     max_round_angle = flit B64 (935671 / 1000000), min_turn_radius = flit B64 (536 / 1000)\<rparr>"

definition RangerMiniV2Params :: RobotParams where
  "RangerMiniV2Params = \<lparr>track = flit B64 (364 / 1000), wheelbase = flit B64 (494 / 1000),
     max_linear_speed = flit B64 (15 / 10), max_angular_speed = flit B64 (48 / 10),
     max_speed_cmd = flit B64 10, max_steer_angle_central = flit B64 (4782 / 10000),
     max_steer_angle_parallel = flit B64 (1570 / 1000), max_steer_angle_ackermann = flit B64 (6981 / 10000),
     max_round_angle = flit B64 (935671 / 1000000), min_turn_radius = flit B64 (4764 / 10000)\<rparr>"

definition RangerMiniV3Params :: RobotParams where
  "RangerMiniV3Params = \<lparr>track = flit B64 (364 / 1000), wheelbase = flit B64 (494 / 1000),
     max_linear_speed = flit B64 (15 / 10), max_angular_speed = flit B64 (48 / 10),
     max_speed_cmd = flit B64 10, max_steer_angle_central = flit B64 (4782 / 10000),
     max_steer_angle_parallel = flit B64 (1570 / 1000), max_steer_angle_ackermann = flit B64 (6981 / 10000),
     max_round_angle = flit B64 (935671 / 1000000), min_turn_radius = flit B64 (47644 / 100000)\<rparr>"

section \<open>Kinematic models\<close>

record Libm =
  atan_fn :: "fp \<Rightarrow> fp"
  sin_fn :: "fp \<Rightarrow> fp"
  cos_fn :: "fp \<Rightarrow> fp"
  sqrt_fn :: "fp \<Rightarrow> fp"

type_synonym pose = "fp \<times> fp \<times> fp"

text \<open>The right-hand sides of the three models: position x, y and heading.\<close>

definition DualAckermanModel :: "Libm \<Rightarrow> fp \<Rightarrow> fp \<Rightarrow> fp \<Rightarrow> pose \<Rightarrow> pose" where
  "DualAckermanModel lm L v phi x =
    (let th = snd (snd x) in
     (fmul B64 (fmul B64 v (cos_fn lm phi)) (cos_fn lm th),
      fmul B64 (fmul B64 v (cos_fn lm phi)) (sin_fn lm th),
      fdiv B64 (fmul B64 (fmul B64 (fint B64 2) v) (sin_fn lm phi)) L))"

definition ParallelModel :: "Libm \<Rightarrow> fp \<Rightarrow> fp \<Rightarrow> pose \<Rightarrow> pose" where
  "ParallelModel lm v phi x =
    (let th = snd (snd x) in
     (fmul B64 v (cos_fn lm (fadd B64 th phi)), fmul B64 v (sin_fn lm (fadd B64 th phi)), fint B64 0))"

definition SpinningModel :: "fp \<Rightarrow> pose \<Rightarrow> pose" where
  "SpinningModel w x = (fint B64 0, fint B64 0, w)"

section \<open>Messages\<close>

record Twist =
  linear_x :: fp
  linear_y :: fp
  angular_z :: fp

record Quaternion =
  qx :: fp
  qy :: fp
  qz :: fp
  qw :: fp

record Odometry =
  odom_stamp :: int
  odom_frame_id :: string
  odom_child_frame_id :: string
  odom_pose :: "fp \<times> fp \<times> fp"         \<comment> \<open>position\<close>
  odom_orientation :: Quaternion
  odom_pose_cov :: "fp list"
  odom_twist :: "fp \<times> fp \<times> fp"        \<comment> \<open>linear x, linear y, angular z\<close>
  odom_twist_cov :: "fp list"

record TransformStamped =
  tf_stamp :: int
  tf_frame_id :: string
  tf_child_frame_id :: string
  tf_translation :: "fp \<times> fp \<times> fp"
  tf_rotation :: Quaternion

record SystemStateRos =
  stamp_ss :: int
  vehicle_state_ss :: u8
  control_mode_ss :: u8
  error_code_ss :: u16
  battery_voltage_ss :: fp
  motion_mode_ss :: u8

record DriverStateRos =
  driver_voltage_ds :: fp
  driver_temperature_ds :: fp
  motor_temperature_ds :: fp
  driver_state_ds :: u32

record MotorStateRos =
  rpm_ms :: i32
  current_ms :: fp
  pulse_count_ms :: i32
  motor_angles_ms :: fp
  motor_speeds_ms :: fp

record ActuatorStateRos =
  id_as :: u32
  motor_as :: MotorStateRos
  driver_as :: DriverStateRos

record BatteryStateRos =
  stamp_bs :: int
  voltage_bs :: fp
  temperature_bs :: fp
  current_bs :: fp
  charge_bs :: fp
  capacity_bs :: fp
  design_capacity_bs :: fp
  percentage_bs :: fp
  present_bs :: bool

datatype ros_msg =
    SystemStateMsg SystemStateRos
  | MotionStateMsg int u8
  | ActuatorStateArrayMsg int "ActuatorStateRos list"
  | BatteryStateMsg BatteryStateRos
  | OdometryMsg Odometry
  | TransformMsg TransformStamped

named_theorems ros_modes \<open>constants of \<open>ranger_msgs/MotionState\<close>\<close>

definition MOTION_MODE_DUAL_ACKERMAN :: u8 where [ros_modes]: "MOTION_MODE_DUAL_ACKERMAN = 0"
definition MOTION_MODE_PARALLEL :: u8 where [ros_modes]: "MOTION_MODE_PARALLEL = 1"
definition MOTION_MODE_SPINNING :: u8 where [ros_modes]: "MOTION_MODE_SPINNING = 2"
definition MOTION_MODE_SIDE_SLIP :: u8 where [ros_modes]: "MOTION_MODE_SIDE_SLIP = 3"

section \<open>State\<close>

record Ros =
  libm :: Libm
  integrate_const :: "(pose \<Rightarrow> pose) \<Rightarrow> pose \<Rightarrow> fp \<Rightarrow> fp \<Rightarrow> fp \<Rightarrow> pose"
  quaternion_from_yaw :: "fp \<Rightarrow> Quaternion"
  duration_seconds :: "int \<Rightarrow> fp"

datatype RangerSubType = SubRanger | SubRangerMiniV1 | SubRangerMiniV2 | SubRangerMiniV3

record Messenger =
  robot_m :: ranger
  variant_m :: RangerVariant
  robot_type :: RangerSubType
  robot_params :: RobotParams
  robot_model :: string
  port_name :: string
  odom_frame :: string
  base_frame :: string
  odom_topic_name :: string
  update_rate :: int
  publish_odom_tf :: bool
  odom_pose_covariance :: "fp list"
  odom_twist_covariance :: "fp list"
  motion_mode_m :: u8
  parking_mode :: bool
  publishers_set :: bool           \<comment> \<open>\<open>SetupSubscription\<close> has run\<close>
  published :: "ros_msg list"
  init_run :: bool                 \<comment> \<open>function-local static\<close>
  last_nonzero_x :: fp             \<comment> \<open>function-local static\<close>
  last_time :: int
  current_time :: int
  position_x :: fp
  position_y :: fp
  theta :: fp

section \<open>Parameters of the node\<close>

text \<open>
  Values given to the node from outside; \<open>None\<close> leaves the default of \<open>declare_parameter\<close>.
\<close>

record NodeParams =
  np_port_name :: "string option"
  np_robot_model :: "string option"
  np_odom_frame :: "string option"
  np_base_frame :: "string option"
  np_update_rate :: "int option"
  np_odom_topic_name :: "string option"
  np_publish_odom_tf :: "bool option"
  np_pose_diagonal :: "fp list option"
  np_twist_diagonal :: "fp list option"

definition param :: "'a \<Rightarrow> 'a option \<Rightarrow> 'a" where
  "param dflt v = (case v of None \<Rightarrow> dflt | Some x \<Rightarrow> x)"

definition pose_diagonal_default :: "fp list" where
  "pose_diagonal_default = [flit B64 (8 / 100), flit B64 (8 / 100), flit B64 1000000, flit B64 1000000,
     flit B64 1000000, flit B64 (35 / 100)]"

definition twist_diagonal_default :: "fp list" where
  "twist_diagonal_default = [flit B64 (3 / 100), flit B64 (3 / 100), flit B64 1000000, flit B64 1000000,
     flit B64 1000000, flit B64 (45 / 100)]"

fun fill_diagonal :: "nat \<Rightarrow> fp list \<Rightarrow> fp list \<Rightarrow> fp list" where
  "fill_diagonal i [] cov = cov"
| "fill_diagonal i (v # vs) cov = fill_diagonal (Suc i) vs (cov[i * 6 + i := v])"

definition MakeDiagonalCovariance :: "fp list \<Rightarrow> fp list \<Rightarrow> fp list" where
  "MakeDiagonalCovariance diagonal fallback =
    (let values = (if length diagonal = length fallback then diagonal else fallback) in
     fill_diagonal 0 values (replicate 36 (flit B64 0)))"

text \<open>
  The robot model: the test for \<open>ranger_mini_v3\<close> starts a new conditional, whose \<open>else\<close> also applies
  to \<open>ranger_mini_v2\<close> and replaces what the branch before it has set.
\<close>

definition load_model :: "Messenger \<Rightarrow> Messenger" where
  "load_model m =
    (if robot_model m = ''ranger_mini_v1'' then
       m\<lparr>robot_type := SubRangerMiniV1, robot_params := RangerMiniV1Params\<rparr>
     else
       let m1 = (if robot_model m = ''ranger_mini_v2''
                 then m\<lparr>robot_type := SubRangerMiniV2, robot_params := RangerMiniV2Params\<rparr> else m) in
       if robot_model m = ''ranger_mini_v3''
       then m1\<lparr>robot_type := SubRangerMiniV3, robot_params := RangerMiniV3Params\<rparr>
       else m1\<lparr>robot_type := SubRanger, robot_params := RangerParams\<rparr>)"

definition LoadParameters :: "NodeParams \<Rightarrow> Messenger \<Rightarrow> Messenger" where
  "LoadParameters np m =
     (load_model
       (m\<lparr>port_name := param ''can0'' (np_port_name np), robot_model := param ''ranger'' (np_robot_model np),
          odom_frame := param ''odom'' (np_odom_frame np), base_frame := param ''base_link'' (np_base_frame np),
          update_rate := param 50 (np_update_rate np), odom_topic_name := param ''odom'' (np_odom_topic_name np),
          publish_odom_tf := param False (np_publish_odom_tf np),
          odom_pose_covariance := MakeDiagonalCovariance
            (param pose_diagonal_default (np_pose_diagonal np)) pose_diagonal_default,
          odom_twist_covariance := MakeDiagonalCovariance
            (param twist_diagonal_default (np_twist_diagonal np)) twist_diagonal_default\<rparr>))
     \<lparr>parking_mode := False\<rparr>"

section \<open>Construction\<close>

definition SetupSubscription :: "Messenger \<Rightarrow> Messenger" where
  "SetupSubscription m = m\<lparr>publishers_set := True\<rparr>"

fun contains_can :: "string \<Rightarrow> bool" where
  "contains_can [] = False"
| "contains_can (c # cs) = (take 3 (c # cs) = ''can'' \<or> contains_can cs)"

definition robot_variant :: "RangerSubType \<Rightarrow> RangerVariant" where
  "robot_variant t = (case t of SubRangerMiniV1 \<Rightarrow> kRangerMiniV1 | SubRangerMiniV2 \<Rightarrow> kRangerMiniV2
     | SubRangerMiniV3 \<Rightarrow> kRangerMiniV3 | SubRanger \<Rightarrow> kRanger)"

definition RangerROSMessenger :: "CanCalls \<Rightarrow> Mem \<Rightarrow> NodeParams \<Rightarrow> Messenger \<Rightarrow> Messenger res" where
  "RangerROSMessenger os mem np blank =
    (let m0 = LoadParameters np blank; m = m0\<lparr>variant_m := robot_variant (robot_type m0)\<rparr> in
     if contains_can (port_name m) then
       res_bind (RangerRobot_Connect os (port_name m) (robot_m m)) (\<lambda>(ok, r).
         if \<not> ok then Inr (m\<lparr>robot_m := r\<rparr>)
         else res_bind (RangerRobot_EnableCommandedMode mem r) (\<lambda>r'.
                Inr (SetupSubscription (m\<lparr>robot_m := r'\<rparr>))))
     else Inr m)"

section \<open>Steering geometry\<close>

text \<open>\<open>angle >= 0 ? 1.0 : -1.0\<close>\<close>

definition unit_sign :: "fp \<Rightarrow> fp" where
  "unit_sign x = (if fle (flit B64 0) x then flit B64 1 else flit B64 (- 1))"

definition ConvertInnerAngleToCentral :: "Libm \<Rightarrow> RobotParams \<Rightarrow> fp \<Rightarrow> fp" where
  "ConvertInnerAngleToCentral lm rp angle =
    (let phi_i = fabs angle;
         phi = atan_fn lm (fdiv B64 (fmul B64 (wheelbase rp) (sin_fn lm phi_i))
                 (fadd B64 (fmul B64 (wheelbase rp) (cos_fn lm phi_i)) (fmul B64 (track rp) (sin_fn lm phi_i)))) in
     fmul B64 phi (unit_sign angle))"

definition ConvertCentralAngleToInner :: "Libm \<Rightarrow> RobotParams \<Rightarrow> fp \<Rightarrow> fp" where
  "ConvertCentralAngleToInner lm rp angle =
    (let phi = fabs angle;
         phi_i = atan_fn lm (fdiv B64 (fmul B64 (wheelbase rp) (sin_fn lm phi))
                   (fsub B64 (fmul B64 (wheelbase rp) (cos_fn lm phi)) (fmul B64 (track rp) (sin_fn lm phi)))) in
     fmul B64 phi_i (unit_sign angle))"

text \<open>
  The result and the reference argument \<open>radius\<close>. The local \<open>x\<close> of the source is computed and not
  used. \<open>std::min(a, b)\<close> is \<open>b\<close> when \<open>b < a\<close> and \<open>a\<close> otherwise.
\<close>

definition max_phi_rad :: fp where
  "max_phi_rad = fdiv B64 (fmul B64 (flit B64 40) M_PI) (flit B64 180)"

definition CalculateSteeringAngle :: "Libm \<Rightarrow> RobotParams \<Rightarrow> Twist \<Rightarrow> fp \<times> fp" where
  "CalculateSteeringAngle lm rp msg =
    (let lin_v = fabs (linear_x msg); angular = fabs (angular_z msg) in
     if flt angular (flit B64 (1 / 1000000)) then (flit B64 0, Inf False)
     else
       let radius = fdiv B64 lin_v angular;
           k = (if fle (flit B64 0) (fmul B64 (angular_z msg) (linear_x msg)) then fint B64 1 else fint B64 (- 1));
           phi_i = atan_fn lm (fdiv B64 (fdiv B64 (wheelbase rp) (fint B64 2)) radius);
           phi = (if flt max_phi_rad phi_i then max_phi_rad else phi_i) in
       (fmul B64 k phi, radius))"

section \<open>Velocity commands\<close>

text \<open>The pair of \<open>if\<close>s that limits a value to plus or minus a bound.\<close>

definition clamp_sym :: "fp \<Rightarrow> fp \<Rightarrow> fp" where
  "clamp_sym b v =
    (let v1 = (if flt b v then b else v) in if flt v1 (fneg b) then fneg b else v1)"

text \<open>The parallel branch: steering angle and speed, and the new value of the static.\<close>

definition parallel_command :: "Libm \<Rightarrow> RobotParams \<Rightarrow> fp \<Rightarrow> Twist \<Rightarrow> fp \<times> fp \<times> fp" where
  "parallel_command lm rp last_x msg =
    (let x = linear_x msg; y = linear_y msg; zero = flit B64 0;
         s0 = atan_fn lm (fdiv B64 y x);
         last_x' = (if feq x zero then last_x else x);
         s1 = (if signbit x then fneg s0 else s0);
         s2 = clamp_sym (max_steer_angle_parallel rp) s1;
         slip = (feq x zero \<and> \<not> feq y zero);
         steer = (if slip then (if signbit last_x' then fneg (fabs s2) else fabs s2) else s2);
         vel = unit_sign (if slip then y else x);
         speed = fmul B64 vel (sqrt_fn lm (fadd B64 (fmul B64 x x) (fmul B64 y y))) in
     (speed, steer, last_x'))"

definition choose_mode :: "Libm \<Rightarrow> RangerSubType \<Rightarrow> RobotParams \<Rightarrow> Twist \<Rightarrow> u8" where
  "choose_mode lm ty rp msg =
    (if \<not> feq (linear_y msg) (flit B64 0) then
       (if feq (linear_x msg) (flit B64 0) \<and> ty = SubRangerMiniV1 then MOTION_MODE_SIDE_SLIP
        else MOTION_MODE_PARALLEL)
     else if flt (snd (CalculateSteeringAngle lm rp msg)) (min_turn_radius rp) then MOTION_MODE_SPINNING
     else MOTION_MODE_DUAL_ACKERMAN)"

definition send_for_mode ::
  "Ros \<Rightarrow> Mem \<Rightarrow> u8 \<Rightarrow> Twist \<Rightarrow> Messenger \<Rightarrow> Messenger res" where
  "send_for_mode ros mem mode msg m =
    (let lm = libm ros; rp = robot_params m; zero = flit B64 0;
         send = (\<lambda>lin steer ang m'. res_bind (RangerRobot_SetMotionCommand (variant_m m') mem lin steer ang (robot_m m'))
                   (\<lambda>r. Inr (m'\<lparr>robot_m := r\<rparr>))) in
     if mode = MOTION_MODE_DUAL_ACKERMAN then
       send (linear_x msg)
         (clamp_sym (max_steer_angle_ackermann rp) (fst (CalculateSteeringAngle lm rp msg))) zero m
     else if mode = MOTION_MODE_PARALLEL then
       (case parallel_command lm rp (last_nonzero_x m) msg of (speed, steer, last_x) \<Rightarrow>
          send speed steer zero (m\<lparr>last_nonzero_x := last_x\<rparr>))
     else if mode = MOTION_MODE_SPINNING then
       send zero zero (clamp_sym (max_angular_speed rp) (angular_z msg)) m
     else if mode = MOTION_MODE_SIDE_SLIP then
       send zero zero (clamp_sym (max_linear_speed rp) (linear_y msg)) m
     else Inr m)"

definition TwistCmdCallback :: "Ros \<Rightarrow> Mem \<Rightarrow> Twist \<Rightarrow> Messenger \<Rightarrow> Messenger res" where
  "TwistCmdCallback ros mem msg m =
    (if parking_mode m \<and> robot_type m = SubRangerMiniV2 then Inr m
     else
       let mode = choose_mode (libm ros) (robot_type m) (robot_params m) msg in
       res_bind (RangerRobot_SetMotionMode (variant_m m) mem mode (robot_m m)) (\<lambda>r.
         send_for_mode ros mem mode msg (m\<lparr>motion_mode_m := mode, robot_m := r\<rparr>)))"

section \<open>Odometry\<close>

definition is_dual_ackermann :: "u8 \<Rightarrow> bool" where
  "is_dual_ackermann mode = (mode = MOTION_MODE_DUAL_ACKERMAN \<or> mode = kDualAckerman)"

definition is_parallel :: "u8 \<Rightarrow> bool" where
  "is_parallel mode = (mode = MOTION_MODE_PARALLEL \<or> mode = kParallel)"

definition is_side_slip :: "u8 \<Rightarrow> bool" where
  "is_side_slip mode = (mode = MOTION_MODE_SIDE_SLIP \<or> mode = kSideSlip)"

definition is_spinning :: "u8 \<Rightarrow> bool" where
  "is_spinning mode = (mode = MOTION_MODE_SPINNING \<or> mode = kSpinning)"

definition integrate_pose :: "Ros \<Rightarrow> fp \<Rightarrow> fp \<Rightarrow> fp \<Rightarrow> fp \<Rightarrow> Messenger \<Rightarrow> Messenger" where
  "integrate_pose ros lin_v angular angle dt m =
    (let lm = libm ros; mode = motion_mode_m m; x = (position_x m, position_y m, theta m);
         step = (\<lambda>f. integrate_const ros f x (flit B64 0) dt (fdiv B64 dt (flit B64 10)));
         put = (\<lambda>(px, py, th). m\<lparr>position_x := px, position_y := py, theta := th\<rparr>) in
     if is_dual_ackermann mode then
       put (step (DualAckermanModel lm (wheelbase (robot_params m)) lin_v
         (ConvertInnerAngleToCentral lm (robot_params m) angle)))
     else if is_parallel mode then put (step (ParallelModel lm lin_v angle))
     else if is_side_slip mode then
       m\<lparr>position_x := fadd B64 (position_x m) (fmul B64 (fmul B64 (fneg lin_v) (sin_fn lm (theta m))) dt),
         position_y := fadd B64 (position_y m) (fmul B64 (fmul B64 lin_v (cos_fn lm (theta m))) dt)\<rparr>
     else if is_spinning mode then put (step (SpinningModel angular))
     else m)"

definition odom_twist_of :: "Libm \<Rightarrow> RobotParams \<Rightarrow> u8 \<Rightarrow> fp \<Rightarrow> fp \<Rightarrow> fp \<Rightarrow> fp \<times> fp \<times> fp" where
  "odom_twist_of lm rp mode lin_v angular angle =
    (let zero = flit B64 0 in
     if is_dual_ackermann mode then
       (lin_v, zero, fdiv B64 (fmul B64 (fmul B64 (fint B64 2) lin_v)
          (sin_fn lm (ConvertInnerAngleToCentral lm rp angle))) (wheelbase rp))
     else if is_parallel mode then
       (fmul B64 lin_v (cos_fn lm angle), fmul B64 lin_v (sin_fn lm angle), zero)
     else if is_side_slip mode then (zero, lin_v, zero)
     else if is_spinning mode then (zero, zero, angular)
     else (zero, zero, zero))"

definition publish :: "ros_msg \<Rightarrow> Messenger \<Rightarrow> Messenger res" where
  "publish x m = (if publishers_set m then Inr (m\<lparr>published := published m @ [x]\<rparr>) else Inl NullDereference)"

definition UpdateOdometry :: "Ros \<Rightarrow> fp \<Rightarrow> fp \<Rightarrow> fp \<Rightarrow> fp \<Rightarrow> fp \<Rightarrow> Messenger \<Rightarrow> Messenger res" where
  "UpdateOdometry ros lin_v lateral angular angle dt m0 =
    (let m = integrate_pose ros lin_v angular angle dt m0;
         odom_quat = quaternion_from_yaw ros (theta m);
         pos = (position_x m, position_y m, flit B64 0) in
     res_bind (publish (OdometryMsg
         \<lparr>odom_stamp = current_time m, odom_frame_id = odom_frame m, odom_child_frame_id = base_frame m,
          odom_pose = pos, odom_orientation = odom_quat, odom_pose_cov = odom_pose_covariance m,
          odom_twist = odom_twist_of (libm ros) (robot_params m) (motion_mode_m m) lin_v angular angle,
          odom_twist_cov = odom_twist_covariance m\<rparr>) m) (\<lambda>m1.
       if publish_odom_tf m1 then
         publish (TransformMsg
           \<lparr>tf_stamp = current_time m1, tf_frame_id = odom_frame m1, tf_child_frame_id = base_frame m1,
            tf_translation = pos, tf_rotation = odom_quat\<rparr>) m1
       else Inr m1))"

section \<open>State publication\<close>

text \<open>
  \<open>actuator_ls_state->driver_voltage\<close> on the array is its first element, for every \<open>i\<close>; the angle and
  speed are those of the first motors.
\<close>

definition actuator_entry :: "RangerActuatorState \<Rightarrow> nat \<Rightarrow> ActuatorStateRos" where
  "actuator_entry a i =
    (let ls = actuator_ls_state_ras a ! 0; hs = actuator_hs_state_ras a ! 0 in
     \<lparr>id_as = of_nat i,
      motor_as = \<lparr>rpm_ms = scast (rpm_hs hs), current_ms = current_hs hs, pulse_count_ms = pulse_count hs,
        motor_angles_ms = angle_5 (motor_angles_ras a), motor_speeds_ms = speed_1 (motor_speeds_ras a)\<rparr>,
      driver_as = \<lparr>driver_voltage_ds = driver_voltage ls, driver_temperature_ds = driver_temp ls,
        motor_temperature_ds = motor_temp ls, driver_state_ds = ucast (driver_state ls)\<rparr>\<rparr>)"

definition battery_message :: "int \<Rightarrow> RangerCommonSensorState \<Rightarrow> BatteryStateRos" where
  "battery_message now c =
    (let bms = bms_basic_state_rss c in
     \<lparr>stamp_bs = now, voltage_bs = voltage_bms bms, temperature_bs = temperature_bms bms,
      current_bs = current_bms bms, charge_bs = NaN, capacity_bs = NaN, design_capacity_bs = NaN,
      percentage_bs = fint B32 (uint (battery_soc bms)), present_bs = False\<rparr>)"

definition publish_states ::
  "int \<Rightarrow> RangerCoreState \<Rightarrow> RangerActuatorState \<Rightarrow> RangerCommonSensorState \<Rightarrow> Messenger \<Rightarrow> Messenger res" where
  "publish_states now state actuator sensor m =
     res_bind (publish (SystemStateMsg
         \<lparr>stamp_ss = now, vehicle_state_ss = ucast (vehicle_state (system_state_rcs state)),
          control_mode_ss = ucast (control_mode (system_state_rcs state)),
          error_code_ss = error_code (system_state_rcs state),
          battery_voltage_ss = battery_voltage (system_state_rcs state),
          motion_mode_ss = motion_mode (motion_mode_state_rcs state)\<rparr>) m) (\<lambda>m1.
     res_bind (publish (MotionStateMsg now (motion_mode (motion_mode_state_rcs state))) m1) (\<lambda>m2.
     res_bind (publish (ActuatorStateArrayMsg now (map (actuator_entry actuator) [0..<8])) m2) (\<lambda>m3.
       publish (BatteryStateMsg (battery_message now sensor)) m3)))"

definition PublishStateToROS ::
  "Ros \<Rightarrow> RangerCoreState \<Rightarrow> RangerCommonSensorState \<Rightarrow> int \<Rightarrow> Messenger \<Rightarrow> Messenger res" where
  "PublishStateToROS ros mem_core mem_sensor now m0 =
    (let m = m0\<lparr>current_time := now\<rparr> in
     if init_run m then Inr (m\<lparr>last_time := now, init_run := False\<rparr>)
     else
       let state = RangerRobot_GetRobotState (variant_m m) mem_core (robot_m m);
           actuator = RangerRobot_GetActuatorState (variant_m m) (robot_m m);
           mot = motion_state_rcs state;
           dt = duration_seconds ros (now - last_time m) in
       res_bind (UpdateOdometry ros (linear_velocity mot) (lateral_velocity mot) (angular_velocity mot)
           (steering_angle mot) dt (m\<lparr>motion_mode_m := motion_mode (motion_mode_state_rcs state)\<rparr>)) (\<lambda>m1.
         publish_states now state actuator
           (RangerRobot_GetCommonSensorState (variant_m m) mem_sensor (robot_m m)) (m1\<lparr>last_time := now\<rparr>)))"

section \<open>The node's event loop\<close>

text \<open>
  What happens to the node while \<open>Run\<close> loops: an iteration publishes the state (\<open>Tick\<close>) and then
  handles the velocity commands that have arrived (\<open>Cmd\<close>), while the I/O thread of the port handles
  received frames (\<open>Rx\<close>) at any time.
\<close>

datatype event = Tick int | Cmd Twist | Rx SdkTimePoint can_frame

definition node_step :: "Ros \<Rightarrow> Mem \<Rightarrow> RangerCoreState \<Rightarrow> RangerCommonSensorState \<Rightarrow> event \<Rightarrow> Messenger \<Rightarrow> Messenger res" where
  "node_step ros mem mem_core mem_sensor ev m =
    (case ev of
       Tick now \<Rightarrow> PublishStateToROS ros mem_core mem_sensor now m
     | Cmd msg \<Rightarrow> TwistCmdCallback ros mem msg m
     | Rx now rx \<Rightarrow> res_bind (ParseCANFrame ProtocolV2Parser (mem_msg mem) now rx (robot_m m))
         (\<lambda>r. Inr (m\<lparr>robot_m := r\<rparr>)))"

fun node_run :: "Ros \<Rightarrow> Mem \<Rightarrow> RangerCoreState \<Rightarrow> RangerCommonSensorState \<Rightarrow> event list \<Rightarrow> Messenger \<Rightarrow> Messenger res" where
  "node_run ros mem mc ms [] m = Inr m"
| "node_run ros mem mc ms (ev # evs) m = res_bind (node_step ros mem mc ms ev m) (node_run ros mem mc ms evs)"

end
