(* ===== verification/Ranger_Messenger_Theorems.thy ===== *)
theory Ranger_Messenger_Theorems
  imports Ranger_Messenger
begin

text \<open>
  What the ROS node does: selection of motion modes, bounds of the commands it sends, safety of any
  interleaving of ticks, commands and received frames, and the published messages.
\<close>

section \<open>Hypotheses on the C library\<close>

text \<open>
  \<open>atan\<close> of a number is a finite double within (slightly more than) a right angle, and \<open>sqrt\<close> of a
  finite non-negative double is one whose square is the argument up to a tenth of a percent.
\<close>

definition libm_ok :: "Libm \<Rightarrow> bool" where
  "libm_ok lm = ((\<forall>x. \<not> isnan x \<longrightarrow> is_fin (atan_fn lm x) \<and> fp_wf B64 (atan_fn lm x) \<and> \<bar>fval (atan_fn lm x)\<bar> \<le> 16 / 10) \<and>
     (\<forall>x. is_fin x \<and> 0 \<le> fval x \<longrightarrow> is_fin (sqrt_fn lm x) \<and> fp_wf B64 (sqrt_fn lm x) \<and>
        0 \<le> fval (sqrt_fn lm x) \<and> (fval (sqrt_fn lm x))\<^sup>2 \<le> (1 + 1 / 1000) * fval x))"

section \<open>Numbers that fit the wire\<close>

lemma command_ok_neg [simp]: "command_ok (fneg v) = command_ok v"
  by (simp add: command_ok_def)

lemma command_ok_abs: "command_ok v \<Longrightarrow> command_ok (fabs v)"
  by (auto simp: command_ok_def fval_fabs)

definition bound_ok :: "fp \<Rightarrow> bool" where
  "bound_ok b = (command_ok b \<and> 1 / 10 \<le> fval b)"

lemma flit_error:
  assumes "0 \<le> q" "q \<le> 16"
  shows "is_fin (flit B64 q)" "fp_wf B64 (flit B64 q)" "\<bar>fval (flit B64 q) - q\<bar> \<le> 1 / 1000000"
proof -
  have f: "flit B64 q = pack B64 False q" using assms by (simp add: flit_def)
  show "fp_wf B64 (flit B64 q)" by (rule fp_wf_flit)
  show "is_fin (flit B64 q)" "\<bar>fval (flit B64 q) - q\<bar> \<le> 1 / 1000000"
    using fval_pack_error[OF assms, of B64 "1 / 1000000" False] by (simp_all add: f pow2_def sgn_val_def)
qed

lemma bound_ok_flit: "2 / 10 \<le> q \<Longrightarrow> q \<le> 16 \<Longrightarrow> bound_ok (flit B64 q)"
proof -
  assume q: "2 / 10 \<le> q" "q \<le> 16"
  have "0 \<le> q" using q(1) by linarith
  note e = flit_error[OF this q(2)]
  have "\<bar>fval (flit B64 q)\<bar> \<le> 32" "1 / 10 \<le> fval (flit B64 q)" using e(3) q by linarith+
  then show ?thesis using e(1,2) by (simp add: bound_ok_def command_ok_def)
qed

lemma clamp_sym_cases:
  "clamp_sym b v = b \<or> clamp_sym b v = fneg b \<or> (clamp_sym b v = v \<and> \<not> flt b v \<and> \<not> flt v (fneg b))"
  by (auto simp: clamp_sym_def Let_def)

lemma unclamped:
  assumes "bound_ok b" "\<not> flt b v" "\<not> flt v (fneg b)" "\<not> isnan v"
  shows "is_fin v \<and> \<bar>fval v\<bar> \<le> fval b"
proof -
  have b: "is_fin b" "1 / 10 \<le> fval b" using assms(1) by (simp_all add: bound_ok_def command_ok_def)
  then have v: "is_fin v" using assms by (cases v; cases b) auto
  have "fval v \<le> fval b" "- fval b \<le> fval v"
    using assms(2,3) b v flt_fin[of b v] flt_fin[of v "fneg b"] by (simp_all add: not_less)
  then show ?thesis using v by (simp add: abs_le_iff)
qed

lemma clamp_sym_ok:
  assumes "bound_ok b" "\<not> isnan v" "fp_wf B64 v"
  shows "command_ok (clamp_sym b v)" "\<bar>fval (clamp_sym b v)\<bar> \<le> fval b"
proof -
  have b: "command_ok b" "0 \<le> fval b" using assms(1) by (auto simp: bound_ok_def)
  have v: "command_ok v \<and> \<bar>fval v\<bar> \<le> fval b" if "\<not> flt b v" "\<not> flt v (fneg b)"
    using unclamped[OF assms(1) that assms(2)] assms(3) b by (auto simp: command_ok_def)
  show "command_ok (clamp_sym b v)" "\<bar>fval (clamp_sym b v)\<bar> \<le> fval b"
    using clamp_sym_cases[of b v] b v by auto
qed

lemma zero_ok: "command_ok (flit B64 0)" "fval (flit B64 0) = 0"
  by (simp_all add: flit_def pack_small rnd_def command_ok_def sgn_val_def)

section \<open>Robot parameters\<close>

definition params_ok :: "RobotParams \<Rightarrow> bool" where
  "params_ok rp = (bound_ok (max_steer_angle_ackermann rp) \<and> bound_ok (max_steer_angle_parallel rp) \<and>
     bound_ok (max_angular_speed rp) \<and> bound_ok (max_linear_speed rp) \<and> bound_ok (wheelbase rp) \<and>
     fval (max_steer_angle_ackermann rp) \<le> 2 \<and> fval (max_steer_angle_parallel rp) \<le> 2)"

lemma steer_limit_le: "0 \<le> q \<Longrightarrow> q \<le> 19 / 10 \<Longrightarrow> fval (flit B64 q) \<le> 2"
  using flit_error(3)[of q] by linarith

lemma params_ok_all: "rp \<in> {RangerParams, RangerMiniV1Params, RangerMiniV2Params, RangerMiniV3Params} \<Longrightarrow> params_ok rp"
  by (auto simp: params_ok_def RangerParams_def RangerMiniV1Params_def RangerMiniV2Params_def RangerMiniV3Params_def
    intro!: bound_ok_flit steer_limit_le)

lemma params_ok_load: "params_ok (robot_params (LoadParameters np m))"
proof -
  have "robot_params (load_model x) \<in> {RangerParams, RangerMiniV1Params, RangerMiniV2Params, RangerMiniV3Params}" for x
    by (simp add: load_model_def Let_def)
  then show ?thesis using params_ok_all by (auto simp: LoadParameters_def)
qed

section \<open>Commands of the callback\<close>

definition twist_ok :: "Twist \<Rightarrow> bool" where
  "twist_ok msg = (\<forall>v \<in> {linear_x msg, linear_y msg, angular_z msg}. is_fin v \<and> fp_wf B64 v \<and> \<bar>fval v\<bar> \<le> 16)"

lemma fdiv_not_nan:
  assumes "is_fin x" "is_fin y" "fval x \<noteq> 0 \<or> fval y \<noteq> 0"
  shows "\<not> isnan (fdiv f x y)"
  using assms by (cases x; cases y) (auto simp: sgn_val_def pack_def Let_def split: if_splits)

lemma fmul_not_nan:
  assumes "is_fin x" "is_fin y"
  shows "\<not> isnan (fmul f x y)"
  using assms by (cases x; cases y) (auto simp: pack_def Let_def)

lemma atan_fin: "libm_ok lm \<Longrightarrow> \<not> isnan x \<Longrightarrow> is_fin (atan_fn lm x) \<and> fp_wf B64 (atan_fn lm x)"
  by (simp add: libm_ok_def)

lemma max_phi_fin: "is_fin max_phi_rad" "fp_wf B64 max_phi_rad"
proof -
  have pi: "is_fin M_PI" "fp_wf B64 M_PI" "\<bar>fval M_PI - 314159265358979323846 / 100000000000000000000\<bar> \<le> 1 / 1000000"
    using flit_error[of "314159265358979323846 / 100000000000000000000"] by (simp_all add: M_PI_def)
  have n: "flit B64 40 = fint B64 40" "flit B64 180 = fint B64 180" by (simp_all add: flit_numeral)
  note f40 = fint_value[of 40 B64, simplified] and f180 = fint_value[of 180 B64, simplified]
  let ?m = "fmul B64 (fint B64 40) M_PI"
  have "\<bar>fval M_PI\<bar> \<le> 4" using pi(3) by linarith
  then have b: "\<bar>fval (fint B64 40) * fval M_PI\<bar> \<le> 160" using f40 by (simp add: abs_mult)
  have m: "is_fin ?m" "\<bar>fval ?m - fval (fint B64 40) * fval M_PI\<bar> \<le> 1" "fp_wf B64 ?m"
    using fmul_error[OF f40(1,3) pi(1,2) b, of B64 1] fp_wf_fmul[OF f40(3) pi(2)] by (auto simp: pow2_def)
  have "\<bar>fval ?m\<bar> \<le> 161" using m(2) b by linarith
  then have "\<bar>fval ?m / fval (fint B64 180)\<bar> \<le> 1" using f180 by simp
  then show "is_fin max_phi_rad" "fp_wf B64 max_phi_rad"
    using fdiv_error[OF m(1,3) f180(1,3), of 1 B64 1] f180 fp_wf_fdiv[OF m(3) f180(3)]
    by (auto simp: pow2_def max_phi_rad_def n)
qed

lemma tiny: "is_fin (flit B64 (1 / 1000000))" "0 < fval (flit B64 (1 / 1000000))"
proof -
  have "is_fin (flit B64 (1 / 1000000))" "\<bar>fval (flit B64 (1 / 1000000)) - 1 / 1000000\<bar> \<le> 1 / 1000000000"
    using fval_pack_error[of "1 / 1000000" "1 / 1000000" B64 "1 / 1000000000" False]
    by (simp_all add: flit_def pow2_def sgn_val_def)
  then show "is_fin (flit B64 (1 / 1000000))" "0 < fval (flit B64 (1 / 1000000))" by linarith+
qed

lemma half_wheelbase:
  assumes "bound_ok wb"
  shows "is_fin (fdiv B64 wb (fint B64 2))" "fp_wf B64 (fdiv B64 wb (fint B64 2))" "fval (fdiv B64 wb (fint B64 2)) \<noteq> 0"
proof -
  note f2 = fint_value[of 2 B64, simplified]
  have w: "is_fin wb" "fp_wf B64 wb" "1 / 10 \<le> fval wb" "\<bar>fval wb\<bar> \<le> 32"
    using assms by (auto simp: bound_ok_def command_ok_def)
  then have "\<bar>fval wb / fval (fint B64 2)\<bar> \<le> 16" using f2 by simp
  then have d: "is_fin (fdiv B64 wb (fint B64 2))" "\<bar>fval (fdiv B64 wb (fint B64 2)) - fval wb / 2\<bar> \<le> 1 / 1000"
    using fdiv_error[OF w(1,2) f2(1,3), of 16 B64 "1 / 1000"] f2 by (auto simp: pow2_def)
  then show "is_fin (fdiv B64 wb (fint B64 2))" "fp_wf B64 (fdiv B64 wb (fint B64 2))" using fp_wf_fdiv[OF w(2) f2(3)] by auto
  show "fval (fdiv B64 wb (fint B64 2)) \<noteq> 0" using d(2) w(3) by linarith
qed

lemma steering_not_nan:
  assumes "libm_ok lm" "params_ok rp" "twist_ok msg"
  shows "\<not> isnan (fst (CalculateSteeringAngle lm rp msg))" "fp_wf B64 (fst (CalculateSteeringAngle lm rp msg))"
proof -
  note h = half_wheelbase[of "wheelbase rp"]
  have wb: "bound_ok (wheelbase rp)" using assms(2) by (simp add: params_ok_def)
  have t: "is_fin (linear_x msg)" "is_fin (angular_z msg)" using assms(3) by (auto simp: twist_ok_def)
  have a: "is_fin (atan_fn lm x) \<and> fp_wf B64 (atan_fn lm x)" if "\<not> isnan x" for x
    using atan_fin[OF assms(1) that] .
  let ?r = "fdiv B64 (fabs (linear_x msg)) (fabs (angular_z msg))"
  have q: "\<not> isnan (fdiv B64 (fdiv B64 (wheelbase rp) (fint B64 2)) ?r)"
    if "\<not> flt (fabs (angular_z msg)) (flit B64 (1 / 1000000))"
  proof -
    have "fval (fabs (angular_z msg)) \<noteq> 0" using that t tiny flt_fin[OF _ tiny(1), of "fabs (angular_z msg)"] by auto
    then have "\<not> isnan ?r" using t by (intro fdiv_not_nan) auto
    then show ?thesis using h[OF wb] by (cases ?r; cases "fdiv B64 (wheelbase rp) (fint B64 2)")
      (auto simp: sgn_val_def pack_def Let_def split: if_splits)
  qed
  have k: "is_fin (fint B64 1)" "fp_wf B64 (fint B64 1)" "is_fin (fint B64 (- 1))" "fp_wf B64 (fint B64 (- 1))"
    using fint_value[of 1 B64] fint_value[of "- 1" B64] by auto
  show "\<not> isnan (fst (CalculateSteeringAngle lm rp msg))"
    using a[OF q] k max_phi_fin fin_not_nan[of "flit B64 0"] zero_ok
    by (auto simp: CalculateSteeringAngle_def Let_def command_ok_def fmul_not_nan)
  show "fp_wf B64 (fst (CalculateSteeringAngle lm rp msg))"
    using a[OF q] k max_phi_fin by (auto simp: CalculateSteeringAngle_def Let_def intro: fp_wf_fmul)
qed

lemma dual_steer_ok:
  assumes "libm_ok lm" "params_ok rp" "twist_ok msg"
  shows "command_ok (clamp_sym (max_steer_angle_ackermann rp) (fst (CalculateSteeringAngle lm rp msg)))"
    "\<bar>fval (clamp_sym (max_steer_angle_ackermann rp) (fst (CalculateSteeringAngle lm rp msg)))\<bar>
       \<le> fval (max_steer_angle_ackermann rp)"
  using clamp_sym_ok[OF _ steering_not_nan[OF assms]] assms(2) by (auto simp: params_ok_def)

lemma unit_sign_value: "is_fin (unit_sign x)" "fp_wf B64 (unit_sign x)" "\<bar>fval (unit_sign x)\<bar> = 1"
proof -
  have "flit B64 1 = fint B64 1" "flit B64 (- 1) = fint B64 (- 1)" by (simp_all add: fint_def)
  then show "is_fin (unit_sign x)" "fp_wf B64 (unit_sign x)" "\<bar>fval (unit_sign x)\<bar> = 1"
    using fint_value[of 1 B64] fint_value[of "- 1" B64] by (auto simp: unit_sign_def)
qed

lemma square_bound:
  assumes "is_fin x" "fp_wf B64 x" "\<bar>fval x\<bar> \<le> 16"
  shows "is_fin (fmul B64 x x)" "\<bar>fval (fmul B64 x x)\<bar> \<le> 257"
proof -
  have "\<bar>fval x * fval x\<bar> \<le> 16 * 16" unfolding abs_mult using assms(3) by (intro mult_mono) auto
  then have b: "\<bar>fval x * fval x\<bar> \<le> 256" by simp
  note e = fmul_error[OF assms(1,2,1,2) b, of B64 1]
  show "is_fin (fmul B64 x x)" using e(1) by (simp add: pow2_def)
  have "\<bar>fval (fmul B64 x x) - fval x * fval x\<bar> \<le> 1" using e(2) by (simp add: pow2_def)
  then show "\<bar>fval (fmul B64 x x)\<bar> \<le> 257" using b by linarith
qed

lemma square_sum:
  assumes "is_fin x" "fp_wf B64 x" "\<bar>fval x\<bar> \<le> 16" "is_fin y" "fp_wf B64 y" "\<bar>fval y\<bar> \<le> 16"
  shows "is_fin (fadd B64 (fmul B64 x x) (fmul B64 y y))" "0 \<le> fval (fadd B64 (fmul B64 x x) (fmul B64 y y))"
    "fval (fadd B64 (fmul B64 x x) (fmul B64 y y)) \<le> 520"
proof -
  note a = square_bound[OF assms(1-3)] and b = square_bound[OF assms(4-6)]
  have s: "\<bar>fval (fmul B64 x x) + fval (fmul B64 y y)\<bar> \<le> 514" using a(2) b(2) by linarith
  note e = fadd_error[OF a(1) b(1) s, of B64 1]
  show "is_fin (fadd B64 (fmul B64 x x) (fmul B64 y y))" using e(1) by (simp add: pow2_def)
  show "0 \<le> fval (fadd B64 (fmul B64 x x) (fmul B64 y y))" by (intro fadd_nonneg fmul_self_nonneg)
  have "\<bar>fval (fadd B64 (fmul B64 x x) (fmul B64 y y)) - (fval (fmul B64 x x) + fval (fmul B64 y y))\<bar> \<le> 1"
    using e(2) by (simp add: pow2_def)
  then show "fval (fadd B64 (fmul B64 x x) (fmul B64 y y)) \<le> 520" using s by linarith
qed

lemma speed_ok:
  assumes "libm_ok lm" "is_fin x" "fp_wf B64 x" "\<bar>fval x\<bar> \<le> 16" "is_fin y" "fp_wf B64 y" "\<bar>fval y\<bar> \<le> 16"
  shows "command_ok (fmul B64 (unit_sign z) (sqrt_fn lm (fadd B64 (fmul B64 x x) (fmul B64 y y))))"
proof -
  let ?q = "fadd B64 (fmul B64 x x) (fmul B64 y y)" and ?u = "unit_sign z"
  note q = square_sum[OF assms(2-7)]
  have r: "is_fin (sqrt_fn lm ?q)" "fp_wf B64 (sqrt_fn lm ?q)" "0 \<le> fval (sqrt_fn lm ?q)"
      "(fval (sqrt_fn lm ?q))\<^sup>2 \<le> (1 + 1 / 1000) * fval ?q"
    using assms(1) q(1,2) unfolding libm_ok_def by blast+
  have "(1 + 1 / 1000) * fval ?q \<le> 24\<^sup>2" using q(3) by (simp add: power2_eq_square)
  then have "(fval (sqrt_fn lm ?q))\<^sup>2 \<le> 24\<^sup>2" using r(4) by (rule order_trans[rotated])
  then have "fval (sqrt_fn lm ?q) \<le> 24" by (rule power2_le_imp_le) simp
  then have b: "\<bar>fval ?u * fval (sqrt_fn lm ?q)\<bar> \<le> 24" using r(3) unit_sign_value(3)[of z] by (simp add: abs_mult)
  note e = fmul_error[OF unit_sign_value(1,2)[of z] r(1,2) b, of B64 1]
  have "is_fin (fmul B64 ?u (sqrt_fn lm ?q))" "\<bar>fval (fmul B64 ?u (sqrt_fn lm ?q)) - fval ?u * fval (sqrt_fn lm ?q)\<bar> \<le> 1"
    using e by (simp_all add: pow2_def)
  moreover have "fp_wf B64 (fmul B64 ?u (sqrt_fn lm ?q))" by (rule fp_wf_fmul[OF unit_sign_value(2) r(2)])
  ultimately show ?thesis using b unfolding command_ok_def by linarith
qed

section \<open>Sending\<close>

lemma fdiv_bound:
  assumes "is_fin x" "fp_wf B64 x" "is_fin y" "fp_wf B64 y" "fval y \<noteq> 0" "\<bar>fval x / fval y\<bar> \<le> b" "b \<le> 1000"
  shows "is_fin (fdiv B64 x y)" "fp_wf B64 (fdiv B64 x y)" "\<bar>fval (fdiv B64 x y)\<bar> \<le> b + 1 / 1000"
proof -
  have b: "b \<le> pow2 100" "b / pow2 (prec B64) \<le> 1 / 1000" using assms(7) by (simp_all add: pow2_def)
  note e = fdiv_error[OF assms(1-6) b(1), of B64 "1 / 1000"]
  show "is_fin (fdiv B64 x y)" using e(1) b(2) by (simp add: pow2_def)
  show "fp_wf B64 (fdiv B64 x y)" by (rule fp_wf_fdiv[OF assms(2,4)])
  have "\<bar>fval (fdiv B64 x y) - fval x / fval y\<bar> \<le> 1 / 1000" using e(2) b(2) by (simp add: pow2_def)
  then show "\<bar>fval (fdiv B64 x y)\<bar> \<le> b + 1 / 1000" using assms(6) by linarith
qed

lemma fmul_bound:
  assumes "is_fin x" "fp_wf B64 x" "is_fin y" "fp_wf B64 y" "\<bar>fval x * fval y\<bar> \<le> b" "b \<le> 1000"
  shows "is_fin (fmul B64 x y)" "fp_wf B64 (fmul B64 x y)" "\<bar>fval (fmul B64 x y)\<bar> \<le> b + 1 / 1000"
proof -
  have b: "b \<le> pow2 100" "b / pow2 (prec B64) \<le> 1 / 1000" using assms(6) by (simp_all add: pow2_def)
  note e = fmul_error[OF assms(1-5) b(1), of B64 "1 / 1000"]
  show "is_fin (fmul B64 x y)" using e(1) b(2) by (simp add: pow2_def)
  show "fp_wf B64 (fmul B64 x y)" by (rule fp_wf_fmul[OF assms(2,4)])
  have "\<bar>fval (fmul B64 x y) - fval x * fval y\<bar> \<le> 1 / 1000" using e(2) b(2) by (simp add: pow2_def)
  then show "\<bar>fval (fmul B64 x y)\<bar> \<le> b + 1 / 1000" using assms(5) by linarith
qed

lemma mini_v1_steer_ok:
  assumes "command_ok v" "\<bar>fval v\<bar> \<le> 2"
  shows "command_ok (fmul B64 (fdiv B64 (fdiv B64 (fneg v) (flit B64 10)) (flit B64 (314 / 100))) (fint B64 180))"
proof -
  let ?a = "fdiv B64 (fneg v) (flit B64 10)" and ?p = "flit B64 (314 / 100)"
  let ?b = "fdiv B64 ?a ?p"
  have v: "is_fin (fneg v)" "fp_wf B64 (fneg v)" using assms(1) by (auto simp: command_ok_def)
  note t = fint_value[of 10 B64, simplified] and h = fint_value[of 180 B64, simplified]
  have ten: "flit B64 10 = fint B64 10" by (simp add: flit_numeral)
  have p: "is_fin ?p" "fp_wf B64 ?p" "\<bar>fval ?p - 314 / 100\<bar> \<le> 1 / 1000000" using flit_error[of "314 / 100"] by simp_all
  then have p3: "3 \<le> fval ?p" by linarith
  have "\<bar>fval (fneg v) / fval (fint B64 10)\<bar> \<le> 1 / 5" using assms(2) t by simp
  then have a: "is_fin ?a" "fp_wf B64 ?a" "\<bar>fval ?a\<bar> \<le> 1 / 5 + 1 / 1000"
    using fdiv_bound[OF v t(1,3), of "1 / 5"] t by (simp_all add: ten)
  have "\<bar>fval ?a\<bar> \<le> 1 / 14 * fval ?p" using a(3) p3 by linarith
  then have "\<bar>fval ?a / fval ?p\<bar> \<le> 1 / 14" using p3 by (simp add: abs_divide divide_le_eq)
  then have b: "is_fin ?b" "fp_wf B64 ?b" "\<bar>fval ?b\<bar> \<le> 1 / 14 + 1 / 1000"
    using fdiv_bound[OF a(1,2) p(1,2), of "1 / 14"] p3 by simp_all
  have "\<bar>fval ?b * fval (fint B64 180)\<bar> \<le> 20" using b(3) h by (simp add: abs_mult)
  then show ?thesis using fmul_bound[OF b(1,2) h(1,3), of 20] unfolding command_ok_def by linarith
qed

lemma mini_v1_turn_ok:
  assumes "command_ok v"
  shows "command_ok (fmul B64 v (flit B64 (254558 / 1000000)))"
proof -
  let ?q = "flit B64 (254558 / 1000000)"
  have v: "is_fin v" "fp_wf B64 v" "\<bar>fval v\<bar> \<le> 32" using assms by (auto simp: command_ok_def)
  have q: "is_fin ?q" "fp_wf B64 ?q" "\<bar>fval ?q - 254558 / 1000000\<bar> \<le> 1 / 1000000" using flit_error[of "254558 / 1000000"] by simp_all
  have "\<bar>fval ?q\<bar> \<le> 1 / 2" using q(3) by linarith
  then have "\<bar>fval v * fval ?q\<bar> \<le> 32 * (1 / 2)" unfolding abs_mult using v(3) by (intro mult_mono) auto
  then show ?thesis using fmul_bound[OF v(1,2) q(1,2), of 16] unfolding command_ok_def by linarith
qed

text \<open>What the decoder of the robot reads from a motion frame, up to the resolution of the wire.\<close>

definition carries :: "can_frame \<Rightarrow> fp \<Rightarrow> fp \<Rightarrow> fp \<Rightarrow> bool" where
  "carries fr lin steer ang = (\<exists>c. DecodeCanFrameV2 zero_union fr = (True, \<lparr>type_of = AgxMsgMotionCommand, body = MotionCommandBody c\<rparr>) \<and>
     \<bar>fval (linear_velocity_mc c) - fval lin\<bar> < 1 / 900 \<and> \<bar>fval (steering_angle_mc c) - fval steer\<bar> < 1 / 900 \<and>
     \<bar>fval (angular_velocity_mc c) - fval ang\<bar> < 1 / 900)"

text \<open>One motion frame reaches the bus, whichever variant sends it.\<close>

lemma ranger_sends:
  assumes "can_ready s" "mem_wf mem" "command_ok lin" "command_ok steer" "\<bar>fval steer\<bar> \<le> 2" "command_ok ang"
  obtains fr where "RangerRobot_SetMotionCommand variant mem lin steer ang s = Inr (can_send fr s)"
    "sent (can_send fr s) = sent s @ [fr]" "can_id fr = 0x111" "variant \<noteq> kRangerMiniV1 \<Longrightarrow> carries fr lin steer ang"
proof -
  have send: "\<exists>fr. SendMotionCommand ProtocolV2Parser mem a b c d s = Inr (can_send fr s) \<and>
      sent (can_send fr s) = sent s @ [fr] \<and> can_id fr = 0x111 \<and> carries fr a d b"
    if "command_ok a" "command_ok b" "command_ok c" "command_ok d" for a b c d
    using send_motion_ok[OF assms(1,2) that, of zero_union] unfolding carries_def by blast
  show ?thesis
  proof (cases "variant = kRangerMiniV1")
    case True
    let ?w = "if motion_mode (motion_mode_state (core_state_msgs s)) = kSpinning
      then fmul B64 ang (flit B64 (254558 / 1000000)) else ang"
    have w: "command_ok (fneg ?w)" using assms(6) mini_v1_turn_ok by simp
    have "RangerRobot_SetMotionCommand variant mem lin steer ang s = SendMotionCommand ProtocolV2Parser mem lin (flit B64 0) (fneg ?w)
        (fmul B64 (fdiv B64 (fdiv B64 (fneg steer) (flit B64 10)) (flit B64 (314 / 100))) (fint B64 180)) s"
      using True by (simp only: RangerRobot_SetMotionCommand_def RangerMiniV1_SetMotionCommand_def Let_def RangerVariant.case)
    then show ?thesis using send[OF assms(3) zero_ok(1) w mini_v1_steer_ok[OF assms(4,5)]] that True by metis
  next
    case False
    then have "RangerRobot_SetMotionCommand variant mem lin steer ang s =
        SendMotionCommand ProtocolV2Parser mem lin ang (flit B64 0) steer s"
      by (cases variant) (simp_all add: RangerRobot_SetMotionCommand_def Ranger_SetMotionCommand_def)
    then show ?thesis using send[OF assms(3,6) zero_ok(1) assms(4)] that by metis
  qed
qed

lemma can_send_keeps [simp]:
  "can_ready (can_send fr s) = can_ready s" "base_wf (can_send fr s) = base_wf s"
  "core_state_msgs (can_send fr s) = core_state_msgs s"
  by (simp_all add: can_ready_def can_send_def base_wf_def IsOpened_def SendFrame_def split: option.splits)

text \<open>The values that the callback hands to \<open>SetMotionCommand\<close>.\<close>

definition twist_command :: "Libm \<Rightarrow> RobotParams \<Rightarrow> fp \<Rightarrow> u8 \<Rightarrow> Twist \<Rightarrow> fp \<times> fp \<times> fp" where
  "twist_command lm rp last_x mode msg =
    (if mode = 0 then (linear_x msg, clamp_sym (max_steer_angle_ackermann rp) (fst (CalculateSteeringAngle lm rp msg)), flit B64 0)
     else if mode = 1 then (case parallel_command lm rp last_x msg of (speed, steer, _) \<Rightarrow> (speed, steer, flit B64 0))
     else if mode = 2 then (flit B64 0, flit B64 0, clamp_sym (max_angular_speed rp) (angular_z msg))
     else (flit B64 0, flit B64 0, clamp_sym (max_linear_speed rp) (linear_y msg)))"

lemma choose_mode_range: "choose_mode lm ty rp msg \<in> {0, 1, 2, 3}"
  by (simp add: choose_mode_def ros_modes)

lemma choose_parallel: "choose_mode lm ty rp msg = 1 \<Longrightarrow> \<not> feq (linear_y msg) (flit B64 0)"
  by (auto simp: choose_mode_def ros_modes split: if_splits)

lemma twist_command_ok:
  assumes "libm_ok lm" "params_ok rp" "twist_ok msg" "mode = choose_mode lm ty rp msg"
    and "twist_command lm rp last_x mode msg = (lin, steer, ang)"
  shows "command_ok lin" "command_ok steer" "\<bar>fval steer\<bar> \<le> 2" "command_ok ang"
    "\<bar>fval steer\<bar> \<le> (if mode = 0 then fval (max_steer_angle_ackermann rp)
       else if mode = 1 then fval (max_steer_angle_parallel rp) else 0)"
    "mode \<noteq> 3 \<Longrightarrow> \<bar>fval ang\<bar> \<le> (if mode = 2 then fval (max_angular_speed rp) else 0)"
proof -
  have t: "is_fin v" "fp_wf B64 v" "\<bar>fval v\<bar> \<le> 16" "command_ok v" "\<not> isnan v"
    if "v \<in> {linear_x msg, linear_y msg, angular_z msg}" for v
    using assms(3) that fin_not_nan by (auto simp: twist_ok_def command_ok_def)
  have rp: "bound_ok (max_steer_angle_parallel rp)" "bound_ok (max_angular_speed rp)" "bound_ok (max_linear_speed rp)"
    "fval (max_steer_angle_ackermann rp) \<le> 2" "fval (max_steer_angle_parallel rp) \<le> 2"
    using assms(2) by (auto simp: params_ok_def)
  note d = dual_steer_ok[OF assms(1-3)] and z = zero_ok
  have av: "command_ok (clamp_sym (max_angular_speed rp) (angular_z msg))" "command_ok (clamp_sym (max_linear_speed rp) (linear_y msg))"
    using clamp_sym_ok(1)[OF rp(2)] clamp_sym_ok(1)[OF rp(3)] t(2,5) by auto
  let ?s = "atan_fn lm (fdiv B64 (linear_y msg) (linear_x msg))"
  have st: "\<not> isnan ?s \<and> fp_wf B64 ?s" if "mode = 1"
  proof -
    have "\<not> feq (linear_y msg) (flit B64 0)" using choose_parallel assms(4) that by metis
    then have "fval (linear_y msg) \<noteq> 0" using t(1)[of "linear_y msg"] z by (cases "linear_y msg"; cases "flit B64 0") (auto simp: command_ok_def)
    then have "\<not> isnan (fdiv B64 (linear_y msg) (linear_x msg))" using t(1) by (intro fdiv_not_nan) auto
    then show ?thesis using atan_fin[OF assms(1)] fin_not_nan by blast
  qed
  have cl: "command_ok (clamp_sym (max_steer_angle_parallel rp) v) \<and> \<bar>fval (clamp_sym (max_steer_angle_parallel rp) v)\<bar> \<le> fval (max_steer_angle_parallel rp)"
    if "\<not> isnan v" "fp_wf B64 v" for v
    using clamp_sym_ok[OF rp(1) that] by blast
  have nn: "isnan (fneg v) = isnan v" for v by (cases v) simp_all
  let ?sb = "if mode = 0 then fval (max_steer_angle_ackermann rp) else if mode = 1 then fval (max_steer_angle_parallel rp) else 0"
  let ?ab = "if mode = 2 then fval (max_angular_speed rp) else 0"
  have "command_ok lin \<and> command_ok steer \<and> \<bar>fval steer\<bar> \<le> ?sb \<and> command_ok ang \<and> (mode \<noteq> 3 \<longrightarrow> \<bar>fval ang\<bar> \<le> ?ab)"
  proof (cases "mode = 1")
    case True
    define c where "c = clamp_sym (max_steer_angle_parallel rp) (if signbit (linear_x msg) then fneg ?s else ?s)"
    have c: "command_ok c" "\<bar>fval c\<bar> \<le> fval (max_steer_angle_parallel rp)" using cl st[OF True] nn by (auto simp: c_def)
    have fa: "\<bar>fval (fabs c)\<bar> = \<bar>fval c\<bar>" using c(1) by (auto simp: command_ok_def fval_fabs)
    have "steer \<in> {c, fabs c, fneg (fabs c)}" "ang = flit B64 0"
      "lin = fmul B64 (unit_sign (if feq (linear_x msg) (flit B64 0) \<and> \<not> feq (linear_y msg) (flit B64 0) then linear_y msg else linear_x msg))
         (sqrt_fn lm (fadd B64 (fmul B64 (linear_x msg) (linear_x msg)) (fmul B64 (linear_y msg) (linear_y msg))))"
      using assms(5) True by (auto simp: twist_command_def parallel_command_def Let_def c_def)
    then show ?thesis using c fa z command_ok_abs[OF c(1)] speed_ok[OF assms(1)] t(1,2,3) True by auto
  next
    case False
    then show ?thesis using assms(4,5) d z av t(4)[of "linear_x msg"] clamp_sym_ok(2)[OF rp(2)] t(2,5)[of "angular_z msg"]
        choose_mode_range[of lm ty rp msg]
      by (auto simp: twist_command_def split: if_splits)
  qed
  moreover have "?sb \<le> 2" using rp(4,5) by simp
  ultimately show "command_ok lin" "command_ok steer" "\<bar>fval steer\<bar> \<le> 2" "command_ok ang" "\<bar>fval steer\<bar> \<le> ?sb"
    "mode \<noteq> 3 \<Longrightarrow> \<bar>fval ang\<bar> \<le> ?ab" by linarith+
qed

lemma send_for_mode_eq:
  assumes "mode \<in> {0, 1, 2, 3}" "twist_command (libm ros) (robot_params m) (last_nonzero_x m) mode msg = (lin, steer, ang)"
  obtains lx where "send_for_mode ros mem mode msg m =
    res_bind (RangerRobot_SetMotionCommand (variant_m m) mem lin steer ang (robot_m m)) (\<lambda>r. Inr (m\<lparr>last_nonzero_x := lx, robot_m := r\<rparr>))"
proof -
  have id: "m\<lparr>last_nonzero_x := last_nonzero_x m\<rparr> = m" by simp
  show ?thesis
  proof (cases "mode = 1")
    case True
    then show ?thesis using assms(2) that[of "snd (snd (parallel_command (libm ros) (robot_params m) (last_nonzero_x m) msg))"]
      by (auto simp: send_for_mode_def twist_command_def ros_modes Let_def split: prod.splits)
  next
    case False
    then show ?thesis using assms that[of "last_nonzero_x m"]
      by (auto simp: send_for_mode_def twist_command_def ros_modes Let_def)
  qed
qed

definition mode_frames :: "RangerVariant \<Rightarrow> Mem \<Rightarrow> u8 \<Rightarrow> can_frame list" where
  "mode_frames variant mem mode = (if variant = kRangerMiniV1 \<and> mode = kPark then [] else [set_mode_frame mem mode])"

lemma set_mode_sends:
  assumes "can_ready s" "mode \<in> {0, 1, 2, 3}"
  obtains r where "RangerRobot_SetMotionMode variant mem mode s = Inr r" "can_ready r" "base_wf r = base_wf s"
    "sent r = sent s @ mode_frames variant mem mode"
  using assms that[of s] that[of "can_send (set_mode_frame mem mode) s"]
  by (cases "variant = kRangerMiniV1 \<and> mode = 3"; cases variant)
    (auto simp: RangerRobot_SetMotionMode_def RangerMiniV1_SetMotionMode_def
    Ranger_SetMotionMode_def SetMotionMode_v2 motion_modes mode_frames_def sent_can_send)

lemma twist_sends:
  assumes "libm_ok (libm ros)" "params_ok (robot_params m)" "twist_ok msg" "can_ready (robot_m m)" "mem_wf mem"
    and "\<not> (parking_mode m \<and> robot_type m = SubRangerMiniV2)"
    and "mode = choose_mode (libm ros) (robot_type m) (robot_params m) msg"
  obtains m' fr where "TwistCmdCallback ros mem msg m = Inr m'" "motion_mode_m m' = mode"
    "sent (robot_m m') = sent (robot_m m) @ mode_frames (variant_m m) mem mode @ [fr]" "can_id fr = 0x111"
    "\<And>lin steer ang. twist_command (libm ros) (robot_params m) (last_nonzero_x m) mode msg = (lin, steer, ang) \<Longrightarrow>
       variant_m m \<noteq> kRangerMiniV1 \<Longrightarrow> carries fr lin steer ang"
    "can_ready (robot_m m')" "base_wf (robot_m m') = base_wf (robot_m m)"
    "robot_params m' = robot_params m" "publishers_set m' = publishers_set m" "published m' = published m"
proof -
  have mr: "mode \<in> {0, 1, 2, 3}" unfolding assms(7) by (rule choose_mode_range)
  obtain r where r: "RangerRobot_SetMotionMode (variant_m m) mem mode (robot_m m) = Inr r" "can_ready r"
      "base_wf r = base_wf (robot_m m)" "sent r = sent (robot_m m) @ mode_frames (variant_m m) mem mode"
    using set_mode_sends[OF assms(4) mr] .
  let ?m = "m\<lparr>motion_mode_m := mode, robot_m := r\<rparr>"
  obtain lin steer ang where c: "twist_command (libm ros) (robot_params m) (last_nonzero_x m) mode msg = (lin, steer, ang)"
    using prod_cases3 by blast
  note ok = twist_command_ok[OF assms(1-3,7) c]
  have c': "twist_command (libm ros) (robot_params ?m) (last_nonzero_x ?m) mode msg = (lin, steer, ang)" using c by simp
  obtain lx where lx: "send_for_mode ros mem mode msg ?m = res_bind (RangerRobot_SetMotionCommand (variant_m ?m) mem lin steer ang (robot_m ?m))
      (\<lambda>r. Inr (?m\<lparr>last_nonzero_x := lx, robot_m := r\<rparr>))"
    using send_for_mode_eq[OF mr c'] .
  obtain fr where fr: "RangerRobot_SetMotionCommand (variant_m m) mem lin steer ang r = Inr (can_send fr r)"
      "sent (can_send fr r) = sent r @ [fr]" "can_id fr = 0x111" "variant_m m \<noteq> kRangerMiniV1 \<Longrightarrow> carries fr lin steer ang"
    using ranger_sends[OF r(2) assms(5) ok(1-4), where variant = "variant_m m"] by metis
  have "TwistCmdCallback ros mem msg m = Inr (?m\<lparr>last_nonzero_x := lx, robot_m := can_send fr r\<rparr>)"
    using assms(6,7) r lx fr by (auto simp: TwistCmdCallback_def Let_def)
  then show ?thesis using r fr c by (intro that[of "?m\<lparr>last_nonzero_x := lx, robot_m := can_send fr r\<rparr>" fr]) simp_all
qed

section \<open>Whole runs of the node\<close>

definition node_inv :: "Messenger \<Rightarrow> bool" where
  "node_inv m = (params_ok (robot_params m) \<and> base_wf (robot_m m) \<and> can_ready (robot_m m) \<and> publishers_set m)"

definition event_ok :: "event \<Rightarrow> bool" where
  "event_ok ev = (case ev of Tick now \<Rightarrow> True | Cmd msg \<Rightarrow> twist_ok msg | Rx now rx \<Rightarrow> rx_ok rx)"

lemma publish_ok: "publishers_set m \<Longrightarrow> publish x m = Inr (m\<lparr>published := published m @ [x]\<rparr>)"
  by (simp add: publish_def)

lemma integrate_pose_frame:
  obtains px py th where "integrate_pose ros lin ang an dt m = m\<lparr>position_x := px, position_y := py, theta := th\<rparr>"
proof -
  let ?put = "\<lambda>(px, py, th). m\<lparr>position_x := px, position_y := py, theta := th\<rparr>"
  have id: "m\<lparr>position_x := px, position_y := py\<rparr> = m\<lparr>position_x := px, position_y := py, theta := theta m\<rparr>" for px py
    by (cases m) simp
  have id': "m = m\<lparr>position_x := position_x m, position_y := position_y m, theta := theta m\<rparr>" by simp
  consider (step) f where "integrate_pose ros lin ang an dt m =
        ?put (integrate_const ros f (position_x m, position_y m, theta m) (flit B64 0) dt (fdiv B64 dt (flit B64 10)))"
    | (slip) px py where "integrate_pose ros lin ang an dt m = m\<lparr>position_x := px, position_y := py\<rparr>"
    | (none) "integrate_pose ros lin ang an dt m = m"
    unfolding integrate_pose_def Let_def by metis
  then show ?thesis
  proof cases
    case step
    obtain px py th where "integrate_const ros f (position_x m, position_y m, theta m) (flit B64 0) dt
        (fdiv B64 dt (flit B64 10)) = (px, py, th)" using prod_cases3 by blast
    then show ?thesis using that[where px = px and py = py and th = th] step by simp
  next
    case slip
    then show ?thesis using that id by metis
  next
    case none
    then show ?thesis using that id' by metis
  qed
qed

lemma tick_result:
  assumes "publishers_set m" "\<not> init_run m"
  obtains m' od tf mode where "PublishStateToROS ros mc ms now m = Inr m'"
    "mode = motion_mode (motion_mode_state (core_state_msgs (robot_m m)))"
    "published m' = published m @ [OdometryMsg od] @ (if publish_odom_tf m then [TransformMsg tf] else []) @
      [SystemStateMsg \<lparr>stamp_ss = now, vehicle_state_ss = ucast (vehicle_state (system_state (core_state_msgs (robot_m m)))),
         control_mode_ss = ucast (control_mode (system_state (core_state_msgs (robot_m m)))),
         error_code_ss = error_code (system_state (core_state_msgs (robot_m m))),
         battery_voltage_ss = battery_voltage (system_state (core_state_msgs (robot_m m))), motion_mode_ss = mode\<rparr>,
       MotionStateMsg now mode,
       ActuatorStateArrayMsg now (map (actuator_entry (RangerRobot_GetActuatorState (variant_m m) (robot_m m))) [0..<8]),
       BatteryStateMsg (battery_message now (RangerRobot_GetCommonSensorState (variant_m m) ms (robot_m m)))]"
    "odom_stamp od = now" "odom_pose od = (position_x m', position_y m', flit B64 0)"
    "odom_orientation od = quaternion_from_yaw ros (theta m')"
    "last_time m' = now" "robot_m m' = robot_m m" "motion_mode_m m' = mode" "publishers_set m'" "robot_params m' = robot_params m"
    "init_run m' = init_run m"
proof -
  let ?st = "RangerRobot_GetRobotState (variant_m m) mc (robot_m m)"
  let ?mode = "motion_mode (motion_mode_state (core_state_msgs (robot_m m)))"
  have st: "motion_mode_state_rcs ?st = motion_mode_state (core_state_msgs (robot_m m))"
      "system_state_rcs ?st = system_state (core_state_msgs (robot_m m))"
    by (cases "variant_m m"; simp add: RangerRobot_GetRobotState_def RangerMiniV1_GetRobotState_def Ranger_GetRobotState_def Let_def)+
  let ?m = "m\<lparr>current_time := now, motion_mode_m := ?mode\<rparr>"
  let ?mot = "motion_state_rcs ?st"
  obtain px py th where i: "integrate_pose ros (linear_velocity ?mot) (angular_velocity ?mot) (steering_angle ?mot)
      (duration_seconds ros (now - last_time m)) ?m = ?m\<lparr>position_x := px, position_y := py, theta := th\<rparr>"
    using integrate_pose_frame .
  let ?od = "\<lparr>odom_stamp = now, odom_frame_id = odom_frame m, odom_child_frame_id = base_frame m,
    odom_pose = (px, py, flit B64 0), odom_orientation = quaternion_from_yaw ros th, odom_pose_cov = odom_pose_covariance m,
    odom_twist = odom_twist_of (libm ros) (robot_params m) ?mode (linear_velocity ?mot) (angular_velocity ?mot) (steering_angle ?mot),
    odom_twist_cov = odom_twist_covariance m\<rparr>"
  let ?tf = "\<lparr>tf_stamp = now, tf_frame_id = odom_frame m, tf_child_frame_id = base_frame m,
    tf_translation = (px, py, flit B64 0), tf_rotation = quaternion_from_yaw ros th\<rparr>"
  let ?msgs = "[OdometryMsg ?od] @ (if publish_odom_tf m then [TransformMsg ?tf] else []) @
      [SystemStateMsg \<lparr>stamp_ss = now, vehicle_state_ss = ucast (vehicle_state (system_state (core_state_msgs (robot_m m)))),
         control_mode_ss = ucast (control_mode (system_state (core_state_msgs (robot_m m)))),
         error_code_ss = error_code (system_state (core_state_msgs (robot_m m))),
         battery_voltage_ss = battery_voltage (system_state (core_state_msgs (robot_m m))), motion_mode_ss = ?mode\<rparr>,
       MotionStateMsg now ?mode,
       ActuatorStateArrayMsg now (map (actuator_entry (RangerRobot_GetActuatorState (variant_m m) (robot_m m))) [0..<8]),
       BatteryStateMsg (battery_message now (RangerRobot_GetCommonSensorState (variant_m m) ms (robot_m m)))]"
  have "PublishStateToROS ros mc ms now m = Inr (?m\<lparr>position_x := px, position_y := py, theta := th,
      last_time := now, published := published m @ ?msgs\<rparr>)"
    using assms st i by (cases "publish_odom_tf m")
      (simp_all add: PublishStateToROS_def Let_def UpdateOdometry_def publish_ok publish_states_def del: upt.simps)
  then show ?thesis by (rule that[where od = ?od and tf = ?tf and mode = ?mode]) (simp_all add: assms(1))
qed

lemma node_step_safe:
  assumes "libm_ok (libm ros)" "mem_wf mem" "event_ok ev" "node_inv m"
  obtains m' frs msgs where "node_step ros mem mc ms ev m = Inr m'" "node_inv m'"
    "sent (robot_m m') = sent (robot_m m) @ frs" "length frs \<le> 2" "published m' = published m @ msgs"
proof (cases ev)
  case (Tick now)
  show ?thesis
  proof (cases "init_run m")
    case True
    then show ?thesis using that[of "m\<lparr>current_time := now, last_time := now, init_run := False\<rparr>" "[]" "[]"] assms(4)
      by (simp add: Tick node_step_def PublishStateToROS_def node_inv_def)
  next
    case False
    have "publishers_set m" using assms(4) by (simp add: node_inv_def)
    then obtain m' msgs where "PublishStateToROS ros mc ms now m = Inr m'" "robot_m m' = robot_m m" "publishers_set m'"
        "robot_params m' = robot_params m" "published m' = published m @ msgs"
      using tick_result[OF _ False, of ros mc ms now] by metis
    then show ?thesis using that[of m' "[]" msgs] assms(4) by (simp add: Tick node_step_def node_inv_def)
  qed
next
  case (Cmd msg)
  have i: "params_ok (robot_params m)" "twist_ok msg" "can_ready (robot_m m)" using assms(3,4) by (simp_all add: Cmd event_ok_def node_inv_def)
  show ?thesis
  proof (cases "parking_mode m \<and> robot_type m = SubRangerMiniV2")
    case True
    then show ?thesis using that[of m "[]" "[]"] assms(4) by (simp add: Cmd node_step_def TwistCmdCallback_def)
  next
    case False
    obtain m' fr where t: "TwistCmdCallback ros mem msg m = Inr m'"
      "sent (robot_m m') = sent (robot_m m) @
         mode_frames (variant_m m) mem (choose_mode (libm ros) (robot_type m) (robot_params m) msg) @ [fr]"
      "can_ready (robot_m m')" "base_wf (robot_m m') = base_wf (robot_m m)" "robot_params m' = robot_params m"
      "publishers_set m' = publishers_set m" "published m' = published m"
      using twist_sends[OF assms(1) i assms(2) False refl] by metis
    have "length (mode_frames (variant_m m) mem (choose_mode (libm ros) (robot_type m) (robot_params m) msg) @ [fr]) \<le> 2"
      by (simp add: mode_frames_def)
    then show ?thesis using that[of m' _ "[]"] t assms(4) by (simp add: Cmd node_step_def node_inv_def)
  qed
next
  case (Rx now rx)
  have "rx_ok rx" "base_wf (robot_m m)" using assms(3,4) by (simp_all add: Rx event_ok_def node_inv_def)
  then obtain r where r: "ParseCANFrame ProtocolV2Parser (mem_msg mem) now rx (robot_m m) = Inr r" "base_wf r" "same_port (robot_m m) r"
    using v2.parse_total by metis
  have "can_ready r = can_ready (robot_m m)" "sent r = sent (robot_m m)"
    using r(3) by (simp_all add: same_port_def can_ready_def sent_def)
  then show ?thesis using that[of "m\<lparr>robot_m := r\<rparr>" "[]" "[]"] r assms(4) by (simp add: Rx node_step_def node_inv_def)
qed

lemma node_run_total:
  assumes "libm_ok (libm ros)" "mem_wf mem" "list_all event_ok evs" "node_inv m"
  obtains m' frs msgs where "node_run ros mem mc ms evs m = Inr m'" "node_inv m'"
    "sent (robot_m m') = sent (robot_m m) @ frs" "length frs \<le> 2 * length evs" "published m' = published m @ msgs"
  using assms(3,4)
proof (induction evs arbitrary: m thesis)
  case Nil
  then show ?case by simp
next
  case (Cons ev evs)
  have ev: "event_ok ev" "list_all event_ok evs" using Cons.prems(2) by simp_all
  obtain m1 f1 p1 where 1: "node_step ros mem mc ms ev m = Inr m1" "node_inv m1"
      "sent (robot_m m1) = sent (robot_m m) @ f1" "length f1 \<le> 2" "published m1 = published m @ p1"
    using node_step_safe[OF assms(1,2) ev(1) Cons.prems(3)] .
  obtain m2 f2 p2 where 2: "node_run ros mem mc ms evs m1 = Inr m2" "node_inv m2"
      "sent (robot_m m2) = sent (robot_m m1) @ f2" "length f2 \<le> 2 * length evs" "published m2 = published m1 @ p2"
    using Cons.IH[OF _ ev(2) 1(2)] .
  show ?case using Cons.prems(1)[of m2 "f1 @ f2" "p1 @ p2"] 1 2 by simp
qed

section \<open>Samples\<close>

text \<open>
  A C library that meets the hypotheses (a coarse one: \<open>atan\<close> is one radian with the sign of its
  argument), an integrator that takes one explicit Euler step, and a connected node.
\<close>

fun atan_sample :: "fp \<Rightarrow> fp" where
  "atan_sample NaN = NaN"
| "atan_sample (Inf s) = Fin s 1"
| "atan_sample (Fin s m) = Fin s 1"

definition libm_sample :: Libm where
  "libm_sample = \<lparr>atan_fn = atan_sample, sin_fn = (\<lambda>x. x), cos_fn = (\<lambda>x. Fin False 1), sqrt_fn = (\<lambda>x. Fin False 0)\<rparr>"

lemma libm_sample_ok: "libm_ok libm_sample"
proof -
  have one: "fp_wf B64 (Fin s 1)" for s
    using fint_exact[of 1 B64] fp_wf_fint[of B64 1] by (cases s) simp_all
  have "is_fin (atan_sample x) \<and> fp_wf B64 (atan_sample x) \<and> \<bar>fval (atan_sample x)\<bar> \<le> 16 / 10" if "\<not> isnan x" for x
    using that one by (cases x) (auto simp: sgn_val_def)
  moreover have "fp_wf B64 (Fin False 0)" by (simp add: rnd_def)
  ultimately show ?thesis by (simp add: libm_ok_def libm_sample_def sgn_val_def)
qed

definition ros_sample :: Ros where
  "ros_sample = \<lparr>libm = libm_sample,
     integrate_const = (\<lambda>f (x, y, th) t0 t1 dt. (case f (x, y, th) of (dx, dy, dth) \<Rightarrow>
       (fadd B64 x (fmul B64 dx t1), fadd B64 y (fmul B64 dy t1), fadd B64 th (fmul B64 dth t1)))),
     quaternion_from_yaw = (\<lambda>yaw. \<lparr>qx = zero_fp, qy = zero_fp, qz = yaw, qw = Fin False 1\<rparr>),
     duration_seconds = (\<lambda>n. fdiv B64 (fint B64 n) (fint B64 1000000000))\<rparr>"

definition no_params :: NodeParams where
  "no_params = \<lparr>np_port_name = None, np_robot_model = None, np_odom_frame = None, np_base_frame = None,
     np_update_rate = None, np_odom_topic_name = None, np_publish_odom_tf = None, np_pose_diagonal = None,
     np_twist_diagonal = None\<rparr>"

definition blank_node :: "ranger \<Rightarrow> Messenger" where
  "blank_node r = \<lparr>robot_m = r, variant_m = kRanger, robot_type = SubRanger, robot_params = RangerParams,
     robot_model = [], port_name = [], odom_frame = [], base_frame = [], odom_topic_name = [], update_rate = 0,
     publish_odom_tf = False, odom_pose_covariance = [], odom_twist_covariance = [], motion_mode_m = 0,
     parking_mode = False, publishers_set = False, published = [], init_run = True,
     last_nonzero_x = Fin False 1, last_time = 0, current_time = 0,
     position_x = zero_fp, position_y = zero_fp, theta = zero_fp\<rparr>"

definition sample_node :: Messenger where
  "sample_node = SetupSubscription (LoadParameters no_params (blank_node (sample_base \<lparr>light_count_v2 = 0\<rparr>)))"

lemma sample_node_facts [simp]:
  "robot_m sample_node = sample_base \<lparr>light_count_v2 = 0\<rparr>" "publishers_set sample_node" "init_run sample_node"
  "variant_m sample_node = kRanger" "robot_type sample_node = SubRanger" "\<not> parking_mode sample_node"
  "publish_odom_tf sample_node = False" "published sample_node = []" "robot_params sample_node = RangerParams"
  by (simp_all add: sample_node_def SetupSubscription_def LoadParameters_def load_model_def blank_node_def no_params_def
    param_def Let_def)

lemma sample_node_inv [simp]: "node_inv sample_node"
  using params_ok_all[of RangerParams] by (simp add: node_inv_def)

definition sample_twist :: "int \<Rightarrow> int \<Rightarrow> int \<Rightarrow> Twist" where
  "sample_twist x y z = \<lparr>linear_x = fint B64 x, linear_y = fint B64 y, angular_z = fint B64 z\<rparr>"

lemma sample_twist_ok: "\<bar>x\<bar> \<le> 16 \<Longrightarrow> \<bar>y\<bar> \<le> 16 \<Longrightarrow> \<bar>z\<bar> \<le> 16 \<Longrightarrow> twist_ok (sample_twist x y z)"
  using fint_value[of x B64] fint_value[of y B64] fint_value[of z B64]
  by (auto simp: twist_ok_def sample_twist_def simp flip: of_int_abs)

definition sample_sensor :: RangerCommonSensorState where
  "sample_sensor = \<lparr>time_stamp_rss = 0,
     bms_basic_state_rss = bms_basic_state (common_sensor_state_msgs (sample_base ())),
     bms_extended_state_rss = bms_extend_state (common_sensor_state_msgs (sample_base ()))\<rparr>"

section \<open>Properties\<close>

text \<open>
  C1: from a connected node, any interleaving of timer ticks, velocity commands (finite, up to 16 in
  magnitude) and well-formed received frames runs without a fault. It keeps the node's invariant, only
  appends to the log of published messages, and puts at most two frames per event on the bus.
\<close>

theorem node_run_safe:
  assumes "libm_ok (libm ros)" "mem_wf mem" "list_all event_ok evs" "node_inv m"
  shows "\<exists>m' frs msgs. node_run ros mem mc ms evs m = Inr m' \<and> node_inv m' \<and>
    sent (robot_m m') = sent (robot_m m) @ frs \<and> length frs \<le> 2 * length evs \<and> published m' = published m @ msgs"
  using node_run_total[OF assms, of mc ms] by metis

theorem node_run_safe_witness:
  "\<exists>m'. node_run ros_sample sample_mem sample_core sample_sensor
      [Tick 0, Cmd (sample_twist 1 0 0), Rx 5 (sample_frame 0x221), Tick 20000000, Cmd (sample_twist 0 1 0)] sample_node = Inr m' \<and>
    length (sent (robot_m m')) \<le> 10"
  using node_run_safe[of ros_sample sample_mem
      "[Tick 0, Cmd (sample_twist 1 0 0), Rx 5 (sample_frame 0x221), Tick 20000000, Cmd (sample_twist 0 1 0)]"
      sample_node sample_core sample_sensor] sample_twist_ok[of 1 0 0] sample_twist_ok[of 0 1 0]
  by (auto simp: event_ok_def ros_sample_def libm_sample_ok)

text \<open>
  A velocity command makes the node choose one of the four motion modes and sends the robot a frame
  that sets the mode (except where Ranger Mini V1 is told mode 3) followed by one motion command;
  nothing is published.
\<close>

lemma twist_command_frames:
  assumes "libm_ok (libm ros)" "params_ok (robot_params m)" "twist_ok msg" "can_ready (robot_m m)" "mem_wf mem"
    and "\<not> (parking_mode m \<and> robot_type m = SubRangerMiniV2)"
  shows "\<exists>m' fr. TwistCmdCallback ros mem msg m = Inr m' \<and>
    motion_mode_m m' = choose_mode (libm ros) (robot_type m) (robot_params m) msg \<and>
    sent (robot_m m') = sent (robot_m m) @ mode_frames (variant_m m) mem (motion_mode_m m') @ [fr] \<and>
    can_id fr = 0x111 \<and> published m' = published m"
  using twist_sends[OF assms refl] by metis



text \<open>
  Whatever parameters the node is given, it never takes itself for a Ranger Mini V2: the model name
  \<open>ranger_mini_v2\<close> ends up with the type and the limits of the full-size Ranger, so that the parking
  check of the velocity callback can never apply.
\<close>

lemma mini_v2_never_loaded:
  "robot_type (LoadParameters np m) \<noteq> SubRangerMiniV2 \<and>
   robot_type (LoadParameters (np\<lparr>np_robot_model := Some ''ranger_mini_v2''\<rparr>) m) = SubRanger \<and>
   robot_params (LoadParameters (np\<lparr>np_robot_model := Some ''ranger_mini_v2''\<rparr>) m) = RangerParams"
  by (simp add: LoadParameters_def load_model_def Let_def param_def)

text \<open>
  A Ranger Mini V1 that is told to move sideways never receives the mode: side slip has the value of
  parking in the robot interface, which the class of that robot swallows. The command that follows is
  sent in whatever mode the robot happens to be.
\<close>

lemma mini_v1_side_slip_lost:
  assumes "robot_type m = SubRangerMiniV1" "variant_m m = kRangerMiniV1"
    and "feq (linear_x msg) (flit B64 0)" "\<not> feq (linear_y msg) (flit B64 0)"
  shows "TwistCmdCallback ros mem msg m = send_for_mode ros mem MOTION_MODE_SIDE_SLIP msg (m\<lparr>motion_mode_m := MOTION_MODE_SIDE_SLIP\<rparr>)"
proof -
  have "choose_mode (libm ros) (robot_type m) (robot_params m) msg = MOTION_MODE_SIDE_SLIP"
    using assms by (simp add: choose_mode_def)
  then show ?thesis using assms
    by (simp add: TwistCmdCallback_def RangerRobot_SetMotionMode_def RangerMiniV1_SetMotionMode_def ros_modes motion_modes)
qed

definition mini_v1_node :: Messenger where
  "mini_v1_node = (LoadParameters (no_params\<lparr>np_robot_model := Some ''ranger_mini_v1''\<rparr>)
     (blank_node (sample_base \<lparr>light_count_v2 = 0\<rparr>)))\<lparr>variant_m := kRangerMiniV1\<rparr>"



text \<open>
  the eight entries of a published actuator message differ only in their number: each repeats the
  voltages, temperatures, current and counters of actuator 0, the angle of motor 5 and the speed of
  motor 1.
\<close>

lemma actuator_entries_repeat:
  "(actuator_entry a i)\<lparr>id_as := 0\<rparr> = (actuator_entry a j)\<lparr>id_as := 0\<rparr> \<and>
   driver_voltage_ds (driver_as (actuator_entry a i)) = driver_voltage (actuator_ls_state_ras a ! 0) \<and>
   motor_angles_ms (motor_as (actuator_entry a i)) = angle_5 (motor_angles_ras a)"
  by (simp add: actuator_entry_def Let_def)

text \<open>
  When the port cannot be opened the constructor returns without creating the publishers, and the
  node fails on the second iteration of its loop by publishing through a null pointer.
\<close>

lemma failed_connect_faults:
  assumes "contains_can (param ''can0'' (np_port_name np))" "RangerROSMessenger os mem np blank = Inr m"
    and "socket_result os < 0" "\<not> publishers_set blank" "init_run blank"
  shows "node_run ros mem mc ms [Tick t1, Tick t2] m = Inl NullDereference"
proof -
  have l: "publishers_set (LoadParameters np blank) = publishers_set blank" "init_run (LoadParameters np blank) = init_run blank"
    "port_name (LoadParameters np blank) = param ''can0'' (np_port_name np)"
    by (simp_all add: LoadParameters_def load_model_def Let_def)
  have m: "\<not> publishers_set m" "init_run m"
    using assms l by (auto simp: RangerROSMessenger_def Let_def res_iff RangerRobot_Connect_def Connect_def ConnectPort_def
      CanOpen_def SetReceiveCallback_def AsyncCAN_new_def split: if_splits option.splits)
  let ?m1 = "m\<lparr>current_time := t1, last_time := t1, init_run := False\<rparr>"
  have "PublishStateToROS ros mc ms t1 m = Inr ?m1" using m by (simp add: PublishStateToROS_def Let_def)
  moreover have "UpdateOdometry ros a b c d e m' = Inl NullDereference" if "\<not> publishers_set m'" for a b c d e m'
  proof -
    obtain px py th where "integrate_pose ros a c d e m' = m'\<lparr>position_x := px, position_y := py, theta := th\<rparr>"
      using integrate_pose_frame .
    then show ?thesis using that by (simp add: UpdateOdometry_def Let_def publish_def)
  qed
  ultimately show ?thesis using m(1) by (simp add: node_step_def PublishStateToROS_def Let_def)
qed

end
