(* ===== verification/Ring_Buffer.thy ===== *)
theory Ring_Buffer
  imports Prelude
begin

text \<open>
  \<open>ring_buffer.hpp\<close>: the ring buffer of the serial port. Both indices are 64-bit counters that only
  grow and wrap around; a mask selects the slot. The contents of the array before the first write are
  an argument of the constructor. The loops of \<open>Read\<close>, \<open>Peek\<close> and \<open>Write\<close> count with an \<open>int\<close>, so that
  counting past \<open>2^31 - 1\<close> is an overflow, and they index the caller's array.

  The locale \<open>fifo\<close> is the contract of a bounded queue; the ring buffer is an instance of it, and its
  laws hold across the wrap-around of the counters.
\<close>

section \<open>Class RingBuffer\<close>

record 'a RingBuffer =
  buffer_rb :: "'a list"
  size_rb :: u64
  size_mask :: u64
  write_index :: u64
  read_index :: u64

definition RingBuffer_new :: "u64 \<Rightarrow> 'a list \<Rightarrow> 'a RingBuffer" where
  "RingBuffer_new n mem = \<lparr>buffer_rb = mem, size_rb = n, size_mask = n - 1, write_index = 0, read_index = 0\<rparr>"

text \<open>The condition of the \<open>static_assert\<close>.\<close>

definition rb_size_ok :: "u64 \<Rightarrow> bool" where
  "rb_size_ok n = (n \<noteq> 0 \<and> n AND (n - 1) = 0)"

definition Reset :: "'a RingBuffer \<Rightarrow> 'a RingBuffer" where
  "Reset rb = rb\<lparr>write_index := 0, read_index := 0\<rparr>"

definition GetOccupiedSize :: "'a RingBuffer \<Rightarrow> u64" where
  "GetOccupiedSize rb = write_index rb - read_index rb"

definition GetFreeSize :: "'a RingBuffer \<Rightarrow> u64" where
  "GetFreeSize rb = size_rb rb - GetOccupiedSize rb"

definition IsEmpty :: "'a RingBuffer \<Rightarrow> bool" where
  "IsEmpty rb = (read_index rb = write_index rb)"

definition IsFull :: "'a RingBuffer \<Rightarrow> bool" where
  "IsFull rb = (size_rb rb = GetOccupiedSize rb)"

text \<open>\<open>None\<close> is the return value 0; the slots are indexed through the mask.\<close>

definition slot :: "'a RingBuffer \<Rightarrow> u64 \<Rightarrow> nat" where
  "slot rb k = unat (k AND size_mask rb)"

definition ReadByte :: "'a RingBuffer \<Rightarrow> ('a \<times> 'a RingBuffer) option" where
  "ReadByte rb =
    (if IsEmpty rb then None
     else Some (buffer_rb rb ! slot rb (read_index rb), rb\<lparr>read_index := read_index rb + 1\<rparr>))"

definition PeekByteAt :: "u64 \<Rightarrow> 'a RingBuffer \<Rightarrow> 'a option" where
  "PeekByteAt n rb =
    (if GetOccupiedSize rb \<le> n then None else Some (buffer_rb rb ! slot rb (read_index rb + n)))"

definition WriteByte :: "'a \<Rightarrow> 'a RingBuffer \<Rightarrow> 'a RingBuffer option" where
  "WriteByte x rb =
    (if GetOccupiedSize rb = size_rb rb then None
     else Some (rb\<lparr>buffer_rb := (buffer_rb rb)[slot rb (write_index rb) := x],
                   write_index := write_index rb + 1\<rparr>))"

text \<open>One iteration of each loop with counter \<open>i\<close>; the result is the returned count, the caller's array and the buffer.\<close>

function ReadFrom :: "nat \<Rightarrow> 'a list \<Rightarrow> u64 \<Rightarrow> 'a RingBuffer \<Rightarrow> (u64 \<times> 'a list \<times> 'a RingBuffer) res" where
  "ReadFrom i data btr rb =
    (if unat btr \<le> i then Inr (btr, data, rb)
     else case ReadByte rb of
       None \<Rightarrow> Inr (of_nat i, data, rb)
     | Some (x, rb') \<Rightarrow>
         if length data \<le> i then Inl IndexOutOfRange
         else if i = 2 ^ 31 - 1 then Inl SignedOverflow
         else ReadFrom (i + 1) (data[i := x]) btr rb')"
  by pat_completeness auto
termination by (relation "measure (\<lambda>(i, data, btr, rb). unat btr - i)") auto

definition ReadBytes :: "'a list \<Rightarrow> u64 \<Rightarrow> 'a RingBuffer \<Rightarrow> (u64 \<times> 'a list \<times> 'a RingBuffer) res" where
  "ReadBytes data btr rb = ReadFrom 0 data btr rb"

function PeekFrom :: "nat \<Rightarrow> 'a list \<Rightarrow> u64 \<Rightarrow> 'a RingBuffer \<Rightarrow> (u64 \<times> 'a list) res" where
  "PeekFrom i data btp rb =
    (if unat btp \<le> i then Inr (btp, data)
     else case PeekByteAt (of_nat i) rb of
       None \<Rightarrow> Inr (of_nat i, data)
     | Some x \<Rightarrow>
         if length data \<le> i then Inl IndexOutOfRange
         else if i = 2 ^ 31 - 1 then Inl SignedOverflow
         else PeekFrom (i + 1) (data[i := x]) btp rb)"
  by pat_completeness auto
termination by (relation "measure (\<lambda>(i, data, btp, rb). unat btp - i)") auto

definition PeekBytes :: "'a list \<Rightarrow> u64 \<Rightarrow> 'a RingBuffer \<Rightarrow> (u64 \<times> 'a list) res" where
  "PeekBytes data btp rb = PeekFrom 0 data btp rb"

function WriteFrom :: "nat \<Rightarrow> 'a list \<Rightarrow> u64 \<Rightarrow> 'a RingBuffer \<Rightarrow> (u64 \<times> 'a RingBuffer) res" where
  "WriteFrom i new_data btw rb =
    (if unat btw \<le> i then Inr (btw, rb)
     else if length new_data \<le> i then Inl IndexOutOfRange
     else case WriteByte (new_data ! i) rb of
       None \<Rightarrow> Inr (of_nat i, rb)
     | Some rb' \<Rightarrow> if i = 2 ^ 31 - 1 then Inl SignedOverflow else WriteFrom (i + 1) new_data btw rb')"
  by pat_completeness auto
termination by (relation "measure (\<lambda>(i, new_data, btw, rb). unat btw - i)") auto

definition WriteBytes :: "'a list \<Rightarrow> u64 \<Rightarrow> 'a RingBuffer \<Rightarrow> (u64 \<times> 'a RingBuffer) res" where
  "WriteBytes new_data btw rb = WriteFrom 0 new_data btw rb"

declare ReadFrom.simps [simp del] PeekFrom.simps [simp del] WriteFrom.simps [simp del]

section \<open>Contract of a bounded queue\<close>

text \<open>
  \<open>contents\<close> abstracts the state to the list of queued elements, oldest first. \<open>push\<close> fails exactly when
  the queue is full and \<open>pop\<close> exactly when it is empty.
\<close>

locale fifo =
  fixes inv :: "'q \<Rightarrow> bool" and contents :: "'q \<Rightarrow> 'a list" and cap :: "'q \<Rightarrow> nat"
    and push :: "'a \<Rightarrow> 'q \<Rightarrow> 'q option" and pop :: "'q \<Rightarrow> ('a \<times> 'q) option"
  assumes contents_cap: "inv q \<Longrightarrow> length (contents q) \<le> cap q"
    and push_spec: "inv q \<Longrightarrow> case push x q of
        None \<Rightarrow> length (contents q) = cap q
      | Some q' \<Rightarrow> length (contents q) < cap q \<and> inv q' \<and> cap q' = cap q \<and> contents q' = contents q @ [x]"
    and pop_spec: "inv q \<Longrightarrow> case pop q of
        None \<Rightarrow> contents q = []
      | Some (x, q') \<Rightarrow> inv q' \<and> cap q' = cap q \<and> contents q = x # contents q'"
begin

lemma push_free:
  assumes "inv q" "length (contents q) < cap q"
  obtains q' where "push x q = Some q'" "inv q'" "cap q' = cap q" "contents q' = contents q @ [x]"
  using push_spec [OF assms(1), of x] assms(2) by (auto split: option.splits)

lemma push_full: "inv q \<Longrightarrow> length (contents q) = cap q \<Longrightarrow> push x q = None"
  using push_spec [of q x] by (auto split: option.splits)

lemma pop_Cons:
  assumes "inv q" "contents q = x # xs"
  obtains q' where "pop q = Some (x, q')" "inv q'" "cap q' = cap q" "contents q' = xs"
  using pop_spec [OF assms(1)] assms(2) by (auto split: option.splits)

lemma pop_Nil: "inv q \<Longrightarrow> contents q = [] \<Longrightarrow> pop q = None"
  using pop_spec [of q] by (auto split: option.splits)

end

section \<open>The ring buffer as a bounded queue\<close>

text \<open>The static assertion holds exactly for the powers of two.\<close>

lemma and_pred_power2:
  "0 < m \<Longrightarrow> m AND (m - 1) = 0 \<Longrightarrow> \<exists>k. m = 2 ^ k" for m :: nat
proof (induction m rule: less_induct)
  case (less m)
  show ?case
  proof (cases "even m")
    case True
    then obtain j where j: "m = 2 * j" by (elim evenE)
    with less.prems have "0 < j" by simp
    then have "m - 1 = 1 + 2 * (j - 1)" using j by simp
    with less.prems(2) j have "2 * (j AND (j - 1)) = 0"
      by (simp add: and_rec [of "2 * j"])
    with less.IH [of j] j \<open>0 < j\<close> obtain k where "j = 2 ^ k" by auto
    then show ?thesis using j by (intro exI [of _ "Suc k"]) simp
  next
    case False
    then obtain j where j: "m = 2 * j + 1" by (elim oddE)
    then have "m AND (m - 1) = m - 1" by (simp add: and_rec [of "Suc (2 * j)"])
    then have "m = 1" using less.prems by simp
    then show ?thesis by (intro exI [of _ 0]) simp
  qed
qed

lemma unat_exp: "n < 64 \<Longrightarrow> unat (2 ^ n :: u64) = 2 ^ n"
  using unat_of_nat [of "2 ^ n", where ?'a = 64] power_strict_increasing [of n 64 "2::nat"] by simp

lemma unat_u64_less: "unat (w :: u64) < 18446744073709551616"
  by (rule order_less_le_trans [OF unsigned_less]) simp

lemma rb_size_ok_power2: "rb_size_ok n \<Longrightarrow> \<exists>k < 64. n = 2 ^ k"
proof -
  assume ok: "rb_size_ok n"
  then have pos: "0 < unat n" by (simp add: rb_size_ok_def unat_gt_0)
  have "unat (n - 1) = unat n - 1"
    using ok unat_minus_one [of n] by (simp add: rb_size_ok_def)
  then have "unat n AND (unat n - 1) = 0"
    using ok by (metis rb_size_ok_def unsigned_and_eq unsigned_0)
  then obtain k where k: "unat n = 2 ^ k" using and_pred_power2 pos by blast
  moreover have "unat n < 2 ^ 64" by (rule order_less_le_trans [OF unsigned_less]) simp
  ultimately have "(2::nat) ^ k < 2 ^ 64" by metis
  then have "k < 64" by (rule power_less_imp_less_exp [rotated]) simp
  moreover from k \<open>k < 64\<close> have "n = 2 ^ k" by (simp add: word_unat_eq_iff unat_exp)
  ultimately show ?thesis by blast
qed

definition rb_inv :: "'a RingBuffer \<Rightarrow> bool" where
  "rb_inv rb = (rb_size_ok (size_rb rb) \<and> size_mask rb = size_rb rb - 1 \<and>
     length (buffer_rb rb) = unat (size_rb rb) \<and> GetOccupiedSize rb \<le> size_rb rb)"

definition rb_contents :: "'a RingBuffer \<Rightarrow> 'a list" where
  "rb_contents rb = map (\<lambda>k. buffer_rb rb ! slot rb (read_index rb + of_nat k)) [0..<unat (GetOccupiedSize rb)]"

definition rb_cap :: "'a RingBuffer \<Rightarrow> nat" where
  "rb_cap rb = unat (size_rb rb)"

lemma slot_mod:
  assumes "rb_inv rb"
  shows "slot rb (read_index rb + of_nat k) = (unat (read_index rb) + k) mod rb_cap rb"
proof -
  obtain n where n: "n < 64" "size_rb rb = 2 ^ n"
    using assms rb_size_ok_power2 by (auto simp: rb_inv_def)
  have cap: "rb_cap rb = 2 ^ n"
    using n by (simp add: rb_cap_def unsigned_eq_0_iff unat_exp)
  have "size_mask rb = mask n" using assms n by (simp add: rb_inv_def mask_eq_exp_minus_1)
  then have "slot rb x = unat (take_bit n x)" for x
    by (simp add: slot_def take_bit_eq_mask)
  then have "slot rb x = unat x mod 2 ^ n" for x
    by (metis unsigned_take_bit_eq take_bit_eq_mod)
  moreover have "(2::nat) ^ n dvd 2 ^ 64" using n by (intro le_imp_power_dvd) simp
  ultimately show ?thesis
    using cap by (simp add: unat_word_ariths unat_of_nat mod_mod_cancel mod_simps)
qed

lemma mod_add_neq:
  assumes "k < j" "j < c"
  shows "(r + k) mod c \<noteq> (r + j) mod (c::nat)"
proof
  assume "(r + k) mod c = (r + j) mod c"
  then have "c dvd j - k" using mod_eq_dvd_iff_nat [of "r + k" "r + j" c] assms by simp
  then show False using assms by (auto dest: dvd_imp_le)
qed

lemma rb_occupied [simp]: "length (rb_contents rb) = unat (GetOccupiedSize rb)"
  by (simp add: rb_contents_def)

lemma rb_write_slot: "rb_inv rb \<Longrightarrow> slot rb (write_index rb) = (unat (read_index rb) + unat (GetOccupiedSize rb)) mod rb_cap rb"
  using slot_mod [of rb "unat (GetOccupiedSize rb)"] by (simp add: GetOccupiedSize_def)

lemma WriteByte_inv:
  fixes x :: 'a
  assumes "rb_inv rb" "GetOccupiedSize rb \<noteq> size_rb rb"
  defines "rb' \<equiv> rb\<lparr>buffer_rb := (buffer_rb rb)[slot rb (write_index rb) := x], write_index := write_index rb + 1\<rparr>"
  shows "rb_inv rb'" "rb_contents rb' = rb_contents rb @ [x]"
proof -
  have lt: "GetOccupiedSize rb < size_rb rb" using assms(1,2) by (simp add: rb_inv_def order_less_le)
  have succ: "GetOccupiedSize rb' = GetOccupiedSize rb + 1" by (simp add: rb'_def GetOccupiedSize_def)
  then have occ: "unat (GetOccupiedSize rb') = Suc (unat (GetOccupiedSize rb))"
    using lt unat_u64_less [of "size_rb rb"] by (simp add: unat_word_ariths word_less_nat_alt)
  show inv: "rb_inv rb'"
    using assms(1) lt inc_le [OF lt] succ by (simp add: rb_inv_def rb'_def)
  have slot': "slot rb' k = slot rb k" for k by (simp add: rb'_def slot_def)
  have cap: "unat (GetOccupiedSize rb) < rb_cap rb" using lt by (simp add: rb_cap_def word_less_nat_alt)
  have len: "length (buffer_rb rb) = rb_cap rb" using assms(1) by (simp add: rb_inv_def rb_cap_def)
  have "buffer_rb rb' ! slot rb (read_index rb + of_nat k) = buffer_rb rb ! slot rb (read_index rb + of_nat k)"
    if "k < unat (GetOccupiedSize rb)" for k
    using mod_add_neq [OF that cap, of "unat (read_index rb)"] slot_mod [OF assms(1), of k] rb_write_slot [OF assms(1)]
    by (simp add: rb'_def)
  moreover have "buffer_rb rb' ! slot rb (read_index rb + of_nat (unat (GetOccupiedSize rb))) = x"
    using cap len slot_mod [OF assms(1), of "unat (GetOccupiedSize rb)"] rb_write_slot [OF assms(1)]
    by (simp add: rb'_def)
  moreover have "read_index rb' = read_index rb" by (simp add: rb'_def)
  ultimately show "rb_contents rb' = rb_contents rb @ [x]"
    by (simp add: rb_contents_def occ slot')
qed

lemma ReadByte_inv:
  assumes "rb_inv rb" "\<not> IsEmpty rb"
  defines "rb' \<equiv> rb\<lparr>read_index := read_index rb + 1\<rparr>"
  shows "rb_inv rb'" "rb_contents rb = buffer_rb rb ! slot rb (read_index rb) # rb_contents rb'"
proof -
  have ne: "GetOccupiedSize rb \<noteq> 0" using assms(2) by (simp add: IsEmpty_def GetOccupiedSize_def)
  have pred: "GetOccupiedSize rb' = GetOccupiedSize rb - 1" by (simp add: rb'_def GetOccupiedSize_def)
  have occ: "unat (GetOccupiedSize rb) = Suc (unat (GetOccupiedSize rb'))"
    using ne pred by (simp add: unat_minus_one unat_gt_0)
  show "rb_inv rb'"
    using assms(1) occ by (simp add: rb_inv_def rb'_def word_le_nat_alt)
  have "slot rb' k = slot rb k" "buffer_rb rb' = buffer_rb rb" "read_index rb' = read_index rb + 1" for k
    by (simp_all add: rb'_def slot_def)
  then show "rb_contents rb = buffer_rb rb ! slot rb (read_index rb) # rb_contents rb'"
    unfolding rb_contents_def occ upt_conv_Cons [OF zero_less_Suc] list.map map_Suc_upt [symmetric] map_map
    by (simp add: comp_def add.assoc)
qed

interpretation rb: fifo rb_inv rb_contents rb_cap WriteByte ReadByte
proof
  fix q :: "'a RingBuffer" and x :: 'a
  assume inv: "rb_inv q"
  show "length (rb_contents q) \<le> rb_cap q"
    using inv by (simp add: rb_inv_def rb_cap_def word_le_nat_alt)
  show "case WriteByte x q of None \<Rightarrow> length (rb_contents q) = rb_cap q
    | Some q' \<Rightarrow> length (rb_contents q) < rb_cap q \<and> rb_inv q' \<and> rb_cap q' = rb_cap q \<and> rb_contents q' = rb_contents q @ [x]"
    using inv WriteByte_inv [OF inv]
    by (auto simp: WriteByte_def rb_cap_def rb_inv_def word_le_nat_alt word_unat_eq_iff order_less_le)
  show "case ReadByte q of None \<Rightarrow> rb_contents q = []
    | Some (x, q') \<Rightarrow> rb_inv q' \<and> rb_cap q' = rb_cap q \<and> rb_contents q = x # rb_contents q'"
    using ReadByte_inv [OF inv]
    by (simp add: ReadByte_def rb_cap_def) (simp add: rb_contents_def IsEmpty_def GetOccupiedSize_def)
qed

section \<open>Bulk operations\<close>

lemma ReadFrom_spec:
  assumes "rb_inv rb" "i \<le> unat btr" "m = min (unat btr - i) (length (rb_contents rb))"
    and "i + m \<le> length data" "i + m < 2 ^ 31"
  shows "\<exists>rb'. ReadFrom i data btr rb = Inr (of_nat (i + m), take i data @ take m (rb_contents rb) @ drop (i + m) data, rb') \<and>
    rb_inv rb' \<and> rb_cap rb' = rb_cap rb \<and> rb_contents rb' = drop m (rb_contents rb)"
  using assms
proof (induction m arbitrary: i data rb)
  case 0
  then consider "unat btr \<le> i" | "i < unat btr" "rb_contents rb = []"
    by (cases "unat btr \<le> i") (simp_all add: min_def del: rb_occupied split: if_splits)
  then show ?case
  proof cases
    case 1
    then have "i = unat btr" using 0 by simp
    then show ?thesis using 0 by (subst ReadFrom.simps) simp
  next
    case 2
    then show ?thesis using 0 rb.pop_Nil [of rb] by (subst ReadFrom.simps) simp
  qed
next
  case (Suc m)
  then obtain x xs where xs: "rb_contents rb = x # xs" by (cases "rb_contents rb") auto
  obtain rb1 where rb1: "ReadByte rb = Some (x, rb1)" "rb_inv rb1" "rb_cap rb1 = rb_cap rb" "rb_contents rb1 = xs"
    using rb.pop_Cons [OF Suc.prems(1) xs] .
  have lt: "i < unat btr" "i < length data" "i \<noteq> 2 ^ 31 - 1" using Suc.prems by auto
  have m: "m = min (unat btr - (i + 1)) (length (rb_contents rb1))" using Suc.prems(3) xs rb1(4) by (simp del: rb_occupied)
  have "i + 1 \<le> unat btr" "i + 1 + m \<le> length (data[i := x])" "i + 1 + m < 2 ^ 31"
    using Suc.prems(4,5) lt by simp_all
  from Suc.IH [OF rb1(2) this(1) m this(2,3)] rb1(3,4) obtain rb2 where rb2: "ReadFrom (i + 1) (data[i := x]) btr rb1 =
      Inr (of_nat (i + 1 + m), take (i + 1) (data[i := x]) @ take m xs @ drop (i + 1 + m) (data[i := x]), rb2)"
    "rb_inv rb2" "rb_cap rb2 = rb_cap rb" "rb_contents rb2 = drop m xs" by auto
  moreover have "ReadFrom i data btr rb = ReadFrom (i + 1) (data[i := x]) btr rb1"
    using lt rb1 by (subst ReadFrom.simps) simp
  moreover have "take (i + 1) (data[i := x]) = take i data @ [x]"
    using lt by (simp add: take_Suc_conv_app_nth)
  ultimately show ?case using xs by simp
qed

lemma WriteFrom_spec:
  assumes "rb_inv rb" "i \<le> unat btw" "m = min (unat btw - i) (rb_cap rb - length (rb_contents rb))"
    and "unat btw \<le> length new_data" "i + m < 2 ^ 31"
  shows "\<exists>rb'. WriteFrom i new_data btw rb = Inr (of_nat (i + m), rb') \<and>
    rb_inv rb' \<and> rb_cap rb' = rb_cap rb \<and> rb_contents rb' = rb_contents rb @ take m (drop i new_data)"
  using assms
proof (induction m arbitrary: i rb)
  case 0
  then consider "unat btw \<le> i" | "i < unat btw" "length (rb_contents rb) = rb_cap rb"
    using rb.contents_cap [OF 0(1)] by (cases "unat btw \<le> i") (simp_all add: min_def del: rb_occupied split: if_splits)
  then show ?case
  proof cases
    case 1
    then have "i = unat btw" using 0 by simp
    then show ?thesis using 0 by (subst WriteFrom.simps) simp
  next
    case 2
    then show ?thesis using 0 rb.push_full [OF 0(1)] by (subst WriteFrom.simps) simp
  qed
next
  case (Suc m)
  then have free: "length (rb_contents rb) < rb_cap rb" and lt: "i < unat btw" "i < length new_data" "i \<noteq> 2 ^ 31 - 1"
    by auto
  obtain rb1 where rb1: "WriteByte (new_data ! i) rb = Some rb1" "rb_inv rb1" "rb_cap rb1 = rb_cap rb"
    "rb_contents rb1 = rb_contents rb @ [new_data ! i]" using rb.push_free [OF Suc.prems(1) free] .
  have m: "m = min (unat btw - (i + 1)) (rb_cap rb1 - length (rb_contents rb1))" using Suc.prems(3) rb1(3,4) by simp
  obtain rb2 where rb2: "WriteFrom (i + 1) new_data btw rb1 = Inr (of_nat (i + 1 + m), rb2)"
    "rb_inv rb2" "rb_cap rb2 = rb_cap rb1" "rb_contents rb2 = rb_contents rb1 @ take m (drop (i + 1) new_data)"
    using Suc.IH [OF rb1(2) _ m] Suc.prems(4,5) lt by auto
  moreover have "WriteFrom i new_data btw rb = WriteFrom (i + 1) new_data btw rb1"
    using lt rb1(1) by (subst WriteFrom.simps) simp
  moreover have "drop i new_data = new_data ! i # drop (i + 1) new_data" using lt by (simp add: Cons_nth_drop_Suc)
  ultimately show ?case using rb1(3,4) by simp
qed

lemma PeekByteAt_spec:
  assumes "n < 2 ^ 64"
  shows "PeekByteAt (of_nat n) rb = (if n < length (rb_contents rb) then Some (rb_contents rb ! n) else None)"
proof -
  have "unat (of_nat n :: u64) = n" using assms by (simp add: unat_of_nat)
  then show ?thesis by (simp add: PeekByteAt_def rb_contents_def word_le_nat_alt)
qed

lemma PeekFrom_spec:
  assumes "i \<le> unat btp" "i \<le> length (rb_contents rb)" "m = min (unat btp) (length (rb_contents rb)) - i"
    and "i + m \<le> length data" "i + m < 2 ^ 31"
  shows "PeekFrom i data btp rb = Inr (of_nat (i + m), take i data @ take m (drop i (rb_contents rb)) @ drop (i + m) data)"
  using assms
proof (induction m arbitrary: i data)
  case 0
  then consider "i = unat btp" | "i < unat btp" "i = length (rb_contents rb)"
    by (cases "i = unat btp") (simp_all add: min_def del: rb_occupied split: if_splits)
  then show ?case
    using 0 PeekByteAt_spec [of i rb] by cases (subst PeekFrom.simps, simp)+
next
  case (Suc m)
  then have lt: "i < unat btp" "i < length (rb_contents rb)" "i < length data" "i \<noteq> 2 ^ 31 - 1" "i < 2 ^ 64" by auto
  let ?x = "rb_contents rb ! i"
  have "m = min (unat btp) (length (rb_contents rb)) - (i + 1)" using Suc.prems(3) by simp
  then have "PeekFrom (i + 1) (data[i := ?x]) btp rb = Inr (of_nat (i + 1 + m),
      take (i + 1) (data[i := ?x]) @ take m (drop (i + 1) (rb_contents rb)) @ drop (i + 1 + m) (data[i := ?x]))"
    using Suc.prems(4,5) lt by (intro Suc.IH) auto
  moreover have "PeekFrom i data btp rb = PeekFrom (i + 1) (data[i := ?x]) btp rb"
    using lt PeekByteAt_spec [of i rb] by (subst PeekFrom.simps) simp
  moreover have "take (i + 1) (data[i := ?x]) = take i data @ [?x]"
    using lt by (simp add: take_Suc_conv_app_nth)
  moreover have "drop i (rb_contents rb) = ?x # drop (i + 1) (rb_contents rb)" using lt by (simp add: Cons_nth_drop_Suc)
  ultimately show ?case by simp
qed

lemma rb_inv_new: "rb_size_ok n \<Longrightarrow> length mem = unat n \<Longrightarrow> rb_inv (RingBuffer_new n mem)"
  by (simp add: rb_inv_def RingBuffer_new_def GetOccupiedSize_def)

lemma rb_contents_new [simp]: "rb_contents (RingBuffer_new n mem) = []"
  by (simp add: rb_contents_def RingBuffer_new_def GetOccupiedSize_def)

lemma rb_inv_Reset: "rb_inv rb \<Longrightarrow> rb_inv (Reset rb) \<and> rb_contents (Reset rb) = []"
  by (simp add: rb_inv_def Reset_def GetOccupiedSize_def rb_contents_def)

lemma IsEmpty_contents: "IsEmpty rb \<longleftrightarrow> rb_contents rb = []"
  by (simp add: IsEmpty_def rb_contents_def GetOccupiedSize_def unat_eq_0) metis

lemma IsFull_contents: "IsFull rb \<longleftrightarrow> length (rb_contents rb) = rb_cap rb"
  by (simp add: IsFull_def rb_cap_def word_unat_eq_iff eq_commute)

lemma GetFreeSize_contents: "rb_inv rb \<Longrightarrow> unat (GetFreeSize rb) = rb_cap rb - length (rb_contents rb)"
  by (simp add: GetFreeSize_def rb_inv_def rb_cap_def unat_sub word_le_nat_alt)

lemma WriteBytes_spec:
  assumes "rb_inv rb" "rb_cap rb < 2 ^ 31" "length xs < 2 ^ 64" "m = min (length xs) (rb_cap rb - length (rb_contents rb))"
  shows "\<exists>rb'. WriteBytes xs (of_nat (length xs)) rb = Inr (of_nat m, rb') \<and> rb_inv rb' \<and> rb_cap rb' = rb_cap rb \<and>
    rb_contents rb' = rb_contents rb @ take m xs"
proof -
  have len: "unat (of_nat (length xs) :: u64) = length xs" using assms(3) by (simp add: unat_of_nat)
  moreover have "m < 2 ^ 31" using assms(2,4) by simp
  ultimately show ?thesis
    using WriteFrom_spec [OF assms(1), of 0 "of_nat (length xs)" m xs] assms(4) unfolding WriteBytes_def by simp
qed

lemma ReadBytes_spec:
  assumes "rb_inv rb" "rb_cap rb < 2 ^ 31" "m = min (unat btr) (length (rb_contents rb))" "m \<le> length data"
  shows "\<exists>rb'. ReadBytes data btr rb = Inr (of_nat m, take m (rb_contents rb) @ drop m data, rb') \<and> rb_inv rb' \<and>
    rb_cap rb' = rb_cap rb \<and> rb_contents rb' = drop m (rb_contents rb)"
proof -
  have "m < 2 ^ 31" using assms(2,3) rb.contents_cap [OF assms(1)] by simp
  then show ?thesis
    using ReadFrom_spec [OF assms(1), of 0 btr m data] assms(3,4) unfolding ReadBytes_def by simp
qed

lemma PeekBytes_spec:
  assumes "rb_inv rb" "rb_cap rb < 2 ^ 31" "m = min (unat btp) (length (rb_contents rb))" "m \<le> length data"
  shows "PeekBytes data btp rb = Inr (of_nat m, take m (rb_contents rb) @ drop m data)"
proof -
  have "m < 2 ^ 31" using assms(2,3) rb.contents_cap [OF assms(1)] by simp
  then show ?thesis
    using PeekFrom_spec [of 0 btp rb m data] assms(3,4) unfolding PeekBytes_def by simp
qed


definition sample_ring :: "u8 RingBuffer" where
  "sample_ring = \<lparr>buffer_rb = [1, 2, 3, 4], size_rb = 4, size_mask = 3, write_index = 1, read_index = 0xFFFFFFFFFFFFFFFE\<rparr>"

lemma sample_ring: "rb_inv sample_ring" "rb_contents sample_ring = [3, 4, 1]" "rb_cap sample_ring = 4"
  by (simp_all add: rb_inv_def sample_ring_def rb_size_ok_def rb_contents_def GetOccupiedSize_def slot_def rb_cap_def upt_rec)


end
