(* ===== verification/Async_Serial.thy ===== *)
theory Async_Serial
  imports Ring_Buffer
begin

text \<open>
  \<open>async_serial.cpp\<close>: the serial port with its transmit ring buffer. The handlers of the I/O thread run
  one after another, and the sections that touch the ring buffer hold \<open>tx_mutex_\<close>, so that a run of the
  port is a sequence of events: calls of \<open>SendBytes\<close>, posted calls of \<open>WriteToPort\<close>, completions of
  writes and reads. A write that is under way refers to the first bytes of \<open>tx_buf_\<close>, not to a copy:
  \<open>tx_pending\<close> holds the lengths of the writes under way and the bytes are taken from \<open>tx_buf_\<close> when
  they are transmitted. \<open>wire\<close> is what has been transmitted. Operations that a closed port cancels
  complete with an error the next time the I/O thread runs (\<open>aborted\<close>).
\<close>

section \<open>Class AsyncSerial\<close>

definition rxtx_buffer_size :: nat where "rxtx_buffer_size = 8192"

record AsyncSerial =
  port_serial :: string
  serial_port_opened :: bool     \<comment> \<open>\<open>port_opened_\<close>\<close>
  serial_is_open :: bool         \<comment> \<open>\<open>serial_port_.is_open()\<close>\<close>
  serial_io_joinable :: bool
  baud_rate :: u32
  hwflow :: bool
  serial_cb_set :: bool
  rx_buf :: bytes
  tx_buf :: bytes
  tx_rbuf :: "u8 RingBuffer"
  tx_in_progress :: bool
  serial_reads :: nat            \<comment> \<open>reads under way\<close>
  posted_writes :: nat           \<comment> \<open>posted calls \<open>WriteToPort(true)\<close>\<close>
  tx_pending :: "nat list"
  aborted :: nat
  wire :: bytes

definition AsyncSerial_new :: "string \<Rightarrow> u32 \<Rightarrow> bytes \<Rightarrow> bytes \<Rightarrow> bytes \<Rightarrow> AsyncSerial" where
  "AsyncSerial_new port_name baud mem_rx mem_tx mem_rb =
    \<lparr>port_serial = port_name, serial_port_opened = False, serial_is_open = False, serial_io_joinable = False,
     baud_rate = baud, hwflow = False, serial_cb_set = False, rx_buf = mem_rx, tx_buf = mem_tx,
     tx_rbuf = RingBuffer_new 8192 mem_rb, tx_in_progress = False, serial_reads = 0, posted_writes = 0,
     tx_pending = [], aborted = 0, wire = []\<rparr>"

definition SetHardwareFlowControl :: "bool \<Rightarrow> AsyncSerial \<Rightarrow> AsyncSerial" where
  "SetHardwareFlowControl enabled ser = ser\<lparr>hwflow := enabled\<rparr>"

definition SetSerialCallback :: "AsyncSerial \<Rightarrow> AsyncSerial" where
  "SetSerialCallback ser = ser\<lparr>serial_cb_set := True\<rparr>"

text \<open>
  \<open>Open\<close>: \<open>serial_port_.open\<close> throws when the device cannot be opened or the port is open already,
  \<open>set_option\<close> may throw afterwards and then leaves the port open. Both exceptions are caught.
  Assigning to a thread object that is joinable ends the program.
\<close>

record SerialCalls =
  open_throws :: bool
  set_option_throws :: bool

definition SerialOpen :: "SerialCalls \<Rightarrow> AsyncSerial \<Rightarrow> (bool \<times> AsyncSerial) res" where
  "SerialOpen os ser =
    (if open_throws os \<or> serial_is_open ser then Inr (False, ser)
     else if set_option_throws os then Inr (False, ser\<lparr>serial_is_open := True\<rparr>)
     else if serial_io_joinable ser then Inl (Thrown ''terminate'')
     else Inr (True, ser\<lparr>serial_is_open := True, serial_port_opened := True,
            serial_reads := serial_reads ser + 1, serial_io_joinable := True\<rparr>))"

definition SerialClose :: "bool \<Rightarrow> AsyncSerial \<Rightarrow> AsyncSerial res" where
  "SerialClose on_io_thread ser =
    (if serial_io_joinable ser \<and> on_io_thread then Inl (Thrown ''resource_deadlock_would_occur'')
     else let ser1 = ser\<lparr>serial_io_joinable := False\<rparr> in
       Inr ((if serial_is_open ser
             then ser1\<lparr>serial_is_open := False, aborted := aborted ser + serial_reads ser + length (tx_pending ser),
                       serial_reads := 0, tx_pending := []\<rparr>
             else ser1)\<lparr>serial_port_opened := False\<rparr>))"

text \<open>Completion of a read: the callback gets the receive buffer, its size and the number of bytes read.\<close>

datatype serial_read = SerialReadError | SerialReadBytes bytes

definition SerialReadFromPort ::
  "(bytes \<Rightarrow> nat \<Rightarrow> nat \<Rightarrow> 's \<Rightarrow> 's res) \<Rightarrow> serial_read \<Rightarrow> AsyncSerial \<times> 's \<Rightarrow> (AsyncSerial \<times> 's) res" where
  "SerialReadFromPort cb ev s =
    (let ser = (fst s)\<lparr>serial_reads := serial_reads (fst s) - 1\<rparr> in
     case ev of
       SerialReadError \<Rightarrow> res_bind (SerialClose True ser) (\<lambda>ser'. Inr (ser', snd s))
     | SerialReadBytes bs \<Rightarrow>
         let ser1 = ser\<lparr>rx_buf := bs @ drop (length bs) (rx_buf ser), serial_reads := serial_reads ser + 1\<rparr> in
         if serial_cb_set ser
         then res_bind (cb (rx_buf ser1) (length (rx_buf ser1)) (length bs) (snd s)) (\<lambda>t. Inr (ser1, t))
         else Inr (ser1, snd s))"

definition WriteToPort :: "bool \<Rightarrow> AsyncSerial \<Rightarrow> AsyncSerial res" where
  "WriteToPort check_if_busy ser =
    (if check_if_busy \<and> tx_in_progress ser then Inr ser
     else if IsEmpty (tx_rbuf ser) then Inr ser
     else res_bind (ReadBytes (tx_buf ser) (GetOccupiedSize (tx_rbuf ser)) (tx_rbuf ser)) (\<lambda>(len, buf, rb).
       Inr (ser\<lparr>tx_in_progress := True, tx_buf := buf, tx_rbuf := rb, tx_pending := tx_pending ser @ [unat len]\<rparr>)))"

text \<open>Completion of the oldest write: an error, or some number of bytes transmitted.\<close>

datatype write_result = WriteError | Transferred nat

definition WriteCompleted :: "write_result \<Rightarrow> AsyncSerial \<Rightarrow> AsyncSerial res" where
  "WriteCompleted r ser =
    (let ser1 = ser\<lparr>tx_pending := tl (tx_pending ser)\<rparr> in
     case r of
       WriteError \<Rightarrow> SerialClose True ser1
     | Transferred n \<Rightarrow>
         let ser2 = ser1\<lparr>wire := wire ser1 @ take n (tx_buf ser1)\<rparr> in
         if IsEmpty (tx_rbuf ser2) then Inr (ser2\<lparr>tx_in_progress := False\<rparr>)
         else WriteToPort False ser2)"

text \<open>\<open>SendBytes\<close>; the assertion is compiled in when \<open>NDEBUG\<close> is not defined.\<close>

definition SendBytes :: "bool \<Rightarrow> bytes \<Rightarrow> AsyncSerial \<Rightarrow> AsyncSerial res" where
  "SendBytes ndebug bs ser =
    (if \<not> serial_is_open ser then Inr ser
     else if \<not> ndebug \<and> \<not> length bs < rxtx_buffer_size then Inl (Thrown ''assert'')
     else if unat (GetFreeSize (tx_rbuf ser)) < length bs then Inl (Thrown ''length_error'')
     else res_bind (WriteBytes bs (of_nat (length bs)) (tx_rbuf ser)) (\<lambda>(n, rb).
       Inr (ser\<lparr>tx_rbuf := rb, posted_writes := posted_writes ser + 1\<rparr>)))"

section \<open>Runs of the transmit path\<close>

definition RunPosted :: "AsyncSerial \<Rightarrow> AsyncSerial res" where
  "RunPosted ser = WriteToPort True (ser\<lparr>posted_writes := posted_writes ser - 1\<rparr>)"

text \<open>
  The reachable states of an open port and the bytes accepted so far, when every write transmits
  all of its bytes.
\<close>

inductive tx_run :: "AsyncSerial \<Rightarrow> AsyncSerial \<Rightarrow> bytes \<Rightarrow> bool" for ser0 where
  tx_start: "tx_run ser0 ser0 []"
| tx_send: "tx_run ser0 ser acc \<Longrightarrow> serial_is_open ser \<Longrightarrow> SendBytes ndebug bs ser = Inr ser' \<Longrightarrow> tx_run ser0 ser' (acc @ bs)"
| tx_posted: "tx_run ser0 ser acc \<Longrightarrow> 0 < posted_writes ser \<Longrightarrow> RunPosted ser = Inr ser' \<Longrightarrow> tx_run ser0 ser' acc"
| tx_completed: "tx_run ser0 ser acc \<Longrightarrow> tx_pending ser = n # ns \<Longrightarrow> WriteCompleted (Transferred n) ser = Inr ser' \<Longrightarrow>
    tx_run ser0 ser' acc"

text \<open>One turn of the I/O thread: posted calls first, then the completion of the oldest write.\<close>

fun io_turns :: "nat \<Rightarrow> AsyncSerial \<Rightarrow> AsyncSerial res" where
  "io_turns 0 ser = Inr ser"
| "io_turns (Suc k) ser =
    (if 0 < posted_writes ser then res_bind (RunPosted ser) (io_turns k)
     else case tx_pending ser of
       [] \<Rightarrow> Inr ser
     | n # _ \<Rightarrow> res_bind (WriteCompleted (Transferred n) ser) (io_turns k))"

section \<open>Invariant of the transmit path\<close>

text \<open>
  At most one write is under way, exactly when \<open>tx_in_progress_\<close> is set; bytes in the ring buffer have
  somebody who will pick them up. \<open>in_flight\<close> are the bytes of the write under way.
\<close>

definition in_flight :: "AsyncSerial \<Rightarrow> bytes" where
  "in_flight ser = concat (map (\<lambda>n. take n (tx_buf ser)) (tx_pending ser))"

definition tx_inv :: "AsyncSerial \<Rightarrow> bool" where
  "tx_inv ser = (rb_inv (tx_rbuf ser) \<and> rb_cap (tx_rbuf ser) = rxtx_buffer_size \<and> length (tx_buf ser) = rxtx_buffer_size \<and>
     length (tx_pending ser) \<le> 1 \<and> (tx_in_progress ser \<longleftrightarrow> tx_pending ser \<noteq> []) \<and>
     (rb_contents (tx_rbuf ser) \<noteq> [] \<longrightarrow> tx_in_progress ser \<or> 0 < posted_writes ser))"

definition tx_stream :: "AsyncSerial \<Rightarrow> bytes" where
  "tx_stream ser = wire ser @ in_flight ser @ rb_contents (tx_rbuf ser)"

lemma tx_inv_new:
  assumes "length mem_tx = rxtx_buffer_size" "length mem_rb = rxtx_buffer_size"
  shows "tx_inv (AsyncSerial_new p b mem_rx mem_tx mem_rb)" "tx_stream (AsyncSerial_new p b mem_rx mem_tx mem_rb) = []"
proof -
  have "rb_inv (RingBuffer_new 8192 mem_rb)"
    using assms by (intro rb_inv_new) (simp_all add: rb_size_ok_def rxtx_buffer_size_def)
  then show "tx_inv (AsyncSerial_new p b mem_rx mem_tx mem_rb)" "tx_stream (AsyncSerial_new p b mem_rx mem_tx mem_rb) = []"
    using assms by (simp_all add: tx_inv_def AsyncSerial_new_def tx_stream_def in_flight_def)
      (simp add: rb_cap_def RingBuffer_new_def rxtx_buffer_size_def)
qed

lemma tx_inv_open: "SerialOpen os ser = Inr (ok, ser') \<Longrightarrow> tx_inv ser' = tx_inv ser \<and> tx_stream ser' = tx_stream ser"
  by (auto simp: SerialOpen_def tx_inv_def tx_stream_def in_flight_def split: if_splits)

text \<open>Starting a write moves the whole ring buffer into \<open>tx_buf_\<close>.\<close>

lemma write_starts:
  assumes "rb_inv (tx_rbuf ser)" "rb_cap (tx_rbuf ser) = rxtx_buffer_size" "length (tx_buf ser) = rxtx_buffer_size"
    and "rb_contents (tx_rbuf ser) \<noteq> []" "\<not> (chk \<and> tx_in_progress ser)"
  obtains rb buf where "WriteToPort chk ser = Inr (ser\<lparr>tx_in_progress := True, tx_buf := buf, tx_rbuf := rb,
      tx_pending := tx_pending ser @ [length (rb_contents (tx_rbuf ser))]\<rparr>)"
    "rb_inv rb" "rb_cap rb = rxtx_buffer_size" "rb_contents rb = []" "length buf = rxtx_buffer_size"
    "take (length (rb_contents (tx_rbuf ser))) buf = rb_contents (tx_rbuf ser)"
proof -
  let ?xs = "rb_contents (tx_rbuf ser)" and ?n = "length (rb_contents (tx_rbuf ser))"
  have le: "?n \<le> rxtx_buffer_size" using rb.contents_cap [OF assms(1)] assms(2) by simp
  obtain rb where rb: "ReadBytes (tx_buf ser) (GetOccupiedSize (tx_rbuf ser)) (tx_rbuf ser) =
      Inr (of_nat ?n, take ?n ?xs @ drop ?n (tx_buf ser), rb)"
    "rb_inv rb" "rb_cap rb = rxtx_buffer_size" "rb_contents rb = drop ?n ?xs"
    using ReadBytes_spec [OF assms(1), of ?n "GetOccupiedSize (tx_rbuf ser)" "tx_buf ser"] assms(2,3) le
    by (auto simp: rxtx_buffer_size_def)
  show ?thesis
  proof (rule that)
    show "WriteToPort chk ser = Inr (ser\<lparr>tx_in_progress := True, tx_buf := ?xs @ drop ?n (tx_buf ser), tx_rbuf := rb,
        tx_pending := tx_pending ser @ [?n]\<rparr>)"
      using assms(4,5) rb(1) by (auto simp: WriteToPort_def IsEmpty_contents)
    show "length (?xs @ drop ?n (tx_buf ser)) = rxtx_buffer_size" using assms(3) le by simp
  qed (use rb in simp_all)
qed

lemma tx_inv_RunPosted:
  assumes "tx_inv ser" "0 < posted_writes ser"
  obtains ser' where "RunPosted ser = Inr ser'" "tx_inv ser'" "tx_stream ser' = tx_stream ser"
    "posted_writes ser' = posted_writes ser - 1"
proof (cases "tx_in_progress ser \<or> rb_contents (tx_rbuf ser) = []")
  case True
  then have eq: "RunPosted ser = Inr (ser\<lparr>posted_writes := posted_writes ser - 1\<rparr>)"
    by (auto simp: RunPosted_def WriteToPort_def IsEmpty_contents)
  show ?thesis
    by (rule that [OF eq]) (use assms True in \<open>auto simp: tx_inv_def tx_stream_def in_flight_def\<close>)
next
  case False
  let ?ser = "ser\<lparr>posted_writes := posted_writes ser - 1\<rparr>"
  have none: "tx_pending ser = []" using assms(1) False by (simp add: tx_inv_def)
  obtain rb buf where w: "WriteToPort True ?ser = Inr (?ser\<lparr>tx_in_progress := True, tx_buf := buf, tx_rbuf := rb,
      tx_pending := tx_pending ?ser @ [length (rb_contents (tx_rbuf ?ser))]\<rparr>)"
    "rb_inv rb" "rb_cap rb = rxtx_buffer_size" "rb_contents rb = []" "length buf = rxtx_buffer_size"
    "take (length (rb_contents (tx_rbuf ?ser))) buf = rb_contents (tx_rbuf ?ser)"
    by (rule write_starts [of ?ser True]) (use assms(1) False in \<open>simp_all add: tx_inv_def\<close>)
  show ?thesis
    by (rule that, unfold RunPosted_def, rule w(1)) (use w none in \<open>simp_all add: tx_inv_def tx_stream_def in_flight_def del: rb_occupied\<close>)
qed

lemma tx_inv_WriteCompleted:
  assumes "tx_inv ser" "tx_pending ser = n # ns"
  obtains ser' where "WriteCompleted (Transferred n) ser = Inr ser'" "tx_inv ser'" "tx_stream ser' = tx_stream ser"
    "posted_writes ser' = posted_writes ser"
    "if rb_contents (tx_rbuf ser) = [] then tx_pending ser' = [] else rb_contents (tx_rbuf ser') = []"
proof (cases "rb_contents (tx_rbuf ser) = []")
  case True
  then have eq: "WriteCompleted (Transferred n) ser =
      Inr (ser\<lparr>tx_pending := [], wire := wire ser @ take n (tx_buf ser), tx_in_progress := False\<rparr>)"
    using assms by (simp add: WriteCompleted_def IsEmpty_contents tx_inv_def)
  show ?thesis
    by (rule that [OF eq]) (use assms True in \<open>auto simp: tx_inv_def tx_stream_def in_flight_def simp del: rb_occupied\<close>)
next
  case False
  let ?ser = "ser\<lparr>tx_pending := [], wire := wire ser @ take n (tx_buf ser)\<rparr>"
  have one: "ns = []" using assms by (simp add: tx_inv_def)
  obtain rb buf where w: "WriteToPort False ?ser = Inr (?ser\<lparr>tx_in_progress := True, tx_buf := buf, tx_rbuf := rb,
      tx_pending := tx_pending ?ser @ [length (rb_contents (tx_rbuf ?ser))]\<rparr>)"
    "rb_inv rb" "rb_cap rb = rxtx_buffer_size" "rb_contents rb = []" "length buf = rxtx_buffer_size"
    "take (length (rb_contents (tx_rbuf ?ser))) buf = rb_contents (tx_rbuf ?ser)"
    by (rule write_starts [of ?ser False]) (use assms(1) False in \<open>simp_all add: tx_inv_def\<close>)
  have c: "WriteCompleted (Transferred n) ser = WriteToPort False ?ser"
    using assms(2) one False by (simp add: WriteCompleted_def IsEmpty_contents)
  show ?thesis
    by (rule that, unfold c, rule w(1))
      (use w assms one False in \<open>simp_all add: tx_inv_def tx_stream_def in_flight_def del: rb_occupied\<close>)
qed

lemma SendBytes_accepts:
  assumes "tx_inv ser" "serial_is_open ser" "SendBytes ndebug bs ser = Inr ser'"
  shows "tx_inv ser' \<and> tx_stream ser' = tx_stream ser @ bs"
proof -
  have inv: "rb_inv (tx_rbuf ser)" "rb_cap (tx_rbuf ser) = 8192"
    using assms(1) by (simp_all add: tx_inv_def rxtx_buffer_size_def)
  have free: "length bs \<le> 8192 - length (rb_contents (tx_rbuf ser))"
    using assms(2,3) GetFreeSize_contents [OF inv(1)] inv(2)
    by (auto simp: SendBytes_def simp del: rb_occupied split: if_splits)
  then have "length bs < 2 ^ 64" "length bs = min (length bs) (8192 - length (rb_contents (tx_rbuf ser)))"
    by (simp_all del: rb_occupied)
  then obtain rb where rb: "WriteBytes bs (of_nat (length bs)) (tx_rbuf ser) = Inr (of_nat (length bs), rb)" "rb_inv rb"
    "rb_cap rb = 8192" "rb_contents rb = rb_contents (tx_rbuf ser) @ bs"
    using WriteBytes_spec [OF inv(1), of bs "length bs"] inv(2) by (auto simp del: rb_occupied)
  then have "ser' = ser\<lparr>tx_rbuf := rb, posted_writes := posted_writes ser + 1\<rparr>"
    using assms(2,3) by (auto simp: SendBytes_def split: if_splits)
  then show ?thesis
    using assms(1) rb by (simp add: tx_inv_def tx_stream_def in_flight_def rxtx_buffer_size_def)
qed

lemma tx_run_stream:
  assumes "tx_run ser0 ser acc" "tx_inv ser0"
  shows "tx_inv ser \<and> tx_stream ser = tx_stream ser0 @ acc"
  using assms(1)
proof (induction rule: tx_run.induct)
  case tx_start
  then show ?case using assms(2) by simp
next
  case (tx_send ser acc ndebug bs ser')
  then show ?case using SendBytes_accepts by fastforce
next
  case (tx_posted ser acc ser')
  then show ?case by (elim tx_inv_RunPosted [of ser, rotated]) auto
next
  case (tx_completed ser acc n ns ser')
  then show ?case by (elim tx_inv_WriteCompleted [of ser n ns, rotated]) auto
qed

section \<open>Draining\<close>

lemma io_turns_idle: "posted_writes ser = 0 \<Longrightarrow> tx_pending ser = [] \<Longrightarrow> io_turns k ser = Inr ser"
  by (cases k) simp_all

lemma io_turns_drain:
  assumes "tx_inv ser"
  shows "\<exists>ser'. io_turns (posted_writes ser + 2) ser = Inr ser' \<and> wire ser' = tx_stream ser \<and> tx_inv ser' \<and>
    tx_pending ser' = [] \<and> rb_contents (tx_rbuf ser') = [] \<and> posted_writes ser' = 0"
  using assms
proof (induction "posted_writes ser" arbitrary: ser)
  case (Suc k)
  then obtain ser1 where "RunPosted ser = Inr ser1" "tx_inv ser1" "tx_stream ser1 = tx_stream ser"
    "posted_writes ser1 = posted_writes ser - 1" using tx_inv_RunPosted [of ser] by auto
  then show ?case using Suc.hyps(1) [of ser1] Suc.hyps(2) [symmetric] by simp
next
  case 0
  show ?case
  proof (cases "tx_pending ser")
    case Nil
    then show ?thesis
      using 0 io_turns_idle [of ser 2] by (auto simp: tx_inv_def tx_stream_def in_flight_def)
  next
    case (Cons n ns)
    obtain ser1 where s1: "WriteCompleted (Transferred n) ser = Inr ser1" "tx_inv ser1" "tx_stream ser1 = tx_stream ser"
      "posted_writes ser1 = 0" "if rb_contents (tx_rbuf ser) = [] then tx_pending ser1 = [] else rb_contents (tx_rbuf ser1) = []"
      using tx_inv_WriteCompleted [OF 0(2) Cons] 0(1) by metis
    show ?thesis
    proof (cases "tx_pending ser1")
      case Nil
      then show ?thesis
        using s1 Cons 0(1) io_turns_idle [of ser1 1]
        by (auto simp: tx_inv_def tx_stream_def in_flight_def numeral_2_eq_2)
    next
      case (Cons m ms)
      then have "rb_contents (tx_rbuf ser1) = []" using s1(5) by (auto split: if_splits)
      then obtain ser2 where "WriteCompleted (Transferred m) ser1 = Inr ser2" "tx_inv ser2" "tx_stream ser2 = tx_stream ser"
        "posted_writes ser2 = 0" "tx_pending ser2 = []"
        using tx_inv_WriteCompleted [OF s1(2) Cons] s1(3,4) by metis
      then show ?thesis
        using s1 Cons \<open>tx_pending ser = n # ns\<close> 0(1)
        by (auto simp: tx_inv_def tx_stream_def in_flight_def numeral_2_eq_2)
    qed
  qed
qed

section \<open>Properties of the transmit path\<close>

lemma SendBytes_room:
  assumes "tx_inv ser" "serial_is_open ser" "length bs \<le> rxtx_buffer_size - length (rb_contents (tx_rbuf ser))"
  obtains rb where "SendBytes True bs ser = Inr (ser\<lparr>tx_rbuf := rb, posted_writes := posted_writes ser + 1\<rparr>)"
    "rb_inv rb" "rb_cap rb = rxtx_buffer_size" "rb_contents rb = rb_contents (tx_rbuf ser) @ bs"
proof -
  have inv: "rb_inv (tx_rbuf ser)" "rb_cap (tx_rbuf ser) = 8192"
    using assms(1) by (simp_all add: tx_inv_def rxtx_buffer_size_def)
  have "length bs < 2 ^ 64" "length bs = min (length bs) (8192 - length (rb_contents (tx_rbuf ser)))"
    using assms(3) by (simp_all add: rxtx_buffer_size_def del: rb_occupied)
  then obtain rb where "WriteBytes bs (of_nat (length bs)) (tx_rbuf ser) = Inr (of_nat (length bs), rb)" "rb_inv rb"
    "rb_cap rb = 8192" "rb_contents rb = rb_contents (tx_rbuf ser) @ bs"
    using WriteBytes_spec [OF inv(1), of bs "length bs"] inv(2) by (auto simp del: rb_occupied)
  then show ?thesis
    using assms(2,3) GetFreeSize_contents [OF inv(1)] inv(2)
    by (intro that [of rb]) (simp_all add: SendBytes_def rxtx_buffer_size_def del: rb_occupied)
qed

definition sample_serial :: AsyncSerial where
  "sample_serial = (AsyncSerial_new ''/dev/ttyUSB0'' 115200 (replicate 8192 0) (replicate 8192 0) (replicate 8192 0))
     \<lparr>serial_is_open := True, serial_port_opened := True, serial_io_joinable := True, serial_reads := 1\<rparr>"

lemma sample_serial:
  "tx_inv sample_serial" "serial_is_open sample_serial" "tx_stream sample_serial = []" "wire sample_serial = []"
  "rb_contents (tx_rbuf sample_serial) = []" "tx_pending sample_serial = []" "posted_writes sample_serial = 0"
  using tx_inv_new [of "replicate 8192 0" "replicate 8192 0" "''/dev/ttyUSB0''" 115200 "replicate 8192 0"]
  by (simp_all add: rxtx_buffer_size_def sample_serial_def tx_inv_def tx_stream_def in_flight_def AsyncSerial_new_def)

lemma sample_serial_run:
  obtains ser where "tx_run sample_serial ser [1, 2, 3]" "posted_writes ser = 1"
proof -
  obtain rb where rb: "SendBytes True [1, 2, 3] sample_serial =
      Inr (sample_serial\<lparr>tx_rbuf := rb, posted_writes := posted_writes sample_serial + 1\<rparr>)"
    by (rule SendBytes_room [OF sample_serial(1,2), of "[1, 2, 3]"])
      (simp_all add: sample_serial(5) rxtx_buffer_size_def del: rb_occupied)
  from tx_run.tx_send [OF tx_run.tx_start sample_serial(2) rb]
  have run: "tx_run sample_serial (sample_serial\<lparr>tx_rbuf := rb, posted_writes := posted_writes sample_serial + 1\<rparr>) [1, 2, 3]"
    by simp
  show ?thesis by (rule that [OF run]) (simp add: sample_serial(7))
qed

text \<open>
  C14: along every run of an open serial port in which writes transmit all of their bytes, what has been
  transmitted, what the write under way still refers to and what the ring buffer holds make up, in this
  order, exactly the bytes that \<open>SendBytes\<close> accepted. At most one write is under way, so that the bytes
  it refers to are not overwritten.
\<close>

theorem serial_stream_refines:
  assumes "tx_run ser0 ser acc" "tx_inv ser0" "tx_stream ser0 = []"
  shows "wire ser @ in_flight ser @ rb_contents (tx_rbuf ser) = acc \<and> length (tx_pending ser) \<le> 1 \<and>
    (tx_in_progress ser \<longleftrightarrow> tx_pending ser \<noteq> [])"
  using tx_run_stream [OF assms(1,2)] assms(3) by (simp add: tx_stream_def tx_inv_def)

theorem serial_stream_refines_witness:
  "\<exists>ser. tx_run sample_serial ser [1, 2, 3] \<and> wire ser @ in_flight ser @ rb_contents (tx_rbuf ser) = [1, 2, 3]"
  by (rule sample_serial_run) (use serial_stream_refines [OF _ sample_serial(1,3)] in blast)

text \<open>
  C31: the transmit path drains. From every state of such a run, as many turns of the I/O thread as there
  are posted calls and two more put every accepted byte on the wire and leave the port idle, ready for
  the next call.
\<close>

theorem serial_drains:
  assumes "tx_run ser0 ser acc" "tx_inv ser0" "tx_stream ser0 = []"
  shows "\<exists>ser'. io_turns (posted_writes ser + 2) ser = Inr ser' \<and> wire ser' = acc \<and> \<not> tx_in_progress ser' \<and>
    IsEmpty (tx_rbuf ser') \<and> posted_writes ser' = 0"
proof -
  have "tx_inv ser" "tx_stream ser = acc" using tx_run_stream [OF assms(1,2)] assms(3) by simp_all
  then obtain ser' where "io_turns (posted_writes ser + 2) ser = Inr ser'" "wire ser' = acc" "tx_inv ser'"
    "tx_pending ser' = []" "rb_contents (tx_rbuf ser') = []" "posted_writes ser' = 0"
    using io_turns_drain [of ser] by blast
  then show ?thesis by (intro exI [of _ ser']) (simp add: IsEmpty_contents tx_inv_def)
qed

theorem serial_drains_witness:
  "\<exists>ser ser'. tx_run sample_serial ser [1, 2, 3] \<and> io_turns 3 ser = Inr ser' \<and> wire ser' = [1, 2, 3]"
proof (rule sample_serial_run)
  fix ser assume ser: "tx_run sample_serial ser [1, 2, 3]" "posted_writes ser = 1"
  then show ?thesis
    using serial_drains [OF ser(1) sample_serial(1,3)] by (auto simp: numeral_3_eq_3)
qed

text \<open>
  C33: a write that transmits only some of its bytes loses the others: the completion handler does not
  look at the number of bytes transferred. After sending \<open>bs\<close> on an idle port and a write that
  transmits the first \<open>k\<close> bytes, the port is idle again and nothing of the rest is left anywhere.
\<close>

theorem short_write_loses_bytes:
  assumes "tx_inv ser" "serial_is_open ser" "tx_pending ser = []" "IsEmpty (tx_rbuf ser)" "posted_writes ser = 0"
    and "bs \<noteq> []" "length bs \<le> rxtx_buffer_size" "k \<le> length bs"
  shows "\<exists>ser1 ser2 ser3. SendBytes True bs ser = Inr ser1 \<and> RunPosted ser1 = Inr ser2 \<and>
    WriteCompleted (Transferred k) ser2 = Inr ser3 \<and> wire ser3 = wire ser @ take k bs \<and>
    tx_pending ser3 = [] \<and> \<not> tx_in_progress ser3 \<and> IsEmpty (tx_rbuf ser3) \<and> posted_writes ser3 = 0"
proof -
  have idle: "\<not> tx_in_progress ser" "rb_contents (tx_rbuf ser) = []"
    using assms(1,3,4) by (simp_all add: tx_inv_def IsEmpty_contents)
  have room: "length bs \<le> rxtx_buffer_size - length (rb_contents (tx_rbuf ser))"
    unfolding idle(2) using assms(7) by simp
  obtain rb where send: "SendBytes True bs ser = Inr (ser\<lparr>tx_rbuf := rb, posted_writes := posted_writes ser + 1\<rparr>)"
    "rb_inv rb" "rb_cap rb = rxtx_buffer_size" "rb_contents rb = rb_contents (tx_rbuf ser) @ bs"
    by (rule SendBytes_room [OF assms(1,2) room])
  let ?ser = "ser\<lparr>tx_rbuf := rb, posted_writes := posted_writes ser\<rparr>"
  obtain rb2 buf where start: "WriteToPort True ?ser = Inr (?ser\<lparr>tx_in_progress := True, tx_buf := buf, tx_rbuf := rb2,
      tx_pending := tx_pending ?ser @ [length (rb_contents (tx_rbuf ?ser))]\<rparr>)"
    "rb_contents rb2 = []" "take (length (rb_contents (tx_rbuf ?ser))) buf = rb_contents (tx_rbuf ?ser)"
    by (rule write_starts [of ?ser True])
      (use assms(1,6) send idle in \<open>simp_all add: tx_inv_def del: rb_occupied\<close>)
  have "take (length bs) buf = bs" using start(3) send(4) idle(2) by (simp del: rb_occupied)
  then have "take k buf = take k bs" using assms(8) by (metis min.absorb1 take_take)
  then show ?thesis
    using send(1) start(1,2) assms(3,5)
    by (simp add: RunPosted_def WriteCompleted_def IsEmpty_contents del: rb_occupied)
qed

theorem short_write_loses_bytes_witness:
  "\<exists>ser1 ser2 ser3. SendBytes True [1, 2, 3] sample_serial = Inr ser1 \<and> RunPosted ser1 = Inr ser2 \<and>
    WriteCompleted (Transferred 1) ser2 = Inr ser3 \<and> wire ser3 = [1] \<and> IsEmpty (tx_rbuf ser3)"
  using short_write_loses_bytes [of sample_serial "[1, 2, 3]" 1]
  by (auto simp: sample_serial IsEmpty_contents rxtx_buffer_size_def)

end
