(* ===== verification/Agx_Robots.thy ===== *)
theory Agx_Robots
  imports Agilex_Base_Theorems
begin

text \<open>
  The other robots of the SDK: \<open>scout_base.hpp\<close>, \<open>hunter_base.hpp\<close>, \<open>tracer_base.hpp\<close>, \<open>bunker_base.hpp\<close>
  and \<open>titan_base.hpp\<close> with their interfaces, and the classes of \<open>src/mobile_robot\<close> that choose a base
  class by protocol version. The base classes are templates over the parser \<open>P\<close>. Getters fill an
  uninitialised struct, the argument \<open>mem\<close>; loops that copy arrays check both bounds.
\<close>

section \<open>Interface types\<close>

record ScoutCoreState =
  time_stamp_scs :: SdkTimePoint
  system_state_scs :: SystemStateMessage
  motion_state_scs :: MotionStateMessage
  light_state_scs :: LightCommandMessage
  rc_state_scs :: RcStateMessage

record ScoutActuatorState =
  time_stamp_sas :: SdkTimePoint
  actuator_hs_state_sas :: "ActuatorHSStateMessage list"
  actuator_ls_state_sas :: "ActuatorLSStateMessage list"
  actuator_state_sas :: "ActuatorStateMessageV1 list"

record ScoutCommonSensorState =
  time_stamp_sss :: SdkTimePoint
  bms_basic_state_sss :: BmsBasicMessage
  bms_extended_state_sss :: BmsExtendedMessage

record HunterCoreState =
  time_stamp_hcs :: SdkTimePoint
  system_state_hcs :: SystemStateMessage
  motion_state_hcs :: MotionStateMessage
  rc_state_hcs :: RcStateMessage

record HunterActuatorState =
  time_stamp_has :: SdkTimePoint
  actuator_hs_state_has :: "ActuatorHSStateMessage list"
  actuator_ls_state_has :: "ActuatorLSStateMessage list"
  actuator_state_has :: "ActuatorStateMessageV1 list"

record HunterCommonSensorState =
  time_stamp_hss :: SdkTimePoint
  bms_basic_state_hss :: BmsBasicMessage
  bms_extend_state_hss :: BmsExtendedMessage

record TracerCoreState =
  time_stamp_tcs :: SdkTimePoint
  system_state_tcs :: SystemStateMessage
  motion_state_tcs :: MotionStateMessage
  light_state_tcs :: LightCommandMessage
  rc_state_tcs :: RcStateMessage

record TracerActuatorState =
  time_stamp_tas :: SdkTimePoint
  actuator_hs_state_tas :: "ActuatorHSStateMessage list"
  actuator_ls_state_tas :: "ActuatorLSStateMessage list"

record TracerCommonSensorState =
  time_stamp_tss :: SdkTimePoint
  bms_basic_state_tss :: BmsBasicMessage
  bms_extended_state_tss :: BmsExtendedMessage

record BunkerCoreState =
  time_stamp_bcs :: SdkTimePoint
  system_state_bcs :: SystemStateMessage
  motion_state_bcs :: MotionStateMessage
  rc_state_bcs :: RcStateMessage

record BunkerActuatorState =
  time_stamp_bas :: SdkTimePoint
  actuator_hs_state_bas :: "ActuatorHSStateMessage list"
  actuator_ls_state_bas :: "ActuatorLSStateMessage list"
  actuator_state_bas :: "ActuatorStateMessageV1 list"

record BunkerCommonSensorState =
  time_stamp_bss :: SdkTimePoint
  bms_basic_state_bss :: BmsBasicMessage
  bms_extended_state_bss :: BmsExtendedMessage

record TitanCoreState =
  time_stamp_tics :: SdkTimePoint
  system_state_tics :: SystemStateMessage
  motion_state_tics :: MotionStateMessage
  motion_mode_state_tics :: MotionModeStateMessage
  rc_state_tics :: RcStateMessage
  odometry_tics :: OdometryMessage

record TitanActuatorState =
  time_stamp_tias :: SdkTimePoint
  actuator_hs_state_tias :: "ActuatorHSStateMessage list"
  actuator_ls_state_tias :: "ActuatorLSStateMessage list"

record TitanCommonSensorState =
  time_stamp_tiss :: SdkTimePoint
  bms_basic_state_tiss :: BmsBasicMessage

section \<open>Copying arrays\<close>

text \<open>\<open>for (int i = 0; i < n; ++i) dst[i] = src[i];\<close>\<close>

fun copy_into :: "nat \<Rightarrow> 'a list \<Rightarrow> 'a list \<Rightarrow> 'a list res" where
  "copy_into 0 src dst = Inr dst"
| "copy_into (Suc i) src dst =
    res_bind (copy_into i src dst) (\<lambda>d. if i < length src then array_set d i (src ! i) else Inl IndexOutOfRange)"

section \<open>ScoutBase and ScoutMiniOmniBase\<close>

definition Scout_SetMotionCommand :: "'st ParserBase \<Rightarrow> Mem \<Rightarrow> fp \<Rightarrow> fp \<Rightarrow> 'st AgilexBase \<Rightarrow> 'st AgilexBase res" where
  "Scout_SetMotionCommand P mem linear_vel angular_vel s =
     SendMotionCommand P mem linear_vel angular_vel (flit B64 0) (flit B64 0) s"

definition ScoutOmni_SetMotionCommand ::
  "'st ParserBase \<Rightarrow> Mem \<Rightarrow> fp \<Rightarrow> fp \<Rightarrow> fp \<Rightarrow> 'st AgilexBase \<Rightarrow> 'st AgilexBase res" where
  "ScoutOmni_SetMotionCommand P mem linear_vel angular_vel lateral_vel s =
     SendMotionCommand P mem linear_vel angular_vel lateral_vel (flit B64 0) s"

definition Scout_SetLightCommand ::
  "'st ParserBase \<Rightarrow> Mem \<Rightarrow> AgxLightMode \<Rightarrow> u8 \<Rightarrow> AgxLightMode \<Rightarrow> u8 \<Rightarrow> 'st AgilexBase \<Rightarrow> 'st AgilexBase res" where
  "Scout_SetLightCommand P mem f_mode f_value r_mode r_value s = SendLightCommand P mem f_mode f_value r_mode r_value s"

definition Scout_DisableLightControl :: "'st ParserBase \<Rightarrow> Mem \<Rightarrow> 'st AgilexBase \<Rightarrow> 'st AgilexBase res" where
  "Scout_DisableLightControl P mem s = DisableLightControl P mem s"

definition Scout_GetRobotState :: "'st AgilexBase \<Rightarrow> ScoutCoreState" where
  "Scout_GetRobotState s =
    (let state = core_state_msgs s in
     \<lparr>time_stamp_scs = time_stamp_core state, system_state_scs = system_state state,
      motion_state_scs = motion_state state, light_state_scs = light_state state, rc_state_scs = rc_state state\<rparr>)"

definition Scout_GetActuatorState :: "ScoutActuatorState \<Rightarrow> 'st AgilexBase \<Rightarrow> ScoutActuatorState res" where
  "Scout_GetActuatorState mem s =
    (let actuator = actuator_state_msgs s in
     res_bind (copy_into 4 (actuator_hs_state actuator) (actuator_hs_state_sas mem)) (\<lambda>hs.
     res_bind (copy_into 4 (actuator_ls_state actuator) (actuator_ls_state_sas mem)) (\<lambda>ls.
     res_bind (copy_into 4 (actuator_state_v1 actuator) (actuator_state_sas mem)) (\<lambda>v1.
       Inr \<lparr>time_stamp_sas = time_stamp_act actuator, actuator_hs_state_sas = hs, actuator_ls_state_sas = ls,
            actuator_state_sas = v1\<rparr>))))"

definition Scout_GetCommonSensorState :: "ScoutCommonSensorState \<Rightarrow> 'st AgilexBase \<Rightarrow> ScoutCommonSensorState" where
  "Scout_GetCommonSensorState mem s =
    (let common_sensor = common_sensor_state_msgs s in
     mem\<lparr>time_stamp_sss := time_stamp_sensor common_sensor, bms_basic_state_sss := bms_basic_state common_sensor\<rparr>)"

section \<open>HunterBase\<close>

definition Hunter_SetMotionCommand :: "'st ParserBase \<Rightarrow> Mem \<Rightarrow> fp \<Rightarrow> fp \<Rightarrow> 'st AgilexBase \<Rightarrow> 'st AgilexBase res" where
  "Hunter_SetMotionCommand P mem linear_vel angular_vel s =
     SendMotionCommand P mem linear_vel (flit B64 0) (flit B64 0) angular_vel s"

definition Hunter_GetRobotState :: "'st AgilexBase \<Rightarrow> HunterCoreState" where
  "Hunter_GetRobotState s =
    (let state = core_state_msgs s in
     \<lparr>time_stamp_hcs = time_stamp_core state, system_state_hcs = system_state state,
      motion_state_hcs = motion_state state, rc_state_hcs = rc_state state\<rparr>)"

definition Hunter_GetActuatorState :: "HunterActuatorState \<Rightarrow> 'st AgilexBase \<Rightarrow> HunterActuatorState res" where
  "Hunter_GetActuatorState mem s =
    (let actuator = actuator_state_msgs s in
     res_bind (copy_into 3 (actuator_hs_state actuator) (actuator_hs_state_has mem)) (\<lambda>hs.
     res_bind (copy_into 3 (actuator_ls_state actuator) (actuator_ls_state_has mem)) (\<lambda>ls.
     res_bind (copy_into 3 (actuator_state_v1 actuator) (actuator_state_has mem)) (\<lambda>v1.
       Inr \<lparr>time_stamp_has = time_stamp_act actuator, actuator_hs_state_has = hs, actuator_ls_state_has = ls,
            actuator_state_has = v1\<rparr>))))"

text \<open>Robots with a steering mechanism report ten times the voltage: \<open>voltage * 0.1f\<close>.\<close>

definition steering_bms :: "BmsBasicMessage \<Rightarrow> BmsBasicMessage" where
  "steering_bms bms = bms\<lparr>voltage_bms := fmul B32 (voltage_bms bms) (flit B32 (1 / 10))\<rparr>"

definition Hunter_GetCommonSensorState :: "'st AgilexBase \<Rightarrow> HunterCommonSensorState" where
  "Hunter_GetCommonSensorState s =
    (let common_sensor = common_sensor_state_msgs s in
     \<lparr>time_stamp_hss = time_stamp_sensor common_sensor,
      bms_basic_state_hss = steering_bms (bms_basic_state common_sensor),
      bms_extend_state_hss = bms_extend_state common_sensor\<rparr>)"

definition Hunter_ActivateBrake :: "'st ParserBase \<Rightarrow> Mem \<Rightarrow> 'st AgilexBase \<Rightarrow> 'st AgilexBase res" where
  "Hunter_ActivateBrake P mem s = SetBrakeMode P mem BRAKE_MODE_LOCK s"

definition Hunter_ReleaseBrake :: "'st ParserBase \<Rightarrow> Mem \<Rightarrow> 'st AgilexBase \<Rightarrow> 'st AgilexBase res" where
  "Hunter_ReleaseBrake P mem s = SetBrakeMode P mem BRAKE_MODE_UNLOCK s"

section \<open>TracerBase\<close>

definition Tracer_SetMotionCommand :: "'st ParserBase \<Rightarrow> Mem \<Rightarrow> fp \<Rightarrow> fp \<Rightarrow> 'st AgilexBase \<Rightarrow> 'st AgilexBase res" where
  "Tracer_SetMotionCommand P mem linear_vel angular_vel s =
     SendMotionCommand P mem linear_vel angular_vel (flit B64 0) (flit B64 0) s"

definition Tracer_SetLightCommand ::
  "'st ParserBase \<Rightarrow> Mem \<Rightarrow> AgxLightMode \<Rightarrow> u8 \<Rightarrow> 'st AgilexBase \<Rightarrow> 'st AgilexBase res" where
  "Tracer_SetLightCommand P mem f_mode f_value s = SendLightCommand P mem f_mode f_value CONST_OFF 0 s"

definition Tracer_DisableLightControl :: "'st ParserBase \<Rightarrow> Mem \<Rightarrow> 'st AgilexBase \<Rightarrow> 'st AgilexBase res" where
  "Tracer_DisableLightControl P mem s = DisableLightControl P mem s"

definition Tracer_GetRobotState :: "'st AgilexBase \<Rightarrow> TracerCoreState" where
  "Tracer_GetRobotState s =
    (let state = core_state_msgs s in
     \<lparr>time_stamp_tcs = time_stamp_core state, system_state_tcs = system_state state,
      motion_state_tcs = motion_state state, light_state_tcs = light_state state, rc_state_tcs = rc_state state\<rparr>)"

definition Tracer_GetActuatorState :: "TracerActuatorState \<Rightarrow> 'st AgilexBase \<Rightarrow> TracerActuatorState res" where
  "Tracer_GetActuatorState mem s =
    (let actuator = actuator_state_msgs s in
     res_bind (copy_into 2 (actuator_hs_state actuator) (actuator_hs_state_tas mem)) (\<lambda>hs.
     res_bind (copy_into 2 (actuator_ls_state actuator) (actuator_ls_state_tas mem)) (\<lambda>ls.
       Inr \<lparr>time_stamp_tas = time_stamp_act actuator, actuator_hs_state_tas = hs, actuator_ls_state_tas = ls\<rparr>)))"

definition Tracer_GetCommonSensorState :: "TracerCommonSensorState \<Rightarrow> 'st AgilexBase \<Rightarrow> TracerCommonSensorState" where
  "Tracer_GetCommonSensorState mem s =
    (let common_sensor = common_sensor_state_msgs s in
     mem\<lparr>time_stamp_tss := time_stamp_sensor common_sensor, bms_basic_state_tss := bms_basic_state common_sensor\<rparr>)"

definition Tracer_ResetRobotState :: "'st AgilexBase \<Rightarrow> 'st AgilexBase" where
  "Tracer_ResetRobotState s = s"

section \<open>BunkerBase\<close>

definition Bunker_SetMotionCommand :: "'st ParserBase \<Rightarrow> Mem \<Rightarrow> fp \<Rightarrow> fp \<Rightarrow> 'st AgilexBase \<Rightarrow> 'st AgilexBase res" where
  "Bunker_SetMotionCommand P mem linear_vel angular_vel s =
     SendMotionCommand P mem linear_vel angular_vel (flit B64 0) (flit B64 0) s"

definition Bunker_GetRobotState :: "'st AgilexBase \<Rightarrow> BunkerCoreState" where
  "Bunker_GetRobotState s =
    (let state = core_state_msgs s in
     \<lparr>time_stamp_bcs = time_stamp_core state, system_state_bcs = system_state state,
      motion_state_bcs = motion_state state, rc_state_bcs = rc_state state\<rparr>)"

definition Bunker_GetActuatorState :: "BunkerActuatorState \<Rightarrow> 'st AgilexBase \<Rightarrow> BunkerActuatorState res" where
  "Bunker_GetActuatorState mem s =
    (let actuator = actuator_state_msgs s in
     res_bind (copy_into 3 (actuator_hs_state actuator) (actuator_hs_state_bas mem)) (\<lambda>hs.
     res_bind (copy_into 3 (actuator_ls_state actuator) (actuator_ls_state_bas mem)) (\<lambda>ls.
     res_bind (copy_into 3 (actuator_state_v1 actuator) (actuator_state_bas mem)) (\<lambda>v1.
       Inr \<lparr>time_stamp_bas = time_stamp_act actuator, actuator_hs_state_bas = hs, actuator_ls_state_bas = ls,
            actuator_state_bas = v1\<rparr>))))"

definition Bunker_GetCommonSensorState :: "BunkerCommonSensorState \<Rightarrow> 'st AgilexBase \<Rightarrow> BunkerCommonSensorState" where
  "Bunker_GetCommonSensorState mem s =
    (let common_sensor = common_sensor_state_msgs s in
     mem\<lparr>time_stamp_bss := time_stamp_sensor common_sensor, bms_basic_state_bss := bms_basic_state common_sensor\<rparr>)"

section \<open>TitanBase\<close>

definition Titan_SetMotionCommand :: "Mem \<Rightarrow> fp \<Rightarrow> fp \<Rightarrow> StaticsV2 AgilexBase \<Rightarrow> StaticsV2 AgilexBase res" where
  "Titan_SetMotionCommand mem linear_vel steer_angle s =
     SendMotionCommand ProtocolV2Parser mem linear_vel (flit B64 0) (flit B64 0) steer_angle s"

text \<open>The odometry of the result stays uninitialised.\<close>

definition Titan_GetRobotState :: "TitanCoreState \<Rightarrow> StaticsV2 AgilexBase \<Rightarrow> TitanCoreState" where
  "Titan_GetRobotState mem s =
    (let state = core_state_msgs s in
     mem\<lparr>time_stamp_tics := time_stamp_core state, system_state_tics := system_state state,
         motion_state_tics := motion_state state, rc_state_tics := rc_state state,
         motion_mode_state_tics := motion_mode_state state\<rparr>)"

definition Titan_GetActuatorState :: "TitanActuatorState \<Rightarrow> StaticsV2 AgilexBase \<Rightarrow> TitanActuatorState res" where
  "Titan_GetActuatorState mem s =
    (let actuator = actuator_state_msgs s in
     res_bind (copy_into 4 (actuator_hs_state actuator) (actuator_hs_state_tias mem)) (\<lambda>hs.
     res_bind (copy_into 4 (actuator_ls_state actuator) (actuator_ls_state_tias mem)) (\<lambda>ls.
       Inr \<lparr>time_stamp_tias = time_stamp_act actuator, actuator_hs_state_tias = hs, actuator_ls_state_tias = ls\<rparr>)))"

definition Titan_GetCommonSensorState :: "StaticsV2 AgilexBase \<Rightarrow> TitanCommonSensorState" where
  "Titan_GetCommonSensorState s =
    (let common_sensor = common_sensor_state_msgs s in
     \<lparr>time_stamp_tiss = time_stamp_sensor common_sensor,
      bms_basic_state_tiss = steering_bms (bms_basic_state common_sensor)\<rparr>)"

definition Titan_ActivateBrake :: "Mem \<Rightarrow> StaticsV2 AgilexBase \<Rightarrow> StaticsV2 AgilexBase res" where
  "Titan_ActivateBrake mem s = SetBrakeMode ProtocolV2Parser mem BRAKE_MODE_UNLOCK s"

definition Titan_ReleaseBrake :: "Mem \<Rightarrow> StaticsV2 AgilexBase \<Rightarrow> StaticsV2 AgilexBase res" where
  "Titan_ReleaseBrake mem s = SetBrakeMode ProtocolV2Parser mem BRAKE_MODE_LOCK s"

section \<open>Robot classes\<close>

text \<open>
  The pointer \<open>robot_\<close> of a robot class: a base class of either protocol version, or uninitialised when
  the constructor was given neither version. The constructors get the two objects that \<open>new\<close> would
  return. A \<open>dynamic_cast\<close> to the interface of the class always succeeds, since every base class the
  constructor chooses implements it.
\<close>

datatype agx_robot =
    RobotV1 RobotLimits "StaticsV1 AgilexBase"
  | RobotV2 "StaticsV2 AgilexBase"
  | NoRobot

definition on_robot ::
  "(StaticsV1 ParserBase \<Rightarrow> StaticsV1 AgilexBase \<Rightarrow> StaticsV1 AgilexBase res) \<Rightarrow>
   (StaticsV2 ParserBase \<Rightarrow> StaticsV2 AgilexBase \<Rightarrow> StaticsV2 AgilexBase res) \<Rightarrow> agx_robot \<Rightarrow> agx_robot res" where
  "on_robot f1 f2 r =
    (case r of
       RobotV1 rl s \<Rightarrow> res_bind (f1 (ProtocolV1Parser rl) s) (\<lambda>s'. Inr (RobotV1 rl s'))
     | RobotV2 s \<Rightarrow> res_bind (f2 ProtocolV2Parser s) (\<lambda>s'. Inr (RobotV2 s'))
     | NoRobot \<Rightarrow> Inl UninitializedRead)"

definition of_robot :: "(StaticsV1 AgilexBase \<Rightarrow> 'a res) \<Rightarrow> (StaticsV2 AgilexBase \<Rightarrow> 'a res) \<Rightarrow> agx_robot \<Rightarrow> 'a res" where
  "of_robot f1 f2 r = (case r of RobotV1 rl s \<Rightarrow> f1 s | RobotV2 s \<Rightarrow> f2 s | NoRobot \<Rightarrow> Inl UninitializedRead)"

definition ScoutRobot :: "StaticsV1 AgilexBase \<Rightarrow> StaticsV2 AgilexBase \<Rightarrow> ProtocolVersion \<Rightarrow> bool \<Rightarrow> agx_robot" where
  "ScoutRobot b1 b2 protocol is_mini_model =
    (if \<not> is_mini_model then
       (if protocol = AGX_V1 then RobotV1 ScoutV2Limits b1 else if protocol = AGX_V2 then RobotV2 b2 else NoRobot)
     else
       (if protocol = AGX_V1 then RobotV1 ScoutMiniLimits b1 else if protocol = AGX_V2 then RobotV2 b2 else NoRobot))"

definition ScoutMiniOmniRobot :: "StaticsV1 AgilexBase \<Rightarrow> StaticsV2 AgilexBase \<Rightarrow> ProtocolVersion \<Rightarrow> agx_robot" where
  "ScoutMiniOmniRobot b1 b2 protocol =
    (if protocol = AGX_V1 then RobotV1 ScoutMiniLimits b1 else if protocol = AGX_V2 then RobotV2 b2
     else ScoutRobot b1 b2 UNKONWN False)"

definition HunterRobot :: "StaticsV1 AgilexBase \<Rightarrow> StaticsV2 AgilexBase \<Rightarrow> ProtocolVersion \<Rightarrow> agx_robot" where
  "HunterRobot b1 b2 protocol =
    (if protocol = AGX_V1 then RobotV1 HunterV1Limits b1 else if protocol = AGX_V2 then RobotV2 b2 else NoRobot)"

definition TracerRobot :: "StaticsV1 AgilexBase \<Rightarrow> StaticsV2 AgilexBase \<Rightarrow> ProtocolVersion \<Rightarrow> agx_robot" where
  "TracerRobot b1 b2 protocol =
    (if protocol = AGX_V1 then RobotV1 TracerLimits b1 else if protocol = AGX_V2 then RobotV2 b2 else NoRobot)"

definition BunkerRobot :: "StaticsV1 AgilexBase \<Rightarrow> StaticsV2 AgilexBase \<Rightarrow> ProtocolVersion \<Rightarrow> agx_robot" where
  "BunkerRobot b1 b2 protocol =
    (if protocol = AGX_V1 then RobotV1 BunkerLimits b1 else if protocol = AGX_V2 then RobotV2 b2 else NoRobot)"

definition TitanRobot :: "StaticsV2 AgilexBase \<Rightarrow> agx_robot" where
  "TitanRobot b2 = RobotV2 b2"

text \<open>The operations of \<open>RobotCommonInterface\<close>, which every class passes on to its base class.\<close>

definition Robot_Connect :: "CanCalls \<Rightarrow> string \<Rightarrow> agx_robot \<Rightarrow> (bool \<times> agx_robot) res" where
  "Robot_Connect os can_name r =
    (case r of
       RobotV1 rl s \<Rightarrow> res_bind (Connect os can_name s) (\<lambda>(ok, s'). Inr (ok, RobotV1 rl s'))
     | RobotV2 s \<Rightarrow> res_bind (Connect os can_name s) (\<lambda>(ok, s'). Inr (ok, RobotV2 s'))
     | NoRobot \<Rightarrow> Inl UninitializedRead)"

definition Robot_EnableCommandedMode :: "Mem \<Rightarrow> agx_robot \<Rightarrow> agx_robot res" where
  "Robot_EnableCommandedMode mem = on_robot (\<lambda>P. EnableCommandedMode P mem) (\<lambda>P. EnableCommandedMode P mem)"

definition Robot_ResetRobotState :: "agx_robot \<Rightarrow> agx_robot res" where
  "Robot_ResetRobotState = on_robot (\<lambda>P s. Inr (ResetRobotState s)) (\<lambda>P s. Inr (ResetRobotState s))"

definition Robot_GetParserProtocolVersion :: "agx_robot \<Rightarrow> ProtocolVersion res" where
  "Robot_GetParserProtocolVersion r =
    (case r of
       RobotV1 rl s \<Rightarrow> Inr (GetParserProtocolVersion (ProtocolV1Parser rl))
     | RobotV2 s \<Rightarrow> Inr (GetParserProtocolVersion ProtocolV2Parser)
     | NoRobot \<Rightarrow> Inl UninitializedRead)"

definition Robot_RequestVersion ::
  "Mem \<Rightarrow> int \<Rightarrow> (int \<times> (SdkTimePoint \<times> can_frame) list) list \<Rightarrow> agx_robot \<Rightarrow> (bytes \<times> agx_robot) option res" where
  "Robot_RequestVersion mem timeout_sec polls r =
    (case r of
       RobotV1 rl s \<Rightarrow> res_bind (RequestVersion (ProtocolV1Parser rl) mem timeout_sec polls s) (\<lambda>v.
         Inr (map_option (map_prod id (RobotV1 rl)) v))
     | RobotV2 s \<Rightarrow> res_bind (RequestVersion ProtocolV2Parser mem timeout_sec polls s) (\<lambda>v.
         Inr (map_option (map_prod id RobotV2) v))
     | NoRobot \<Rightarrow> Inl UninitializedRead)"

text \<open>Motion, light and brake commands.\<close>

definition ScoutRobot_SetMotionCommand :: "Mem \<Rightarrow> fp \<Rightarrow> fp \<Rightarrow> agx_robot \<Rightarrow> agx_robot res" where
  "ScoutRobot_SetMotionCommand mem linear_vel angular_vel =
     on_robot (\<lambda>P. Scout_SetMotionCommand P mem linear_vel angular_vel) (\<lambda>P. Scout_SetMotionCommand P mem linear_vel angular_vel)"

definition ScoutMiniOmniRobot_SetMotionCommand :: "Mem \<Rightarrow> fp \<Rightarrow> fp \<Rightarrow> fp \<Rightarrow> agx_robot \<Rightarrow> agx_robot res" where
  "ScoutMiniOmniRobot_SetMotionCommand mem linear_vel angular_vel lateral_vel =
     on_robot (\<lambda>P. ScoutOmni_SetMotionCommand P mem linear_vel angular_vel lateral_vel)
       (\<lambda>P. ScoutOmni_SetMotionCommand P mem linear_vel angular_vel lateral_vel)"

definition ScoutRobot_SetLightCommand ::
  "Mem \<Rightarrow> AgxLightMode \<Rightarrow> u8 \<Rightarrow> AgxLightMode \<Rightarrow> u8 \<Rightarrow> agx_robot \<Rightarrow> agx_robot res" where
  "ScoutRobot_SetLightCommand mem f_mode f_value r_mode r_value =
     on_robot (\<lambda>P. Scout_SetLightCommand P mem f_mode f_value r_mode r_value)
       (\<lambda>P. Scout_SetLightCommand P mem f_mode f_value r_mode r_value)"

definition ScoutRobot_DisableLightControl :: "Mem \<Rightarrow> agx_robot \<Rightarrow> agx_robot res" where
  "ScoutRobot_DisableLightControl mem =
     on_robot (\<lambda>P. Scout_DisableLightControl P mem) (\<lambda>P. Scout_DisableLightControl P mem)"

definition HunterRobot_SetMotionCommand :: "Mem \<Rightarrow> fp \<Rightarrow> fp \<Rightarrow> agx_robot \<Rightarrow> agx_robot res" where
  "HunterRobot_SetMotionCommand mem linear_vel angular_vel =
     on_robot (\<lambda>P. Hunter_SetMotionCommand P mem linear_vel angular_vel) (\<lambda>P. Hunter_SetMotionCommand P mem linear_vel angular_vel)"

definition HunterRobot_ActivateBrake :: "Mem \<Rightarrow> agx_robot \<Rightarrow> agx_robot res" where
  "HunterRobot_ActivateBrake mem = on_robot (\<lambda>P. Hunter_ActivateBrake P mem) (\<lambda>P. Hunter_ActivateBrake P mem)"

definition HunterRobot_ReleaseBrake :: "Mem \<Rightarrow> agx_robot \<Rightarrow> agx_robot res" where
  "HunterRobot_ReleaseBrake mem = on_robot (\<lambda>P. Hunter_ReleaseBrake P mem) (\<lambda>P. Hunter_ReleaseBrake P mem)"

definition TracerRobot_SetMotionCommand :: "Mem \<Rightarrow> fp \<Rightarrow> fp \<Rightarrow> agx_robot \<Rightarrow> agx_robot res" where
  "TracerRobot_SetMotionCommand mem linear_vel angular_vel =
     on_robot (\<lambda>P. Tracer_SetMotionCommand P mem linear_vel angular_vel) (\<lambda>P. Tracer_SetMotionCommand P mem linear_vel angular_vel)"

definition TracerRobot_SetLightCommand :: "Mem \<Rightarrow> AgxLightMode \<Rightarrow> u8 \<Rightarrow> agx_robot \<Rightarrow> agx_robot res" where
  "TracerRobot_SetLightCommand mem f_mode f_value =
     on_robot (\<lambda>P. Tracer_SetLightCommand P mem f_mode f_value) (\<lambda>P. Tracer_SetLightCommand P mem f_mode f_value)"

definition TracerRobot_DisableLightControl :: "Mem \<Rightarrow> agx_robot \<Rightarrow> agx_robot res" where
  "TracerRobot_DisableLightControl mem =
     on_robot (\<lambda>P. Tracer_DisableLightControl P mem) (\<lambda>P. Tracer_DisableLightControl P mem)"

definition BunkerRobot_SetMotionCommand :: "Mem \<Rightarrow> fp \<Rightarrow> fp \<Rightarrow> agx_robot \<Rightarrow> agx_robot res" where
  "BunkerRobot_SetMotionCommand mem linear_vel angular_vel =
     on_robot (\<lambda>P. Bunker_SetMotionCommand P mem linear_vel angular_vel) (\<lambda>P. Bunker_SetMotionCommand P mem linear_vel angular_vel)"

text \<open>\<open>TitanRobot\<close> always has a base class of version 2.\<close>

definition TitanRobot_SetMotionCommand :: "Mem \<Rightarrow> fp \<Rightarrow> fp \<Rightarrow> agx_robot \<Rightarrow> agx_robot res" where
  "TitanRobot_SetMotionCommand mem linear_vel steer_angle =
     on_robot (\<lambda>P s. Inl NullDereference) (\<lambda>P. Titan_SetMotionCommand mem linear_vel steer_angle)"

definition TitanRobot_ActivateBrake :: "Mem \<Rightarrow> agx_robot \<Rightarrow> agx_robot res" where
  "TitanRobot_ActivateBrake mem = on_robot (\<lambda>P s. Inl NullDereference) (\<lambda>P. Titan_ActivateBrake mem)"

definition TitanRobot_ReleaseBrake :: "Mem \<Rightarrow> agx_robot \<Rightarrow> agx_robot res" where
  "TitanRobot_ReleaseBrake mem = on_robot (\<lambda>P s. Inl NullDereference) (\<lambda>P. Titan_ReleaseBrake mem)"

text \<open>State of the robot.\<close>

definition ScoutRobot_GetRobotState :: "agx_robot \<Rightarrow> ScoutCoreState res" where
  "ScoutRobot_GetRobotState = of_robot (\<lambda>s. Inr (Scout_GetRobotState s)) (\<lambda>s. Inr (Scout_GetRobotState s))"

definition ScoutRobot_GetActuatorState :: "ScoutActuatorState \<Rightarrow> agx_robot \<Rightarrow> ScoutActuatorState res" where
  "ScoutRobot_GetActuatorState mem = of_robot (Scout_GetActuatorState mem) (Scout_GetActuatorState mem)"

definition HunterRobot_GetRobotState :: "agx_robot \<Rightarrow> HunterCoreState res" where
  "HunterRobot_GetRobotState = of_robot (\<lambda>s. Inr (Hunter_GetRobotState s)) (\<lambda>s. Inr (Hunter_GetRobotState s))"

definition HunterRobot_GetActuatorState :: "HunterActuatorState \<Rightarrow> agx_robot \<Rightarrow> HunterActuatorState res" where
  "HunterRobot_GetActuatorState mem = of_robot (Hunter_GetActuatorState mem) (Hunter_GetActuatorState mem)"

definition TracerRobot_GetRobotState :: "agx_robot \<Rightarrow> TracerCoreState res" where
  "TracerRobot_GetRobotState = of_robot (\<lambda>s. Inr (Tracer_GetRobotState s)) (\<lambda>s. Inr (Tracer_GetRobotState s))"

definition TracerRobot_GetActuatorState :: "TracerActuatorState \<Rightarrow> agx_robot \<Rightarrow> TracerActuatorState res" where
  "TracerRobot_GetActuatorState mem = of_robot (Tracer_GetActuatorState mem) (Tracer_GetActuatorState mem)"

definition BunkerRobot_GetRobotState :: "agx_robot \<Rightarrow> BunkerCoreState res" where
  "BunkerRobot_GetRobotState = of_robot (\<lambda>s. Inr (Bunker_GetRobotState s)) (\<lambda>s. Inr (Bunker_GetRobotState s))"

definition BunkerRobot_GetActuatorState :: "BunkerActuatorState \<Rightarrow> agx_robot \<Rightarrow> BunkerActuatorState res" where
  "BunkerRobot_GetActuatorState mem = of_robot (Bunker_GetActuatorState mem) (Bunker_GetActuatorState mem)"

definition ScoutRobot_GetCommonSensorState :: "ScoutCommonSensorState \<Rightarrow> agx_robot \<Rightarrow> ScoutCommonSensorState res" where
  "ScoutRobot_GetCommonSensorState mem =
     of_robot (\<lambda>s. Inr (Scout_GetCommonSensorState mem s)) (\<lambda>s. Inr (Scout_GetCommonSensorState mem s))"

definition HunterRobot_GetCommonSensorState :: "agx_robot \<Rightarrow> HunterCommonSensorState res" where
  "HunterRobot_GetCommonSensorState =
     of_robot (\<lambda>s. Inr (Hunter_GetCommonSensorState s)) (\<lambda>s. Inr (Hunter_GetCommonSensorState s))"

definition TracerRobot_GetCommonSensorState :: "TracerCommonSensorState \<Rightarrow> agx_robot \<Rightarrow> TracerCommonSensorState res" where
  "TracerRobot_GetCommonSensorState mem =
     of_robot (\<lambda>s. Inr (Tracer_GetCommonSensorState mem s)) (\<lambda>s. Inr (Tracer_GetCommonSensorState mem s))"

definition BunkerRobot_GetCommonSensorState :: "BunkerCommonSensorState \<Rightarrow> agx_robot \<Rightarrow> BunkerCommonSensorState res" where
  "BunkerRobot_GetCommonSensorState mem =
     of_robot (\<lambda>s. Inr (Bunker_GetCommonSensorState mem s)) (\<lambda>s. Inr (Bunker_GetCommonSensorState mem s))"

definition TitanRobot_GetRobotState :: "TitanCoreState \<Rightarrow> agx_robot \<Rightarrow> TitanCoreState res" where
  "TitanRobot_GetRobotState mem = of_robot (\<lambda>s. Inl NullDereference) (\<lambda>s. Inr (Titan_GetRobotState mem s))"

definition TitanRobot_GetActuatorState :: "TitanActuatorState \<Rightarrow> agx_robot \<Rightarrow> TitanActuatorState res" where
  "TitanRobot_GetActuatorState mem = of_robot (\<lambda>s. Inl NullDereference) (Titan_GetActuatorState mem)"

definition TitanRobot_GetCommonSensorState :: "agx_robot \<Rightarrow> TitanCommonSensorState res" where
  "TitanRobot_GetCommonSensorState = of_robot (\<lambda>s. Inl NullDereference) (\<lambda>s. Inr (Titan_GetCommonSensorState s))"

section \<open>Library\<close>

lemma copy_into_ok:
  "n \<le> length src \<Longrightarrow> n \<le> length dst \<Longrightarrow> copy_into n src dst = Inr (take n src @ drop n dst)"
proof (induction n)
  case (Suc n)
  then have "copy_into n src dst = Inr (take n src @ drop n dst)" by simp
  moreover have "(take n src @ drop n dst)[n := src ! n] = take (Suc n) src @ drop (Suc n) dst"
    using Suc.prems by (simp add: list_update_append take_Suc_conv_app_nth Cons_nth_drop_Suc [symmetric])
  ultimately show ?case using Suc.prems by (simp add: array_set_def)
qed simp

lemma copy_into_short:
  "n \<le> length src \<Longrightarrow> length dst < n \<Longrightarrow> copy_into n src dst = Inl IndexOutOfRange"
proof (induction n)
  case (Suc n)
  then show ?case by (cases "length dst < n") (simp_all add: copy_into_ok array_set_def)
qed simp

text \<open>A version 2 robot that has been told to move: one frame, which decodes to the four values.\<close>

definition commanded :: "RawUnion \<Rightarrow> StaticsV2 AgilexBase \<Rightarrow> agx_robot res \<Rightarrow> fp \<Rightarrow> fp \<Rightarrow> fp \<Rightarrow> fp \<Rightarrow> bool" where
  "commanded raw s r lin ang lat steer =
    (\<exists>fr m. r = Inr (RobotV2 (can_send fr s)) \<and> sent (can_send fr s) = sent s @ [fr] \<and> can_id fr = 0x111 \<and>
       DecodeCanFrameV2 raw fr = (True, \<lparr>type_of = AgxMsgMotionCommand, body = MotionCommandBody m\<rparr>) \<and>
       \<bar>fval (linear_velocity_mc m) - fval lin\<bar> < 1 / 900 \<and> \<bar>fval (angular_velocity_mc m) - fval ang\<bar> < 1 / 900 \<and>
       \<bar>fval (lateral_velocity_mc m) - fval lat\<bar> < 1 / 900 \<and> \<bar>fval (steering_angle_mc m) - fval steer\<bar> < 1 / 900)"

lemma commanded_send:
  assumes "can_ready s" "mem_wf mem" "command_ok lin" "command_ok ang" "command_ok lat" "command_ok steer"
  shows "commanded raw s (res_bind (SendMotionCommand ProtocolV2Parser mem lin ang lat steer s) (\<lambda>s'. Inr (RobotV2 s')))
    lin ang lat steer"
proof -
  obtain s' fr m where "SendMotionCommand ProtocolV2Parser mem lin ang lat steer s = Inr s'" "s' = can_send fr s"
    "sent s' = sent s @ [fr]" "can_id fr = 0x111"
    "DecodeCanFrameV2 raw fr = (True, \<lparr>type_of = AgxMsgMotionCommand, body = MotionCommandBody m\<rparr>)"
    "\<bar>fval (linear_velocity_mc m) - fval lin\<bar> < 1 / 900" "\<bar>fval (angular_velocity_mc m) - fval ang\<bar> < 1 / 900"
    "\<bar>fval (lateral_velocity_mc m) - fval lat\<bar> < 1 / 900" "\<bar>fval (steering_angle_mc m) - fval steer\<bar> < 1 / 900"
    using send_motion_ok [OF assms, of raw] by blast
  then show ?thesis unfolding commanded_def by (intro exI [of _ fr] exI [of _ m]) simp
qed

lemma flit_0: "flit B64 0 = Fin False 0"
  by (simp add: flit_def pack_small rnd_def)

lemma command_ok_0: "command_ok (flit B64 0)"
  by (simp add: command_ok_def flit_0)

definition brake_frame :: "Mem \<Rightarrow> u8 \<Rightarrow> can_frame" where
  "brake_frame mem b = put_frame 0x131 8 [b, 0, 0, 0, 0, 0, 0, 0] (mem_frame mem)"

lemma SetBrakeMode_v2:
  assumes "can_ready s"
  shows "SetBrakeMode ProtocolV2Parser mem mode s = Inr (can_send (brake_frame mem (ucast mode)) s)"
  using assms by (simp add: SetBrakeMode_def encode_and_send_def ProtocolV2Parser_def encode_defs
    encode_brake_mode_def BrakeModeConfigFrame_bytes_def brake_frame_def v2_ids)

lemma send_motion_v1_undefined:
  assumes "can_ready s" "rl \<in> {ScoutV2Limits, BunkerLimits, TracerLimits, HunterV1Limits}"
  shows "SendMotionCommand (ProtocolV1Parser rl) mem lin ang lat steer s = Inl FloatToIntRange"
  using assms(1) zero_lateral_limit_v1 [OF assms(2)]
  by (simp add: SendMotionCommand_def motion_command_message_def encode_and_send_def ProtocolV1Parser_def)

lemmas robot_defs = on_robot_def of_robot_def ScoutRobot_def ScoutMiniOmniRobot_def HunterRobot_def TracerRobot_def
  BunkerRobot_def TitanRobot_def

lemmas motion_command_defs = ScoutRobot_SetMotionCommand_def ScoutMiniOmniRobot_SetMotionCommand_def
  HunterRobot_SetMotionCommand_def TracerRobot_SetMotionCommand_def BunkerRobot_SetMotionCommand_def
  TitanRobot_SetMotionCommand_def Scout_SetMotionCommand_def ScoutOmni_SetMotionCommand_def Hunter_SetMotionCommand_def
  Tracer_SetMotionCommand_def Bunker_SetMotionCommand_def Titan_SetMotionCommand_def

section \<open>Properties\<close>

text \<open>
  C24: every other robot of the SDK, connected with protocol version 2, turns a motion command into one
  motion frame. On Scout, Tracer and Bunker the second argument is the angular velocity, on Hunter and
  Titan the steering angle; the omnidirectional Scout Mini passes a lateral velocity as well. All
  other fields are zero.
\<close>

theorem robot_motion_commands:
  assumes "can_ready s" "mem_wf mem" "command_ok lin" "command_ok x" "command_ok lat"
  defines "z \<equiv> flit B64 0"
  shows "commanded raw s (ScoutRobot_SetMotionCommand mem lin x (ScoutRobot b1 s AGX_V2 mini)) lin x z z \<and>
    commanded raw s (TracerRobot_SetMotionCommand mem lin x (TracerRobot b1 s AGX_V2)) lin x z z \<and>
    commanded raw s (BunkerRobot_SetMotionCommand mem lin x (BunkerRobot b1 s AGX_V2)) lin x z z \<and>
    commanded raw s (HunterRobot_SetMotionCommand mem lin x (HunterRobot b1 s AGX_V2)) lin z z x \<and>
    commanded raw s (TitanRobot_SetMotionCommand mem lin x (TitanRobot s)) lin z z x \<and>
    commanded raw s (ScoutMiniOmniRobot_SetMotionCommand mem lin x lat (ScoutMiniOmniRobot b1 s AGX_V2)) lin x lat z"
  using commanded_send [OF assms(1,2,3)] assms(4,5) command_ok_0
  by (simp add: z_def motion_command_defs robot_defs)

theorem robot_motion_commands_witness:
  "commanded zero_union (sample_base \<lparr>light_count_v2 = 0\<rparr>)
     (HunterRobot_SetMotionCommand sample_mem (fint B64 1) (fint B64 0)
       (HunterRobot (sample_base \<lparr>motion_count_v1 = 0, value_set_count_v1 = 0, light_count_v1 = 0\<rparr>)
         (sample_base \<lparr>light_count_v2 = 0\<rparr>) AGX_V2))
     (fint B64 1) (flit B64 0) (flit B64 0) (fint B64 0)"
  using robot_motion_commands [of "sample_base \<lparr>light_count_v2 = 0\<rparr>" sample_mem "fint B64 1" "fint B64 0" "fint B64 0"]
    command_ok_fint [of 1] command_ok_fint [of 0] by simp

text \<open>
  No robot of protocol version 1 but Scout Mini can be told to move with defined behaviour: on an
  open port every motion command of Scout, Hunter, Tracer and Bunker converts the NaN of a zero lateral
  velocity divided by a zero limit to \<open>int8_t\<close>.
\<close>

lemma v1_motion_undefined:
  assumes "can_ready s"
  shows "ScoutRobot_SetMotionCommand mem lin ang (ScoutRobot s b2 AGX_V1 False) = Inl FloatToIntRange \<and>
    HunterRobot_SetMotionCommand mem lin ang (HunterRobot s b2 AGX_V1) = Inl FloatToIntRange \<and>
    TracerRobot_SetMotionCommand mem lin ang (TracerRobot s b2 AGX_V1) = Inl FloatToIntRange \<and>
    BunkerRobot_SetMotionCommand mem lin ang (BunkerRobot s b2 AGX_V1) = Inl FloatToIntRange"
  using send_motion_v1_undefined [OF assms] by (simp add: motion_command_defs robot_defs)

text \<open>
  Hunter locks its brake by a frame 0x131 with first byte 1 and releases it by one with first byte
  0; Titan does the opposite: activating its brake sends the frame that releases Hunter's, and
  releasing it the frame that locks.
\<close>

lemma titan_brakes_swapped:
  assumes "can_ready s"
  shows "HunterRobot_ActivateBrake mem (HunterRobot b1 s AGX_V2) = Inr (RobotV2 (can_send (brake_frame mem 1) s)) \<and>
    HunterRobot_ReleaseBrake mem (HunterRobot b1 s AGX_V2) = Inr (RobotV2 (can_send (brake_frame mem 0) s)) \<and>
    TitanRobot_ActivateBrake mem (TitanRobot s) = Inr (RobotV2 (can_send (brake_frame mem 0) s)) \<and>
    TitanRobot_ReleaseBrake mem (TitanRobot s) = Inr (RobotV2 (can_send (brake_frame mem 1) s))"
  using assms(1)
  by (simp add: HunterRobot_ActivateBrake_def HunterRobot_ReleaseBrake_def TitanRobot_ActivateBrake_def
    TitanRobot_ReleaseBrake_def Hunter_ActivateBrake_def Hunter_ReleaseBrake_def Titan_ActivateBrake_def
    Titan_ReleaseBrake_def SetBrakeMode_v2 BRAKE_MODE_LOCK_def BRAKE_MODE_UNLOCK_def robot_defs)

text \<open>
  From a well-formed state, the actuator states that Scout, Hunter, Tracer and Titan report are the
  first four, three, two and four entries of what was received. Bunker never reports any: its loop
  runs to three over a version 1 array of two and writes past the struct.
\<close>

lemma actuator_reports:
  assumes "base_wf s" "length (actuator_hs_state_sas sm) = 4" "length (actuator_ls_state_sas sm) = 4" "length (actuator_state_sas sm) = 4"
    and "length (actuator_hs_state_has hm) = 3" "length (actuator_ls_state_has hm) = 3" "length (actuator_state_has hm) = 3"
    and "length (actuator_hs_state_tas tm) = 2" "length (actuator_ls_state_tas tm) = 2"
    and "length (actuator_hs_state_tias im) = 4" "length (actuator_ls_state_tias im) = 4"
    and "length (actuator_hs_state_bas bm) = 3" "length (actuator_ls_state_bas bm) = 3" "length (actuator_state_bas bm) = 2"
  defines "a \<equiv> actuator_state_msgs s"
  shows "ScoutRobot_GetActuatorState sm (RobotV2 s) = Inr \<lparr>time_stamp_sas = time_stamp_act a,
      actuator_hs_state_sas = take 4 (actuator_hs_state a), actuator_ls_state_sas = take 4 (actuator_ls_state a),
      actuator_state_sas = take 4 (actuator_state_v1 a)\<rparr> \<and>
    HunterRobot_GetActuatorState hm (RobotV2 s) = Inr \<lparr>time_stamp_has = time_stamp_act a,
      actuator_hs_state_has = take 3 (actuator_hs_state a), actuator_ls_state_has = take 3 (actuator_ls_state a),
      actuator_state_has = take 3 (actuator_state_v1 a)\<rparr> \<and>
    TracerRobot_GetActuatorState tm (RobotV2 s) = Inr \<lparr>time_stamp_tas = time_stamp_act a,
      actuator_hs_state_tas = take 2 (actuator_hs_state a), actuator_ls_state_tas = take 2 (actuator_ls_state a)\<rparr> \<and>
    TitanRobot_GetActuatorState im (RobotV2 s) = Inr \<lparr>time_stamp_tias = time_stamp_act a,
      actuator_hs_state_tias = take 4 (actuator_hs_state a), actuator_ls_state_tias = take 4 (actuator_ls_state a)\<rparr> \<and>
    BunkerRobot_GetActuatorState bm (RobotV2 s) = Inl IndexOutOfRange"
proof -
  have len: "length (actuator_hs_state a) = 8" "length (actuator_ls_state a) = 8" "length (actuator_state_v1 a) = 8"
    using assms(1) by (simp_all add: a_def base_wf_def AGX_MAX_ACTUATOR_NUM_def)
  note defs = of_robot_def a_def [symmetric] Let_def copy_into_ok copy_into_short
  show ?thesis
    using assms(2-14) len
    by (simp add: defs ScoutRobot_GetActuatorState_def Scout_GetActuatorState_def HunterRobot_GetActuatorState_def
      Hunter_GetActuatorState_def TracerRobot_GetActuatorState_def Tracer_GetActuatorState_def
      TitanRobot_GetActuatorState_def Titan_GetActuatorState_def BunkerRobot_GetActuatorState_def Bunker_GetActuatorState_def)
qed

end
