(* ===== verification/Protocol_Detector.thy ===== *)
theory Protocol_Detector
  imports Agilex_Base_Theorems
begin

text \<open>
  \<open>protocol_detector.cpp\<close>: finding out which protocol version a robot speaks by listening to its bus.
  The I/O thread sets two atomic flags; the caller polls them every 50 ms and reads them again after
  the loop, one after the other, so that frames may arrive between those reads.
\<close>

record ProtocolDetector =
  can_det :: "AsyncCAN option"
  msg_v1_detected :: bool
  msg_v2_detected :: bool

definition Detector_Connect :: "CanCalls \<Rightarrow> string \<Rightarrow> ProtocolDetector \<Rightarrow> (bool \<times> ProtocolDetector) res" where
  "Detector_Connect os can_name d =
    (let released = (case can_det d of None \<Rightarrow> Inr () | Some old \<Rightarrow>
           if read_pending old then Inr () else map_sum id (\<lambda>_. ()) (CanClose False old)) in
     res_bind released (\<lambda>_.
     res_bind (CanOpen os (SetReceiveCallback (AsyncCAN_new can_name))) (\<lambda>(ok, can).
       Inr (ok, d\<lparr>can_det := Some can\<rparr>))))"

definition Detector_ParseCANFrame :: "can_frame \<Rightarrow> ProtocolDetector \<Rightarrow> ProtocolDetector" where
  "Detector_ParseCANFrame rx d =
    (if can_id rx = 0x151 then d\<lparr>msg_v1_detected := True\<rparr>
     else if can_id rx = 0x221 \<or> can_id rx = 0x241 then d\<lparr>msg_v2_detected := True\<rparr>
     else d)"

definition Detector_frames :: "can_frame list \<Rightarrow> ProtocolDetector \<Rightarrow> ProtocolDetector" where
  "Detector_frames rxs d = fold Detector_ParseCANFrame rxs d"

text \<open>
  The polling loop: each entry of \<open>polls\<close> is one evaluation of the loop condition, the whole seconds on
  the stopwatch and the frames that arrive before the flags are read. \<open>None\<close> when the list ends first.
\<close>

fun detect_wait :: "nat \<Rightarrow> (nat \<times> can_frame list) list \<Rightarrow> ProtocolDetector \<Rightarrow> ProtocolDetector option" where
  "detect_wait timeout [] d = None"
| "detect_wait timeout ((elapsed, rxs) # polls) d =
    (if elapsed < timeout then
       let d' = Detector_frames rxs d in
       if msg_v1_detected d' \<or> msg_v2_detected d' then Some d' else detect_wait timeout polls d'
     else Some d)"

text \<open>After the loop the flags are read up to four times; \<open>late1\<close> to \<open>late3\<close> arrive before those reads.\<close>

definition DetectProtocolVersion ::
  "u32 \<Rightarrow> (nat \<times> can_frame list) list \<Rightarrow> can_frame list \<Rightarrow> can_frame list \<Rightarrow> can_frame list \<Rightarrow> ProtocolDetector
    \<Rightarrow> (ProtocolVersion \<times> ProtocolDetector) option" where
  "DetectProtocolVersion timeout_sec polls late1 late2 late3 d =
     map_option (\<lambda>d0.
       let d1 = Detector_frames late1 d0; d2 = Detector_frames late2 d1; d3 = Detector_frames late3 d2 in
       if msg_v1_detected d1 \<and> msg_v2_detected d1 then (UNKONWN, d1)
       else if msg_v1_detected d2 then (AGX_V1, d2)
       else if msg_v2_detected d3 then (AGX_V2, d3)
       else (UNKONWN, d3))
     (detect_wait (unat timeout_sec) polls (d\<lparr>msg_v1_detected := False, msg_v2_detected := False\<rparr>))"

section \<open>Properties\<close>

definition v1_frame :: "can_frame \<Rightarrow> bool" where "v1_frame rx = (can_id rx = 0x151)"
definition v2_frame :: "can_frame \<Rightarrow> bool" where "v2_frame rx = (can_id rx = 0x221 \<or> can_id rx = 0x241)"

lemma Detector_frames_flags [simp]:
  "msg_v1_detected (Detector_frames rxs d) = (msg_v1_detected d \<or> list_ex v1_frame rxs)"
  "msg_v2_detected (Detector_frames rxs d) = (msg_v2_detected d \<or> list_ex v2_frame rxs)"
  by (induction rxs arbitrary: d)
    (auto simp: Detector_frames_def Detector_ParseCANFrame_def v1_frame_def v2_frame_def)

lemma detect_wait_returns:
  assumes "\<exists>(e, rxs) \<in> set polls. timeout \<le> e"
  shows "\<exists>d'. detect_wait timeout polls d = Some d' \<and>
    (msg_v1_detected d' \<longrightarrow> msg_v1_detected d \<or> list_ex v1_frame (concat (map snd polls))) \<and>
    (msg_v2_detected d' \<longrightarrow> msg_v2_detected d \<or> list_ex v2_frame (concat (map snd polls)))"
  using assms
proof (induction timeout polls d rule: detect_wait.induct)
  case (2 timeout elapsed rxs polls d)
  show ?case
  proof (cases "elapsed < timeout \<and> \<not> (msg_v1_detected (Detector_frames rxs d) \<or> msg_v2_detected (Detector_frames rxs d))")
    case True
    with 2(2) have "\<exists>(e, rxs) \<in> set polls. timeout \<le> e" by auto
    with 2(1) True show ?thesis by (auto simp: Let_def)
  qed (auto simp: Let_def)
qed simp

text \<open>
  C30: once the stopwatch reaches the timeout the detector returns, whatever arrives. It reports a version
  only when a frame of that version arrived. A bus on which frames of one version only are seen, the
  first of them before the first poll, is reported as that version.
\<close>

theorem detector_correct:
  fixes late1 late2 late3 :: "can_frame list"
  assumes "\<exists>(e, rxs) \<in> set polls. unat timeout \<le> e"
  defines "all \<equiv> concat (map snd polls) @ late1 @ late2 @ late3"
  shows "\<exists>v d'. DetectProtocolVersion timeout polls late1 late2 late3 d = Some (v, d') \<and>
    (v = AGX_V1 \<longrightarrow> list_ex v1_frame all) \<and> (v = AGX_V2 \<longrightarrow> list_ex v2_frame all) \<and>
    (fst (hd polls) < unat timeout \<longrightarrow> list_ex v1_frame (snd (hd polls)) \<longrightarrow> \<not> list_ex v2_frame all \<longrightarrow> v = AGX_V1) \<and>
    (fst (hd polls) < unat timeout \<longrightarrow> list_ex v2_frame (snd (hd polls)) \<longrightarrow> \<not> list_ex v1_frame all \<longrightarrow> v = AGX_V2)"
proof -
  let ?d = "d\<lparr>msg_v1_detected := False, msg_v2_detected := False\<rparr>"
  obtain d0 where d0: "detect_wait (unat timeout) polls ?d = Some d0"
    "msg_v1_detected d0 \<longrightarrow> list_ex v1_frame (concat (map snd polls))"
    "msg_v2_detected d0 \<longrightarrow> list_ex v2_frame (concat (map snd polls))"
    using detect_wait_returns [OF assms(1), of ?d] by auto
  obtain e rxs rest where polls: "polls = (e, rxs) # rest" using assms(1) by (cases polls) auto
  have "fst (hd polls) < unat timeout \<Longrightarrow> list_ex v1_frame (snd (hd polls)) \<Longrightarrow> msg_v1_detected d0"
    "fst (hd polls) < unat timeout \<Longrightarrow> list_ex v2_frame (snd (hd polls)) \<Longrightarrow> msg_v2_detected d0"
    using d0(1) polls by (auto simp: Let_def split: if_splits)
  with d0 show ?thesis
    by (auto simp: DetectProtocolVersion_def Let_def all_def)
qed

theorem detector_correct_witness:
  "\<exists>d'. DetectProtocolVersion 3 [(0, [sample_frame 0x151]), (3, [])] [] [sample_frame 0x211] []
      \<lparr>can_det = None, msg_v1_detected = False, msg_v2_detected = True\<rparr> = Some (AGX_V1, d')"
  using detector_correct [of "[(0, [sample_frame 0x151]), (3, [])]" 3 "[]" "[sample_frame 0x211]" "[]"
      "\<lparr>can_det = None, msg_v1_detected = False, msg_v2_detected = True\<rparr>"]
  by (auto simp: v1_frame_def v2_frame_def sample_frame_def)

end
