(* ===== verification/Text_Io.thy ===== *)
theory Text_Io
  imports Ieee754
begin

text \<open>
  The text input and output of the waypoint tools, from the C++ library: \<open>std::getline\<close>, \<open>std::stod\<close>
  (with \<open>strtod\<close> of the C locale: decimal and hexadecimal numbers, infinities and NaN, trailing
  characters ignored) and stream output of a double with \<open>std::fixed\<close> and the default precision of six
  digits. The main fact is that \<open>stod\<close> reads back what the stream has printed, up to the rounding of
  the sixth digit.
\<close>

section \<open>Lines and fields\<close>

text \<open>Extraction fails when nothing is left; the delimiter is consumed and not stored.\<close>

definition getline :: "char \<Rightarrow> string \<Rightarrow> (string \<times> string) option" where
  "getline delim s = (if s = [] then None
     else Some (takeWhile (\<lambda>c. c \<noteq> delim) s, drop 1 (dropWhile (\<lambda>c. c \<noteq> delim) s)))"

function lines_of :: "char \<Rightarrow> string \<Rightarrow> string list" where
  "lines_of delim s = (case getline delim s of None \<Rightarrow> [] | Some (l, rest) \<Rightarrow> l # lines_of delim rest)"
  by pat_completeness auto
termination
proof (relation "measure (\<lambda>(delim, s). length s)")
  fix delim :: char and s :: string and p l rest
  assume "getline delim s = Some p" "(l, rest) = p"
  then have "s \<noteq> []" "rest = drop 1 (dropWhile (\<lambda>c. c \<noteq> delim) s)" by (auto simp: getline_def split: if_splits)
  moreover have "length (dropWhile (\<lambda>c. c \<noteq> delim) s) \<le> length s" by (rule length_dropWhile_le)
  ultimately have "length rest < length s" by (cases s) (auto simp: le_diff_conv less_Suc_eq_le split: if_splits)
  then show "((delim, rest), delim, s) \<in> measure (\<lambda>(delim, s). length s)" by simp
qed simp

declare lines_of.simps [simp del]

section \<open>Numbers\<close>

definition char_code :: "char \<Rightarrow> nat" where
  "char_code c = of_char c"

definition is_space :: "char \<Rightarrow> bool" where
  "is_space c = (c = CHR 0x20 \<or> (9 \<le> char_code c \<and> char_code c \<le> 13))"

definition digit_val :: "char \<Rightarrow> nat" where
  "digit_val c = (let k = char_code c in
     if 48 \<le> k \<and> k \<le> 57 then k - 48
     else if 65 \<le> k \<and> k \<le> 70 then k - 55
     else if 97 \<le> k \<and> k \<le> 102 then k - 87
     else 99)"

definition digits :: "nat \<Rightarrow> string \<Rightarrow> string \<times> string" where
  "digits base s = (takeWhile (\<lambda>c. digit_val c < base) s, dropWhile (\<lambda>c. digit_val c < base) s)"

definition num_val :: "nat \<Rightarrow> string \<Rightarrow> nat" where
  "num_val base ds = foldl (\<lambda>a c. a * base + digit_val c) 0 ds"

text \<open>
  An exponent is read only when a digit follows its letter and sign.
\<close>

definition read_sign :: "string \<Rightarrow> bool \<times> string" where
  "read_sign s = (case s of
      c # rest \<Rightarrow> if c = CHR ''-'' then (True, rest) else if c = CHR ''+'' then (False, rest) else (False, s)
    | [] \<Rightarrow> (False, s))"

definition read_exponent :: "char \<Rightarrow> char \<Rightarrow> string \<Rightarrow> int" where
  "read_exponent lower upper s = (case s of
      c # rest \<Rightarrow>
        if c = lower \<or> c = upper then
          let (neg, t) = read_sign rest; ds = fst (digits 10 t) in
          if ds = [] then 0 else if neg then - int (num_val 10 ds) else int (num_val 10 ds)
        else 0
    | [] \<Rightarrow> 0)"

text \<open>
  A magnitude in the given base: digits with at most one point among them and at least one digit, then
  an exponent of base \<open>ebase\<close>.
\<close>

definition read_magnitude :: "nat \<Rightarrow> nat \<Rightarrow> char \<Rightarrow> char \<Rightarrow> string \<Rightarrow> rat option" where
  "read_magnitude base ebase lower upper s =
    (let (ip, t) = digits base s;
         (fp, u) = (case t of c # rest \<Rightarrow> if c = CHR ''.'' then digits base rest else ([], t) | [] \<Rightarrow> ([], t)) in
     if ip = [] \<and> fp = [] then None
     else let e = read_exponent lower upper u; m = of_nat (num_val base (ip @ fp)) / of_nat base ^ length fp in
       Some (if 0 \<le> e then m * of_nat ebase ^ nat e else m / of_nat ebase ^ nat (- e)))"

definition lower_case :: "char \<Rightarrow> char" where
  "lower_case c = (if 65 \<le> char_code c \<and> char_code c \<le> 90 then char_of (char_code c + 32) else c)"

definition starts_ci :: "string \<Rightarrow> string \<Rightarrow> bool" where
  "starts_ci p s = (map lower_case (take (length p) s) = p)"

datatype number = NumNaN | NumInf | NumMagnitude rat

definition read_number :: "string \<Rightarrow> number option" where
  "read_number s =
    (if starts_ci ''inf'' s then Some NumInf
     else if starts_ci ''nan'' s then Some NumNaN
     else if starts_ci ''0x'' s then
       (case read_magnitude 16 2 CHR ''p'' CHR ''P'' (drop 2 s) of
          Some m \<Rightarrow> Some (NumMagnitude m) | None \<Rightarrow> Some (NumMagnitude 0))
     else map_option NumMagnitude (read_magnitude 10 10 CHR ''e'' CHR ''E'' s))"

text \<open>
  \<open>stod\<close> throws when no number can be read, and when \<open>strtod\<close> reports a range error: the value is too
  large for a finite double, or below the normal range and not exact.
\<close>

definition stod :: "string \<Rightarrow> fp res" where
  "stod s =
    (let (neg, t) = read_sign (dropWhile is_space s) in
     case read_number t of
       None \<Rightarrow> Inl (Thrown ''invalid_argument'')
     | Some NumNaN \<Rightarrow> Inr NaN
     | Some NumInf \<Rightarrow> Inr (Inf neg)
     | Some (NumMagnitude m) \<Rightarrow>
         (case pack B64 neg m of
            Fin sg r \<Rightarrow> if r \<noteq> m \<and> r < pow2 (- 1022) then Inl (Thrown ''out_of_range'') else Inr (Fin sg r)
          | _ \<Rightarrow> Inl (Thrown ''out_of_range'')))"

section \<open>Output with std::fixed\<close>

definition digit_char :: "nat \<Rightarrow> char" where
  "digit_char k = char_of (48 + k)"

fun dec :: "nat \<Rightarrow> string" where
  "dec n = (if n < 10 then [digit_char n] else dec (n div 10) @ [digit_char (n mod 10)])"

declare dec.simps [simp del]

fun digits_n :: "nat \<Rightarrow> nat \<Rightarrow> string" where
  "digits_n 0 k = []"
| "digits_n (Suc w) k = digits_n w (k div 10) @ [digit_char (k mod 10)]"

text \<open>The value is rounded to millionths, exactly halfway cases to even.\<close>

definition print_fixed :: "fp \<Rightarrow> string" where
  "print_fixed x = (case x of
      NaN \<Rightarrow> ''nan''
    | Inf s \<Rightarrow> (if s then ''-inf'' else ''inf'')
    | Fin s m \<Rightarrow> (let n = nat (round_even (m * 1000000)) in
        (if s then ''-'' else []) @ dec (n div 1000000) @ ''.'' @ digits_n 6 (n mod 1000000)))"

section \<open>Reading back what was printed\<close>

lemma lines_of_Nil [simp]: "lines_of d [] = []"
  by (simp add: lines_of.simps getline_def)

lemma lines_of_line:
  assumes "d \<notin> set l"
  shows "lines_of d (l @ d # rest) = l # lines_of d rest"
proof -
  have "takeWhile (\<lambda>c. c \<noteq> d) (l @ d # rest) = l" "dropWhile (\<lambda>c. c \<noteq> d) (l @ d # rest) = d # rest"
    using assms by (induction l) auto
  then show ?thesis by (simp add: lines_of.simps [of d "l @ d # rest"] getline_def)
qed

lemma digit_char_val: "k < 10 \<Longrightarrow> digit_val (digit_char k) = k" "k < 10 \<Longrightarrow> char_code (digit_char k) = 48 + k"
  by (simp_all add: digit_val_def digit_char_def char_code_def Let_def)

lemma num_val_append: "num_val b (xs @ ys) = num_val b xs * b ^ length ys + num_val b ys"
proof (induction ys rule: rev_induct)
  case (snoc y ys)
  then show ?case by (simp add: num_val_def algebra_simps)
qed (simp add: num_val_def)

lemma num_val_single: "num_val b [c] = digit_val c"
  by (simp add: num_val_def)

lemma dec_digits: "\<forall>c \<in> set (dec n). 48 \<le> char_code c \<and> char_code c \<le> 57"
proof (induction n rule: dec.induct)
  case (1 n)
  then show ?case by (subst dec.simps) (auto simp: digit_char_val)
qed

lemma dec_val: "num_val 10 (dec n) = n"
proof (induction n rule: dec.induct)
  case (1 n)
  then show ?case by (subst dec.simps) (auto simp: num_val_append num_val_single digit_char_val)
qed

lemma dec_nonempty [simp]: "dec n \<noteq> []"
  by (subst dec.simps) simp

lemma digits_n_digits: "\<forall>c \<in> set (digits_n w k). 48 \<le> char_code c \<and> char_code c \<le> 57"
  by (induction w arbitrary: k) (auto simp: digit_char_val)

lemma digits_n_length [simp]: "length (digits_n w k) = w"
  by (induction w arbitrary: k) auto

lemma digits_n_val: "num_val 10 (digits_n w k) = k mod 10 ^ w"
proof (induction w arbitrary: k)
  case (Suc w)
  have "num_val 10 (digits_n (Suc w) k) = (k div 10) mod 10 ^ w * 10 + k mod 10"
    by (simp add: num_val_append num_val_single digit_char_val Suc)
  also have "\<dots> = k mod 10 ^ Suc w" by (simp add: mod_mult2_eq)
  finally show ?case .
qed (simp add: num_val_def)

lemma digit_code: "48 \<le> char_code c \<Longrightarrow> char_code c \<le> 57 \<Longrightarrow> digit_val c < 10"
  by (simp add: digit_val_def Let_def)

lemma digits_all:
  assumes "\<forall>c \<in> set ds. 48 \<le> char_code c \<and> char_code c \<le> 57" "rest = [] \<or> \<not> digit_val (hd rest) < 10"
  shows "digits 10 (ds @ rest) = (ds, rest)"
proof -
  have "\<forall>c \<in> set ds. digit_val c < 10" using assms(1) digit_code by blast
  then show ?thesis using assms(2) unfolding digits_def
    by (induction ds) (cases rest; auto)+
qed

lemma code_neq: "char_code c \<noteq> char_code c' \<Longrightarrow> c \<noteq> c'"
  by auto

lemma code_consts:
  "char_code CHR ''.'' = 46" "char_code CHR ''-'' = 45" "char_code CHR ''+'' = 43" "char_code CHR ''i'' = 105"
  "char_code CHR ''n'' = 110" "char_code CHR ''x'' = 120" "char_code CHR 0x20 = 32" "char_code CHR 0x2C = 44"
  "char_code CHR 0x0A = 10"
  by (simp_all add: char_code_def)

lemma lower_case_small: "char_code c \<le> 57 \<Longrightarrow> lower_case c = c"
  by (simp add: lower_case_def)

text \<open>The characters of a printed magnitude.\<close>

definition print_magnitude :: "nat \<Rightarrow> string" where
  "print_magnitude n = dec (n div 1000000) @ ''.'' @ digits_n 6 (n mod 1000000)"

lemma print_magnitude_codes: "\<forall>c \<in> set (print_magnitude n). 46 \<le> char_code c \<and> char_code c \<le> 57"
proof
  fix c assume "c \<in> set (print_magnitude n)"
  then have "c \<in> set (dec (n div 1000000)) \<or> c = CHR ''.'' \<or> c \<in> set (digits_n 6 (n mod 1000000))"
    unfolding print_magnitude_def by auto
  then show "46 \<le> char_code c \<and> char_code c \<le> 57"
    using dec_digits [of "n div 1000000"] digits_n_digits [of 6 "n mod 1000000"] code_consts(1) by fastforce
qed

lemma print_magnitude_head:
  obtains c cs where "print_magnitude n = c # cs" "48 \<le> char_code c" "char_code c \<le> 57"
proof (cases "dec (n div 1000000)")
  case (Cons c cs)
  then show ?thesis
    using dec_digits [of "n div 1000000"] by (intro that [of c]) (auto simp: print_magnitude_def)
qed simp

lemma read_magnitude_print:
  "read_magnitude 10 10 CHR ''e'' CHR ''E'' (print_magnitude n) = Some (of_nat n / 1000000)"
proof -
  have ip: "digits 10 (print_magnitude n) = (dec (n div 1000000), ''.'' @ digits_n 6 (n mod 1000000))"
    unfolding print_magnitude_def by (rule digits_all [OF dec_digits]) (simp add: digit_val_def code_consts Let_def)
  have fr: "digits 10 (digits_n 6 (n mod 1000000)) = (digits_n 6 (n mod 1000000), [])"
    using digits_all [OF digits_n_digits, of "[]"] by simp
  have "num_val 10 (dec (n div 1000000) @ digits_n 6 (n mod 1000000)) = n"
    by (simp only: num_val_append dec_val digits_n_val digits_n_length) simp
  then show ?thesis
    unfolding read_magnitude_def ip by (simp add: fr read_exponent_def del: digits_n.simps)
qed

lemma starts_ci_Cons: "starts_ci (p # ps) (c # cs) = (lower_case c = p \<and> starts_ci ps cs)"
  by (simp add: starts_ci_def)

lemma read_number_print: "read_number (print_magnitude n) = Some (NumMagnitude (of_nat n / 1000000))"
proof -
  obtain c cs where p: "print_magnitude n = c # cs" "48 \<le> char_code c" "char_code c \<le> 57"
    by (rule print_magnitude_head)
  then have "lower_case c = c" "c \<noteq> CHR ''i''" "c \<noteq> CHR ''n''"
    using code_consts(4,5) by (auto simp: lower_case_small)
  then have "\<not> starts_ci ''inf'' (print_magnitude n)" "\<not> starts_ci ''nan'' (print_magnitude n)"
    using p(1) by (simp_all add: starts_ci_Cons)
  moreover have "\<not> starts_ci ''0x'' (print_magnitude n)"
  proof
    assume "starts_ci ''0x'' (print_magnitude n)"
    then obtain d ds where d: "cs = d # ds" "lower_case d = CHR ''x''"
      using p(1) by (cases cs) (auto simp: starts_ci_Cons, simp add: starts_ci_def)
    then have "char_code d \<le> 57" using print_magnitude_codes [of n] p(1) by simp
    then show False using d(2) code_consts(6) by (simp add: lower_case_small)
  qed
  ultimately show ?thesis by (simp add: read_number_def read_magnitude_print)
qed

lemma stod_print:
  assumes "0 \<le> m" "m \<le> pow2 90"
  defines "n \<equiv> nat (round_even (m * 1000000))"
  shows "stod (print_fixed (Fin s m)) = Inr (pack B64 s (of_nat n / 1000000))"
    "\<bar>of_nat n / 1000000 - m\<bar> \<le> 1 / 2000000" "of_nat n / 1000000 \<le> pow2 100"
proof -
  have "0 \<le> round_even (m * 1000000)" using assms(1) by (intro round_even_nonneg) simp
  then have n: "of_nat n = (of_int (round_even (m * 1000000)) :: rat)" by (simp add: n_def)
  show near: "\<bar>of_nat n / 1000000 - m\<bar> \<le> 1 / 2000000"
    using round_even_near [of "m * 1000000"] unfolding n by (simp add: abs_le_iff field_simps)
  have "of_nat n / 1000000 \<le> m + 1" using near by linarith
  then show le: "of_nat n / 1000000 \<le> pow2 100" using assms(2) by simp
  obtain c cs where p: "print_magnitude n = c # cs" "48 \<le> char_code c" "char_code c \<le> 57"
    by (rule print_magnitude_head)
  have pr: "print_fixed (Fin s m) = (if s then ''-'' else []) @ print_magnitude n"
    by (simp add: print_fixed_def print_magnitude_def n_def Let_def del: digits_n.simps)
  have "\<not> is_space CHR ''-''" "\<not> is_space c" "c \<noteq> CHR ''-''" "c \<noteq> CHR ''+''"
    using p(2,3) code_consts by (auto simp: is_space_def)
  then have sg: "read_sign (dropWhile is_space (print_fixed (Fin s m))) = (s, print_magnitude n)"
    unfolding pr p(1) by (simp add: read_sign_def)
  have "pow2 (- 1022) \<le> rnd B64 (of_nat n / 1000000)" if "n \<noteq> 0"
  proof -
    have "pow2 (- 20) \<le> of_nat n / 1000000" using that by (simp add: field_simps)
    then have "rnd B64 (pow2 (- 20)) \<le> rnd B64 (of_nat n / 1000000)" by (intro rnd_mono) simp_all
    moreover have "rnd B64 (pow2 (- 20)) = pow2 (- 20)" using rnd_exact [of 1 "- 20" "- 20" B64] by simp
    moreover have "pow2 (- 1022) \<le> pow2 (- 20)" by (simp only: pow2_le_iff)
    ultimately show ?thesis by linarith
  qed
  then have ok: "\<not> (rnd B64 (of_nat n / 1000000) \<noteq> of_nat n / 1000000 \<and> rnd B64 (of_nat n / 1000000) < pow2 (- 1022))"
    by (cases "n = 0") auto
  have "pack B64 s (of_nat n / 1000000) = Fin s (rnd B64 (of_nat n / 1000000))"
    using pack_small [OF _ le, of B64 s] by simp
  then show "stod (print_fixed (Fin s m)) = Inr (pack B64 s (of_nat n / 1000000))"
    using ok unfolding stod_def sg by (simp add: read_number_print)
qed

end
