(* ===== verification/Waypoint_Csv.thy ===== *)
theory Waypoint_Csv
  imports Text_Io
begin

text \<open>
  The waypoint files of \<open>wego_2d_nav\<close>: \<open>waypoint_save.cpp\<close> appends the pose of the robot as a line
  \<open>x,y,yaw\<close>, \<open>loadCSV\<close> of \<open>waypoint_runner.cpp\<close> and \<open>waypoint_follow.hpp\<close> reads such a file, and the service
  of \<open>waypoint_follow.hpp\<close> sends it to the navigation stack. The file system maps paths to contents; the
  trigonometric functions of the C library, tf2's lookup and conversion to angles, and the answer of
  the action server are arguments.
\<close>

record PoseStamped =
  stamp_ps :: int
  frame_id_ps :: string
  pos_x :: fp
  pos_y :: fp
  pos_z :: fp
  ori_x :: fp
  ori_y :: fp
  ori_z :: fp
  ori_w :: fp

type_synonym file_system = "string \<rightharpoonup> string"

record trig =
  cos_d :: "fp \<Rightarrow> fp"
  sin_d :: "fp \<Rightarrow> fp"

definition comma :: char where "comma = CHR 0x2C"
definition newline :: char where "newline = CHR 0x0A"

section \<open>loadCSV\<close>

text \<open>One line: skipped when a coordinate is missing or \<open>stod\<close> throws; a missing yaw is zero.\<close>

definition yaw_pose :: "trig \<Rightarrow> fp \<Rightarrow> fp \<Rightarrow> fp \<Rightarrow> PoseStamped" where
  "yaw_pose tr x y yaw =
    (let half = fmul B64 yaw (flit B64 (1 / 2)); zero = flit B64 0 in
     \<lparr>stamp_ps = 0, frame_id_ps = ''map'', pos_x = x, pos_y = y, pos_z = zero, ori_x = zero, ori_y = zero,
      ori_z = sin_d tr half, ori_w = cos_d tr half\<rparr>)"

definition csv_pose :: "trig \<Rightarrow> string \<Rightarrow> PoseStamped option" where
  "csv_pose tr line =
    (if line = [] then None
     else case getline comma line of None \<Rightarrow> None
     | Some (sx, r1) \<Rightarrow> (case getline comma r1 of None \<Rightarrow> None
     | Some (sy, r2) \<Rightarrow>
         let syaw = (case getline comma r2 of None \<Rightarrow> ''0.0'' | Some (t, r3) \<Rightarrow> t) in
         case (stod sx, stod sy, stod syaw) of
           (Inr x, Inr y, Inr yaw) \<Rightarrow> Some (yaw_pose tr x y yaw)
         | _ \<Rightarrow> None))"

definition loadCSV :: "trig \<Rightarrow> file_system \<Rightarrow> string \<Rightarrow> PoseStamped list \<Rightarrow> bool \<times> PoseStamped list \<times> string" where
  "loadCSV tr fs path out =
    (case fs path of
       None \<Rightarrow> (False, out, ''cannot open file: '' @ path)
     | Some content \<Rightarrow> (True, out @ List.map_filter (csv_pose tr) (lines_of newline content), []))"

section \<open>WaypointSave\<close>

text \<open>
  \<open>onSave\<close>: \<open>lookup\<close> is the transform of the robot in the map or the text of the exception, \<open>yaw_of\<close> the yaw
  that \<open>getRPY\<close> extracts from a rotation, \<open>can_append\<close> whether the file can be opened for appending.
\<close>

definition onSave ::
  "(string + fp \<times> fp \<times> 'rot) \<Rightarrow> ('rot \<Rightarrow> fp) \<Rightarrow> bool \<Rightarrow> string \<Rightarrow> file_system \<Rightarrow> (bool \<times> string) \<times> file_system" where
  "onSave lookup yaw_of can_append file_path fs =
    (case lookup of
       Inl what \<Rightarrow> ((False, ''TF lookup failed: '' @ what), fs)
     | Inr (x, y, q) \<Rightarrow>
         if \<not> can_append then ((False, ''Fail to open file for append: '' @ file_path), fs)
         else ((True, ''save waypoint''),
           fs(file_path \<mapsto> (case fs file_path of None \<Rightarrow> [] | Some s \<Rightarrow> s) @
              print_fixed x @ [comma] @ print_fixed y @ [comma] @ print_fixed (yaw_of q) @ [newline])))"

section \<open>DoosanWaypointFollow\<close>

datatype goal_response = GoalAccepted | GoalRejected

text \<open>The loader of this class, a copy of the one above that also counts lines.\<close>

fun follow_lines :: "trig \<Rightarrow> string list \<Rightarrow> nat \<Rightarrow> PoseStamped list \<Rightarrow> nat \<times> PoseStamped list" where
  "follow_lines tr [] line_no out = (line_no, out)"
| "follow_lines tr (l # ls) line_no out =
    follow_lines tr ls (line_no + 1) (case csv_pose tr l of None \<Rightarrow> out | Some p \<Rightarrow> out @ [p])"

definition follow_loadCSV :: "trig \<Rightarrow> file_system \<Rightarrow> string \<Rightarrow> PoseStamped list \<Rightarrow> bool \<times> PoseStamped list \<times> string" where
  "follow_loadCSV tr fs path out =
    (case fs path of
       None \<Rightarrow> (False, out, ''cannot open file: '' @ path)
     | Some content \<Rightarrow> (True, snd (follow_lines tr (lines_of newline content) 0 out), []))"

text \<open>
  The service \<open>run_waypoints\<close>: the response of the server while the handler waits is \<open>response\<close>, \<open>None\<close>
  when none arrives in time. Waiting without a timeout for a response that never comes does not return
  (\<open>None\<close>). The result is the goal that was sent, if any, and the answer of the service.
\<close>

definition run_waypoints ::
  "trig \<Rightarrow> file_system \<Rightarrow> bool \<Rightarrow> goal_response option \<Rightarrow> fp \<Rightarrow> string
    \<Rightarrow> (PoseStamped list option \<times> bool \<times> string) option" where
  "run_waypoints tr fs server_ready response goal_timeout_sec file_path =
    (if \<not> server_ready then Some (None, False, ''follow_waypoints action server not available'')
     else let (ok, waypoints, msg) = follow_loadCSV tr fs file_path [] in
       if \<not> ok then Some (None, False, ''Failed to load waypoints: '' @ msg)
       else if waypoints = [] then Some (None, False, ''No waypoints in file'')
       else case response of
         None \<Rightarrow>
           if flt (flit B64 0) goal_timeout_sec
           then Some (Some waypoints, False, ''Timeout waiting for goal acceptance'')
           else None
       | Some GoalRejected \<Rightarrow> Some (Some waypoints, False, ''Goal was rejected by server'')
       | Some GoalAccepted \<Rightarrow> Some (Some waypoints, True, ''Goal accepted. Following waypoints...''))"

section \<open>Properties of the files\<close>

lemma follow_lines_filter:
  "snd (follow_lines tr ls n out) = out @ List.map_filter (csv_pose tr) ls"
  by (induction ls arbitrary: n out) (auto simp: map_filter_simps split: option.splits)

lemma follow_loadCSV_eq: "follow_loadCSV tr fs path out = loadCSV tr fs path out"
  by (simp add: follow_loadCSV_def loadCSV_def follow_lines_filter split: option.splits)

lemma lines_of_append:
  "s = [] \<or> last s = d \<Longrightarrow> lines_of d (s @ t) = lines_of d s @ lines_of d t"
proof (induction "length s" arbitrary: s rule: less_induct)
  case less
  show ?case
  proof (cases "s = []")
    case False
    with less.prems have "d \<in> set s" by auto
    then obtain l rest where s: "s = l @ d # rest" "d \<notin> set l" by (meson split_list_first)
    then have "rest = [] \<or> last rest = d" using less.prems by (auto split: if_splits)
    then have "lines_of d (rest @ t) = lines_of d rest @ lines_of d t" using less.hyps [of rest] s(1) by simp
    then show ?thesis using lines_of_line [OF s(2), of "rest @ t"] lines_of_line [OF s(2), of rest] s(1) by simp
  qed simp
qed

lemma print_fixed_chars:
  assumes "c \<in> set (print_fixed (Fin s m))"
  shows "45 \<le> char_code c" "char_code c \<le> 57"
proof -
  have "c = CHR ''-'' \<or> c \<in> set (print_magnitude (nat (round_even (m * 1000000))))"
    using assms by (auto simp: print_fixed_def print_magnitude_def Let_def simp del: digits_n.simps split: if_splits)
  then have "45 \<le> char_code c \<and> char_code c \<le> 57"
    using print_magnitude_codes [of "nat (round_even (m * 1000000))"] code_consts(2) by fastforce
  then show "45 \<le> char_code c" "char_code c \<le> 57" by simp_all
qed

lemma getline_field:
  assumes "d \<notin> set l"
  shows "getline d (l @ d # rest) = Some (l, rest)" "l \<noteq> [] \<Longrightarrow> getline d l = Some (l, [])"
proof -
  have "takeWhile (\<lambda>c. c \<noteq> d) (l @ d # rest) = l" "dropWhile (\<lambda>c. c \<noteq> d) (l @ d # rest) = d # rest"
    "takeWhile (\<lambda>c. c \<noteq> d) l = l" "dropWhile (\<lambda>c. c \<noteq> d) l = []"
    using assms by (induction l) auto
  then show "getline d (l @ d # rest) = Some (l, rest)" "l \<noteq> [] \<Longrightarrow> getline d l = Some (l, [])"
    unfolding getline_def by (simp_all del: dropWhile_eq_Nil_conv takeWhile_eq_all_conv)
qed

text \<open>A coordinate that is saved and loaded again: finite, of at most a million in magnitude.\<close>

definition coordinate_ok :: "fp \<Rightarrow> bool" where
  "coordinate_ok x = (is_fin x \<and> fp_wf B64 x \<and> \<bar>fval x\<bar> \<le> 1000000)"

definition saved_line :: "fp \<Rightarrow> fp \<Rightarrow> fp \<Rightarrow> string" where
  "saved_line x y yaw = print_fixed x @ [comma] @ print_fixed y @ [comma] @ print_fixed yaw"

lemma coordinate_okE:
  assumes "coordinate_ok x"
  obtains s m where "x = Fin s m" "0 \<le> m" "m \<le> 1000000"
proof -
  obtain s m where x: "x = Fin s m" using assms by (cases x) (auto simp: coordinate_ok_def)
  moreover have "0 \<le> m" using assms x by (simp add: coordinate_ok_def)
  ultimately show ?thesis using assms by (intro that) (auto simp: coordinate_ok_def)
qed

lemma stod_coordinate:
  assumes "coordinate_ok x"
  obtains x' where "stod (print_fixed x) = Inr x'" "is_fin x'" "\<bar>fval x' - fval x\<bar> \<le> 1 / 1000000"
proof -
  obtain s m where x: "x = Fin s m" "0 \<le> m" "m \<le> 1000000" by (rule coordinate_okE [OF assms])
  let ?q = "of_nat (nat (round_even (m * 1000000))) / 1000000 :: rat"
  have "m \<le> pow2 90" using x(3) by simp
  note st = stod_print [OF x(2) this]
  have q: "0 \<le> ?q" "?q \<le> 1000001" using st(2) x(3) by (simp, linarith)
  have p: "is_fin (pack B64 s ?q)" "\<bar>fval (pack B64 s ?q) - sgn_val s ?q\<bar> \<le> 1 / 4000000"
    using fval_pack_error [OF q, of B64 "1 / 4000000"] by (simp_all add: pow2_def)
  have d: "\<bar>sgn_val s ?q - sgn_val s m\<bar> \<le> 1 / 2000000"
    using st(2) unfolding sgn_val_def by (auto simp: abs_minus_commute)
  show ?thesis
  proof (rule that)
    show "stod (print_fixed x) = Inr (pack B64 s ?q)" unfolding x(1) by (rule st(1))
    have "fval x = sgn_val s m" by (simp add: x(1))
    then show "\<bar>fval (pack B64 s ?q) - fval x\<bar> \<le> 1 / 1000000" using p(2) d by linarith
  qed (rule p(1))
qed

lemma print_fixed_free:
  assumes "coordinate_ok x"
  shows "comma \<notin> set (print_fixed x)" "newline \<notin> set (print_fixed x)" "print_fixed x \<noteq> []"
proof -
  obtain s m where x: "x = Fin s m" by (rule coordinate_okE [OF assms])
  show "comma \<notin> set (print_fixed x)" "newline \<notin> set (print_fixed x)"
    using print_fixed_chars(1) [of comma s m] print_fixed_chars(1) [of newline s m] code_consts(8,9)
    unfolding x comma_def newline_def by linarith+
  show "print_fixed x \<noteq> []" unfolding x by (simp add: print_fixed_def Let_def)
qed

lemma csv_pose_saved:
  assumes "coordinate_ok x" "coordinate_ok y" "coordinate_ok yaw"
    and "stod (print_fixed x) = Inr x'" "stod (print_fixed y) = Inr y'" "stod (print_fixed yaw) = Inr yaw'"
  shows "csv_pose tr (saved_line x y yaw) = Some (yaw_pose tr x' y' yaw')"
  using assms(4-6) print_fixed_free(3) [OF assms(1)] getline_field(2) [OF print_fixed_free(1,3) [OF assms(3)]]
  unfolding csv_pose_def saved_line_def
  by (simp add: getline_field(1) [OF print_fixed_free(1)] assms)

text \<open>
  C29: a waypoint that is saved is loaded again. Saving a pose with finite coordinates up to a million
  into a file that is new, empty or ends in a newline leaves everything that was loaded from the file
  before as it is and adds one waypoint, in the map frame, whose position differs from the saved one by
  at most a millionth per coordinate and whose orientation belongs to a yaw within a millionth.
\<close>

theorem saved_waypoint_loads:
  assumes "coordinate_ok x" "coordinate_ok y" "coordinate_ok (yaw_of q)"
    and "fs path = None \<or> (\<exists>s. fs path = Some s \<and> (s = [] \<or> last s = newline))"
    and "onSave (Inr (x, y, q)) yaw_of True path fs = (answer, fs')"
  shows "\<exists>x' y' yaw'. loadCSV tr fs' path out =
      (True, fst (snd (loadCSV tr fs path out)) @ [yaw_pose tr x' y' yaw'], []) \<and> fst answer \<and>
    \<bar>fval x' - fval x\<bar> \<le> 1 / 1000000 \<and> \<bar>fval y' - fval y\<bar> \<le> 1 / 1000000 \<and>
    \<bar>fval yaw' - fval (yaw_of q)\<bar> \<le> 1 / 1000000 \<and> (\<forall>other. other \<noteq> path \<longrightarrow> fs' other = fs other)"
proof -
  obtain x' where x': "stod (print_fixed x) = Inr x'" "\<bar>fval x' - fval x\<bar> \<le> 1 / 1000000"
    by (rule stod_coordinate [OF assms(1)])
  obtain y' where y': "stod (print_fixed y) = Inr y'" "\<bar>fval y' - fval y\<bar> \<le> 1 / 1000000"
    by (rule stod_coordinate [OF assms(2)])
  obtain yaw' where yaw': "stod (print_fixed (yaw_of q)) = Inr yaw'" "\<bar>fval yaw' - fval (yaw_of q)\<bar> \<le> 1 / 1000000"
    by (rule stod_coordinate [OF assms(3)])
  let ?s = "case fs path of None \<Rightarrow> [] | Some s \<Rightarrow> s" and ?l = "saved_line x y (yaw_of q)"
  have fs': "fs' = fs(path \<mapsto> ?s @ ?l @ [newline])" "fst answer"
    using assms(5) by (auto simp: onSave_def saved_line_def)
  have "newline \<noteq> comma" by (simp add: newline_def comma_def)
  then have "newline \<notin> set ?l"
    using print_fixed_free(2) [OF assms(1)] print_fixed_free(2) [OF assms(2)] print_fixed_free(2) [OF assms(3)]
    by (simp add: saved_line_def)
  then have one: "lines_of newline (?l @ [newline]) = [?l]" using lines_of_line [of newline ?l "[]"] by simp
  have "?s = [] \<or> last ?s = newline" using assms(4) by (auto split: option.splits)
  then have "lines_of newline (?s @ ?l @ [newline]) = lines_of newline ?s @ [?l]" using one by (simp only: lines_of_append)
  then have "loadCSV tr fs' path out =
      (True, fst (snd (loadCSV tr fs path out)) @ [yaw_pose tr x' y' yaw'], [])"
    using csv_pose_saved [OF assms(1-3) x'(1) y'(1) yaw'(1), of tr]
    by (auto simp: loadCSV_def fs'(1) List.map_filter_def split: option.splits)
  then show ?thesis using x' y' yaw' fs' by auto
qed

theorem saved_waypoint_loads_witness:
  "\<exists>x' y' yaw'. loadCSV \<lparr>cos_d = (\<lambda>v. v), sin_d = (\<lambda>v. v)\<rparr>
      (snd (onSave (Inr (fint B64 1, fint B64 2, ())) (\<lambda>q. fint B64 0) True ''w.csv'' Map.empty)) ''w.csv'' [] =
      (True, [yaw_pose \<lparr>cos_d = (\<lambda>v. v), sin_d = (\<lambda>v. v)\<rparr> x' y' yaw'], []) \<and> \<bar>fval x' - 1\<bar> \<le> 1 / 1000000"
proof -
  have "coordinate_ok (fint B64 1)" "coordinate_ok (fint B64 2)" "coordinate_ok (fint B64 0)" "fval (fint B64 1) = 1"
    using fint_value [of 1 B64] fint_value [of 2 B64] fint_value [of 0 B64] by (simp_all add: coordinate_ok_def)
  then show ?thesis
    using saved_waypoint_loads [of "fint B64 1" "fint B64 2" "\<lambda>q. fint B64 0" "()" Map.empty "''w.csv''"
        "fst (onSave (Inr (fint B64 1, fint B64 2, ())) (\<lambda>q. fint B64 0) True ''w.csv'' Map.empty)"
        "snd (onSave (Inr (fint B64 1, fint B64 2, ())) (\<lambda>q. fint B64 0) True ''w.csv'' Map.empty)"
        "\<lparr>cos_d = (\<lambda>v. v), sin_d = (\<lambda>v. v)\<rparr>" "[]"]
    by (auto simp: loadCSV_def)
qed

end
