(* ===== verification/Waypoint_Runner.thy ===== *)
theory Waypoint_Runner
  imports Waypoint_Csv
begin

text \<open>
  \<open>waypoint_runner.cpp\<close>: the node that runs, pauses and continues waypoint scenarios through the action
  server of the navigation stack. Its service handler runs on one thread, the callbacks of the action
  client on others. A run of the node is a sequence of service requests and callbacks; while a
  \<open>CONTINUE\<close> request waits for a cancellation, callbacks run in between (the lists of \<open>polls\<close>). Goals
  sent, cancellations requested and states published are logs. Times are nanoseconds of the steady
  clock; arithmetic on \<open>int\<close> is checked for overflow.
\<close>

section \<open>State\<close>

datatype RunState = Idle | Running | Pausing | Paused

datatype ResultCode = SUCCEEDED | ABORTED | CANCELED | UNKNOWN_RESULT

record Runner =
  run_state :: RunState
  waypoint_one_file_path :: string
  waypoint_two_file_path :: string
  waypoint_three_file_path :: string
  waypoint_four_file_path :: string
  waypoint_five_file_path :: string
  current_waypoint :: int
  paused_waypoint :: int
  last_scene :: int
  base_start_idx :: int
  local_wp_idx :: int
  last_goal_size :: int
  cancel_in_flight :: bool
  cancel_done :: bool
  last_req_tp :: int
  last_req_kind :: int
  current_goal :: "nat option"
  goals_sent :: "PoseStamped list list"
  cancels :: "nat list"
  published :: "u8 list"

text \<open>Constants of \<open>WaypointTask.srv\<close>; \<open>CANCEL\<close> (6) has no case in the handler.\<close>

definition ONE_GO :: int where "ONE_GO = 1"
definition TWO_GO :: int where "TWO_GO = 2"
definition THREE_GO :: int where "THREE_GO = 3"
definition FOUR_GO :: int where "FOUR_GO = 4"
definition FIVE_GO :: int where "FIVE_GO = 5"
definition PAUSE :: int where "PAUSE = 7"
definition CONTINUE :: int where "CONTINUE = 8"

lemmas scene_defs = ONE_GO_def TWO_GO_def THREE_GO_def FOUR_GO_def FIVE_GO_def PAUSE_def CONTINUE_def

definition i32_of :: "int \<Rightarrow> int res" where
  "i32_of n = (if - (2 ^ 31) \<le> n \<and> n < 2 ^ 31 then Inr n else Inl SignedOverflow)"

text \<open>\<open>static_cast<int>(v.size())\<close>\<close>

definition int_size :: "'a list \<Rightarrow> int" where
  "int_size v = sint (word_of_int (int (length v)) :: i32)"

definition WaypointRunner :: "string \<Rightarrow> string \<Rightarrow> string \<Rightarrow> string \<Rightarrow> string \<Rightarrow> Runner" where
  "WaypointRunner p1 p2 p3 p4 p5 =
    \<lparr>run_state = Idle, waypoint_one_file_path = p1, waypoint_two_file_path = p2, waypoint_three_file_path = p3,
     waypoint_four_file_path = p4, waypoint_five_file_path = p5, current_waypoint = - 1, paused_waypoint = - 1,
     last_scene = - 1, base_start_idx = 0, local_wp_idx = - 1, last_goal_size = 0, cancel_in_flight = False,
     cancel_done = True, last_req_tp = 0, last_req_kind = - 1, current_goal = None, goals_sent = [], cancels = [],
     published = []\<rparr>"

section \<open>Helpers of the service handler\<close>

definition sliceFrom :: "'a list \<Rightarrow> int \<Rightarrow> 'a list" where
  "sliceFrom v start_idx =
    (let start = (if start_idx < 0 then 0 else start_idx) in
     if int_size v \<le> start then [] else drop (nat start) v)"

definition sendWaypointsGoal :: "PoseStamped list \<Rightarrow> int \<Rightarrow> Runner \<Rightarrow> Runner" where
  "sendWaypointsGoal waypoints base_idx r =
    (if waypoints = [] then r
     else r\<lparr>base_start_idx := base_idx, local_wp_idx := - 1, last_goal_size := int_size waypoints,
            goals_sent := goals_sent r @ [waypoints]\<rparr>)"

definition debounce :: "int \<Rightarrow> int \<Rightarrow> int \<Rightarrow> Runner \<Rightarrow> bool \<times> Runner" where
  "debounce kind ms now r =
    (if kind = last_req_kind r \<and> (now - last_req_tp r) div 1000000 < ms then (True, r)
     else (False, r\<lparr>last_req_kind := kind, last_req_tp := now\<rparr>))"

text \<open>The file of a scenario.\<close>

definition scene_path :: "Runner \<Rightarrow> int \<Rightarrow> string option" where
  "scene_path r scene =
    (if scene = ONE_GO then Some (waypoint_one_file_path r)
     else if scene = TWO_GO then Some (waypoint_two_file_path r)
     else if scene = THREE_GO then Some (waypoint_three_file_path r)
     else if scene = FOUR_GO then Some (waypoint_four_file_path r)
     else if scene = FIVE_GO then Some (waypoint_five_file_path r)
     else None)"

section \<open>Callbacks of the action client\<close>

datatype action_event =
    GoalResponse "nat option"   \<comment> \<open>the goal handle, or none when the goal was rejected\<close>
  | Feedback u32
  | Result ResultCode

definition goalResponseCallback :: "nat option \<Rightarrow> Runner \<Rightarrow> Runner" where
  "goalResponseCallback handle r =
    (case handle of
       None \<Rightarrow> r\<lparr>published := published r @ [11]\<rparr>
     | Some h \<Rightarrow> r\<lparr>current_goal := Some h, run_state := Running, published := published r @ [10]\<rparr>)"

definition feedbackCallback :: "u32 \<Rightarrow> Runner \<Rightarrow> Runner" where
  "feedbackCallback w r = r\<lparr>local_wp_idx := sint w, current_waypoint := sint w\<rparr>"

definition last_completed :: "ResultCode \<Rightarrow> Runner \<Rightarrow> int res" where
  "last_completed code r =
    (if code = SUCCEEDED then res_bind (i32_of (last_goal_size r - 1)) (\<lambda>k. i32_of (base_start_idx r + max k 0))
     else res_bind (i32_of (local_wp_idx r - 1)) (\<lambda>k. i32_of (base_start_idx r + max k (- 1))))"

definition resultCallback :: "ResultCode \<Rightarrow> Runner \<Rightarrow> Runner res" where
  "resultCallback code r =
     res_bind (last_completed code r) (\<lambda>done_idx.
       let p = max (paused_waypoint r) done_idx in
       Inr (case code of
          SUCCEEDED \<Rightarrow> r\<lparr>paused_waypoint := p, cancel_in_flight := False, cancel_done := True, run_state := Idle,
                         published := published r @ [20]\<rparr>
        | ABORTED \<Rightarrow> r\<lparr>paused_waypoint := p, current_goal := None, cancel_in_flight := False, cancel_done := True,
                       run_state := Paused, published := published r @ [21]\<rparr>
        | CANCELED \<Rightarrow> r\<lparr>paused_waypoint := p, current_goal := None, cancel_in_flight := False, cancel_done := True,
                        run_state := Paused, published := published r @ [22]\<rparr>
        | UNKNOWN_RESULT \<Rightarrow> r\<lparr>published := published r @ [30]\<rparr>))"

definition action_callback :: "action_event \<Rightarrow> Runner \<Rightarrow> Runner res" where
  "action_callback ev r =
    (case ev of
       GoalResponse h \<Rightarrow> Inr (goalResponseCallback h r)
     | Feedback w \<Rightarrow> Inr (feedbackCallback w r)
     | Result code \<Rightarrow> resultCallback code r)"

fun action_callbacks :: "action_event list \<Rightarrow> Runner \<Rightarrow> Runner res" where
  "action_callbacks [] r = Inr r"
| "action_callbacks (ev # evs) r = res_bind (action_callback ev r) (action_callbacks evs)"

section \<open>Service handler\<close>

text \<open>
  The wait of \<open>CONTINUE\<close> for a cancellation to finish, at most ten times 100 ms; during each sleep the
  callbacks of the next list run.
\<close>

fun cancel_wait :: "nat \<Rightarrow> action_event list list \<Rightarrow> Runner \<Rightarrow> Runner res" where
  "cancel_wait 0 polls r = Inr r"
| "cancel_wait (Suc i) polls r =
    (if cancel_in_flight r \<and> \<not> cancel_done r then
       (case polls of
          [] \<Rightarrow> cancel_wait i [] r
        | evs # rest \<Rightarrow> res_bind (action_callbacks evs r) (cancel_wait i rest))
     else Inr r)"

definition task_start :: "trig \<Rightarrow> file_system \<Rightarrow> int \<Rightarrow> string \<Rightarrow> Runner \<Rightarrow> bool \<times> Runner" where
  "task_start tr fs scene path r =
    (let (ok, waypoints, msg) = loadCSV tr fs path [];
         r1 = (if ok then r\<lparr>last_scene := scene\<rparr> else r)\<lparr>paused_waypoint := - 1\<rparr> in
     if \<not> ok then (False, r1)
     else if waypoints = [] then (False, r1)
     else (True, sendWaypointsGoal waypoints 0 (r1\<lparr>current_goal := None\<rparr>)))"

definition task_pause :: "Runner \<Rightarrow> bool \<times> Runner" where
  "task_pause r =
    (if run_state r \<noteq> Running then (False, r)
     else case current_goal r of
       Some h \<Rightarrow> (True, r\<lparr>cancel_in_flight := True, cancel_done := False, run_state := Pausing,
                        cancels := cancels r @ [h]\<rparr>)
     | None \<Rightarrow> (False, r))"

definition task_continue :: "trig \<Rightarrow> file_system \<Rightarrow> action_event list list \<Rightarrow> Runner \<Rightarrow> (bool \<times> Runner) res" where
  "task_continue tr fs polls r =
     res_bind (cancel_wait 10 polls r) (\<lambda>r1.
       if run_state r1 \<noteq> Paused then Inr (False, r1)
       else case scene_path r1 (last_scene r1) of
         None \<Rightarrow> Inr (False, r1)
       | Some path \<Rightarrow>
           (let (ok, all, msg) = loadCSV tr fs path [] in
            if \<not> ok \<or> all = [] then Inr (False, r1)
            else res_bind (i32_of (paused_waypoint r1 + 1)) (\<lambda>k.
              let resume_idx = max 0 k; remain = sliceFrom all resume_idx in
              if remain = [] then Inr (True, r1)
              else Inr (True, sendWaypointsGoal remain resume_idx (r1\<lparr>current_goal := None\<rparr>)))))"

definition setTask ::
  "trig \<Rightarrow> file_system \<Rightarrow> bool \<Rightarrow> int \<Rightarrow> action_event list list \<Rightarrow> int \<Rightarrow> Runner \<Rightarrow> (bool \<times> Runner) res" where
  "setTask tr fs server_ready now polls scene r =
    (if \<not> server_ready then Inr (False, r)
     else let kind = (if scene = PAUSE then 1 else if scene = CONTINUE then 2 else 0);
              (drop, r1) = debounce kind 200 now r in
       if drop then Inr (False, r1)
       else case scene_path r1 scene of
         Some path \<Rightarrow> Inr (task_start tr fs scene path r1)
       | None \<Rightarrow>
           if scene = PAUSE then Inr (task_pause r1)
           else if scene = CONTINUE then task_continue tr fs polls r1
           else Inr (False, r1))"

section \<open>Runs of the node\<close>

record Request =
  req_fs :: file_system
  req_ready :: bool
  req_now :: int
  req_polls :: "action_event list list"
  req_scene :: int

datatype runner_event = Service Request | Action action_event

fun runner_step :: "trig \<Rightarrow> runner_event \<Rightarrow> Runner \<Rightarrow> Runner res" where
  "runner_step tr (Service q) r =
     res_bind (setTask tr (req_fs q) (req_ready q) (req_now q) (req_polls q) (req_scene q) r) (\<lambda>(answer, r'). Inr r')"
| "runner_step tr (Action ev) r = action_callback ev r"

fun runner_run :: "trig \<Rightarrow> runner_event list \<Rightarrow> Runner \<Rightarrow> Runner res" where
  "runner_run tr [] r = Inr r"
| "runner_run tr (ev # evs) r = res_bind (runner_step tr ev r) (runner_run tr evs)"

end
