(* ===== verification/Waypoint_Runner_Theorems.thy ===== *)
theory Waypoint_Runner_Theorems
  imports Waypoint_Runner
begin

text \<open>
  Properties of the waypoint runner: an invariant of its flags and indices along every run, what the
  goals are that it sends, that pausing and continuing resumes at the waypoint that was being
  approached, and what a late result of a replaced goal does.
\<close>

section \<open>Invariant\<close>

definition poses_of :: "trig \<Rightarrow> file_system \<Rightarrow> string \<Rightarrow> PoseStamped list" where
  "poses_of tr fs path = fst (snd (loadCSV tr fs path []))"

text \<open>Scenarios and feedback stay below a billion, so that sums of two indices fit an \<open>int\<close>.\<close>

definition action_ok :: "action_event \<Rightarrow> bool" where
  "action_ok ev = (case ev of Feedback w \<Rightarrow> w \<le> 1000000000 | _ \<Rightarrow> True)"

definition runner_event_ok :: "trig \<Rightarrow> runner_event \<Rightarrow> bool" where
  "runner_event_ok tr ev =
    (case ev of
       Service q \<Rightarrow> (\<forall>path. length (poses_of tr (req_fs q) path) \<le> 1000000000) \<and> list_all (list_all action_ok) (req_polls q)
     | Action a \<Rightarrow> action_ok a)"

definition runner_inv :: "Runner \<Rightarrow> bool" where
  "runner_inv r =
    ((cancel_done r \<longleftrightarrow> \<not> cancel_in_flight r) \<and> (run_state r = Pausing \<longrightarrow> cancel_in_flight r) \<and>
     (run_state r = Paused \<longrightarrow> \<not> cancel_in_flight r) \<and>
     - 1 \<le> paused_waypoint r \<and> paused_waypoint r \<le> 2000000000 \<and>
     0 \<le> base_start_idx r \<and> base_start_idx r \<le> 1000000000 \<and>
     - 1 \<le> local_wp_idx r \<and> local_wp_idx r \<le> 1000000000 \<and>
     0 \<le> last_goal_size r \<and> last_goal_size r \<le> 1000000000 \<and> list_all (\<lambda>g. g \<noteq> []) (goals_sent r))"

lemma runner_inv_new: "runner_inv (WaypointRunner p1 p2 p3 p4 p5)"
  by (simp add: runner_inv_def WaypointRunner_def)

lemma sint_uint_small: "uint (w :: u32) \<le> 1000000000 \<Longrightarrow> sint w = uint w"
  using signed_take_bit_int_eq_self [of 31 "uint w"] uint_ge_0 [of w] by (simp add: sint_uint)

lemma int_size_eq: "length v \<le> 1000000000 \<Longrightarrow> int_size v = int (length v)"
proof -
  assume "length v \<le> 1000000000"
  then have "uint (word_of_int (int (length v)) :: i32) = int (length v)" by (simp only: uint_word_of_int) simp
  then show ?thesis using \<open>length v \<le> 1000000000\<close> sint_uint_small by (simp add: int_size_def)
qed

lemma sint_small: "(w :: u32) \<le> 1000000000 \<Longrightarrow> 0 \<le> sint w \<and> sint w \<le> 1000000000"
  using sint_uint_small [of w] by (simp add: word_le_def)

lemma last_completed_bounds:
  assumes "runner_inv r"
  obtains k where "last_completed code r = Inr k" "- 1 \<le> k" "k \<le> 2000000000"
    "code \<noteq> SUCCEEDED \<Longrightarrow> k = base_start_idx r + max (local_wp_idx r - 1) (- 1)"
proof (cases "code = SUCCEEDED")
  case True
  then show ?thesis
    using assms by (intro that [of "base_start_idx r + max (last_goal_size r - 1) 0"])
      (auto simp: last_completed_def i32_of_def runner_inv_def)
next
  case False
  then show ?thesis
    using assms by (intro that [of "base_start_idx r + max (local_wp_idx r - 1) (- 1)"])
      (auto simp: last_completed_def i32_of_def runner_inv_def)
qed

definition same_logs :: "Runner \<Rightarrow> Runner \<Rightarrow> bool" where
  "same_logs r r' = (goals_sent r' = goals_sent r \<and> cancels r' = cancels r \<and> last_scene r' = last_scene r \<and>
     (\<forall>scene. scene_path r' scene = scene_path r scene))"

lemma same_logs_refl [simp]: "same_logs r r"
  by (simp add: same_logs_def)

lemma same_logs_trans: "same_logs a b \<Longrightarrow> same_logs b c \<Longrightarrow> same_logs a c"
  by (simp add: same_logs_def)

lemma action_callback_inv:
  assumes "runner_inv r" "action_ok ev"
  shows "\<exists>r'. action_callback ev r = Inr r' \<and> runner_inv r' \<and> same_logs r r'"
proof (cases ev)
  case (GoalResponse h)
  then show ?thesis
    using assms by (auto simp: action_callback_def goalResponseCallback_def runner_inv_def same_logs_def scene_path_def
      split: option.splits)
next
  case (Feedback w)
  then show ?thesis
    using assms sint_small [of w]
    by (auto simp: action_callback_def feedbackCallback_def runner_inv_def same_logs_def scene_path_def action_ok_def)
next
  case (Result code)
  obtain k where k: "last_completed code r = Inr k" "- 1 \<le> k" "k \<le> 2000000000"
    by (rule last_completed_bounds [OF assms(1)])
  then show ?thesis
    using assms Result
    by (cases code) (auto simp: action_callback_def resultCallback_def runner_inv_def same_logs_def scene_path_def Let_def max_def)
qed

lemma action_callbacks_inv:
  assumes "runner_inv r" "list_all action_ok evs"
  shows "\<exists>r'. action_callbacks evs r = Inr r' \<and> runner_inv r' \<and> same_logs r r'"
  using assms
proof (induction evs arbitrary: r)
  case (Cons ev evs)
  then obtain r1 where "action_callback ev r = Inr r1" "runner_inv r1" "same_logs r r1"
    using action_callback_inv [of r ev] by auto
  then show ?case using Cons.IH [of r1] Cons.prems(2) same_logs_trans by fastforce
qed simp

lemma cancel_wait_inv:
  assumes "runner_inv r" "list_all (list_all action_ok) polls"
  shows "\<exists>r'. cancel_wait i polls r = Inr r' \<and> runner_inv r' \<and> same_logs r r'"
  using assms
proof (induction i polls r rule: cancel_wait.induct)
  case (2 i polls r)
  show ?case
  proof (cases "cancel_in_flight r \<and> \<not> cancel_done r")
    case True
    show ?thesis
    proof (cases polls)
      case (Cons evs rest)
      then obtain r1 where r1: "action_callbacks evs r = Inr r1" "runner_inv r1" "same_logs r r1"
        using action_callbacks_inv [of r evs] 2(3,4) by auto
      then show ?thesis using 2(2) [OF True Cons, of r1] 2(4) Cons True same_logs_trans by fastforce
    qed (use 2 True in simp)
  qed (use 2 in auto)
qed simp

section \<open>Requests\<close>

lemma loadCSV_cases:
  obtains "fs path = None" "loadCSV tr fs path [] = (False, [], ''cannot open file: '' @ path)" "poses_of tr fs path = []"
  | "loadCSV tr fs path [] = (True, poses_of tr fs path, [])"
  by (cases "fs path") (auto simp: loadCSV_def poses_of_def)

lemma sliceFrom_drop:
  assumes "0 \<le> k" "length v \<le> 1000000000"
  shows "sliceFrom v k = drop (nat k) v"
  using assms by (auto simp: sliceFrom_def int_size_eq)

text \<open>What a request may do to the log of goals: nothing, or append the rest of the current scenario.\<close>

definition sends_rest :: "trig \<Rightarrow> file_system \<Rightarrow> Runner \<Rightarrow> Runner \<Rightarrow> bool" where
  "sends_rest tr fs r r' =
    (\<exists>path g. scene_path r' (last_scene r') = Some path \<and> g = drop (nat (base_start_idx r')) (poses_of tr fs path) \<and>
       g \<noteq> [] \<and> goals_sent r' = goals_sent r @ [g] \<and> base_start_idx r' = paused_waypoint r' + 1 \<and> local_wp_idx r' = - 1)"

lemma scene_path_simps [simp]:
  "scene_path (r\<lparr>last_scene := a\<rparr>) = scene_path r" "scene_path (r\<lparr>paused_waypoint := b\<rparr>) = scene_path r"
  "scene_path (r\<lparr>current_goal := c\<rparr>) = scene_path r"
  "scene_path (r\<lparr>last_req_kind := d, last_req_tp := e\<rparr>) = scene_path r"
  by (auto simp: scene_path_def fun_eq_iff)

lemma send_inv:
  assumes "runner_inv r" "g \<noteq> []" "length g \<le> 1000000000" "0 \<le> base" "base \<le> 1000000000"
  shows "runner_inv (sendWaypointsGoal g base (r\<lparr>current_goal := None\<rparr>))"
    "scene_path (sendWaypointsGoal g base (r\<lparr>current_goal := None\<rparr>)) = scene_path r"
  using assms by (auto simp: sendWaypointsGoal_def runner_inv_def int_size_eq scene_path_def fun_eq_iff)

lemma task_start_inv:
  assumes "runner_inv r" "\<forall>path. length (poses_of tr fs path) \<le> 1000000000" "scene_path r scene = Some path"
    and "task_start tr fs scene path r = (answer, r')"
  shows "runner_inv r' \<and> (if answer then sends_rest tr fs r r' else goals_sent r' = goals_sent r)"
proof -
  let ?r = "r\<lparr>last_scene := scene, paused_waypoint := - 1\<rparr>"
  have inv: "runner_inv (r\<lparr>paused_waypoint := - 1\<rparr>)" "runner_inv ?r" using assms(1) by (auto simp: runner_inv_def)
  show ?thesis
  proof (rule loadCSV_cases [of fs path tr])
    assume "loadCSV tr fs path [] = (True, poses_of tr fs path, [])"
    then show ?thesis
      using assms inv send_inv [OF inv(2), of "poses_of tr fs path" 0]
      by (auto simp: task_start_def sends_rest_def sendWaypointsGoal_def Let_def split: if_splits)
  qed (use assms inv in \<open>auto simp: task_start_def Let_def\<close>)
qed

lemma task_continue_inv:
  assumes "runner_inv r" "\<forall>path. length (poses_of tr fs path) \<le> 1000000000" "list_all (list_all action_ok) polls"
  shows "\<exists>answer r'. task_continue tr fs polls r = Inr (answer, r') \<and> runner_inv r' \<and>
    (goals_sent r' = goals_sent r \<or> answer \<and> sends_rest tr fs r r')"
proof -
  obtain r1 where r1: "cancel_wait 10 polls r = Inr r1" "runner_inv r1" "same_logs r r1"
    using cancel_wait_inv [OF assms(1,3)] by blast
  show ?thesis
  proof (cases "run_state r1 \<noteq> Paused \<or> scene_path r1 (last_scene r1) = None")
    case True
    then show ?thesis using r1 by (auto simp: task_continue_def same_logs_def)
  next
    case False
    then obtain path where path: "scene_path r1 (last_scene r1) = Some path" "run_state r1 = Paused" by auto
    let ?k = "paused_waypoint r1 + 1" and ?all = "poses_of tr fs path"
    have k: "i32_of ?k = Inr ?k" "0 \<le> ?k" using r1(2) by (auto simp: runner_inv_def i32_of_def)
    have sl: "sliceFrom ?all ?k = drop (nat ?k) ?all" using sliceFrom_drop [OF k(2)] assms(2) by blast
    show ?thesis
    proof (rule loadCSV_cases [of fs path tr])
      assume load: "loadCSV tr fs path [] = (True, ?all, [])"
      show ?thesis
      proof (cases "drop (nat ?k) ?all = []")
        case False
        then have "?k \<le> 1000000000" "length (drop (nat ?k) ?all) \<le> 1000000000"
          using assms(2) [rule_format, of path] k(2) by auto
        with send_inv [OF r1(2) False _ k(2)] show ?thesis
          using r1 path load k sl False
          by (auto simp: task_continue_def sends_rest_def same_logs_def sendWaypointsGoal_def Let_def)
      qed (use r1 path load k sl in \<open>auto simp: task_continue_def same_logs_def\<close>)
    qed (use r1 path in \<open>auto simp: task_continue_def same_logs_def\<close>)
  qed
qed

lemma debounce_cases:
  "debounce kind ms now r = (True, r) \<or> debounce kind ms now r = (False, r\<lparr>last_req_kind := kind, last_req_tp := now\<rparr>)"
  by (simp add: debounce_def)

lemma setTask_inv:
  assumes "runner_inv r" "\<forall>path. length (poses_of tr fs path) \<le> 1000000000" "list_all (list_all action_ok) polls"
  shows "\<exists>answer r'. setTask tr fs ready now polls scene r = Inr (answer, r') \<and> runner_inv r' \<and>
    (goals_sent r' = goals_sent r \<or> answer \<and> sends_rest tr fs r r')"
proof -
  define kind :: int where "kind = (if scene = PAUSE then 1 else if scene = CONTINUE then 2 else 0)"
  let ?r = "r\<lparr>last_req_kind := kind, last_req_tp := now\<rparr>"
  have inv: "runner_inv ?r" using assms(1) by (simp add: runner_inv_def)
  have same: "goals_sent ?r = goals_sent r" by simp
  consider "\<not> ready \<or> debounce kind 200 now r = (True, r)" | "ready" "debounce kind 200 now r = (False, ?r)"
    using debounce_cases [of kind 200 now r] by blast
  then show ?thesis
  proof cases
    case 1
    then show ?thesis using assms(1) by (auto simp: setTask_def kind_def)
  next
    case 2
    show ?thesis
    proof (cases "scene_path ?r scene")
      case (Some path)
      obtain answer r' where t: "task_start tr fs scene path ?r = (answer, r')" by fastforce
      then show ?thesis
        using 2 Some task_start_inv [OF inv assms(2) Some t]
        by (auto simp: setTask_def kind_def sends_rest_def split: if_splits)
    next
      case None
      consider "scene = PAUSE" | "scene = CONTINUE" | "scene \<noteq> PAUSE" "scene \<noteq> CONTINUE" by blast
      then show ?thesis
      proof cases
        case 1
        then show ?thesis
          using 2(1) 2(2) None inv
          by (auto simp: setTask_def kind_def task_pause_def runner_inv_def split: option.splits)
      next
        case c: 2
        then show ?thesis
          using 2(1) 2(2) None task_continue_inv [OF inv assms(2,3)]
          by (auto simp: setTask_def kind_def sends_rest_def scene_defs)
      next
        case 3
        then show ?thesis using 2(1) 2(2) None inv by (auto simp: setTask_def kind_def)
      qed
    qed
  qed
qed

lemma runner_step_inv:
  assumes "runner_inv r" "runner_event_ok tr ev"
  shows "\<exists>r'. runner_step tr ev r = Inr r' \<and> runner_inv r'"
proof (cases ev)
  case (Service q)
  then show ?thesis
    using setTask_inv [OF assms(1), of tr "req_fs q" "req_polls q" "req_ready q" "req_now q" "req_scene q"] assms(2)
    by (auto simp: runner_event_ok_def)
next
  case (Action a)
  then show ?thesis using action_callback_inv [OF assms(1), of a] assms(2) by (auto simp: runner_event_ok_def)
qed

lemma cancel_wait_canceled:
  assumes "runner_inv r" "cancel_in_flight r" "j < i"
  shows "cancel_wait i (replicate j [] @ [[Result CANCELED]]) r =
    Inr (r\<lparr>paused_waypoint := max (paused_waypoint r) (base_start_idx r + max (local_wp_idx r - 1) (- 1)), current_goal := None,
      cancel_in_flight := False, cancel_done := True, run_state := Paused, published := published r @ [22]\<rparr>)"
  using assms(3)
proof (induction j arbitrary: i)
  case 0
  have k: "last_completed CANCELED r = Inr (base_start_idx r + max (local_wp_idx r - 1) (- 1))"
    by (rule last_completed_bounds [OF assms(1), of CANCELED]) simp
  obtain i' where "i = Suc i'" using 0 by (cases i) auto
  moreover have "\<not> cancel_done r" using assms(1,2) by (simp add: runner_inv_def)
  ultimately show ?case
    using assms(2) k by (cases i') (simp_all add: action_callback_def resultCallback_def)
next
  case (Suc j)
  then obtain i' where "i = Suc i'" "j < i'" by (cases i) auto
  moreover have "\<not> cancel_done r" using assms(1,2) by (simp add: runner_inv_def)
  ultimately show ?case using Suc.IH [of i'] assms(2) by simp
qed

section \<open>Properties\<close>

definition sample_line :: string where
  "sample_line = saved_line (fint B64 1) (fint B64 2) (fint B64 0)"

definition sample_fs :: file_system where
  "sample_fs = [''one.csv'' \<mapsto> sample_line @ newline # sample_line @ [newline]]"

definition sample_trig :: trig where
  "sample_trig = \<lparr>cos_d = (\<lambda>v. v), sin_d = (\<lambda>v. v)\<rparr>"




lemma poses_of_small: "length (poses_of tr fs path) \<le> 1000000000" if "\<And>s. fs path = Some s \<Longrightarrow> length (lines_of newline s) \<le> 1000000000"
  using that by (auto simp: poses_of_def loadCSV_def List.map_filter_def split: option.splits intro: order_trans [OF length_filter_le])

lemma sample_coordinates: "coordinate_ok (fint B64 1)" "coordinate_ok (fint B64 2)" "coordinate_ok (fint B64 0)"
  using fint_value [of 1 B64] fint_value [of 2 B64] fint_value [of 0 B64] by (simp_all add: coordinate_ok_def)

lemma sample_lines: "lines_of newline (sample_line @ newline # sample_line @ [newline]) = [sample_line, sample_line]"
proof -
  have "newline \<notin> set sample_line"
    using sample_coordinates [THEN print_fixed_free(2)] by (simp add: sample_line_def saved_line_def newline_def comma_def)
  then show ?thesis using lines_of_line [of newline sample_line] by simp
qed

lemma sample_poses: "length (poses_of sample_trig sample_fs ''one.csv'') = 2"
proof -
  obtain x y z where "stod (print_fixed (fint B64 1)) = Inr x" "stod (print_fixed (fint B64 2)) = Inr y"
    "stod (print_fixed (fint B64 0)) = Inr z"
    by (rule sample_coordinates [THEN stod_coordinate, rule_format]) (metis sample_coordinates stod_coordinate)
  then have "csv_pose sample_trig sample_line = Some (yaw_pose sample_trig x y z)"
    unfolding sample_line_def by (intro csv_pose_saved sample_coordinates)
  then show ?thesis by (simp add: poses_of_def loadCSV_def sample_fs_def sample_lines List.map_filter_def)
qed

lemma sample_small: "length (poses_of sample_trig sample_fs path) \<le> 1000000000"
  by (rule poses_of_small) (use sample_lines in \<open>auto simp: sample_fs_def split: if_splits\<close>)


text \<open>
  C19: pausing and continuing resumes at the waypoint that was being approached. While a goal runs whose
  feedback last named local waypoint \<open>k\<close> (none yet counts as 0), a pause request cancels it; a continue
  request made at once waits, and when the cancellation arrives within its ten waits, it sends the
  scenario from global index \<open>base + k\<close> on and answers with true.
\<close>

theorem pause_continue_resumes:
  assumes "runner_inv r" "run_state r = Running" "current_goal r = Some h" "scene_path r (last_scene r) = Some path"
    and "paused_waypoint r = base_start_idx r - 1" "length (poses_of tr fs path) \<le> 1000000000"
    and "nat (base_start_idx r + max (local_wp_idx r) 0) < length (poses_of tr fs path)"
    and "last_req_kind r \<noteq> 1" "j < 10"
  defines "n \<equiv> base_start_idx r + max (local_wp_idx r) 0"
  shows "\<exists>r1 r2. setTask tr fs True now [] PAUSE r = Inr (True, r1) \<and> cancels r1 = cancels r @ [h] \<and> run_state r1 = Pausing \<and>
    setTask tr fs True now' (replicate j [] @ [[Result CANCELED]]) CONTINUE r1 = Inr (True, r2) \<and>
    goals_sent r2 = goals_sent r @ [drop (nat n) (poses_of tr fs path)] \<and> base_start_idx r2 = n"
proof -
  let ?r1 = "r\<lparr>last_req_kind := 1, last_req_tp := now, cancel_in_flight := True, cancel_done := False, run_state := Pausing,
    cancels := cancels r @ [h]\<rparr>"
  have pause: "setTask tr fs True now [] PAUSE r = Inr (True, ?r1)"
    using assms(2,3,8) by (simp add: setTask_def debounce_def task_pause_def scene_path_def scene_defs)
  let ?r2 = "?r1\<lparr>last_req_kind := 2, last_req_tp := now'\<rparr>"
  have inv: "runner_inv ?r2" "cancel_in_flight ?r2" using assms(1) by (simp_all add: runner_inv_def)
  let ?p = "max (paused_waypoint ?r2) (base_start_idx ?r2 + max (local_wp_idx ?r2 - 1) (- 1))"
  let ?r3 = "?r2\<lparr>paused_waypoint := ?p, current_goal := None, cancel_in_flight := False, cancel_done := True,
    run_state := Paused, published := published ?r2 @ [22]\<rparr>"
  have wait: "cancel_wait 10 (replicate j [] @ [[Result CANCELED]]) ?r2 = Inr ?r3"
    by (rule cancel_wait_canceled [OF inv assms(9)])
  have p: "paused_waypoint ?r3 + 1 = n" "0 \<le> n" "i32_of n = Inr n"
    using assms(1,5) by (auto simp: n_def runner_inv_def i32_of_def)
  have "scene_path ?r3 scene = scene_path r scene" for scene by (simp add: scene_path_def)
  then have path: "scene_path ?r3 (last_scene ?r3) = Some path" using assms(4) by simp
  have load: "loadCSV tr fs path [] = (True, poses_of tr fs path, [])" "poses_of tr fs path \<noteq> []"
    using assms(7) by (rule_tac loadCSV_cases [of fs path tr], auto)
  have slice: "sliceFrom (poses_of tr fs path) n = drop (nat n) (poses_of tr fs path)" "drop (nat n) (poses_of tr fs path) \<noteq> []"
    using sliceFrom_drop [OF p(2) assms(6)] assms(7) by (simp_all add: n_def)
  have "task_continue tr fs (replicate j [] @ [[Result CANCELED]]) ?r2 =
      Inr (True, sendWaypointsGoal (drop (nat n) (poses_of tr fs path)) n (?r3\<lparr>current_goal := None\<rparr>))"
    unfolding task_continue_def wait res_bind_simps path option.case load(1)
    using load(2) p slice by (simp add: max_absorb2)
  moreover have "setTask tr fs True now' (replicate j [] @ [[Result CANCELED]]) CONTINUE ?r1 =
      task_continue tr fs (replicate j [] @ [[Result CANCELED]]) ?r2"
    by (simp add: setTask_def debounce_def scene_path_def scene_defs)
  ultimately show ?thesis
    using pause slice(2) by (auto simp: sendWaypointsGoal_def)
qed

definition sample_running :: Runner where
  "sample_running = (WaypointRunner ''one.csv'' ''b'' ''c'' ''d'' ''e'')
     \<lparr>run_state := Running, current_goal := Some 7, last_scene := 1, last_goal_size := 2, local_wp_idx := 1\<rparr>"

lemma sample_running: "runner_inv sample_running" "scene_path sample_running 1 = Some ''one.csv''"
  by (simp_all add: runner_inv_def sample_running_def WaypointRunner_def scene_path_def scene_defs)

theorem pause_continue_resumes_witness:
  "\<exists>r1 r2. setTask sample_trig sample_fs True 5 [] PAUSE sample_running = Inr (True, r1) \<and>
    setTask sample_trig sample_fs True 6 ([] # [] # [[Result CANCELED]]) CONTINUE r1 = Inr (True, r2) \<and>
    goals_sent r2 = [drop 1 (poses_of sample_trig sample_fs ''one.csv'')]"
  using pause_continue_resumes [of sample_running 7 "''one.csv''" sample_trig sample_fs 2 5 6] sample_running sample_poses
  by (auto simp: sample_running_def WaypointRunner_def numeral_2_eq_2)

text \<open>
  C35: a result is not matched with the goal it belongs to. When a new scenario is started while a goal is
  running, its goal is accepted, and then the abortion of the replaced goal is reported, the runner
  takes itself for paused and forgets the handle of the goal that is being followed: a pause request
  is refused and cancels nothing.
\<close>

theorem stale_result_detaches:
  assumes "runner_inv r" "scene_path r scene = Some path" "poses_of tr fs path \<noteq> []"
    and "last_req_kind r \<noteq> 0" "length (poses_of tr fs path) \<le> 1000000000"
  shows "\<exists>r1 r2 r3 r4. setTask tr fs True now [] scene r = Inr (True, r1) \<and> goals_sent r1 = goals_sent r @ [poses_of tr fs path] \<and>
    action_callback (GoalResponse (Some h)) r1 = Inr r2 \<and> run_state r2 = Running \<and> current_goal r2 = Some h \<and>
    action_callback (Result ABORTED) r2 = Inr r3 \<and> run_state r3 = Paused \<and> current_goal r3 = None \<and>
    setTask tr fs True now' [] PAUSE r3 = Inr (False, r4) \<and> cancels r4 = cancels r"
proof -
  have scene: "scene \<noteq> PAUSE" "scene \<noteq> CONTINUE" using assms(2) by (auto simp: scene_path_def scene_defs split: if_splits)
  let ?q = "r\<lparr>last_req_kind := 0, last_req_tp := now\<rparr>"
  have path: "scene_path ?q scene = Some path" using assms(2) by simp
  have load: "loadCSV tr fs path [] = (True, poses_of tr fs path, [])"
    using assms(3) by (rule_tac loadCSV_cases [of fs path tr], auto)
  define r1 where "r1 = sendWaypointsGoal (poses_of tr fs path) 0 (?q\<lparr>last_scene := scene, paused_waypoint := - 1, current_goal := None\<rparr>)"
  have t: "setTask tr fs True now [] scene r = Inr (True, r1)"
    using assms(3,4) scene path load by (simp add: setTask_def debounce_def task_start_def r1_def Let_def)
  define r2 where "r2 = goalResponseCallback (Some h) r1"
  have inv: "runner_inv r2"
    using assms(1,3,5) by (auto simp: r2_def r1_def goalResponseCallback_def sendWaypointsGoal_def runner_inv_def int_size_eq)
  obtain k where k: "last_completed ABORTED r2 = Inr k" by (rule last_completed_bounds [OF inv])
  show ?thesis
    using t k assms(3)
    by (simp add: action_callback_def r2_def [symmetric] resultCallback_def Let_def setTask_def debounce_def task_pause_def
      scene_path_def scene_defs)
      (simp add: r2_def r1_def goalResponseCallback_def sendWaypointsGoal_def)
qed

theorem stale_result_detaches_witness:
  "\<exists>r1 r2 r3 r4. setTask sample_trig sample_fs True 5 [] 1 sample_running = Inr (True, r1) \<and>
    action_callback (GoalResponse (Some 8)) r1 = Inr r2 \<and> action_callback (Result ABORTED) r2 = Inr r3 \<and>
    setTask sample_trig sample_fs True 6 [] PAUSE r3 = Inr (False, r4) \<and> cancels r4 = []"
proof -
  have "poses_of sample_trig sample_fs ''one.csv'' \<noteq> []" "length (poses_of sample_trig sample_fs ''one.csv'') \<le> 1000000000"
    using sample_poses by auto
  moreover have "last_req_kind sample_running \<noteq> 0" "cancels sample_running = []"
    by (simp_all add: sample_running_def WaypointRunner_def)
  ultimately show ?thesis
    using stale_result_detaches [OF sample_running, of sample_trig sample_fs 5 8 6] by force
qed

end
