(* ===== verification/Scan_Merger.thy ===== *)
theory Scan_Merger
  imports Ieee754
begin

text \<open>
  \<open>scan_merger_2\<close>: the node that merges the scans of a front and a rear laser scanner into one scan and
  one point cloud around the robot (\<open>scans_merger.cpp\<close>, \<open>scans_merger.h\<close>). The libraries it calls are
  parameters: the projection of a scan to a cloud (\<open>laser_geometry\<close>), transforms (\<open>tf2\<close>), the iterators
  over a field of a cloud (\<open>sensor_msgs\<close>), \<open>hypot\<close> and \<open>atan2\<close>. What the transform buffer answers may
  change between calls, so that the front and the rear scan have a view of it each.
\<close>

section \<open>Messages\<close>

record Stamp =
  sec :: i32
  nanosec :: u32

record LaserScan =
  stamp_scan :: Stamp
  frame_scan :: string
  angle_min :: fp
  angle_max :: fp
  angle_increment :: fp
  time_increment :: fp
  scan_time :: fp
  range_min :: fp
  range_max :: fp
  ranges :: "fp list"
  intensities :: "fp list"

record PointField =
  name_field :: string
  offset_field :: u32
  datatype_field :: u8
  count_field :: u32

record PointCloud2 =
  stamp_pcl :: Stamp
  frame_pcl :: string
  height :: u32
  width :: u32
  fields_pcl :: "PointField list"
  is_bigendian :: bool
  point_step :: u32
  row_step :: u32
  data_pcl :: bytes
  is_dense :: bool

datatype merger_msg = ScanMsg LaserScan | PclMsg PointCloud2

text \<open>Default constructed messages.\<close>

definition blank_stamp :: Stamp where "blank_stamp = \<lparr>sec = 0, nanosec = 0\<rparr>"

definition blank_scan :: LaserScan where
  "blank_scan = \<lparr>stamp_scan = blank_stamp, frame_scan = [], angle_min = fint B32 0, angle_max = fint B32 0,
     angle_increment = fint B32 0, time_increment = fint B32 0, scan_time = fint B32 0, range_min = fint B32 0,
     range_max = fint B32 0, ranges = [], intensities = []\<rparr>"

definition blank_pcl :: PointCloud2 where
  "blank_pcl = \<lparr>stamp_pcl = blank_stamp, frame_pcl = [], height = 0, width = 0, fields_pcl = [],
     is_bigendian = False, point_step = 0, row_step = 0, data_pcl = [], is_dense = False\<rparr>"

text \<open>\<open>rclcpp::Time(stamp)\<close>: nanoseconds, refused when negative.\<close>

definition rcl_time :: "Stamp \<Rightarrow> int res" where
  "rcl_time t = (let ns = sint (sec t) * 1000000000 + uint (nanosec t) in
     if ns < 0 then Inl (Thrown ''runtime_error'') else Inr ns)"

section \<open>The libraries\<close>

record 'tf MergerLib =
  project_laser :: "LaserScan \<Rightarrow> PointCloud2"
  do_transform :: "PointCloud2 \<Rightarrow> 'tf \<Rightarrow> PointCloud2"
  float_field :: "PointCloud2 \<Rightarrow> string \<Rightarrow> (nat \<Rightarrow> fp) option" \<comment> \<open>\<open>None\<close>: no such field\<close>
  hypot_lib :: "fp \<Rightarrow> fp \<Rightarrow> fp"
  atan2_lib :: "fp \<Rightarrow> fp \<Rightarrow> fp"

text \<open>The transform buffer; \<open>None\<close> is a \<open>tf2::TransformException\<close>. The time is in nanoseconds.\<close>

record 'tf TfView =
  transform_scan :: "string \<Rightarrow> LaserScan \<Rightarrow> PointCloud2 option"
  lookup_transform :: "string \<Rightarrow> string \<Rightarrow> int \<Rightarrow> 'tf option"

section \<open>State and parameters\<close>

text \<open>Parameter values given to the node; \<open>None\<close> leaves a parameter at the default of the code.\<close>

record MergerParams =
  mp_active :: "bool option"
  mp_publish_scan :: "bool option"
  mp_publish_pcl :: "bool option"
  mp_motion_compensation :: "bool option"
  mp_ranges_num :: "int option"
  mp_min_scanner_range :: "fp option"
  mp_max_scanner_range :: "fp option"
  mp_min_x_range :: "fp option"
  mp_max_x_range :: "fp option"
  mp_min_y_range :: "fp option"
  mp_max_y_range :: "fp option"
  mp_filter_robot_body :: "bool option"
  mp_body_min_x :: "fp option"
  mp_body_max_x :: "fp option"
  mp_body_min_y :: "fp option"
  mp_body_max_y :: "fp option"
  mp_fixed_frame_id :: "string option"
  mp_target_frame_id :: "string option"

text \<open>
  The class \<open>ScansMerger\<close>. \<open>merger_log\<close> is what was published, \<open>params_declared\<close> whether the node has its
  parameters declared, \<open>subscribed\<close> whether subscriptions and publishers exist.
\<close>

record ScansMerger =
  front_scan_received :: bool
  rear_scan_received :: bool
  front_scan_error :: bool
  rear_scan_error :: bool
  front_pcl :: PointCloud2
  rear_pcl :: PointCloud2
  front_scan_msg :: LaserScan
  rear_scan_msg :: LaserScan
  p_active :: bool
  p_publish_scan :: bool
  p_publish_pcl :: bool
  p_motion_compensation :: bool
  p_ranges_num :: int
  p_min_scanner_range :: fp
  p_max_scanner_range :: fp
  p_min_x_range :: fp
  p_max_x_range :: fp
  p_min_y_range :: fp
  p_max_y_range :: fp
  p_filter_robot_body :: bool
  p_body_min_x :: fp
  p_body_max_x :: fp
  p_body_min_y :: fp
  p_body_max_y :: fp
  p_fixed_frame_id :: string
  p_target_frame_id :: string
  params_declared :: bool
  subscribed :: bool
  merger_log :: "merger_msg list"

definition get_parameter_or :: "'a option \<Rightarrow> 'a \<Rightarrow> 'a" where
  "get_parameter_or v alternative = (case v of None \<Rightarrow> alternative | Some x \<Rightarrow> x)"

text \<open>The 64-bit value of an integer parameter is narrowed to an \<open>int\<close>.\<close>

definition narrow_int :: "int \<Rightarrow> int" where
  "narrow_int n = sint (word_of_int n :: i32)"

definition updateParamsUtil :: "MergerParams \<Rightarrow> ScansMerger \<Rightarrow> ScansMerger res" where
  "updateParamsUtil mp m =
    (if params_declared m then Inl (Thrown ''ParameterAlreadyDeclaredException'')
     else
       let prev_active = p_active m;
           m' = m\<lparr>params_declared := True,
             p_active := get_parameter_or (mp_active mp) True,
             p_publish_scan := get_parameter_or (mp_publish_scan mp) False,
             p_publish_pcl := get_parameter_or (mp_publish_pcl mp) True,
             p_motion_compensation := get_parameter_or (mp_motion_compensation mp) True,
             p_ranges_num := get_parameter_or (map_option narrow_int (mp_ranges_num mp)) 1000,
             p_min_scanner_range := get_parameter_or (mp_min_scanner_range mp) (flit B64 (5 / 100)),
             p_max_scanner_range := get_parameter_or (mp_max_scanner_range mp) (flit B64 10),
             p_min_x_range := get_parameter_or (mp_min_x_range mp) (flit B64 (- 10)),
             p_max_x_range := get_parameter_or (mp_max_x_range mp) (flit B64 10),
             p_min_y_range := get_parameter_or (mp_min_y_range mp) (flit B64 (- 10)),
             p_max_y_range := get_parameter_or (mp_max_y_range mp) (flit B64 10),
             p_filter_robot_body := get_parameter_or (mp_filter_robot_body mp) False,
             p_body_min_x := get_parameter_or (mp_body_min_x mp) (flit B64 (- 5 / 10)),
             p_body_max_x := get_parameter_or (mp_body_max_x mp) (flit B64 (5 / 10)),
             p_body_min_y := get_parameter_or (mp_body_min_y mp) (flit B64 (- 35 / 100)),
             p_body_max_y := get_parameter_or (mp_body_max_y mp) (flit B64 (35 / 100)),
             p_fixed_frame_id := get_parameter_or (mp_fixed_frame_id mp) ''map'',
             p_target_frame_id := get_parameter_or (mp_target_frame_id mp) ''robot''\<rparr> in
       Inr (if p_active m' \<noteq> prev_active \<and> p_active m' then m'\<lparr>subscribed := True\<rparr> else m'))"

text \<open>The constructor; \<open>mem\<close> is the uninitialised object.\<close>

definition ScansMerger_new :: "ScansMerger \<Rightarrow> MergerParams \<Rightarrow> ScansMerger res" where
  "ScansMerger_new mem mp = updateParamsUtil mp
     (mem\<lparr>p_active := False, front_scan_received := False, rear_scan_received := False,
          front_scan_error := False, rear_scan_error := False, front_pcl := blank_pcl, rear_pcl := blank_pcl,
          front_scan_msg := blank_scan, rear_scan_msg := blank_scan, params_declared := False,
          subscribed := False, merger_log := []\<rparr>)"

definition updateParams :: "MergerParams \<Rightarrow> ScansMerger \<Rightarrow> ScansMerger res" where
  "updateParams mp m = updateParamsUtil mp m"

section \<open>Filtering and merging points\<close>

definition pointPassesFilters :: "ScansMerger \<Rightarrow> fp \<Rightarrow> fp \<Rightarrow> fp \<Rightarrow> bool" where
  "pointPassesFilters m point_x point_y rng =
    (let inside_output_bounds =
           flt (p_min_x_range m) point_x \<and> flt point_x (p_max_x_range m) \<and>
           flt (p_min_y_range m) point_y \<and> flt point_y (p_max_y_range m) \<and>
           flt (p_min_scanner_range m) rng \<and> flt rng (p_max_scanner_range m) in
     if \<not> inside_output_bounds then False
     else if \<not> p_filter_robot_body m then True
     else \<not> (flt (p_body_min_x m) point_x \<and> flt point_x (p_body_max_x m) \<and>
              flt (p_body_min_y m) point_y \<and> flt point_y (p_body_max_y m)))"

text \<open>\<open>static_cast<size_t>(p_ranges_num_ * (angle + M_PI) / (2.0 * M_PI))\<close>.\<close>

definition sector_index :: "int \<Rightarrow> fp \<Rightarrow> int res" where
  "sector_index ranges_num angle = to_int_in 0 (2 ^ 64 - 1)
     (fdiv B64 (fmul B64 (fint B64 ranges_num) (fadd B64 angle M_PI)) (fmul B64 (flit B64 2) M_PI))"

text \<open>One point into the ranges; the clamped index wraps around when there are no ranges.\<close>

definition update_range :: "int \<Rightarrow> fp \<Rightarrow> fp \<Rightarrow> fp list \<Rightarrow> fp list res" where
  "update_range ranges_num angle rng rs =
     res_bind (sector_index ranges_num angle) (\<lambda>i.
       let size = int (length rs); idx = (if size \<le> i then (size - 1) mod 2 ^ 64 else i) in
       Inr (if idx < size \<and> (isnan (rs ! nat idx) \<or> flt rng (rs ! nat idx))
            then rs[nat idx := fcvt B32 rng] else rs))"

text \<open>One iteration of the loop; \<open>None\<close> is a null pointer argument.\<close>

definition append_point ::
  "'tf MergerLib \<Rightarrow> ScansMerger \<Rightarrow> PointCloud2 \<Rightarrow> (nat \<Rightarrow> fp) \<Rightarrow> (nat \<Rightarrow> fp) \<Rightarrow> nat
    \<Rightarrow> fp list option \<times> bytes option \<Rightarrow> (fp list option \<times> bytes option) res" where
  "append_point L m pcl iter_x iter_y i acc =
    (let point_x = iter_x i; point_y = iter_y i; rng = hypot_lib L point_x point_y in
     if \<not> pointPassesFilters m point_x point_y rng then Inr acc
     else
       res_bind (case fst acc of None \<Rightarrow> Inr None
                 | Some rs \<Rightarrow> map_sum id Some (update_range (p_ranges_num m) (atan2_lib L point_y point_x) rng rs)) (\<lambda>rs'.
       res_bind (case snd acc of None \<Rightarrow> Inr None
                 | Some bs \<Rightarrow>
                     let step = unat (point_step pcl); point_offset = i * step in
                     if point_offset + step \<le> length (data_pcl pcl)
                     then Inr (Some (bs @ take step (drop point_offset (data_pcl pcl))))
                     else Inl IndexOutOfRange) (\<lambda>bs'.
         Inr (rs', bs'))))"

fun append_points ::
  "'tf MergerLib \<Rightarrow> ScansMerger \<Rightarrow> PointCloud2 \<Rightarrow> (nat \<Rightarrow> fp) \<Rightarrow> (nat \<Rightarrow> fp) \<Rightarrow> nat list
    \<Rightarrow> fp list option \<times> bytes option \<Rightarrow> (fp list option \<times> bytes option) res" where
  "append_points L m pcl iter_x iter_y [] acc = Inr acc"
| "append_points L m pcl iter_x iter_y (i # is) acc =
     res_bind (append_point L m pcl iter_x iter_y i acc) (append_points L m pcl iter_x iter_y is)"

text \<open>The number of points is a product of 32-bit numbers, which wraps before it is widened.\<close>

definition appendFilteredPoints ::
  "'tf MergerLib \<Rightarrow> ScansMerger \<Rightarrow> PointCloud2 \<Rightarrow> fp list option \<times> bytes option
    \<Rightarrow> (fp list option \<times> bytes option) res" where
  "appendFilteredPoints L m input_pcl acc =
    (case (float_field L input_pcl ''x'', float_field L input_pcl ''y'') of
       (Some iter_x, Some iter_y) \<Rightarrow>
         append_points L m input_pcl iter_x iter_y [0..<unat (height input_pcl * width input_pcl)] acc
     | _ \<Rightarrow> Inl (Thrown ''runtime_error''))"

section \<open>Publishing\<close>

definition output_stamp :: "Stamp \<Rightarrow> ScansMerger \<Rightarrow> Stamp res" where
  "output_stamp now m =
    (if \<not> front_scan_error m \<and> \<not> rear_scan_error m then
       res_bind (rcl_time (stamp_pcl (front_pcl m))) (\<lambda>front_stamp.
       res_bind (rcl_time (stamp_pcl (rear_pcl m))) (\<lambda>rear_stamp.
         Inr (if rear_stamp \<le> front_stamp then stamp_pcl (front_pcl m) else stamp_pcl (rear_pcl m))))
     else if \<not> front_scan_error m then Inr (stamp_pcl (front_pcl m))
     else if \<not> rear_scan_error m then Inr (stamp_pcl (rear_pcl m))
     else Inr now)"

text \<open>
  The \<open>try\<close> block of a scan: its cloud in the target frame, over the fixed frame when the motion of the
  robot is compensated. \<open>None\<close> is the caught exception.
\<close>

definition target_cloud ::
  "'tf MergerLib \<Rightarrow> 'tf TfView \<Rightarrow> ScansMerger \<Rightarrow> Stamp \<Rightarrow> LaserScan \<Rightarrow> PointCloud2 \<Rightarrow> PointCloud2 option res" where
  "target_cloud L V m out scan pcl =
    (if p_motion_compensation m \<and> p_fixed_frame_id m \<noteq> p_target_frame_id m then
       (case transform_scan V (p_fixed_frame_id m) scan of None \<Rightarrow> Inr None
        | Some fixed_pcl \<Rightarrow>
            res_bind (rcl_time out) (\<lambda>t.
              Inr (map_option (do_transform L fixed_pcl)
                (lookup_transform V (p_target_frame_id m) (p_fixed_frame_id m) t))))
     else
       res_bind (rcl_time (stamp_pcl pcl)) (\<lambda>t.
         Inr (map_option (do_transform L pcl) (lookup_transform V (p_target_frame_id m) (frame_pcl pcl) t))))"

text \<open>
  One of the two scans, unless it is flagged as missing: its cloud is transformed and its points are
  merged. The result is \<open>None\<close> when the function returns early; a missing scan leaves its cloud default
  constructed.
\<close>

definition merge_scan ::
  "'tf MergerLib \<Rightarrow> 'tf TfView \<Rightarrow> ScansMerger \<Rightarrow> Stamp \<Rightarrow> bool \<Rightarrow> LaserScan \<Rightarrow> PointCloud2 \<Rightarrow> fp list \<times> bytes
    \<Rightarrow> (PointCloud2 \<times> fp list \<times> bytes) option res" where
  "merge_scan L V m out scan_error scan pcl acc =
    (if scan_error then Inr (Some (blank_pcl, acc))
     else
       res_bind (target_cloud L V m out scan pcl) (\<lambda>c. case c of None \<Rightarrow> Inr None
         | Some new_pcl \<Rightarrow>
             res_bind (appendFilteredPoints L m new_pcl
                 (if p_publish_scan m then Some (fst acc) else None,
                  if p_publish_pcl m then Some (snd acc) else None)) (\<lambda>(rs, bs).
               Inr (Some (new_pcl, get_parameter_or rs (fst acc), get_parameter_or bs (snd acc))))))"

definition merged_scan :: "ScansMerger \<Rightarrow> Stamp \<Rightarrow> fp list \<Rightarrow> LaserScan" where
  "merged_scan m out rs = blank_scan\<lparr>
     frame_scan := p_target_frame_id m, stamp_scan := out,
     angle_min := fcvt B32 (fneg M_PI), angle_max := fcvt B32 M_PI,
     angle_increment := fcvt B32 (fdiv B64 (fmul B64 (flit B64 2) M_PI) (fint B64 (p_ranges_num m - 1))),
     time_increment := fcvt B32 (flit B64 0), scan_time := fcvt B32 (flit B64 (1 / 10)),
     range_min := fcvt B32 (p_min_scanner_range m), range_max := fcvt B32 (p_max_scanner_range m),
     ranges := rs\<rparr>"

definition merged_cloud :: "ScansMerger \<Rightarrow> Stamp \<Rightarrow> PointCloud2 \<Rightarrow> bytes \<Rightarrow> PointCloud2 res" where
  "merged_cloud m out pcl_msg merged_points =
    (if point_step pcl_msg = 0 then Inl DivisionByZero
     else let w = word_of_nat (length merged_points div unat (point_step pcl_msg)) in
       Inr (pcl_msg\<lparr>height := 1, width := w, row_step := w * point_step pcl_msg, data_pcl := merged_points,
              frame_pcl := p_target_frame_id m, stamp_pcl := out\<rparr>))"

definition publishMessages ::
  "'tf MergerLib \<Rightarrow> Stamp \<Rightarrow> 'tf TfView \<Rightarrow> 'tf TfView \<Rightarrow> ScansMerger \<Rightarrow> ScansMerger res" where
  "publishMessages L now F R m =
    (if p_ranges_num m < 0 then Inl (Thrown ''length_error'')
     else
       res_bind (output_stamp now m) (\<lambda>out.
       res_bind (merge_scan L F m out (front_scan_error m) (front_scan_msg m) (front_pcl m)
                  (replicate (nat (p_ranges_num m)) (Inf False), [])) (\<lambda>front.
         case front of None \<Rightarrow> Inr m | Some (new_front_pcl, acc) \<Rightarrow>
       res_bind (merge_scan L R m out (rear_scan_error m) (rear_scan_msg m) (rear_pcl m) acc) (\<lambda>rear.
         case rear of None \<Rightarrow> Inr m | Some (new_rear_pcl, rs, merged_points) \<Rightarrow>
       let scans = (if p_publish_scan m then [ScanMsg (merged_scan m out rs)] else []) in
       res_bind (if p_publish_pcl m
                 then map_sum id (\<lambda>c. [PclMsg c])
                   (merged_cloud m out (if \<not> front_scan_error m then new_front_pcl else new_rear_pcl) merged_points)
                 else Inr []) (\<lambda>clouds.
         Inr (m\<lparr>merger_log := merger_log m @ scans @ clouds,
                front_scan_received := False, rear_scan_received := False\<rparr>))))))"

definition frontScanCallback ::
  "'tf MergerLib \<Rightarrow> Stamp \<Rightarrow> 'tf TfView \<Rightarrow> 'tf TfView \<Rightarrow> LaserScan \<Rightarrow> ScansMerger \<Rightarrow> ScansMerger res" where
  "frontScanCallback L now F R front_scan m =
    (let m' = m\<lparr>front_scan_msg := front_scan, front_pcl := project_laser L front_scan,
                front_scan_received := True, front_scan_error := False\<rparr> in
     if rear_scan_received m' \<or> rear_scan_error m' then publishMessages L now F R m'
     else Inr (m'\<lparr>rear_scan_error := True\<rparr>))"

definition rearScanCallback ::
  "'tf MergerLib \<Rightarrow> Stamp \<Rightarrow> 'tf TfView \<Rightarrow> 'tf TfView \<Rightarrow> LaserScan \<Rightarrow> ScansMerger \<Rightarrow> ScansMerger res" where
  "rearScanCallback L now F R rear_scan m =
    (let m' = m\<lparr>rear_scan_msg := rear_scan, rear_pcl := project_laser L rear_scan,
                rear_scan_received := True, rear_scan_error := False\<rparr> in
     if front_scan_received m' \<or> front_scan_error m' then publishMessages L now F R m'
     else Inr (m'\<lparr>front_scan_error := True\<rparr>))"

text \<open>The executor calls a callback for each scan that arrives once the subscriptions exist.\<close>

datatype 'tf merger_event =
    FrontScan LaserScan Stamp "'tf TfView" "'tf TfView"
  | RearScan LaserScan Stamp "'tf TfView" "'tf TfView"

fun merger_step :: "'tf MergerLib \<Rightarrow> 'tf merger_event \<Rightarrow> ScansMerger \<Rightarrow> ScansMerger res" where
  "merger_step L (FrontScan s now F R) m = (if subscribed m then frontScanCallback L now F R s m else Inr m)"
| "merger_step L (RearScan s now F R) m = (if subscribed m then rearScanCallback L now F R s m else Inr m)"

fun merger_run :: "'tf MergerLib \<Rightarrow> 'tf merger_event list \<Rightarrow> ScansMerger \<Rightarrow> ScansMerger res" where
  "merger_run L [] m = Inr m"
| "merger_run L (e # es) m = res_bind (merger_step L e m) (merger_run L es)"

end
