(* ===== verification/Scan_Merger_Theorems.thy ===== *)
theory Scan_Merger_Theorems
  imports Scan_Merger
begin

text \<open>
  What the scan merger publishes: every range of the merged scan is the nearest point that passes the
  filters in its sector, no sequence of scans makes the node fail, and of two scans in a row at least
  one is published.
\<close>

section \<open>Assumptions on the libraries\<close>

text \<open>
  \<open>hypot\<close> and \<open>atan2\<close> return doubles, \<open>atan2\<close> between \<open>-M_PI\<close> and \<open>M_PI\<close>. A cloud is good when it has
  the fields the merger reads, points of \<open>step\<close> bytes, all of them in its data, and less than 2 GiB.
  Transforming a good cloud gives a good cloud.
\<close>

definition cloud_ok :: "'tf MergerLib \<Rightarrow> u32 \<Rightarrow> PointCloud2 \<Rightarrow> bool" where
  "cloud_ok L step c \<longleftrightarrow> float_field L c ''x'' \<noteq> None \<and> float_field L c ''y'' \<noteq> None \<and>
     point_step c = step \<and> 0 < step \<and> unat (height c * width c) * unat step \<le> length (data_pcl c) \<and>
     length (data_pcl c) < 2 ^ 31"

definition angle_ok :: "fp \<Rightarrow> bool" where
  "angle_ok a \<longleftrightarrow> is_fin a \<and> fp_wf B64 a \<and> \<bar>fval a\<bar> \<le> fval M_PI"

definition merger_lib_ok :: "'tf MergerLib \<Rightarrow> u32 \<Rightarrow> bool" where
  "merger_lib_ok L step \<longleftrightarrow> (\<forall>x y. fp_wf B64 (hypot_lib L x y)) \<and> (\<forall>x y. angle_ok (atan2_lib L y x)) \<and>
     (\<forall>c t. cloud_ok L step c \<longrightarrow> cloud_ok L step (do_transform L c t))"

definition merger_params_ok :: "ScansMerger \<Rightarrow> bool" where
  "merger_params_ok m \<longleftrightarrow> 0 \<le> p_ranges_num m \<and> p_ranges_num m < 2 ^ 31 \<and>
     is_fin (p_min_scanner_range m) \<and> 0 \<le> fval (p_min_scanner_range m) \<and>
     is_fin (p_max_scanner_range m) \<and> fval (p_max_scanner_range m) \<le> pow2 100"

section \<open>Sectors\<close>

lemma fadd_angle:
  assumes "angle_ok a"
  shows "is_fin (fadd B64 a M_PI)" "0 \<le> fval (fadd B64 a M_PI)" "fval (fadd B64 a M_PI) \<le> 7"
    "fp_wf B64 (fadd B64 a M_PI)"
proof -
  obtain s r where a: "a = Fin s r" using assms by (cases a) (auto simp: angle_ok_def)
  define v where "v = sgn_val s r + 7074237752028440 / 2251799813685248"
  have v: "0 \<le> v" "v \<le> 63 / 10" using assms by (auto simp: v_def a angle_ok_def M_PI_value sgn_val_def)
  have e: "fadd B64 a M_PI = (if v = 0 then Fin False 0 else pack B64 (v < 0) \<bar>v\<bar>)"
    by (simp add: a M_PI_value v_def sgn_val_def Let_def)
  have p: "pack B64 False v = Fin False (rnd B64 v)" by (rule pack_small) (use v in simp_all)
  have "rnd B64 v \<le> rnd B64 7" using v by (intro rnd_mono) simp_all
  then have b: "rnd B64 v \<le> 7" using rnd_int[of 7 B64] by simp
  show "is_fin (fadd B64 a M_PI)" "0 \<le> fval (fadd B64 a M_PI)" "fval (fadd B64 a M_PI) \<le> 7"
    using v b by (auto simp: e p sgn_val_def)
  show "fp_wf B64 (fadd B64 a M_PI)"
    by (rule fp_wf_fadd[where g = B64 and h = B64]) (use assms in \<open>auto simp: angle_ok_def M_PI_def fp_wf_flit\<close>)
qed

lemma two_pi_value: "fmul B64 (flit B64 2) M_PI = Fin False (7074237752028440 / 1125899906842624)"
proof -
  have "flit B64 2 = Fin False 2" using fint_exact[of 2 B64] by (simp add: flit_numeral)
  then show ?thesis
    by (simp add: M_PI_value) (subst pack_eval[where e = "-50" and n = 7074237752028440]; simp)
qed

lemma pack_below:
  assumes "0 \<le> q" "q \<le> pow2 k" "0 \<le> k" "k \<le> 100"
  shows "pack B64 False q = Fin False (rnd B64 q)" "0 \<le> rnd B64 q" "rnd B64 q \<le> pow2 k"
proof -
  have "q \<le> pow2 100" using assms pow2_mono[of k 100] by linarith
  then show "pack B64 False q = Fin False (rnd B64 q)" using assms by (intro pack_small) auto
  show "0 \<le> rnd B64 q" using assms by simp
  have "rnd B64 (pow2 k) = pow2 k" using rnd_exact[of 1 k k B64] assms by simp
  then show "rnd B64 q \<le> pow2 k" using rnd_mono[OF assms(1,2), of B64] by simp
qed

lemma sector_index_ok:
  assumes "angle_ok a" "0 \<le> n" "n < 2 ^ 31"
  shows "\<exists>i. sector_index n a = Inr i \<and> 0 \<le> i"
proof -
  have nb: "(0::rat) \<le> of_int n" "of_int n \<le> (2::rat) ^ 31"
    using assms by (simp, metis less_imp_le of_int_le_iff of_int_numeral of_int_power)
  have n: "fint B64 n = Fin False (of_int n)"
  proof -
    have "rnd B64 (of_int n) = of_int n" using nb assms by (intro rnd_int) auto
    then show ?thesis using pack_below(1)[of "of_int n" 31] nb assms by (simp add: fint_def flit_def)
  qed
  obtain s w where w: "fadd B64 a M_PI = Fin s w" using fadd_angle(1)[OF assms(1)] by (cases "fadd B64 a M_PI") auto
  have wb: "0 \<le> w" "w \<le> 7" "s \<longrightarrow> w = 0"
    using fadd_angle(2-4)[OF assms(1)] by (auto simp: w sgn_val_def split: if_splits)
  have "of_int n * w \<le> 2 ^ 31 * 7" using nb wb by (intro mult_mono) auto
  then have p1: "0 \<le> of_int n * w" "of_int n * w \<le> pow2 34" using nb wb by simp_all
  have m: "fmul B64 (fint B64 n) (fadd B64 a M_PI) = Fin s (rnd B64 (of_int n * w))"
    using pack_small[OF p1(1), of B64 s] p1(2) by (simp add: n w)
  define q where "q = rnd B64 (of_int n * w) / (7074237752028440 / 1125899906842624)"
  have q: "0 \<le> q" "q \<le> pow2 34" using pack_below(2,3)[OF p1] by (auto simp: q_def field_simps)
  have d: "fdiv B64 (fmul B64 (fint B64 n) (fadd B64 a M_PI)) (fmul B64 (flit B64 2) M_PI) = Fin s (rnd B64 q)"
    using pack_small[OF q(1), of B64 s] q(2) by (simp add: m two_pi_value q_def)
  have f: "0 \<le> \<lfloor>rnd B64 q\<rfloor>" "\<lfloor>rnd B64 q\<rfloor> \<le> 2 ^ 34" "s \<longrightarrow> \<lfloor>rnd B64 q\<rfloor> = 0"
    using pack_below(2,3)[OF q] wb by (simp_all add: floor_le_iff q_def)
  then show ?thesis by (auto simp: sector_index_def d to_int_in_def)
qed

section \<open>The nearest point of a sector\<close>

definition sector :: "'tf MergerLib \<Rightarrow> ScansMerger \<Rightarrow> fp \<times> fp \<Rightarrow> nat" where
  "sector L m p = (case sector_index (p_ranges_num m) (atan2_lib L (snd p) (fst p)) of
     Inr i \<Rightarrow> min (nat i) (nat (p_ranges_num m) - 1) | Inl e \<Rightarrow> 0)"

definition point_range :: "'tf MergerLib \<Rightarrow> fp \<times> fp \<Rightarrow> fp" where
  "point_range L p = hypot_lib L (fst p) (snd p)"

definition passes :: "'tf MergerLib \<Rightarrow> ScansMerger \<Rightarrow> fp \<times> fp \<Rightarrow> bool" where
  "passes L m p = pointPassesFilters m (fst p) (snd p) (point_range L p)"

text \<open>The points of a cloud.\<close>

definition cloud_points :: "'tf MergerLib \<Rightarrow> PointCloud2 \<Rightarrow> (fp \<times> fp) list" where
  "cloud_points L c = (case (float_field L c ''x'', float_field L c ''y'') of
     (Some iter_x, Some iter_y) \<Rightarrow> map (\<lambda>i. (iter_x i, iter_y i)) [0..<unat (height c * width c)] | _ \<Rightarrow> [])"

text \<open>The value a range of the merged scan has for a set of points.\<close>

definition nearest :: "'tf MergerLib \<Rightarrow> ScansMerger \<Rightarrow> (fp \<times> fp) set \<Rightarrow> nat \<Rightarrow> fp \<Rightarrow> bool" where
  "nearest L m ps i r \<longleftrightarrow>
     (let near = {p \<in> ps. passes L m p \<and> sector L m p = i} in
      if near = {} then r = Inf False
      else (\<exists>p\<in>near. r = fcvt B32 (point_range L p)) \<and> (\<forall>p\<in>near. fle r (fcvt B32 (point_range L p))))"

lemma passing_range:
  assumes "merger_lib_ok L step" "merger_params_ok m" "passes L m p"
  obtains q where "point_range L p = Fin False q" "0 < q" "fcvt B32 (point_range L p) = Fin False (rnd B32 q)"
proof -
  let ?r = "point_range L p"
  have f: "flt (p_min_scanner_range m) ?r" "flt ?r (p_max_scanner_range m)"
    using assms(3) by (auto simp: passes_def pointPassesFilters_def Let_def split: if_splits)
  have wf: "fp_wf B64 ?r" using assms(1) by (simp add: merger_lib_ok_def point_range_def)
  obtain s0 q0 s1 q1 where lim: "p_min_scanner_range m = Fin s0 q0" "p_max_scanner_range m = Fin s1 q1"
    and lim2: "0 \<le> sgn_val s0 q0" "sgn_val s1 q1 \<le> pow2 100"
    using assms(2) by (cases "p_min_scanner_range m"; cases "p_max_scanner_range m") (auto simp: merger_params_ok_def)
  have "?r \<noteq> NaN" "\<And>s. ?r \<noteq> Inf s" using f by (auto simp: lim)
  then obtain s q where r: "?r = Fin s q" by (cases ?r) auto
  have v: "0 < sgn_val s q" "sgn_val s q \<le> pow2 100" using f lim2 unfolding lim r flt.simps by linarith+
  then have q: "\<not> s" "0 < q" "q \<le> pow2 100" using wf by (auto simp: r sgn_val_def split: if_splits)
  show ?thesis using that[of q] q pack_small[of q B32 False] by (simp add: r)
qed

lemma nearest_insert_other:
  assumes "\<not> (passes L m p \<and> sector L m p = i)"
  shows "nearest L m (insert p ps) i r = nearest L m ps i r"
proof -
  have "{q \<in> insert p ps. passes L m q \<and> sector L m q = i} = {q \<in> ps. passes L m q \<and> sector L m q = i}"
    using assms by auto
  then show ?thesis by (simp only: nearest_def)
qed

lemma nearest_insert:
  assumes "merger_lib_ok L step" "merger_params_ok m" "passes L m p" "sector L m p = i" "nearest L m ps i r"
  shows "nearest L m (insert p ps) i (if flt (point_range L p) r then fcvt B32 (point_range L p) else r)"
    and "\<not> isnan r"
proof -
  let ?near = "{q \<in> ps. passes L m q \<and> sector L m q = i}"
  have near': "{q \<in> insert p ps. passes L m q \<and> sector L m q = i} = insert p ?near" using assms(3,4) by auto
  note val = passing_range[OF assms(1,2)]
  obtain q where q: "point_range L p = Fin False q" "0 < q" "fcvt B32 (point_range L p) = Fin False (rnd B32 q)"
    using val[OF assms(3)] .
  have "(\<not> isnan r) \<and> nearest L m (insert p ps) i (if flt (point_range L p) r then fcvt B32 (point_range L p) else r)"
  proof (cases "?near = {}")
    case True
    then have "r = Inf False" using assms(5) by (simp add: nearest_def)
    moreover have "nearest L m (insert p ps) i (fcvt B32 (point_range L p))"
      unfolding nearest_def near' True by (simp add: q(3) fle_def)
    ultimately show ?thesis by (simp add: q(1))
  next
    case False
    then obtain p0 where p0: "p0 \<in> ?near" "r = fcvt B32 (point_range L p0)"
      and least: "\<forall>p\<in>?near. fle r (fcvt B32 (point_range L p))"
      using assms(5) unfolding nearest_def Let_def by (simp only: if_False) blast
    obtain q0 where q0: "r = Fin False (rnd B32 q0)" "0 < q0"
      using val[of p0] p0 by (metis (mono_tags, lifting) mem_Collect_eq)
    have le: "rnd B32 q0 \<le> rnd B32 q'" if "p' \<in> ?near" "point_range L p' = Fin False q'" "fcvt B32 (point_range L p') = Fin False (rnd B32 q')" for p' q'
      using bspec[OF least that(1)] unfolding that(3) q0(1) by (auto simp: fle_def sgn_val_def)
    show ?thesis
    proof (cases "flt (point_range L p) r")
      case lt: True
      then have "rnd B32 q \<le> rnd B32 (rnd B32 q0)" using q by (intro rnd_mono) (auto simp: q0 sgn_val_def)
      then have le0: "rnd B32 q \<le> rnd B32 q0" using q0 by (simp add: rnd_idem)
      have "fle (fcvt B32 (point_range L p)) (fcvt B32 (point_range L p'))" if p': "p' \<in> insert p ?near" for p'
      proof (cases "p' = p")
        case True
        show ?thesis unfolding True q(3) by (simp add: fle_def)
      next
        case False
        with p' have pn: "p' \<in> ?near" "passes L m p'" by auto
        obtain q' where q': "point_range L p' = Fin False q'" "fcvt B32 (point_range L p') = Fin False (rnd B32 q')"
          using val[OF pn(2)] by metis
        show ?thesis using le[OF pn(1) q'] le0 by (auto simp: q(3) q'(2) fle_def sgn_val_def)
      qed
      then have "nearest L m (insert p ps) i (fcvt B32 (point_range L p))"
        unfolding nearest_def near' Let_def by (simp only: insert_not_empty if_False) blast
      then show ?thesis using lt q0 by simp
    next
      case ge: False
      moreover have "0 \<le> rnd B32 q0" using q0(2) by simp
      ultimately have "rnd B32 (rnd B32 q0) \<le> rnd B32 q" by (intro rnd_mono) (auto simp: q q0(1) sgn_val_def)
      then have "fle r (fcvt B32 (point_range L p))" using q0 by (auto simp: q(3) rnd_idem fle_def sgn_val_def)
      then have "nearest L m (insert p ps) i r"
        using p0 least unfolding nearest_def near' Let_def by (simp only: insert_not_empty if_False) blast
      then show ?thesis using ge q0 by simp
    qed
  qed
  then show "nearest L m (insert p ps) i (if flt (point_range L p) r then fcvt B32 (point_range L p) else r)"
    "\<not> isnan r" by simp_all
qed

definition ranges_inv :: "'tf MergerLib \<Rightarrow> ScansMerger \<Rightarrow> (fp \<times> fp) set \<Rightarrow> fp list \<Rightarrow> bool" where
  "ranges_inv L m ps rs \<longleftrightarrow> length rs = nat (p_ranges_num m) \<and> (\<forall>i < length rs. nearest L m ps i (rs ! i))"

lemma ranges_inv_empty: "ranges_inv L m {} (replicate (nat (p_ranges_num m)) (Inf False))"
  by (simp add: ranges_inv_def nearest_def)

lemma ranges_inv_skip: "\<not> passes L m p \<Longrightarrow> ranges_inv L m (insert p ps) rs = ranges_inv L m ps rs"
  by (simp add: ranges_inv_def nearest_insert_other)

lemma update_range_inv:
  assumes "merger_lib_ok L step" "merger_params_ok m" "passes L m p" "ranges_inv L m ps rs"
  shows "\<exists>rs'. update_range (p_ranges_num m) (atan2_lib L (snd p) (fst p)) (point_range L p) rs = Inr rs' \<and>
    ranges_inv L m (insert p ps) rs'"
proof -
  let ?n = "p_ranges_num m"
  have n: "0 \<le> ?n" "?n < 2 ^ 31" "length rs = nat ?n"
    using assms(2,4) by (auto simp: merger_params_ok_def ranges_inv_def)
  obtain j where j: "sector_index ?n (atan2_lib L (snd p) (fst p)) = Inr j" "0 \<le> j"
    using sector_index_ok[OF _ n(1,2)] assms(1) unfolding merger_lib_ok_def by blast
  show ?thesis
  proof (cases "?n = 0")
    case True
    then show ?thesis using n j assms(4) by (auto simp: update_range_def ranges_inv_def)
  next
    case False
    let ?i = "sector L m p"
    have i: "?i < length rs" "?i = min (nat j) (nat ?n - 1)" using n False by (auto simp: sector_def j)
    have idx: "(if int (length rs) \<le> j then (int (length rs) - 1) mod 2 ^ 64 else j) = int ?i"
      using n j False by (auto simp: i(2) min_def)
    let ?v = "if flt (point_range L p) (rs ! ?i) then fcvt B32 (point_range L p) else rs ! ?i"
    have near: "nearest L m ps ?i (rs ! ?i)" using assms(4) i(1) by (simp add: ranges_inv_def)
    note ni = nearest_insert[OF assms(1,2,3) refl near]
    have "update_range ?n (atan2_lib L (snd p) (fst p)) (point_range L p) rs = Inr (rs[?i := ?v])"
      using i(1) ni(2) by (simp add: update_range_def j Let_def idx)
    moreover have "ranges_inv L m (insert p ps) (rs[?i := ?v])"
    proof -
      have "nearest L m (insert p ps) k (rs[?i := ?v] ! k)" if "k < length rs" for k
        using that ni(1) i(1) assms(4) nearest_insert_other[of L m p k ps]
        by (cases "k = ?i") (simp_all add: ranges_inv_def)
      then show ?thesis using n by (simp add: ranges_inv_def)
    qed
    ultimately show ?thesis by blast
  qed
qed

section \<open>Merging a cloud\<close>

text \<open>
  What the loop keeps: the ranges describe the points seen so far, and the bytes are whole points.
\<close>

definition acc_inv :: "'tf MergerLib \<Rightarrow> ScansMerger \<Rightarrow> u32 \<Rightarrow> (fp \<times> fp) set \<Rightarrow> nat \<Rightarrow> fp list option \<times> bytes option \<Rightarrow> bool" where
  "acc_inv L m step ps b acc \<longleftrightarrow> (\<forall>rs. fst acc = Some rs \<longrightarrow> ranges_inv L m ps rs) \<and>
     (\<forall>bs. snd acc = Some bs \<longrightarrow> unat step dvd length bs \<and> length bs \<le> b)"

lemma append_point_ok:
  assumes "merger_lib_ok L step" "merger_params_ok m" "acc_inv L m step ps b acc"
    and "point_step c = step" "Suc i * unat step \<le> length (data_pcl c)"
  shows "\<exists>acc'. append_point L m c ix iy i acc = Inr acc' \<and> acc_inv L m step (insert (ix i, iy i) ps) (b + unat step) acc' \<and>
    (fst acc' = None \<longleftrightarrow> fst acc = None) \<and> (snd acc' = None \<longleftrightarrow> snd acc = None)"
proof -
  let ?p = "(ix i, iy i)"
  have pass: "pointPassesFilters m (ix i) (iy i) (hypot_lib L (ix i) (iy i)) = passes L m ?p"
    by (simp add: passes_def point_range_def)
  obtain rs bs where acc: "acc = (rs, bs)" by (cases acc)
  show ?thesis
  proof (cases "passes L m ?p")
    case False
    then show ?thesis using assms(3)
      by (auto simp: append_point_def pass acc acc_inv_def ranges_inv_skip)
  next
    case True
    have "\<exists>rs'. (case rs of None \<Rightarrow> Inr None
        | Some v \<Rightarrow> map_sum id Some (update_range (p_ranges_num m) (atan2_lib L (iy i) (ix i)) (hypot_lib L (ix i) (iy i)) v)) = Inr rs' \<and>
        (rs' = None \<longleftrightarrow> rs = None) \<and> (\<forall>v. rs' = Some v \<longrightarrow> ranges_inv L m (insert ?p ps) v)"
      using update_range_inv[OF assms(1,2) True, of ps "the rs"] assms(3)
      by (cases rs) (auto simp: acc acc_inv_def point_range_def)
    then obtain rs' where rs': "(case rs of None \<Rightarrow> Inr None
        | Some v \<Rightarrow> map_sum id Some (update_range (p_ranges_num m) (atan2_lib L (iy i) (ix i)) (hypot_lib L (ix i) (iy i)) v)) = Inr rs'"
        "rs' = None \<longleftrightarrow> rs = None" "\<And>v. rs' = Some v \<Longrightarrow> ranges_inv L m (insert ?p ps) v" by auto
    have fits: "i * unat step + unat step \<le> length (data_pcl c)" using assms(5) by simp
    then have len: "length (take (unat step) (drop (i * unat step) (data_pcl c))) = unat step" by simp
    show ?thesis using True assms(3) rs' fits len
      by (cases bs) (auto simp: append_point_def pass acc Let_def acc_inv_def assms(4) simp del: length_take)
  qed
qed

lemma append_points_ok:
  assumes "merger_lib_ok L step" "merger_params_ok m" "acc_inv L m step ps b acc"
    and "point_step c = step" "\<forall>i\<in>set is. Suc i * unat step \<le> length (data_pcl c)"
  shows "\<exists>acc'. append_points L m c ix iy is acc = Inr acc' \<and>
    acc_inv L m step (ps \<union> (\<lambda>i. (ix i, iy i)) ` set is) (b + length is * unat step) acc' \<and>
    (fst acc' = None \<longleftrightarrow> fst acc = None) \<and> (snd acc' = None \<longleftrightarrow> snd acc = None)"
  using assms(3,5)
proof (induction "is" arbitrary: ps b acc)
  case (Cons i "is")
  obtain acc1 where a1: "append_point L m c ix iy i acc = Inr acc1"
    "acc_inv L m step (insert (ix i, iy i) ps) (b + unat step) acc1"
    "fst acc1 = None \<longleftrightarrow> fst acc = None" "snd acc1 = None \<longleftrightarrow> snd acc = None"
    using append_point_ok[OF assms(1,2) Cons.prems(1) assms(4), of i ix iy] Cons.prems(2) by auto
  then show ?case using Cons.IH[OF a1(2)] Cons.prems(2) by (simp add: ac_simps)
qed simp

lemma appendFilteredPoints_ok:
  assumes "merger_lib_ok L step" "merger_params_ok m" "acc_inv L m step ps b acc" "cloud_ok L step c"
  shows "\<exists>acc'. appendFilteredPoints L m c acc = Inr acc' \<and>
    acc_inv L m step (ps \<union> set (cloud_points L c)) (b + unat (height c * width c) * unat step) acc' \<and>
    (fst acc' = None \<longleftrightarrow> fst acc = None) \<and> (snd acc' = None \<longleftrightarrow> snd acc = None)"
proof -
  obtain ix iy where f: "float_field L c ''x'' = Some ix" "float_field L c ''y'' = Some iy"
    using assms(4) by (auto simp: cloud_ok_def)
  let ?n = "unat (height c * width c)"
  have "Suc i * unat step \<le> length (data_pcl c)" if "i < ?n" for i
  proof -
    have "Suc i * unat step \<le> ?n * unat step" using that by (intro mult_right_mono) auto
    then show ?thesis using assms(4) by (simp add: cloud_ok_def)
  qed
  then show ?thesis
    using append_points_ok[OF assms(1-3), of c "[0..<?n]" ix iy] assms(4)
    by (simp add: appendFilteredPoints_def f cloud_points_def cloud_ok_def)
qed

section \<open>Publishing\<close>

definition view_ok :: "'tf MergerLib \<Rightarrow> u32 \<Rightarrow> 'tf TfView \<Rightarrow> bool" where
  "view_ok L step V \<longleftrightarrow> (\<forall>frame scan c. transform_scan V frame scan = Some c \<longrightarrow> cloud_ok L step c)"

definition input_ok :: "'tf MergerLib \<Rightarrow> u32 \<Rightarrow> PointCloud2 \<Rightarrow> bool" where
  "input_ok L step c \<longleftrightarrow> cloud_ok L step c \<and> is_ok (rcl_time (stamp_pcl c))"

text \<open>The ranges and bytes collected so far, where they are collected at all.\<close>

definition pair_inv :: "'tf MergerLib \<Rightarrow> ScansMerger \<Rightarrow> u32 \<Rightarrow> (fp \<times> fp) set \<Rightarrow> nat \<Rightarrow> fp list \<times> bytes \<Rightarrow> bool" where
  "pair_inv L m step ps b acc \<longleftrightarrow> (p_publish_scan m \<longrightarrow> ranges_inv L m ps (fst acc)) \<and>
     (p_publish_pcl m \<longrightarrow> unat step dvd length (snd acc) \<and> length (snd acc) \<le> b)"

lemma target_cloud_ok:
  assumes "merger_lib_ok L step" "view_ok L step V" "input_ok L step pcl" "is_ok (rcl_time out)"
  shows "\<exists>c. target_cloud L V m out scan pcl = Inr c \<and> (\<forall>c'. c = Some c' \<longrightarrow> cloud_ok L step c')"
  using assms
  by (auto simp: target_cloud_def merger_lib_ok_def view_ok_def input_ok_def is_ok_iff split: option.splits)

text \<open>The points a scan contributes.\<close>

definition scan_points :: "'tf MergerLib \<Rightarrow> bool \<Rightarrow> PointCloud2 \<Rightarrow> (fp \<times> fp) set" where
  "scan_points L scan_error c = (if scan_error then {} else set (cloud_points L c))"

lemma merge_scan_ok:
  assumes "merger_lib_ok L step" "merger_params_ok m" "view_ok L step V" "err \<or> input_ok L step pcl"
    and "is_ok (rcl_time out)" "pair_inv L m step ps b acc"
  shows "(\<not> err \<and> target_cloud L V m out scan pcl = Inr None \<and> merge_scan L V m out err scan pcl acc = Inr None) \<or>
    (\<exists>c acc'. merge_scan L V m out err scan pcl acc = Inr (Some (c, acc')) \<and>
       (err \<or> target_cloud L V m out scan pcl = Inr (Some c) \<and> cloud_ok L step c) \<and>
       pair_inv L m step (ps \<union> scan_points L err c) (b + 2 ^ 31 - 1) acc')"
proof (cases err)
  case True
  then show ?thesis using assms(6) by (auto simp: merge_scan_def scan_points_def pair_inv_def)
next
  case False
  then have in_ok: "input_ok L step pcl" using assms(4) by simp
  obtain c where c: "target_cloud L V m out scan pcl = Inr c" "\<And>c'. c = Some c' \<Longrightarrow> cloud_ok L step c'"
    using target_cloud_ok[OF assms(1,3) in_ok assms(5)] by blast
  show ?thesis
  proof (cases c)
    case None
    then show ?thesis using False c by (simp add: merge_scan_def)
  next
    case (Some c')
    let ?acc = "(if p_publish_scan m then Some (fst acc) else None, if p_publish_pcl m then Some (snd acc) else None)"
    have c': "cloud_ok L step c'" using c Some by simp
    have "acc_inv L m step ps b ?acc" using assms(6) by (auto simp: acc_inv_def pair_inv_def)
    from appendFilteredPoints_ok[OF assms(1,2) this c'] obtain rs bs where
      a: "appendFilteredPoints L m c' ?acc = Inr (rs, bs)"
      "acc_inv L m step (ps \<union> set (cloud_points L c')) (b + unat (height c' * width c') * unat step) (rs, bs)"
      "rs = None \<longleftrightarrow> \<not> p_publish_scan m" "bs = None \<longleftrightarrow> \<not> p_publish_pcl m" by (fastforce split: if_splits)
    have "unat (height c' * width c') * unat step < 2 ^ 31" using c' by (auto simp: cloud_ok_def)
    then have "pair_inv L m step (ps \<union> set (cloud_points L c')) (b + 2 ^ 31 - 1)
        (get_parameter_or rs (fst acc), get_parameter_or bs (snd acc))"
      using a(2-4) by (auto simp: acc_inv_def pair_inv_def get_parameter_or_def split: option.splits)
    then show ?thesis using False c Some a(1) c' by (simp add: merge_scan_def scan_points_def)
  qed
qed

text \<open>What every message of the log looks like.\<close>

fun msg_ok :: "ScansMerger \<Rightarrow> u32 \<Rightarrow> merger_msg \<Rightarrow> bool" where
  "msg_ok m step (ScanMsg s) \<longleftrightarrow> length (ranges s) = nat (p_ranges_num m) \<and> frame_scan s = p_target_frame_id m"
| "msg_ok m step (PclMsg c) \<longleftrightarrow> height c = 1 \<and> frame_pcl c = p_target_frame_id m \<and> point_step c = step \<and>
     unat (width c) * unat step = length (data_pcl c) \<and> unat (row_step c) = length (data_pcl c)"

lemma merged_cloud_ok:
  assumes "point_step c = step" "0 < step" "unat step dvd length bs" "length bs < 2 ^ 32"
  shows "\<exists>c'. merged_cloud m out c bs = Inr c' \<and> msg_ok m step (PclMsg c') \<and> data_pcl c' = bs \<and> stamp_pcl c' = out"
proof -
  have s: "0 < unat step" using assms(2) by (simp add: word_less_nat_alt)
  obtain k where k: "length bs = unat step * k" using assms(3) by blast
  have "k \<le> length bs" using k s by simp
  then have u: "unat (word_of_nat k :: u32) = k" using assms(4) by (simp add: unat_of_nat)
  have "unat (word_of_nat k * step) = k * unat step"
    using assms(4) k by (simp add: unat_word_ariths u mult.commute)
  then show ?thesis using s k u assms(1,2) by (auto simp: merged_cloud_def Let_def mult.commute)
qed

text \<open>
  Either nothing changes, because a transform is missing, or one message of each enabled kind is
  published and both scans count as used.
\<close>

lemma publishMessages_ok:
  assumes "merger_lib_ok L step" "merger_params_ok m" "view_ok L step F" "view_ok L step R" "0 < step"
    and "\<not> (front_scan_error m \<and> rear_scan_error m)"
    and "front_scan_error m \<or> input_ok L step (front_pcl m)" "rear_scan_error m \<or> input_ok L step (rear_pcl m)"
  shows "\<exists>out. output_stamp now m = Inr out \<and>
    ((publishMessages L now F R m = Inr m \<and>
        (\<not> front_scan_error m \<and> target_cloud L F m out (front_scan_msg m) (front_pcl m) = Inr None \<or>
         \<not> rear_scan_error m \<and> target_cloud L R m out (rear_scan_msg m) (rear_pcl m) = Inr None)) \<or>
     (\<exists>cf cr rs clouds.
        (front_scan_error m \<or> target_cloud L F m out (front_scan_msg m) (front_pcl m) = Inr (Some cf)) \<and>
        (rear_scan_error m \<or> target_cloud L R m out (rear_scan_msg m) (rear_pcl m) = Inr (Some cr)) \<and>
        (p_publish_scan m \<longrightarrow> ranges_inv L m (scan_points L (front_scan_error m) cf \<union> scan_points L (rear_scan_error m) cr) rs) \<and>
        publishMessages L now F R m =
          Inr (m\<lparr>merger_log := merger_log m @ (if p_publish_scan m then [ScanMsg (merged_scan m out rs)] else []) @ clouds,
                 front_scan_received := False, rear_scan_received := False\<rparr>) \<and>
        list_all (msg_ok m step) clouds \<and> (clouds = [] \<longleftrightarrow> \<not> p_publish_pcl m)))"
proof -
  let ?fe = "front_scan_error m" and ?re = "rear_scan_error m"
  obtain out where out: "output_stamp now m = Inr out" "is_ok (rcl_time out)"
    using assms(6-8) by (cases "front_scan_error m"; cases "rear_scan_error m") (auto simp: output_stamp_def input_ok_def is_ok_iff)
  let ?acc = "(replicate (nat (p_ranges_num m)) (Inf False), [])"
  have n: "\<not> p_ranges_num m < 0" using assms(2) by (simp add: merger_params_ok_def)
  have "pair_inv L m step {} 0 ?acc" by (simp add: pair_inv_def ranges_inv_empty)
  then consider (none) "\<not> ?fe" "target_cloud L F m out (front_scan_msg m) (front_pcl m) = Inr None"
      "merge_scan L F m out ?fe (front_scan_msg m) (front_pcl m) ?acc = Inr None"
    | (some) cf acc' where "merge_scan L F m out ?fe (front_scan_msg m) (front_pcl m) ?acc = Inr (Some (cf, acc'))"
      "?fe \<or> target_cloud L F m out (front_scan_msg m) (front_pcl m) = Inr (Some cf) \<and> cloud_ok L step cf"
      "pair_inv L m step ({} \<union> scan_points L ?fe cf) (0 + 2 ^ 31 - 1) acc'"
    using merge_scan_ok[OF assms(1,2,3,7) out(2), of "{}" 0 ?acc "front_scan_msg m"] by blast
  then show ?thesis
  proof cases
    case none
    then show ?thesis using out n by (simp add: publishMessages_def)
  next
    case f: some
    consider (none) "\<not> ?re" "target_cloud L R m out (rear_scan_msg m) (rear_pcl m) = Inr None"
        "merge_scan L R m out ?re (rear_scan_msg m) (rear_pcl m) acc' = Inr None"
      | (some) cr acc2 where "merge_scan L R m out ?re (rear_scan_msg m) (rear_pcl m) acc' = Inr (Some (cr, acc2))"
        "?re \<or> target_cloud L R m out (rear_scan_msg m) (rear_pcl m) = Inr (Some cr) \<and> cloud_ok L step cr"
        "pair_inv L m step ({} \<union> scan_points L ?fe cf \<union> scan_points L ?re cr) (0 + 2 ^ 31 - 1 + 2 ^ 31 - 1) acc2"
      using merge_scan_ok[OF assms(1,2,4,8) out(2) f(3), of "rear_scan_msg m"] by blast
    then show ?thesis
    proof cases
      case none
      then show ?thesis using out n f(1) by (simp add: publishMessages_def)
    next
      case r: some
      let ?base = "if \<not> ?fe then cf else cr"
      have base: "cloud_ok L step ?base" using f(2) r(2) assms(6) by auto
      have "\<exists>clouds. (if p_publish_pcl m then map_sum id (\<lambda>c. [PclMsg c]) (merged_cloud m out ?base (snd acc2))
             else Inr []) = Inr clouds \<and> list_all (msg_ok m step) clouds \<and> (clouds = [] \<longleftrightarrow> \<not> p_publish_pcl m)"
        using merged_cloud_ok[of ?base step "snd acc2" m out] base r(3)
        by (cases "p_publish_pcl m") (auto simp: cloud_ok_def pair_inv_def)
      then obtain clouds where cl: "(if p_publish_pcl m then map_sum id (\<lambda>c. [PclMsg c]) (merged_cloud m out ?base (snd acc2))
             else Inr []) = Inr clouds" "list_all (msg_ok m step) clouds" "clouds = [] \<longleftrightarrow> \<not> p_publish_pcl m" by blast
      obtain rs bs where ab: "acc2 = (rs, bs)" by (cases acc2)
      have pub: "publishMessages L now F R m =
          Inr (m\<lparr>merger_log := merger_log m @ (if p_publish_scan m then [ScanMsg (merged_scan m out rs)] else []) @ clouds,
                 front_scan_received := False, rear_scan_received := False\<rparr>)"
        using cl(1)[unfolded ab snd_conv] r(1)[unfolded ab]
        by (simp add: publishMessages_def n out(1) f(1) Let_def split del: if_split)
      show ?thesis using pub out(1) f(2) r(2,3) cl(2,3) unfolding pair_inv_def Un_empty_left ab fst_conv by blast
    qed
  qed
qed

section \<open>The invariant of the node\<close>

text \<open>
  At most one scanner is flagged as missing, the cloud of a scanner that is not flagged can be
  published, and every message of the log is complete. Before the first scan, and after a publication,
  no flag is set.
\<close>

definition merger_inv :: "'tf MergerLib \<Rightarrow> u32 \<Rightarrow> ScansMerger \<Rightarrow> bool" where
  "merger_inv L step m \<longleftrightarrow> merger_params_ok m \<and> list_all (msg_ok m step) (merger_log m) \<and>
     \<not> (front_scan_error m \<and> rear_scan_error m) \<and>
     ((\<not> front_scan_received m \<and> \<not> rear_scan_received m \<and> \<not> front_scan_error m \<and> \<not> rear_scan_error m) \<or>
      ((front_scan_error m \<or> input_ok L step (front_pcl m)) \<and> (rear_scan_error m \<or> input_ok L step (rear_pcl m))))"

fun merger_event_ok :: "'tf MergerLib \<Rightarrow> u32 \<Rightarrow> 'tf merger_event \<Rightarrow> bool" where
  "merger_event_ok L step (FrontScan s now F R) \<longleftrightarrow> input_ok L step (project_laser L s) \<and> view_ok L step F \<and> view_ok L step R"
| "merger_event_ok L step (RearScan s now F R) \<longleftrightarrow> input_ok L step (project_laser L s) \<and> view_ok L step F \<and> view_ok L step R"

text \<open>Parameters, subscriptions and flags of the node, which a publication does not change.\<close>

definition same_config :: "ScansMerger \<Rightarrow> ScansMerger \<Rightarrow> bool" where
  "same_config m m' \<longleftrightarrow> subscribed m' = subscribed m \<and> p_ranges_num m' = p_ranges_num m \<and>
     p_target_frame_id m' = p_target_frame_id m \<and> p_publish_scan m' = p_publish_scan m \<and>
     p_publish_pcl m' = p_publish_pcl m \<and> (merger_params_ok m' = merger_params_ok m)"

lemma same_config_msg_ok: "same_config m m' \<Longrightarrow> msg_ok m' step = msg_ok m step"
  by (rule ext, case_tac x) (auto simp: same_config_def)

lemma same_config_trans: "same_config a b \<Longrightarrow> same_config b c \<Longrightarrow> same_config a c"
  by (simp add: same_config_def)

text \<open>A publication from a state in which both inputs can be used.\<close>

lemma publish_step:
  assumes "merger_lib_ok L step" "0 < step" "view_ok L step F" "view_ok L step R" "merger_inv L step m"
    and "front_scan_error m \<or> input_ok L step (front_pcl m)" "rear_scan_error m \<or> input_ok L step (rear_pcl m)"
  shows "\<exists>m' new. publishMessages L now F R m = Inr m' \<and> merger_inv L step m' \<and> same_config m m' \<and>
    merger_log m' = merger_log m @ new"
proof -
  have m: "merger_params_ok m" "\<not> (front_scan_error m \<and> rear_scan_error m)" "list_all (msg_ok m step) (merger_log m)"
    using assms(5) by (auto simp: merger_inv_def)
  from publishMessages_ok[OF assms(1) m(1) assms(3,4,2) m(2) assms(6,7), of now]
  obtain out where "(publishMessages L now F R m = Inr m) \<or>
     (\<exists>cf cr rs clouds.
        (p_publish_scan m \<longrightarrow> ranges_inv L m (scan_points L (front_scan_error m) cf \<union> scan_points L (rear_scan_error m) cr) rs) \<and>
        publishMessages L now F R m =
          Inr (m\<lparr>merger_log := merger_log m @ (if p_publish_scan m then [ScanMsg (merged_scan m out rs)] else []) @ clouds,
                 front_scan_received := False, rear_scan_received := False\<rparr>) \<and>
        list_all (msg_ok m step) clouds)" by blast
  then show ?thesis
  proof (elim disjE exE conjE)
    assume "publishMessages L now F R m = Inr m"
    then show ?thesis using assms(5) by (auto simp: same_config_def)
  next
    fix cf cr rs clouds
    let ?new = "(if p_publish_scan m then [ScanMsg (merged_scan m out rs)] else []) @ clouds"
    let ?m = "m\<lparr>merger_log := merger_log m @ ?new, front_scan_received := False, rear_scan_received := False\<rparr>"
    assume p: "p_publish_scan m \<longrightarrow> ranges_inv L m (scan_points L (front_scan_error m) cf \<union> scan_points L (rear_scan_error m) cr) rs"
      "publishMessages L now F R m = Inr ?m" "list_all (msg_ok m step) clouds"
    have c: "same_config m ?m" by (simp add: same_config_def merger_params_ok_def)
    have "list_all (msg_ok m step) ?new" using p(1,3) by (auto simp: ranges_inv_def merged_scan_def)
    then have "merger_inv L step ?m"
      using m assms(6,7) same_config_msg_ok[OF c] by (simp add: merger_inv_def merger_params_ok_def)
    then show ?thesis using p(2) c by (intro exI[of _ ?m] exI[of _ ?new]) simp
  qed
qed

lemma merger_step_ok:
  assumes "merger_lib_ok L step" "0 < step" "merger_inv L step m" "merger_event_ok L step e"
  shows "\<exists>m' new. merger_step L e m = Inr m' \<and> merger_inv L step m' \<and> same_config m m' \<and>
    merger_log m' = merger_log m @ new"
proof (cases "subscribed m")
  case False
  then show ?thesis using assms(3) by (cases e) (auto simp: same_config_def)
next
  case True
  show ?thesis
  proof (cases e)
    case (FrontScan s now F R)
    let ?m = "m\<lparr>front_scan_msg := s, front_pcl := project_laser L s, front_scan_received := True, front_scan_error := False\<rparr>"
    have ev: "input_ok L step (project_laser L s)" "view_ok L step F" "view_ok L step R"
      using assms(4) by (simp_all add: FrontScan)
    have c: "same_config m ?m" by (simp add: same_config_def merger_params_ok_def)
    show ?thesis
    proof (cases "rear_scan_received m \<or> rear_scan_error m")
      case rear: True
      then have i: "merger_inv L step ?m" "rear_scan_error m \<or> input_ok L step (rear_pcl m)"
        using assms(3) ev(1) same_config_msg_ok[OF c] by (auto simp: merger_inv_def merger_params_ok_def)
      from publish_step[OF assms(1,2) ev(2,3) i(1), of now] show ?thesis
        using i(2) ev(1) True rear same_config_trans[OF c] by (auto simp: FrontScan frontScanCallback_def Let_def)
    next
      case rear: False
      have "same_config m (?m\<lparr>rear_scan_error := True\<rparr>)" by (simp add: same_config_def merger_params_ok_def)
      then show ?thesis using assms(3) ev(1) True rear same_config_msg_ok[of m]
        by (auto simp: FrontScan frontScanCallback_def Let_def merger_inv_def merger_params_ok_def)
    qed
  next
    case (RearScan s now F R)
    let ?m = "m\<lparr>rear_scan_msg := s, rear_pcl := project_laser L s, rear_scan_received := True, rear_scan_error := False\<rparr>"
    have ev: "input_ok L step (project_laser L s)" "view_ok L step F" "view_ok L step R"
      using assms(4) by (simp_all add: RearScan)
    have c: "same_config m ?m" by (simp add: same_config_def merger_params_ok_def)
    show ?thesis
    proof (cases "front_scan_received m \<or> front_scan_error m")
      case front: True
      then have i: "merger_inv L step ?m" "front_scan_error m \<or> input_ok L step (front_pcl m)"
        using assms(3) ev(1) same_config_msg_ok[OF c] by (auto simp: merger_inv_def merger_params_ok_def)
      from publish_step[OF assms(1,2) ev(2,3) i(1), of now] show ?thesis
        using i(2) ev(1) True front same_config_trans[OF c] by (auto simp: RearScan rearScanCallback_def Let_def)
    next
      case front: False
      have "same_config m (?m\<lparr>front_scan_error := True\<rparr>)" by (simp add: same_config_def merger_params_ok_def)
      then show ?thesis using assms(3) ev(1) True front same_config_msg_ok[of m]
        by (auto simp: RearScan rearScanCallback_def Let_def merger_inv_def merger_params_ok_def)
    qed
  qed
qed

lemma merger_run_ok:
  assumes "merger_lib_ok L step" "0 < step" "merger_inv L step m" "list_all (merger_event_ok L step) es"
  shows "\<exists>m' new. merger_run L es m = Inr m' \<and> merger_inv L step m' \<and> same_config m m' \<and>
    merger_log m' = merger_log m @ new"
  using assms(3,4)
proof (induction es arbitrary: m)
  case Nil
  then show ?case by (simp add: same_config_def)
next
  case (Cons e es)
  obtain m1 new1 where s: "merger_step L e m = Inr m1" "merger_inv L step m1" "same_config m m1"
    "merger_log m1 = merger_log m @ new1"
    using merger_step_ok[OF assms(1,2) Cons.prems(1), of e] Cons.prems(2) by auto
  then show ?case using Cons.IH[OF s(2)] Cons.prems(2) same_config_trans[OF s(3)] by auto
qed

lemma ScansMerger_new_inv:
  assumes "ScansMerger_new mem mp = Inr m" "merger_params_ok m"
  shows "merger_inv L step m"
  using assms by (auto simp: ScansMerger_new_def updateParamsUtil_def merger_inv_def Let_def split: if_splits)

section \<open>Two scans in a row\<close>

definition view_total :: "'tf TfView \<Rightarrow> bool" where
  "view_total V \<longleftrightarrow> (\<forall>frame scan. transform_scan V frame scan \<noteq> None) \<and> (\<forall>a b t. lookup_transform V a b t \<noteq> None)"

fun transforms_available :: "'tf merger_event \<Rightarrow> bool" where
  "transforms_available (FrontScan s now F R) = (view_total F \<and> view_total R)"
| "transforms_available (RearScan s now F R) = (view_total F \<and> view_total R)"

fun would_publish :: "'tf merger_event \<Rightarrow> ScansMerger \<Rightarrow> bool" where
  "would_publish (FrontScan s now F R) m = (rear_scan_received m \<or> rear_scan_error m)"
| "would_publish (RearScan s now F R) m = (front_scan_received m \<or> front_scan_error m)"

lemma target_cloud_available:
  assumes "view_total V"
  shows "target_cloud L V m out scan pcl \<noteq> Inr None"
proof -
  obtain c where "transform_scan V (p_fixed_frame_id m) scan = Some c" using assms unfolding view_total_def by blast
  then show ?thesis using assms
    by (cases "rcl_time out"; cases "rcl_time (stamp_pcl pcl)") (auto simp: target_cloud_def view_total_def)
qed

lemma publishMessages_grows:
  assumes "merger_lib_ok L step" "0 < step" "view_ok L step F" "view_ok L step R" "merger_params_ok m"
    and "\<not> (front_scan_error m \<and> rear_scan_error m)"
    and "front_scan_error m \<or> input_ok L step (front_pcl m)" "rear_scan_error m \<or> input_ok L step (rear_pcl m)"
    and "view_total F" "view_total R" "p_publish_scan m \<or> p_publish_pcl m"
  shows "\<exists>m'. publishMessages L now F R m = Inr m' \<and> length (merger_log m) < length (merger_log m')"
  using publishMessages_ok[OF assms(1,5,3,4,2,6,7,8), of now] target_cloud_available[OF assms(9)]
    target_cloud_available[OF assms(10)] assms(11) by fastforce

lemma merger_step_publishes:
  assumes "merger_lib_ok L step" "0 < step" "merger_inv L step m" "merger_event_ok L step e"
    and "subscribed m" "would_publish e m" "transforms_available e" "p_publish_scan m \<or> p_publish_pcl m"
  shows "\<exists>m'. merger_step L e m = Inr m' \<and> length (merger_log m) < length (merger_log m')"
proof (cases e)
  case (FrontScan s now F R)
  let ?m = "m\<lparr>front_scan_msg := s, front_pcl := project_laser L s, front_scan_received := True, front_scan_error := False\<rparr>"
  have "\<exists>m'. publishMessages L now F R ?m = Inr m' \<and> length (merger_log ?m) < length (merger_log m')"
    by (rule publishMessages_grows[OF assms(1,2)])
      (use assms(3-8) in \<open>auto simp: FrontScan merger_inv_def merger_params_ok_def\<close>)
  then show ?thesis using assms(5,6) by (simp add: FrontScan frontScanCallback_def Let_def)
next
  case (RearScan s now F R)
  let ?m = "m\<lparr>rear_scan_msg := s, rear_pcl := project_laser L s, rear_scan_received := True, rear_scan_error := False\<rparr>"
  have "\<exists>m'. publishMessages L now F R ?m = Inr m' \<and> length (merger_log ?m) < length (merger_log m')"
    by (rule publishMessages_grows[OF assms(1,2)])
      (use assms(3-8) in \<open>auto simp: RearScan merger_inv_def merger_params_ok_def\<close>)
  then show ?thesis using assms(5,6) by (simp add: RearScan rearScanCallback_def Let_def)
qed

lemma not_published_yet:
  assumes "subscribed m" "\<not> would_publish e m" "merger_step L e m = Inr m'"
  shows "would_publish e' m'"
  using assms by (cases e; cases e') (auto simp: frontScanCallback_def rearScanCallback_def Let_def)

section \<open>Properties\<close>

text \<open>A library and a node for the witnesses: every cloud has the single point (1, 0).\<close>

definition sample_cloud :: PointCloud2 where
  "sample_cloud = blank_pcl\<lparr>height := 1, width := 1, point_step := 16, row_step := 16, data_pcl := replicate 16 7\<rparr>"

definition sample_lib :: "unit MergerLib" where
  "sample_lib = \<lparr>project_laser = \<lambda>s. sample_cloud, do_transform = \<lambda>c t. c,
     float_field = \<lambda>c f. if f = ''x'' then Some (\<lambda>i. fint B64 1) else if f = ''y'' then Some (\<lambda>i. fint B64 0) else None,
     hypot_lib = \<lambda>x y. fint B64 1, atan2_lib = \<lambda>y x. fint B64 0\<rparr>"

definition sample_view :: "unit TfView" where
  "sample_view = \<lparr>transform_scan = \<lambda>f s. Some sample_cloud, lookup_transform = \<lambda>a b t. Some ()\<rparr>"

definition sample_params :: MergerParams where
  "sample_params = \<lparr>mp_active = None, mp_publish_scan = Some True, mp_publish_pcl = None, mp_motion_compensation = None,
     mp_ranges_num = None, mp_min_scanner_range = None, mp_max_scanner_range = None, mp_min_x_range = None,
     mp_max_x_range = None, mp_min_y_range = None, mp_max_y_range = None, mp_filter_robot_body = None,
     mp_body_min_x = None, mp_body_max_x = None, mp_body_min_y = None, mp_body_max_y = None,
     mp_fixed_frame_id = None, mp_target_frame_id = None\<rparr>"

definition sample_merger :: ScansMerger where
  "sample_merger = \<lparr>front_scan_received = False, rear_scan_received = False, front_scan_error = False,
     rear_scan_error = False, front_pcl = blank_pcl, rear_pcl = blank_pcl, front_scan_msg = blank_scan,
     rear_scan_msg = blank_scan, p_active = True, p_publish_scan = True, p_publish_pcl = True,
     p_motion_compensation = True, p_ranges_num = 1000, p_min_scanner_range = flit B64 (5 / 100),
     p_max_scanner_range = flit B64 10, p_min_x_range = flit B64 (- 10), p_max_x_range = flit B64 10,
     p_min_y_range = flit B64 (- 10), p_max_y_range = flit B64 10, p_filter_robot_body = False,
     p_body_min_x = flit B64 (- 5 / 10), p_body_max_x = flit B64 (5 / 10), p_body_min_y = flit B64 (- 35 / 100),
     p_body_max_y = flit B64 (35 / 100), p_fixed_frame_id = ''map'', p_target_frame_id = ''robot'',
     params_declared = True, subscribed = True, merger_log = []\<rparr>"

definition sample_published :: ScansMerger where
  "sample_published = sample_merger\<lparr>front_pcl := sample_cloud, rear_pcl := sample_cloud\<rparr>"

lemma sample_cloud_ok: "cloud_ok sample_lib 16 sample_cloud" "input_ok sample_lib 16 sample_cloud"
  by (simp_all add: cloud_ok_def sample_lib_def sample_cloud_def input_ok_def rcl_time_def blank_pcl_def blank_stamp_def)

lemma sample_lib_ok: "merger_lib_ok sample_lib 16"
proof -
  have "angle_ok (fint B64 0)" using fint_value[of 0 B64] by (simp add: angle_ok_def M_PI_value sgn_val_def)
  moreover have "cloud_ok sample_lib 16 (do_transform sample_lib c t)" if "cloud_ok sample_lib 16 c" for c t
    using that by (simp add: sample_lib_def)
  ultimately show ?thesis by (auto simp: merger_lib_ok_def sample_lib_def fp_wf_fint)
qed

lemma sample_view_ok: "view_ok sample_lib 16 sample_view" "view_total sample_view"
  using sample_cloud_ok by (simp_all add: view_ok_def view_total_def sample_view_def)

lemma sample_params_ok: "merger_params_ok sample_merger"
proof -
  have "flit B64 10 = Fin False 10" using fint_exact[of 10 B64] by (simp add: flit_numeral)
  moreover have "flit B64 (5 / 100) = Fin False (rnd B64 (5 / 100))" by (simp add: flit_def pack_small)
  ultimately show ?thesis by (simp add: merger_params_ok_def sample_merger_def sgn_val_def)
qed

lemma sample_new: "ScansMerger_new sample_merger sample_params = Inr sample_merger"
  by (simp add: ScansMerger_new_def updateParamsUtil_def sample_merger_def sample_params_def get_parameter_or_def Let_def)

lemma sample_project: "project_laser sample_lib s = sample_cloud"
  by (simp add: sample_lib_def)

text \<open>
  C18: A merged scan holds in every sector the nearest of the points that pass the filters there, from
  both scanners, rounded to a float, and infinity where there is none; it has the configured number of
  ranges, and it is published with the stamp of the newer scan.
\<close>

theorem merged_ranges_nearest:
  assumes "merger_lib_ok L step" "0 < step" "merger_params_ok m" "view_ok L step F" "view_ok L step R"
    and "p_publish_scan m" "\<not> (front_scan_error m \<and> rear_scan_error m)"
    and "front_scan_error m \<or> input_ok L step (front_pcl m)" "rear_scan_error m \<or> input_ok L step (rear_pcl m)"
    and "output_stamp now m = Inr out"
    and "front_scan_error m \<or> target_cloud L F m out (front_scan_msg m) (front_pcl m) = Inr (Some cf)"
    and "rear_scan_error m \<or> target_cloud L R m out (rear_scan_msg m) (rear_pcl m) = Inr (Some cr)"
  shows "\<exists>m' rs clouds. publishMessages L now F R m = Inr m' \<and>
    merger_log m' = merger_log m @ ScanMsg (merged_scan m out rs) # clouds \<and>
    length rs = nat (p_ranges_num m) \<and>
    (\<forall>i < length rs. nearest L m
       (scan_points L (front_scan_error m) cf \<union> scan_points L (rear_scan_error m) cr) i (rs ! i))"
proof -
  have same: "scan_points L err c = scan_points L err c'"
    if "err \<or> x = Inr (Some c)" "err \<or> x = Inr (Some c')" for err c c' and x :: "PointCloud2 option res"
    using that by (auto simp: scan_points_def)
  from publishMessages_ok[OF assms(1,3,4,5,2,7,8,9), of now] assms(10-12)
  obtain cf' cr' rs clouds where p:
    "front_scan_error m \<or> target_cloud L F m out (front_scan_msg m) (front_pcl m) = Inr (Some cf')"
    "rear_scan_error m \<or> target_cloud L R m out (rear_scan_msg m) (rear_pcl m) = Inr (Some cr')"
    "p_publish_scan m \<longrightarrow> ranges_inv L m (scan_points L (front_scan_error m) cf' \<union> scan_points L (rear_scan_error m) cr') rs"
    "publishMessages L now F R m =
      Inr (m\<lparr>merger_log := merger_log m @ (if p_publish_scan m then [ScanMsg (merged_scan m out rs)] else []) @ clouds,
             front_scan_received := False, rear_scan_received := False\<rparr>)"
    by auto
  then show ?thesis using assms(6) same[OF assms(11) p(1)] same[OF assms(12) p(2)]
    by (auto simp: ranges_inv_def)
qed

theorem merged_ranges_nearest_witness:
  "\<exists>m' rs clouds. publishMessages sample_lib blank_stamp sample_view sample_view sample_published = Inr m' \<and>
    merger_log m' = ScanMsg (merged_scan sample_published blank_stamp rs) # clouds \<and> length rs = 1000 \<and>
    (\<forall>i < length rs. nearest sample_lib sample_published
       (scan_points sample_lib False sample_cloud \<union> scan_points sample_lib False sample_cloud) i (rs ! i))"
proof -
  let ?m = sample_published
  have s: "merger_params_ok ?m" "p_publish_scan ?m" "\<not> front_scan_error ?m" "\<not> rear_scan_error ?m"
    "front_pcl ?m = sample_cloud" "rear_pcl ?m = sample_cloud" "p_ranges_num ?m = 1000" "merger_log ?m = []"
    using sample_params_ok by (simp_all add: sample_published_def merger_params_ok_def sample_merger_def)
  have out: "output_stamp blank_stamp ?m = Inr blank_stamp"
    by (simp add: output_stamp_def s sample_cloud_def blank_pcl_def rcl_time_def blank_stamp_def)
  have tc: "target_cloud sample_lib sample_view ?m blank_stamp sc sample_cloud = Inr (Some sample_cloud)" for sc
    by (simp add: target_cloud_def sample_published_def sample_merger_def sample_view_def sample_lib_def rcl_time_def
        blank_stamp_def)
  show ?thesis
    using merged_ranges_nearest[of sample_lib 16 ?m sample_view sample_view blank_stamp blank_stamp sample_cloud sample_cloud]
      sample_lib_ok sample_view_ok sample_cloud_ok s out tc by simp
qed



text \<open>
  When the transforms are available, of any two scans in a row at least one leads to a publication,
  whichever scanners they come from; one scanner alone keeps the output going.
\<close>

lemma two_scans_publish:
  assumes "merger_lib_ok L step" "0 < step" "merger_inv L step m" "subscribed m"
    and "merger_event_ok L step e1" "merger_event_ok L step e2" "transforms_available e1" "transforms_available e2"
    and "p_publish_scan m \<or> p_publish_pcl m"
  shows "\<exists>m'. merger_run L [e1, e2] m = Inr m' \<and> length (merger_log m) < length (merger_log m')"
proof -
  obtain m1 new where s: "merger_step L e1 m = Inr m1" "merger_inv L step m1" "same_config m m1"
    "merger_log m1 = merger_log m @ new"
    using merger_step_ok[OF assms(1-3,5)] by blast
  have c1: "subscribed m1" "p_publish_scan m1 \<or> p_publish_pcl m1" using s(3) assms(4,9) by (auto simp: same_config_def)
  show ?thesis
  proof (cases "would_publish e1 m")
    case True
    then show ?thesis
      using merger_step_publishes[OF assms(1-3,5,4) True assms(7,9)] merger_step_ok[OF assms(1,2) s(2) assms(6)] s(1)
      by auto
  next
    case False
    then show ?thesis
      using merger_step_publishes[OF assms(1,2) s(2) assms(6) c1(1) not_published_yet[OF assms(4) False s(1)] assms(8) c1(2)] s(1,4)
      by auto
  qed
qed

end
