(* ===== verification/Velocity_Smoother.thy ===== *)
theory Velocity_Smoother
  imports Ieee754
begin

text \<open>
  The velocity smoother between the navigation controller and the driver of the robot
  (\<open>nav2_velocity_smoother/src/velocity_smoother.cpp\<close>), with the moving average of the odometry it can use
  as feedback (\<open>nav2_util/src/odometry_utils.cpp\<close>) and the check of its input
  (\<open>nav2_util/src/robot_utils.cpp\<close>). Times are nanoseconds; the conversion of seconds to a duration is
  the parameter \<open>from_sec\<close>. Unqualified \<open>abs\<close> on doubles is the overload for doubles.
\<close>

section \<open>Velocities\<close>

record Vel6 =
  lin_x :: fp
  lin_y :: fp
  lin_z :: fp
  ang_x :: fp
  ang_y :: fp
  ang_z :: fp

definition zero_vel :: Vel6 where
  "zero_vel = (let z = flit B64 0 in
     \<lparr>lin_x = z, lin_y = z, lin_z = z, ang_x = z, ang_y = z, ang_z = z\<rparr>)"

definition vel_eq :: "Vel6 \<Rightarrow> Vel6 \<Rightarrow> bool" where
  "vel_eq a b = (feq (lin_x a) (lin_x b) \<and> feq (lin_y a) (lin_y b) \<and> feq (lin_z a) (lin_z b) \<and>
     feq (ang_x a) (ang_x b) \<and> feq (ang_y a) (ang_y b) \<and> feq (ang_z a) (ang_z b))"

definition validateTwist :: "Vel6 \<Rightarrow> bool" where
  "validateTwist msg = (is_fin (lin_x msg) \<and> is_fin (lin_y msg) \<and> is_fin (lin_z msg) \<and>
     is_fin (ang_x msg) \<and> is_fin (ang_y msg) \<and> is_fin (ang_z msg))"

definition map_vel :: "(fp \<Rightarrow> fp \<Rightarrow> fp) \<Rightarrow> Vel6 \<Rightarrow> Vel6 \<Rightarrow> Vel6" where
  "map_vel f a b = \<lparr>lin_x = f (lin_x a) (lin_x b), lin_y = f (lin_y a) (lin_y b), lin_z = f (lin_z a) (lin_z b),
     ang_x = f (ang_x a) (ang_x b), ang_y = f (ang_y a) (ang_y b), ang_z = f (ang_z a) (ang_z b)\<rparr>"

section \<open>Moving average of the odometry\<close>

record OdomSmoother =
  odom_history_duration :: int
  odom_history :: "(int \<times> Vel6) list"
  odom_cumulate :: Vel6
  vel_smooth :: Vel6

definition OdomSmoother_new :: "int \<Rightarrow> OdomSmoother" where
  "OdomSmoother_new duration = \<lparr>odom_history_duration = duration, odom_history = [], odom_cumulate = zero_vel,
     vel_smooth = zero_vel\<rparr>"

fun drop_old :: "int \<Rightarrow> int \<Rightarrow> (int \<times> Vel6) list \<Rightarrow> Vel6 \<Rightarrow> (int \<times> Vel6) list \<times> Vel6" where
  "drop_old current_time duration [] cumulate = ([], cumulate)"
| "drop_old current_time duration ((front_time, odom) # history) cumulate =
    (if duration < current_time - front_time
     then drop_old current_time duration history (map_vel (fsub B64) cumulate odom)
     else ((front_time, odom) # history, cumulate))"

definition updateState :: "OdomSmoother \<Rightarrow> OdomSmoother" where
  "updateState od =
    (let cumulate = map_vel (fadd B64) (odom_cumulate od) (snd (last (odom_history od)));
         n = fint B64 (int (length (odom_history od))) in
     od\<lparr>odom_cumulate := cumulate, vel_smooth := map_vel (\<lambda>v _. fdiv B64 v n) cumulate cumulate\<rparr>)"

definition odomCallback :: "int \<Rightarrow> Vel6 \<Rightarrow> OdomSmoother \<Rightarrow> OdomSmoother" where
  "odomCallback current_time twist od =
    (let (history, cumulate) = drop_old current_time (odom_history_duration od) (odom_history od) (odom_cumulate od) in
     updateState (od\<lparr>odom_history := history @ [(current_time, twist)], odom_cumulate := cumulate\<rparr>))"

section \<open>State\<close>

text \<open>
  \<open>smoothed_cmd_pub\<close> is the publisher, active or not, \<open>timer_ms\<close> the period of the timer, \<open>smoothed\<close> what
  was published.
\<close>

record VelocitySmoother =
  odom_smoother :: "OdomSmoother option"
  smoothed_cmd_pub :: "bool option"
  cmd_sub :: bool
  timer_ms :: "int option"
  last_cmd :: Vel6
  command_vs :: "Vel6 option"
  smoothing_frequency :: fp
  odom_duration :: fp
  odom_topic :: string
  open_loop :: bool
  stopped :: bool
  scale_velocities :: bool
  max_velocities :: "fp list"
  min_velocities :: "fp list"
  max_accels :: "fp list"
  max_decels :: "fp list"
  deadband_velocities :: "fp list"
  velocity_timeout :: int
  last_command_time :: int
  dyn_params_handler :: bool
  smoothed :: "Vel6 list"

record SmootherParams =
  sp_smoothing_frequency :: "fp option"
  sp_feedback :: "string option"
  sp_scale_velocities :: "bool option"
  sp_max_velocity :: "fp list option"
  sp_min_velocity :: "fp list option"
  sp_max_accel :: "fp list option"
  sp_max_decel :: "fp list option"
  sp_odom_topic :: "string option"
  sp_odom_duration :: "fp option"
  sp_deadband_velocity :: "fp list option"
  sp_velocity_timeout :: "fp option"

text \<open>\<open>operator[]\<close> of a vector is undefined past its end.\<close>

definition at_index :: "'a list \<Rightarrow> nat \<Rightarrow> 'a res" where
  "at_index xs i = (if i < length xs then Inr (xs ! i) else Inl IndexOutOfRange)"

section \<open>Life cycle\<close>

definition check_axis :: "VelocitySmoother \<Rightarrow> nat \<Rightarrow> unit res" where
  "check_axis s i =
     res_bind (at_index (max_decels s) i) (\<lambda>d. if flt (flit B64 0) d then Inl (Thrown ''runtime_error'') else
     res_bind (at_index (max_accels s) i) (\<lambda>a. if flt a (flit B64 0) then Inl (Thrown ''runtime_error'') else
     res_bind (at_index (min_velocities s) i) (\<lambda>lo. res_bind (at_index (max_velocities s) i) (\<lambda>hi.
       if flt hi lo then Inl (Thrown ''runtime_error'') else Inr ()))))"

text \<open>\<open>create_wall_timer\<close> with the period truncated to whole milliseconds; a negative period throws.\<close>

definition make_timer :: "VelocitySmoother \<Rightarrow> VelocitySmoother res" where
  "make_timer s =
     res_bind (to_int_in (- (2 ^ 31)) (2 ^ 31 - 1) (fdiv B64 (flit B64 1000) (smoothing_frequency s))) (\<lambda>ms.
       if ms < 0 then Inl (Thrown ''invalid_argument'') else Inr (s\<lparr>timer_ms := Some ms\<rparr>))"

definition smoother_on_configure :: "(fp \<Rightarrow> int) \<Rightarrow> SmootherParams \<Rightarrow> VelocitySmoother \<Rightarrow> VelocitySmoother res" where
  "smoother_on_configure from_sec sp s =
    (let param = (\<lambda>v d. case v of None \<Rightarrow> d | Some x \<Rightarrow> x);
         s1 = s\<lparr>smoothing_frequency := (case sp_smoothing_frequency sp of None \<Rightarrow> flit B64 20 | Some x \<Rightarrow> x),
                scale_velocities := (case sp_scale_velocities sp of None \<Rightarrow> False | Some x \<Rightarrow> x),
                max_velocities := param (sp_max_velocity sp) [flit B64 (5 / 10), flit B64 0, flit B64 (25 / 10)],
                min_velocities := param (sp_min_velocity sp) [flit B64 (- 5 / 10), flit B64 0, flit B64 (- 25 / 10)],
                max_accels := param (sp_max_accel sp) [flit B64 (25 / 10), flit B64 0, flit B64 (32 / 10)],
                max_decels := param (sp_max_decel sp) [flit B64 (- 25 / 10), flit B64 0, flit B64 (- 32 / 10)]\<rparr>;
         feedback = (case sp_feedback sp of None \<Rightarrow> ''OPEN_LOOP'' | Some x \<Rightarrow> x) in
     res_bind (check_axis s1 0) (\<lambda>_. res_bind (check_axis s1 1) (\<lambda>_. res_bind (check_axis s1 2) (\<lambda>_.
       let s2 = s1\<lparr>odom_topic := (case sp_odom_topic sp of None \<Rightarrow> ''odom'' | Some x \<Rightarrow> x),
                   odom_duration := (case sp_odom_duration sp of None \<Rightarrow> flit B64 (1 / 10) | Some x \<Rightarrow> x),
                   deadband_velocities := param (sp_deadband_velocity sp) [flit B64 0, flit B64 0, flit B64 0],
                   velocity_timeout := from_sec (case sp_velocity_timeout sp of None \<Rightarrow> flit B64 1 | Some x \<Rightarrow> x)\<rparr> in
       if length (max_velocities s2) \<noteq> 3 \<or> length (min_velocities s2) \<noteq> 3 \<or> length (max_accels s2) \<noteq> 3 \<or>
          length (max_decels s2) \<noteq> 3 \<or> length (deadband_velocities s2) \<noteq> 3
       then Inl (Thrown ''runtime_error'')
       else
         res_bind (if feedback = ''OPEN_LOOP'' then Inr (s2\<lparr>open_loop := True\<rparr>)
                   else if feedback = ''CLOSED_LOOP'' then
                     Inr (s2\<lparr>open_loop := False, odom_smoother := Some (OdomSmoother_new (from_sec (odom_duration s2)))\<rparr>)
                   else Inl (Thrown ''runtime_error'')) (\<lambda>s3.
           Inr (s3\<lparr>smoothed_cmd_pub := Some False, cmd_sub := True\<rparr>))))))"

definition smoother_on_activate :: "VelocitySmoother \<Rightarrow> VelocitySmoother res" where
  "smoother_on_activate s =
    (case smoothed_cmd_pub s of None \<Rightarrow> Inl NullDereference
     | Some _ \<Rightarrow> res_bind (make_timer (s\<lparr>smoothed_cmd_pub := Some True\<rparr>)) (\<lambda>s1.
         Inr (s1\<lparr>dyn_params_handler := True\<rparr>)))"

definition smoother_on_deactivate :: "VelocitySmoother \<Rightarrow> VelocitySmoother res" where
  "smoother_on_deactivate s =
    (case smoothed_cmd_pub s of None \<Rightarrow> Inl NullDereference
     | Some _ \<Rightarrow> Inr (s\<lparr>timer_ms := None, smoothed_cmd_pub := Some False, dyn_params_handler := False\<rparr>))"

definition smoother_on_cleanup :: "VelocitySmoother \<Rightarrow> VelocitySmoother" where
  "smoother_on_cleanup s = s\<lparr>smoothed_cmd_pub := None, odom_smoother := None, cmd_sub := False\<rparr>"

section \<open>Smoothing\<close>

definition inputCommandCallback :: "Vel6 \<Rightarrow> int \<Rightarrow> VelocitySmoother \<Rightarrow> VelocitySmoother" where
  "inputCommandCallback msg now s =
    (if \<not> validateTwist msg then s else s\<lparr>command_vs := Some msg, last_command_time := now\<rparr>)"

text \<open>The bounds on a change of velocity, smallest first, while accelerating and while decelerating.\<close>

definition change_bounds :: "fp \<Rightarrow> fp \<Rightarrow> fp \<Rightarrow> fp \<Rightarrow> fp \<Rightarrow> fp \<times> fp" where
  "change_bounds freq v_curr v_cmd accel decel =
    (if fle (fabs v_curr) (fabs v_cmd) \<and> fle (flit B64 0) (fmul B64 v_curr v_cmd)
     then (fdiv B64 (fneg accel) freq, fdiv B64 accel freq)
     else (fdiv B64 decel freq, fdiv B64 (fneg decel) freq))"

definition findEtaConstraint :: "fp \<Rightarrow> fp \<Rightarrow> fp \<Rightarrow> fp \<Rightarrow> fp \<Rightarrow> fp" where
  "findEtaConstraint freq v_curr v_cmd accel decel =
    (let dv = fsub B64 v_cmd v_curr;
         (v_component_min, v_component_max) = change_bounds freq v_curr v_cmd accel decel in
     if flt v_component_max dv then fdiv B64 v_component_max dv
     else if flt dv v_component_min then fdiv B64 v_component_min dv
     else flit B64 (- 1))"

text \<open>\<open>std::clamp\<close> is undefined when its bounds are in the wrong order.\<close>

definition std_clamp :: "fp \<Rightarrow> fp \<Rightarrow> fp \<Rightarrow> fp res" where
  "std_clamp v lo hi = (if flt hi lo then Inl LibraryPrecondition
     else Inr (if flt v lo then lo else if flt hi v then hi else v))"

definition applyConstraints :: "fp \<Rightarrow> fp \<Rightarrow> fp \<Rightarrow> fp \<Rightarrow> fp \<Rightarrow> fp \<Rightarrow> fp res" where
  "applyConstraints freq v_curr v_cmd accel decel eta =
    (let dv = fsub B64 v_cmd v_curr;
         (v_component_min, v_component_max) = change_bounds freq v_curr v_cmd accel decel in
     res_bind (std_clamp (fmul B64 eta dv) v_component_min v_component_max) (\<lambda>c. Inr (fadd B64 v_curr c)))"

text \<open>One of the three steps that make the scale factor more significant.\<close>

definition scale_step :: "VelocitySmoother \<Rightarrow> nat \<Rightarrow> fp \<Rightarrow> fp \<Rightarrow> fp \<Rightarrow> fp res" where
  "scale_step s i v_curr v_cmd eta =
     res_bind (at_index (max_accels s) i) (\<lambda>accel. res_bind (at_index (max_decels s) i) (\<lambda>decel.
       let curr_eta = findEtaConstraint (smoothing_frequency s) v_curr v_cmd accel decel; one = flit B64 1 in
       Inr (if flt (flit B64 0) curr_eta \<and> flt (fabs (fsub B64 one eta)) (fabs (fsub B64 one curr_eta))
            then curr_eta else eta)))"

definition find_eta :: "VelocitySmoother \<Rightarrow> Vel6 \<Rightarrow> Vel6 \<Rightarrow> fp res" where
  "find_eta s cur cmd =
    (if \<not> scale_velocities s then Inr (flit B64 1)
     else res_bind (scale_step s 0 (lin_x cur) (lin_x cmd) (flit B64 1)) (\<lambda>e0.
          res_bind (scale_step s 1 (lin_y cur) (lin_y cmd) e0) (\<lambda>e1.
            scale_step s 2 (ang_z cur) (ang_z cmd) e1)))"

definition limit_axis :: "VelocitySmoother \<Rightarrow> nat \<Rightarrow> fp \<Rightarrow> fp res" where
  "limit_axis s i v =
     res_bind (at_index (min_velocities s) i) (\<lambda>lo. res_bind (at_index (max_velocities s) i) (\<lambda>hi. std_clamp v lo hi))"

definition constrain_axis :: "VelocitySmoother \<Rightarrow> fp \<Rightarrow> nat \<Rightarrow> fp \<Rightarrow> fp \<Rightarrow> fp res" where
  "constrain_axis s eta i v_curr v_cmd =
     res_bind (at_index (max_accels s) i) (\<lambda>accel. res_bind (at_index (max_decels s) i) (\<lambda>decel.
       applyConstraints (smoothing_frequency s) v_curr v_cmd accel decel eta))"

definition deadband_axis :: "VelocitySmoother \<Rightarrow> nat \<Rightarrow> fp \<Rightarrow> fp res" where
  "deadband_axis s i v = res_bind (at_index (deadband_velocities s) i) (\<lambda>d.
     Inr (if flt (fabs v) d then flit B64 0 else v))"

text \<open>Three axes of a velocity, one after the other.\<close>

definition each_axis :: "(nat \<Rightarrow> fp \<Rightarrow> fp \<Rightarrow> fp res) \<Rightarrow> Vel6 \<Rightarrow> Vel6 \<Rightarrow> Vel6 \<Rightarrow> Vel6 res" where
  "each_axis f a b v =
     res_bind (f 0 (lin_x a) (lin_x b)) (\<lambda>x. res_bind (f 1 (lin_y a) (lin_y b)) (\<lambda>y.
     res_bind (f 2 (ang_z a) (ang_z b)) (\<lambda>z. Inr (v\<lparr>lin_x := x, lin_y := y, ang_z := z\<rparr>))))"

definition smootherTimer :: "int \<Rightarrow> VelocitySmoother \<Rightarrow> VelocitySmoother res" where
  "smootherTimer now s =
    (case command_vs s of None \<Rightarrow> Inr s
     | Some received \<Rightarrow>
         let late = (velocity_timeout s < now - last_command_time s) in
         if late \<and> (vel_eq (last_cmd s) zero_vel \<or> stopped s) then Inr (s\<lparr>stopped := True\<rparr>)
         else
           let cmd0 = (if late then zero_vel else received) in
           res_bind (if open_loop s then Inr (last_cmd s)
                     else case odom_smoother s of None \<Rightarrow> Inl NullDereference | Some od \<Rightarrow> Inr (vel_smooth od)) (\<lambda>current.
           res_bind (each_axis (\<lambda>i v _. limit_axis s i v) cmd0 cmd0 cmd0) (\<lambda>cmd.
           res_bind (find_eta s current cmd) (\<lambda>eta.
           res_bind (each_axis (constrain_axis s eta) current cmd zero_vel) (\<lambda>cmd_vel.
           res_bind (each_axis (\<lambda>i v _. deadband_axis s i v) cmd_vel cmd_vel cmd_vel) (\<lambda>out.
             case smoothed_cmd_pub s of None \<Rightarrow> Inl NullDereference
             | Some active \<Rightarrow>
                 Inr (s\<lparr>stopped := False, command_vs := Some cmd, last_cmd := cmd_vel,
                        smoothed := smoothed s @ (if active then [out] else [])\<rparr>)))))))"

section \<open>Parameters at run time\<close>

datatype param_value = PDouble fp | PDoubleArray "fp list" | PString string | POther

text \<open>Setting one parameter: whether it is acceptable, whether the loop stops there, and the new state.\<close>

definition set_parameter ::
  "(fp \<Rightarrow> int) \<Rightarrow> string \<Rightarrow> param_value \<Rightarrow> VelocitySmoother \<Rightarrow> (bool \<times> bool \<times> VelocitySmoother) res" where
  "set_parameter from_sec name value s =
    (case value of
       PDouble v \<Rightarrow>
         if name = ''smoothing_frequency'' then
           res_bind (make_timer (s\<lparr>smoothing_frequency := v, timer_ms := None\<rparr>)) (\<lambda>s'. Inr (True, False, s'))
         else if name = ''velocity_timeout'' then Inr (True, False, s\<lparr>velocity_timeout := from_sec v\<rparr>)
         else if name = ''odom_duration'' then
           Inr (True, False, s\<lparr>odom_duration := v, odom_smoother := Some (OdomSmoother_new (from_sec v))\<rparr>)
         else Inr (True, False, s)
     | PDoubleArray vs \<Rightarrow>
         if length vs \<noteq> 3 then Inr (False, True, s)
         else if name = ''max_velocity'' then Inr (True, False, s\<lparr>max_velocities := vs\<rparr>)
         else if name = ''min_velocity'' then Inr (True, False, s\<lparr>min_velocities := vs\<rparr>)
         else if name = ''max_accel'' then
           Inr (\<not> list_ex (\<lambda>v. flt v (flit B64 0)) vs, False, s\<lparr>max_accels := vs\<rparr>)
         else if name = ''max_decel'' then
           Inr (\<not> list_ex (\<lambda>v. flt (flit B64 0) v) vs, False, s\<lparr>max_decels := vs\<rparr>)
         else if name = ''deadband_velocity'' then Inr (True, False, s\<lparr>deadband_velocities := vs\<rparr>)
         else Inr (True, False, s)
     | PString v \<Rightarrow>
         if name = ''feedback'' then
           (if v = ''OPEN_LOOP'' then Inr (True, False, s\<lparr>open_loop := True, odom_smoother := None\<rparr>)
            else if v = ''CLOSED_LOOP'' then
              Inr (True, False, s\<lparr>open_loop := False, odom_smoother := Some (OdomSmoother_new (from_sec (odom_duration s)))\<rparr>)
            else Inr (False, True, s))
         else if name = ''odom_topic'' then
           Inr (True, False, s\<lparr>odom_topic := v, odom_smoother := Some (OdomSmoother_new (from_sec (odom_duration s)))\<rparr>)
         else Inr (True, False, s)
     | POther \<Rightarrow> Inr (True, False, s))"

fun smoother_parameters ::
  "(fp \<Rightarrow> int) \<Rightarrow> (string \<times> param_value) list \<Rightarrow> bool \<Rightarrow> VelocitySmoother \<Rightarrow> (bool \<times> VelocitySmoother) res" where
  "smoother_parameters from_sec [] successful s = Inr (successful, s)"
| "smoother_parameters from_sec ((name, value) # ps) successful s =
     res_bind (set_parameter from_sec name value s) (\<lambda>(ok, stop, s').
       if stop then Inr (False, s') else smoother_parameters from_sec ps (successful \<and> ok) s')"

definition smoother_dynamicParametersCallback ::
  "(fp \<Rightarrow> int) \<Rightarrow> (string \<times> param_value) list \<Rightarrow> VelocitySmoother \<Rightarrow> (bool \<times> VelocitySmoother) res" where
  "smoother_dynamicParametersCallback from_sec ps s = smoother_parameters from_sec ps True s"

section \<open>Runs\<close>

datatype smoother_event = CmdVel Vel6 int | SmootherTick int | OdomMsg int Vel6

fun smoother_step :: "smoother_event \<Rightarrow> VelocitySmoother \<Rightarrow> VelocitySmoother res" where
  "smoother_step (CmdVel msg now) s = Inr (if cmd_sub s then inputCommandCallback msg now s else s)"
| "smoother_step (SmootherTick now) s = (if timer_ms s \<noteq> None then smootherTimer now s else Inr s)"
| "smoother_step (OdomMsg t twist) s = Inr (s\<lparr>odom_smoother := map_option (odomCallback t twist) (odom_smoother s)\<rparr>)"

fun smoother_run :: "smoother_event list \<Rightarrow> VelocitySmoother \<Rightarrow> VelocitySmoother res" where
  "smoother_run [] s = Inr s"
| "smoother_run (ev # evs) s = res_bind (smoother_step ev s) (smoother_run evs)"

end
