(* ===== verification/Velocity_Smoother_Theorems.thy ===== *)
theory Velocity_Smoother_Theorems
  imports Velocity_Smoother
begin

text \<open>
  The velocity smoother with the open loop: whatever commands arrive, it never fails, what it publishes
  is bounded, the velocity changes by no more than the configured accelerations allow, and when the
  commands cease it comes to a stop.
\<close>

section \<open>Assumptions\<close>

definition speed_ok :: "rat \<Rightarrow> fp \<Rightarrow> bool" where
  "speed_ok b v \<longleftrightarrow> is_fin v \<and> fp_wf B64 v \<and> \<bar>fval v\<bar> \<le> b"

text \<open>Limits of a velocity and bounds on its change, at a frequency.\<close>

definition limits_ok :: "fp \<Rightarrow> fp \<Rightarrow> bool" where
  "limits_ok lo hi \<longleftrightarrow> speed_ok 15 lo \<and> speed_ok 15 hi \<and> fval lo \<le> fval hi"

definition rates_ok :: "fp \<Rightarrow> fp \<Rightarrow> fp \<Rightarrow> bool" where
  "rates_ok freq accel decel \<longleftrightarrow> is_fin freq \<and> fp_wf B64 freq \<and> 1 \<le> fval freq \<and>
     speed_ok 1000 accel \<and> 0 \<le> fval accel \<and> speed_ok 1000 decel \<and> fval decel \<le> 0"

definition eta_ok :: "fp \<Rightarrow> bool" where
  "eta_ok e \<longleftrightarrow> is_fin e \<and> fp_wf B64 e \<and> 0 \<le> fval e \<and> fval e \<le> 1"

section \<open>One axis\<close>

lemma feq_fin: "is_fin x \<Longrightarrow> is_fin y \<Longrightarrow> feq x y \<longleftrightarrow> fval x = fval y"
  by (cases x; cases y) simp_all

lemma fle_fin: "is_fin x \<Longrightarrow> is_fin y \<Longrightarrow> fle x y \<longleftrightarrow> fval x \<le> fval y"
  by (auto simp: fle_def flt_fin feq_fin)

lemma srnd_1: "srnd B64 1 = 1"
  using rnd_int[of 1 B64] by (simp add: srnd_def sgn_val_def)

lemma srnd_16: "srnd B64 16 = 16"
  using rnd_int[of 16 B64] by (simp add: srnd_def sgn_val_def)

lemma srnd_nonneg: "0 \<le> v \<Longrightarrow> 0 \<le> srnd f v"
  using srnd_mono[of 0 v f] by simp

lemma rate_value:
  assumes "rates_ok freq accel decel" "speed_ok 1000 a"
  shows "is_fin (fdiv B64 a freq)" "fp_wf B64 (fdiv B64 a freq)" "fval (fdiv B64 a freq) = srnd B64 (fval a / fval freq)"
    "\<bar>fval a / fval freq\<bar> \<le> 1000"
proof -
  have f: "is_fin freq" "fp_wf B64 freq" "1 \<le> fval freq" using assms(1) by (auto simp: rates_ok_def)
  have a: "is_fin a" "fp_wf B64 a" "\<bar>fval a\<bar> \<le> 1000" using assms(2) by (auto simp: speed_ok_def)
  have "\<bar>fval a\<bar> / fval freq \<le> \<bar>fval a\<bar> / 1" using f(3) by (intro divide_left_mono) auto
  then show q: "\<bar>fval a / fval freq\<bar> \<le> 1000" using a(3) f(3) by (simp add: abs_divide)
  then have "\<bar>fval a / fval freq\<bar> \<le> pow2 100" by (simp add: pow2_def)
  then show "is_fin (fdiv B64 a freq)" "fval (fdiv B64 a freq) = srnd B64 (fval a / fval freq)"
    using fval_fdiv[OF a(1,2) f(1,2)] f(3) by auto
  show "fp_wf B64 (fdiv B64 a freq)" by (rule fp_wf_fdiv[OF a(2) f(2)])
qed

lemma change_bounds_ok:
  assumes "rates_ok freq accel decel"
  obtains lo hi h where "change_bounds freq v_curr v_cmd accel decel = (lo, hi)" "is_fin lo" "is_fin hi"
    "fp_wf B64 lo" "fp_wf B64 hi" "fval lo = - h" "fval hi = h" "0 \<le> h"
    "h \<le> max (fval accel) (- fval decel) / fval freq + 1 / 1000000000000"
    "\<not> (fle (fabs v_curr) (fabs v_cmd) \<and> fle (flit B64 0) (fmul B64 v_curr v_cmd)) \<Longrightarrow> h = srnd B64 (- fval decel / fval freq)"
proof -
  define up where "up = (fle (fabs v_curr) (fabs v_cmd) \<and> fle (flit B64 0) (fmul B64 v_curr v_cmd))"
  define a where "a = (if up then accel else fneg decel)"
  have r: "1 \<le> fval freq" "speed_ok 1000 a" "speed_ok 1000 (fneg a)" "0 \<le> fval a" "fval a \<le> max (fval accel) (- fval decel)"
    using assms by (auto simp: a_def rates_ok_def speed_ok_def)
  have neg: "fneg (fneg x) = x" for x by (cases x) simp_all
  have e: "change_bounds freq v_curr v_cmd accel decel = (fdiv B64 (fneg a) freq, fdiv B64 a freq)"
    by (auto simp: change_bounds_def up_def[symmetric] a_def neg)
  note hi = rate_value[OF assms r(2)] and lo = rate_value[OF assms r(3)]
  have q: "fval a / fval freq \<le> max (fval accel) (- fval decel) / fval freq" using r(1,5) by (intro divide_right_mono) auto
  have "\<bar>srnd B64 (fval a / fval freq) - fval a / fval freq\<bar> \<le> 1 / 1000000000000"
    using hi(4) by (rule srnd_error) (simp_all add: pow2_def)
  then have h: "srnd B64 (fval a / fval freq) \<le> max (fval accel) (- fval decel) / fval freq + 1 / 1000000000000"
    using q by linarith
  show ?thesis
    by (rule that[OF e lo(1) hi(1) lo(2) hi(2) _ hi(3) _ h])
      (use r lo(3) in \<open>auto simp: srnd_minus srnd_nonneg a_def up_def[symmetric]\<close>)
qed

lemma scaled_between:
  assumes "0 \<le> e" "e \<le> 1" "fp_wf B64 d"
  shows "(0 \<le> srnd B64 (e * fval d) \<and> srnd B64 (e * fval d) \<le> fval d) \<or>
    (fval d \<le> srnd B64 (e * fval d) \<and> srnd B64 (e * fval d) \<le> 0)"
proof (cases "0 \<le> fval d")
  case True
  then have "0 \<le> e * fval d" "e * fval d \<le> fval d" using assms by (simp_all add: mult_left_le_one_le)
  then show ?thesis using srnd_mono[of 0 "e * fval d" B64] srnd_mono[of "e * fval d" "fval d" B64] srnd_wf[OF assms(3)] by simp
next
  case False
  have "e * (- fval d) \<le> - fval d" using False assms by (intro mult_left_le_one_le) auto
  then have "e * fval d \<le> 0" "fval d \<le> e * fval d" using False assms by (simp_all add: mult_nonneg_nonpos)
  then show ?thesis using srnd_mono[of "e * fval d" 0 B64] srnd_mono[of "fval d" "e * fval d" B64] srnd_wf[OF assms(3)] by simp
qed

text \<open>The exact sum of a velocity and an admissible change lies between the velocity and the command.\<close>

lemma clamped_change:
  assumes "rates_ok freq accel decel" "speed_ok 16 v_curr" "speed_ok 15 v_cmd" "eta_ok eta"
  obtains out c h where "applyConstraints freq v_curr v_cmd accel decel eta = Inr out" "speed_ok 16 out"
    "fval out = srnd B64 (fval v_curr + c)" "\<bar>c\<bar> \<le> h" "h \<le> max (fval accel) (- fval decel) / fval freq + 1 / 1000000000000"
    "\<bar>fval v_curr + c\<bar> \<le> 16"
proof -
  obtain lo hi h where b: "change_bounds freq v_curr v_cmd accel decel = (lo, hi)" "is_fin lo" "is_fin hi"
    "fp_wf B64 lo" "fp_wf B64 hi" "fval lo = - h" "fval hi = h" "0 \<le> h"
    "h \<le> max (fval accel) (- fval decel) / fval freq + 1 / 1000000000000"
    using change_bounds_ok[OF assms(1)] by metis
  have v: "is_fin v_curr" "fp_wf B64 v_curr" "\<bar>fval v_curr\<bar> \<le> 16" "is_fin v_cmd" "fp_wf B64 v_cmd" "\<bar>fval v_cmd\<bar> \<le> 15"
    using assms(2,3) by (auto simp: speed_ok_def)
  have e: "is_fin eta" "fp_wf B64 eta" "0 \<le> fval eta" "fval eta \<le> 1" using assms(4) by (auto simp: eta_ok_def)
  let ?dv = "fsub B64 v_cmd v_curr"
  have ex: "\<bar>fval v_cmd - fval v_curr\<bar> \<le> 31" using v(3,6) by linarith
  have dv: "is_fin ?dv" "fval ?dv = srnd B64 (fval v_cmd - fval v_curr)" "fp_wf B64 ?dv"
    using fval_fsub[OF v(4,1)] ex fp_wf_fsub[OF v(5,2)] by (auto simp: pow2_def)
  have dve: "\<bar>fval ?dv - (fval v_cmd - fval v_curr)\<bar> \<le> 1"
    unfolding dv(2) using ex by (rule srnd_error) (simp_all add: pow2_def)
  let ?p = "fmul B64 eta ?dv"
  have p0: "\<bar>fval eta * fval ?dv\<bar> \<le> \<bar>fval ?dv\<bar>" using e(3,4) by (simp add: abs_mult mult_left_le_one_le)
  have "\<bar>fval ?dv\<bar> \<le> 32" using dve ex by linarith
  then have "\<bar>fval eta * fval ?dv\<bar> \<le> pow2 100" using p0 by (simp add: pow2_def)
  then have p: "is_fin ?p" "fval ?p = srnd B64 (fval eta * fval ?dv)" using fval_fmul[OF e(1,2) dv(1,3)] by auto
  have between: "(0 \<le> fval ?p \<and> fval ?p \<le> fval ?dv) \<or> (fval ?dv \<le> fval ?p \<and> fval ?p \<le> 0)"
    using scaled_between[OF e(3,4) dv(3)] p(2) by simp
  define c where "c = (if flt ?p lo then lo else if flt hi ?p then hi else ?p)"
  have c: "is_fin c" "fp_wf B64 c" "\<bar>fval c\<bar> \<le> h"
    "(0 \<le> fval c \<and> fval c \<le> fval ?dv) \<or> (fval ?dv \<le> fval c \<and> fval c \<le> 0)"
    using between b p(1) e(2) dv(3) by (auto simp: c_def flt_fin fp_wf_fmul[of B64 eta B64])
  have "\<not> flt hi lo" using b by (simp add: flt_fin)
  then have ac: "applyConstraints freq v_curr v_cmd accel decel eta = Inr (fadd B64 v_curr c)"
    by (simp add: applyConstraints_def b(1) std_clamp_def c_def)
  have s16: "\<bar>fval v_curr + fval c\<bar> \<le> 16" using c(4) dve v(3,6) by linarith
  then have s100: "\<bar>fval v_curr + fval c\<bar> \<le> pow2 100" by (simp add: pow2_def)
  have out: "is_fin (fadd B64 v_curr c)" "fval (fadd B64 v_curr c) = srnd B64 (fval v_curr + fval c)"
    using fval_fadd[OF v(1) c(1) s100] by auto
  have "\<bar>fval (fadd B64 v_curr c)\<bar> \<le> 16"
    using srnd_mono[of "fval v_curr + fval c" 16 B64] srnd_mono[of "- 16" "fval v_curr + fval c" B64] s16
    by (simp add: out(2) srnd_minus srnd_16 abs_le_iff)
  then have "speed_ok 16 (fadd B64 v_curr c)" using out(1) fp_wf_fadd[OF v(2) c(2)] by (simp add: speed_ok_def)
  then show ?thesis using that[OF ac _ out(2) c(3) b(9) s16] by blast
qed

lemma flit_values: "flit B64 0 = Fin False 0" "flit B64 1 = Fin False 1" "flit B64 (- 1) = Fin True 1"
  using rnd_int[of 1 B64] by (simp_all add: flit_def pack_small)

lemma eta_ok_1: "eta_ok (flit B64 1)"
  using fp_wf_flit[of B64 1] by (simp add: eta_ok_def flit_values sgn_val_def)

lemma findEta_ok:
  assumes "rates_ok freq accel decel" "speed_ok 16 v_curr" "speed_ok 15 v_cmd"
    and "flt (flit B64 0) (findEtaConstraint freq v_curr v_cmd accel decel)"
  shows "eta_ok (findEtaConstraint freq v_curr v_cmd accel decel)"
proof -
  obtain lo hi h where b: "change_bounds freq v_curr v_cmd accel decel = (lo, hi)" "is_fin lo" "is_fin hi"
    "fp_wf B64 lo" "fp_wf B64 hi" "fval lo = - h" "fval hi = h" "0 \<le> h"
    using change_bounds_ok[OF assms(1)] by metis
  let ?dv = "fsub B64 v_cmd v_curr"
  have "\<bar>fval v_cmd - fval v_curr\<bar> \<le> 31" using assms(2,3) by (auto simp: speed_ok_def)
  then have dv: "is_fin ?dv" "fp_wf B64 ?dv"
    using fval_fsub[of v_cmd v_curr] assms(2,3) fp_wf_fsub[of B64 v_cmd v_curr] by (auto simp: speed_ok_def pow2_def)
  have ratio: "eta_ok (fdiv B64 q ?dv)"
    if q: "is_fin q" "fp_wf B64 q" "0 \<le> fval q / fval ?dv" "fval q / fval ?dv \<le> 1" "fval ?dv \<noteq> 0" for q
  proof -
    have "\<bar>fval q / fval ?dv\<bar> \<le> pow2 100" using q(3,4) by (simp add: pow2_def)
    then show ?thesis
      using fval_fdiv[OF q(1,2) dv q(5), of B64] srnd_mono[OF q(3), of B64] srnd_mono[OF q(4), of B64]
        fp_wf_fdiv[OF q(2) dv(2), of B64] by (simp add: eta_ok_def srnd_1)
  qed
  have "eta_ok (fdiv B64 hi ?dv)" if "flt hi ?dv"
    by (rule ratio) (use that b dv in \<open>auto simp: flt_fin\<close>)
  moreover have "eta_ok (fdiv B64 lo ?dv)" if "flt ?dv lo"
  proof (rule ratio[OF b(2,4)])
    have "fval ?dv < fval lo" "fval lo \<le> 0" using that b dv by (auto simp: flt_fin)
    then show "0 \<le> fval lo / fval ?dv" "fval lo / fval ?dv \<le> 1" "fval ?dv \<noteq> 0"
      by (auto simp: divide_nonpos_neg divide_le_eq_1)
  qed
  ultimately show ?thesis using assms(4) by (auto simp: findEtaConstraint_def b(1) Let_def flit_values sgn_val_def)
qed

section \<open>The state\<close>

definition vel_ok :: "rat \<Rightarrow> Vel6 \<Rightarrow> bool" where
  "vel_ok b v \<longleftrightarrow> speed_ok b (lin_x v) \<and> speed_ok b (lin_y v) \<and> speed_ok b (ang_z v)"

definition flat :: "Vel6 \<Rightarrow> bool" where
  "flat v \<longleftrightarrow> lin_z v = flit B64 0 \<and> ang_x v = flit B64 0 \<and> ang_y v = flit B64 0"

definition vel_fin :: "Vel6 \<Rightarrow> bool" where
  "vel_fin v \<longleftrightarrow> (\<forall>c \<in> {lin_x v, lin_y v, ang_z v}. is_fin c \<and> fp_wf B64 c)"

definition smoother_config_ok :: "VelocitySmoother \<Rightarrow> bool" where
  "smoother_config_ok s \<longleftrightarrow> length (max_velocities s) = 3 \<and> length (min_velocities s) = 3 \<and> length (max_accels s) = 3 \<and>
     length (max_decels s) = 3 \<and> length (deadband_velocities s) = 3 \<and>
     (\<forall>i < 3. limits_ok (min_velocities s ! i) (max_velocities s ! i) \<and>
        rates_ok (smoothing_frequency s) (max_accels s ! i) (max_decels s ! i)) \<and>
     smoothed_cmd_pub s \<noteq> None"

definition smoother_ok :: "VelocitySmoother \<Rightarrow> bool" where
  "smoother_ok s \<longleftrightarrow> smoother_config_ok s \<and> open_loop s \<and> vel_ok 16 (last_cmd s) \<and> flat (last_cmd s) \<and>
     (\<forall>c. command_vs s = Some c \<longrightarrow> vel_fin c) \<and> (stopped s \<longrightarrow> vel_eq (last_cmd s) zero_vel)"

lemma zero_vel_facts: "0 \<le> b \<Longrightarrow> vel_ok b zero_vel" "flat zero_vel" "vel_fin zero_vel"
  using fp_wf_flit[of B64 0]
  by (simp_all add: vel_ok_def flat_def vel_fin_def zero_vel_def Let_def speed_ok_def flit_values sgn_val_def)

lemma limit_axis_ok:
  assumes "smoother_config_ok s" "i < 3" "is_fin v" "fp_wf B64 v"
  obtains v' where "limit_axis s i v = Inr v'" "speed_ok 15 v'"
proof -
  have l: "limits_ok (min_velocities s ! i) (max_velocities s ! i)" "i < length (min_velocities s)" "i < length (max_velocities s)"
    using assms(1,2) by (auto simp: smoother_config_ok_def)
  let ?lo = "min_velocities s ! i" and ?hi = "max_velocities s ! i"
  have f: "is_fin ?lo" "is_fin ?hi" "\<not> flt ?hi ?lo" "\<bar>fval ?lo\<bar> \<le> 15" "\<bar>fval ?hi\<bar> \<le> 15"
    using l(1) by (auto simp: limits_ok_def speed_ok_def flt_fin)
  let ?v = "if flt v ?lo then ?lo else if flt ?hi v then ?hi else v"
  have "speed_ok 15 ?v" using l(1) f assms(3,4) by (auto simp: limits_ok_def speed_ok_def flt_fin)
  moreover have "limit_axis s i v = Inr ?v" using l f(3) by (simp add: limit_axis_def at_index_def std_clamp_def)
  ultimately show ?thesis using that by blast
qed

lemma scale_step_ok:
  assumes "smoother_config_ok s" "i < 3" "speed_ok 16 v" "speed_ok 15 c" "eta_ok eta"
  obtains e where "scale_step s i v c eta = Inr e" "eta_ok e"
  using assms findEta_ok[of "smoothing_frequency s" "max_accels s ! i" "max_decels s ! i" v c]
  by (auto simp: scale_step_def at_index_def smoother_config_ok_def Let_def)

lemma find_eta_ok:
  assumes "smoother_config_ok s" "vel_ok 16 v" "vel_ok 15 c"
  obtains e where "find_eta s v c = Inr e" "eta_ok e"
proof (cases "scale_velocities s")
  case True
  have v: "speed_ok 16 (lin_x v)" "speed_ok 16 (lin_y v)" "speed_ok 16 (ang_z v)"
    and c: "speed_ok 15 (lin_x c)" "speed_ok 15 (lin_y c)" "speed_ok 15 (ang_z c)" using assms by (auto simp: vel_ok_def)
  obtain e0 where e0: "scale_step s 0 (lin_x v) (lin_x c) (flit B64 1) = Inr e0" "eta_ok e0"
    using scale_step_ok[OF assms(1) _ v(1) c(1) eta_ok_1, of 0] by auto
  obtain e1 where e1: "scale_step s 1 (lin_y v) (lin_y c) e0 = Inr e1" "eta_ok e1"
    using scale_step_ok[OF assms(1) _ v(2) c(2) e0(2), of 1] by auto
  obtain e2 where e2: "scale_step s 2 (ang_z v) (ang_z c) e1 = Inr e2" "eta_ok e2"
    using scale_step_ok[OF assms(1) _ v(3) c(3) e1(2), of 2] by auto
  show ?thesis using that[of e2] True e0(1) e1(1) e2 by (simp add: find_eta_def)
qed (use that eta_ok_1 in \<open>simp add: find_eta_def\<close>)

text \<open>The largest change of an axis in one period.\<close>

definition max_change :: "VelocitySmoother \<Rightarrow> nat \<Rightarrow> rat" where
  "max_change s i = max (fval (max_accels s ! i)) (- fval (max_decels s ! i)) / fval (smoothing_frequency s)"

lemma constrain_axis_ok:
  assumes "smoother_config_ok s" "i < 3" "speed_ok 16 v" "speed_ok 15 c" "eta_ok eta"
  obtains out where "constrain_axis s eta i v c = Inr out" "speed_ok 16 out"
    "\<bar>fval out - fval v\<bar> \<le> max_change s i + 1 / 1000000000"
proof -
  have r: "rates_ok (smoothing_frequency s) (max_accels s ! i) (max_decels s ! i)" "i < length (max_accels s)" "i < length (max_decels s)"
    using assms(1,2) by (auto simp: smoother_config_ok_def)
  obtain out d h where o: "applyConstraints (smoothing_frequency s) v c (max_accels s ! i) (max_decels s ! i) eta = Inr out"
    "speed_ok 16 out" "fval out = srnd B64 (fval v + d)" "\<bar>d\<bar> \<le> h" "h \<le> max_change s i + 1 / 1000000000000" "\<bar>fval v + d\<bar> \<le> 16"
    using clamped_change[OF r(1) assms(3-5)] unfolding max_change_def by metis
  have "\<bar>fval out - (fval v + d)\<bar> \<le> 1 / 1000000000000"
    unfolding o(3) using o(6) by (rule srnd_error) (simp_all add: pow2_def)
  then have "\<bar>fval out - fval v\<bar> \<le> max_change s i + 1 / 1000000000" using o(4,5) by linarith
  then show ?thesis using that o(1,2) r by (simp add: constrain_axis_def at_index_def)
qed

lemma deadband_axis_ok:
  assumes "smoother_config_ok s" "i < 3" "speed_ok b v" "0 \<le> b"
  obtains v' where "deadband_axis s i v = Inr v'" "speed_ok b v'" "v' = v \<or> v' = flit B64 0"
  using assms fp_wf_flit[of B64 0]
  by (auto simp: deadband_axis_def at_index_def smoother_config_ok_def speed_ok_def flit_values sgn_val_def)

section \<open>The timer\<close>

definition axis :: "nat \<Rightarrow> Vel6 \<Rightarrow> fp" where
  "axis i v = (if i = 0 then lin_x v else if i = 1 then lin_y v else ang_z v)"

lemma axis_simps [simp]: "axis 0 v = lin_x v" "axis (Suc 0) v = lin_y v" "axis 2 v = ang_z v"
  by (simp_all add: axis_def)

lemma axis_zero_vel [simp]: "axis i zero_vel = flit B64 0"
  by (simp add: axis_def zero_vel_def Let_def)

lemma all_axes: "(\<forall>i < 3. P (i :: nat)) \<longleftrightarrow> P 0 \<and> P 1 \<and> P 2"
  by (auto simp: less_Suc_eq numeral_3_eq_3 numeral_2_eq_2)

lemma vel_ok_axis: "vel_ok b v \<longleftrightarrow> (\<forall>i < 3. speed_ok b (axis i v))"
  unfolding all_axes by (simp add: vel_ok_def)

lemma each_axis_ok:
  assumes "\<And>i. i < 3 \<Longrightarrow> \<exists>r. f i (axis i a) (axis i b) = Inr r \<and> P i r"
  obtains w where "each_axis f a b v = Inr w" "\<And>i. i < 3 \<Longrightarrow> P i (axis i w)" "flat w \<longleftrightarrow> flat v"
proof -
  obtain x y z where r: "f 0 (lin_x a) (lin_x b) = Inr x" "P 0 x" "f 1 (lin_y a) (lin_y b) = Inr y" "P 1 y"
    "f 2 (ang_z a) (ang_z b) = Inr z" "P 2 z"
    using assms[of 0] assms[of 1] assms[of 2] by auto
  let ?w = "v\<lparr>lin_x := x, lin_y := y, ang_z := z\<rparr>"
  have "\<forall>i < 3. P i (axis i ?w)" unfolding all_axes using r by simp
  then show ?thesis using that[of ?w] r by (simp add: each_axis_def flat_def)
qed

text \<open>One period in which the smoother does not stay stopped.\<close>

definition moves :: "int \<Rightarrow> VelocitySmoother \<Rightarrow> bool" where
  "moves now s \<longleftrightarrow> \<not> (velocity_timeout s < now - last_command_time s \<and> (vel_eq (last_cmd s) zero_vel \<or> stopped s))"

definition timed_command :: "int \<Rightarrow> VelocitySmoother \<Rightarrow> Vel6 \<Rightarrow> Vel6" where
  "timed_command now s received = (if velocity_timeout s < now - last_command_time s then zero_vel else received)"

lemma smoother_tick:
  assumes "smoother_ok s" "command_vs s = Some received" "moves now s"
  obtains cmd eta v out active where
    "smootherTimer now s = Inr (s\<lparr>stopped := False, command_vs := Some cmd, last_cmd := v,
       smoothed := smoothed s @ (if active then [out] else [])\<rparr>)"
    "smoothed_cmd_pub s = Some active" "vel_ok 15 cmd" "flat v" "flat out" "eta_ok eta" "\<not> scale_velocities s \<Longrightarrow> eta = flit B64 1"
    "\<And>i. i < 3 \<Longrightarrow> limit_axis s i (axis i (timed_command now s received)) = Inr (axis i cmd)"
    "\<And>i. i < 3 \<Longrightarrow> constrain_axis s eta i (axis i (last_cmd s)) (axis i cmd) = Inr (axis i v)"
    "\<And>i. i < 3 \<Longrightarrow> speed_ok 16 (axis i v) \<and> \<bar>fval (axis i v) - fval (axis i (last_cmd s))\<bar> \<le> max_change s i + 1 / 1000000000"
    "\<And>i. i < 3 \<Longrightarrow> speed_ok 16 (axis i out) \<and> (axis i out = axis i v \<or> axis i out = flit B64 0)"
proof -
  have c: "smoother_config_ok s" "vel_ok 16 (last_cmd s)" "flat (last_cmd s)" "vel_fin received" "open_loop s"
    using assms by (auto simp: smoother_ok_def smoother_config_ok_def)
  have moving: "(velocity_timeout s < now - last_command_time s \<and> (vel_eq (last_cmd s) zero_vel \<or> stopped s)) = False"
    using assms(3) by (simp add: moves_def)
  let ?cmd0 = "timed_command now s received"
  have fin: "is_fin (axis i ?cmd0)" "fp_wf B64 (axis i ?cmd0)" if "i < 3" for i
    using c(4) zero_vel_facts(3) by (auto simp: timed_command_def vel_fin_def axis_def)
  obtain cmd where cmd: "each_axis (\<lambda>i v _. limit_axis s i v) ?cmd0 ?cmd0 ?cmd0 = Inr cmd"
    "\<And>i. i < 3 \<Longrightarrow> limit_axis s i (axis i ?cmd0) = Inr (axis i cmd) \<and> speed_ok 15 (axis i cmd)"
    using each_axis_ok[of "\<lambda>i v _. limit_axis s i v" ?cmd0 ?cmd0 "\<lambda>i r. limit_axis s i (axis i ?cmd0) = Inr r \<and> speed_ok 15 r" ?cmd0]
      limit_axis_ok[OF c(1)] fin by metis
  have cmd15: "vel_ok 15 cmd" using cmd(2) by (simp add: vel_ok_axis)
  obtain eta where eta: "find_eta s (last_cmd s) cmd = Inr eta" "eta_ok eta" by (rule find_eta_ok[OF c(1,2) cmd15])
  have eta1: "\<not> scale_velocities s \<Longrightarrow> eta = flit B64 1" using eta(1) by (simp add: find_eta_def)
  let ?P = "\<lambda>i r. constrain_axis s eta i (axis i (last_cmd s)) (axis i cmd) = Inr r \<and> speed_ok 16 r \<and>
    \<bar>fval r - fval (axis i (last_cmd s))\<bar> \<le> max_change s i + 1 / 1000000000"
  have "\<exists>r. constrain_axis s eta i (axis i (last_cmd s)) (axis i cmd) = Inr r \<and> ?P i r" if "i < 3" for i
    using constrain_axis_ok[OF c(1) that _ _ eta(2)] c(2) cmd15 that unfolding vel_ok_axis by metis
  then obtain v where v: "each_axis (constrain_axis s eta) (last_cmd s) cmd zero_vel = Inr v" "\<And>i. i < 3 \<Longrightarrow> ?P i (axis i v)" "flat v"
    using each_axis_ok[of "constrain_axis s eta" "last_cmd s" cmd ?P zero_vel] zero_vel_facts(2) by metis
  let ?Q = "\<lambda>i r. speed_ok 16 r \<and> (r = axis i v \<or> r = flit B64 0)"
  have "\<exists>r. deadband_axis s i (axis i v) = Inr r \<and> ?Q i r" if "i < 3" for i
    using deadband_axis_ok[OF c(1) that, of 16 "axis i v"] v(2)[OF that] by (metis zero_le_numeral)
  then obtain out where out: "each_axis (\<lambda>i v _. deadband_axis s i v) v v v = Inr out" "\<And>i. i < 3 \<Longrightarrow> ?Q i (axis i out)" "flat out"
    using each_axis_ok[of "\<lambda>i v _. deadband_axis s i v" v v ?Q v] v(3) by metis
  obtain active where active: "smoothed_cmd_pub s = Some active" using c(1) by (auto simp: smoother_config_ok_def)
  have "smootherTimer now s = Inr (s\<lparr>stopped := False, command_vs := Some cmd, last_cmd := v,
       smoothed := smoothed s @ (if active then [out] else [])\<rparr>)"
    unfolding smootherTimer_def Let_def timed_command_def[symmetric] moving if_False
    using assms(2) c(5) cmd(1) eta(1) v(1) out(1) active by simp
  then show ?thesis using that active cmd15 v out eta(2) eta1 cmd(2) by blast
qed

lemma smootherTimer_cases:
  assumes "smoother_ok s"
  obtains (idle) "command_vs s = None" "smootherTimer now s = Inr s"
  | (stop) "smootherTimer now s = Inr (s\<lparr>stopped := True\<rparr>)" "vel_eq (last_cmd s) zero_vel" "\<not> moves now s"
  | (move) received where "command_vs s = Some received" "moves now s"
proof (cases "command_vs s")
  case None
  then show ?thesis by (rule that(1)) (simp add: smootherTimer_def None)
next
  case (Some received)
  show ?thesis
  proof (cases "moves now s")
    case True
    then show ?thesis by (rule that(3)[OF Some])
  next
    case False
    then have "velocity_timeout s < now - last_command_time s \<and> (vel_eq (last_cmd s) zero_vel \<or> stopped s)" by (simp add: moves_def)
    then have "smootherTimer now s = Inr (s\<lparr>stopped := True\<rparr>)" "vel_eq (last_cmd s) zero_vel"
      using Some assms by (simp_all add: smootherTimer_def smoother_ok_def) blast
    then show ?thesis using False by (rule that(2))
  qed
qed

lemma smootherTimer_ok:
  assumes "smoother_ok s"
  obtains s' outs where "smootherTimer now s = Inr s'" "smoother_ok s'" "smoothed s' = smoothed s @ outs"
    "\<forall>v \<in> set outs. vel_ok 16 v" "cmd_sub s' = cmd_sub s" "timer_ms s' = timer_ms s"
    "\<And>i. i < 3 \<Longrightarrow> 0 \<le> max_change s i \<Longrightarrow>
       \<bar>fval (axis i (last_cmd s')) - fval (axis i (last_cmd s))\<bar> \<le> max_change s i + 1 / 1000000000"
  using assms
proof (cases rule: smootherTimer_cases[of s now])
  case idle
  then show ?thesis using that[of s "[]"] assms by simp
next
  case stop
  then show ?thesis using that[of "s\<lparr>stopped := True\<rparr>" "[]"] assms by (simp add: smoother_ok_def smoother_config_ok_def)
next
  case (move received)
  obtain cmd v out active where t: "smootherTimer now s = Inr (s\<lparr>stopped := False, command_vs := Some cmd, last_cmd := v,
       smoothed := smoothed s @ (if active then [out] else [])\<rparr>)" (is "_ = Inr ?s'")
    "vel_ok 15 cmd" "flat v" "vel_ok 16 v" "vel_ok 16 out"
    "\<And>i. i < 3 \<Longrightarrow> \<bar>fval (axis i v) - fval (axis i (last_cmd s))\<bar> \<le> max_change s i + 1 / 1000000000"
    using smoother_tick[OF assms move] unfolding vel_ok_axis by metis
  have "vel_fin cmd" using t(2) by (simp add: vel_ok_def vel_fin_def speed_ok_def)
  then have "smoother_ok ?s'" using assms t(3,4) by (simp add: smoother_ok_def smoother_config_ok_def)
  then show ?thesis using that[of ?s' "if active then [out] else []"] t by simp
qed

lemma max_change_nonneg: "smoother_config_ok s \<Longrightarrow> i < 3 \<Longrightarrow> 0 \<le> max_change s i"
  by (auto simp: smoother_config_ok_def max_change_def rates_ok_def le_max_iff_disj)

section \<open>Runs\<close>

text \<open>Messages carry doubles; nothing else is assumed of them.\<close>

definition vel_wf :: "Vel6 \<Rightarrow> bool" where
  "vel_wf v \<longleftrightarrow> fp_wf B64 (lin_x v) \<and> fp_wf B64 (lin_y v) \<and> fp_wf B64 (ang_z v)"

fun smoother_event_ok :: "smoother_event \<Rightarrow> bool" where
  "smoother_event_ok (CmdVel msg now) = vel_wf msg"
| "smoother_event_ok (SmootherTick now) = True"
| "smoother_event_ok (OdomMsg t twist) = True"

lemma smoother_step_ok:
  assumes "smoother_ok s" "smoother_event_ok ev"
  obtains s' outs where "smoother_step ev s = Inr s'" "smoother_ok s'" "smoothed s' = smoothed s @ outs" "\<forall>v \<in> set outs. vel_ok 16 v"
proof (cases ev)
  case (CmdVel msg now)
  have "smoother_ok (inputCommandCallback msg now s)" "smoothed (inputCommandCallback msg now s) = smoothed s"
    using assms CmdVel
    by (auto simp: inputCommandCallback_def validateTwist_def smoother_ok_def smoother_config_ok_def vel_fin_def vel_wf_def)
  then show ?thesis using that[of _ "[]"] assms(1) CmdVel by simp
next
  case (SmootherTick now)
  then show ?thesis using that[of s "[]"] that assms(1) by (cases "timer_ms s = None") (auto elim: smootherTimer_ok[of s now])
next
  case (OdomMsg t twist)
  then show ?thesis using that[of _ "[]"] assms(1) by (simp add: smoother_ok_def smoother_config_ok_def)
qed

lemma smoother_run_ok:
  assumes "smoother_ok s" "list_all smoother_event_ok evs"
  obtains s' outs where "smoother_run evs s = Inr s'" "smoother_ok s'" "smoothed s' = smoothed s @ outs" "\<forall>v \<in> set outs. vel_ok 16 v"
  using assms
proof (induction evs arbitrary: s thesis)
  case (Cons ev evs)
  obtain s1 o1 where 1: "smoother_step ev s = Inr s1" "smoother_ok s1" "smoothed s1 = smoothed s @ o1" "\<forall>v \<in> set o1. vel_ok 16 v"
    using smoother_step_ok[OF Cons.prems(2), of ev] Cons.prems(3) by auto
  obtain s2 o2 where 2: "smoother_run evs s1 = Inr s2" "smoother_ok s2" "smoothed s2 = smoothed s1 @ o2" "\<forall>v \<in> set o2. vel_ok 16 v"
    using Cons.IH[OF _ 1(2)] Cons.prems(3) by auto
  show ?case using Cons.prems(1)[of s2 "o1 @ o2"] 1 2 by auto
qed simp

section \<open>Stopping\<close>

text \<open>The change of an axis in one period of braking.\<close>

definition brake :: "VelocitySmoother \<Rightarrow> nat \<Rightarrow> rat" where
  "brake s i = - fval (max_decels s ! i) / fval (smoothing_frequency s)"

lemma braked_change:
  assumes "rates_ok freq accel decel" "speed_ok 16 v"
    and "applyConstraints freq v (flit B64 0) accel decel (flit B64 1) = Inr out"
  shows "\<bar>fval out\<bar> \<le> max 0 (\<bar>fval v\<bar> - (- fval decel / fval freq - 1 / 1000000000))" "fval v = 0 \<Longrightarrow> fval out = 0"
proof -
  let ?z = "flit B64 0" and ?b = "- fval decel / fval freq"
  obtain lo hi h where b: "change_bounds freq v ?z accel decel = (lo, hi)" "is_fin lo" "is_fin hi"
    "fp_wf B64 lo" "fp_wf B64 hi" "fval lo = - h" "fval hi = h" "0 \<le> h"
    "\<not> (fle (fabs v) (fabs ?z) \<and> fle (flit B64 0) (fmul B64 v ?z)) \<Longrightarrow> h = srnd B64 ?b"
    using change_bounds_ok[OF assms(1), of v ?z] by metis
  have v: "is_fin v" "fp_wf B64 v" "\<bar>fval v\<bar> \<le> 16" using assms(2) by (auto simp: speed_ok_def)
  have z: "is_fin ?z" "fp_wf B64 ?z" "fval ?z = 0" "is_fin (flit B64 1)" "fp_wf B64 (flit B64 1)" "fval (flit B64 1) = 1"
    using fp_wf_flit[of B64 0] fp_wf_flit[of B64 1] by (simp_all add: flit_values sgn_val_def)
  let ?dv = "fsub B64 ?z v"
  have dv: "is_fin ?dv" "fval ?dv = - fval v" "fp_wf B64 ?dv"
    using fval_fsub[OF z(1) v(1), of B64] v(3) z(3) fp_wf_fsub[OF z(2) v(2)] srnd_wf[OF v(2)]
    by (auto simp: pow2_def srnd_minus)
  let ?p = "fmul B64 (flit B64 1) ?dv"
  have p: "is_fin ?p" "fval ?p = - fval v" "fp_wf B64 ?p"
    using fval_fmul[OF z(4,5) dv(1,3), of B64] v(3) z(6) dv(2) fp_wf_fmul[OF z(5) dv(3)] srnd_wf[OF v(2)]
    by (auto simp: pow2_def srnd_minus)
  define c where "c = (if flt ?p lo then lo else if flt hi ?p then hi else ?p)"
  have c: "is_fin c" "fval c = (if h < fval v then - h else if h < - fval v then h else - fval v)"
    using b(2,3,6-8) p by (auto simp: c_def flt_fin)
  have "\<not> flt hi lo" using b by (simp add: flt_fin)
  then have out: "out = fadd B64 v c" using assms(3) by (simp add: applyConstraints_def b(1) std_clamp_def c_def Let_def)
  have s: "\<bar>fval v + fval c\<bar> = max 0 (\<bar>fval v\<bar> - h)" using b(8) by (auto simp: c(2))
  then have s16: "\<bar>fval v + fval c\<bar> \<le> 16" using v(3) b(8) by auto
  then have f: "fval out = srnd B64 (fval v + fval c)" using fval_fadd[OF v(1) c(1), of B64] by (simp add: out pow2_def)
  show zero: "fval v = 0 \<Longrightarrow> fval out = 0" using s b(8) by (simp add: f)
  have "\<bar>fval out\<bar> \<le> max 0 (\<bar>fval v\<bar> - (?b - 1 / 1000000000))" if "fval v \<noteq> 0"
  proof (cases "\<bar>fval v\<bar> \<le> h")
    case True
    then show ?thesis using s by (simp add: f)
  next
    case False
    have "\<not> fle (fabs v) (fabs ?z)" using that z(1-3) v by (simp add: fle_fin fval_fabs)
    then have "h = srnd B64 ?b" using b(9) by blast
    moreover have "\<bar>?b\<bar> \<le> 1000" using rate_value(4)[OF assms(1), of decel] assms(1) by (simp add: rates_ok_def abs_if split: if_splits)
    then have "\<bar>srnd B64 ?b - ?b\<bar> \<le> 1 / 1000000000000" by (rule srnd_error) (simp_all add: pow2_def)
    moreover have "\<bar>fval out - (fval v + fval c)\<bar> \<le> 1 / 1000000000000"
      unfolding f using s16 by (rule srnd_error) (simp_all add: pow2_def)
    ultimately show ?thesis using s False by linarith
  qed
  then show "\<bar>fval out\<bar> \<le> max 0 (\<bar>fval v\<bar> - (?b - 1 / 1000000000))" using zero by fastforce
qed

definition zero_allowed :: "VelocitySmoother \<Rightarrow> bool" where
  "zero_allowed s \<longleftrightarrow> (\<forall>i < 3. fval (min_velocities s ! i) \<le> 0 \<and> 0 \<le> fval (max_velocities s ! i))"

text \<open>A number of periods that is enough to stop: an axis at rest needs none.\<close>

definition can_stop :: "nat \<Rightarrow> VelocitySmoother \<Rightarrow> bool" where
  "can_stop n s \<longleftrightarrow> (\<forall>i < 3. fval (axis i (last_cmd s)) = 0 \<or>
     \<bar>fval (axis i (last_cmd s))\<bar> \<le> of_nat n * (brake s i - 1 / 1000000000) \<and> 1 / 1000000000 \<le> brake s i)"

text \<open>Coming to rest is announced: the last velocity published is zero too.\<close>

definition announced :: "VelocitySmoother \<Rightarrow> bool" where
  "announced s \<longleftrightarrow> (vel_eq (last_cmd s) zero_vel \<and> smoothed_cmd_pub s = Some True \<longrightarrow>
     smoothed s \<noteq> [] \<and> vel_eq (last (smoothed s)) zero_vel)"

definition braking :: "VelocitySmoother \<Rightarrow> bool" where
  "braking s \<longleftrightarrow> smoother_ok s \<and> command_vs s \<noteq> None \<and> \<not> scale_velocities s \<and> zero_allowed s \<and> timer_ms s \<noteq> None \<and> announced s"

lemma zero_vel_iff:
  "vel_ok 16 v \<Longrightarrow> flat v \<Longrightarrow> vel_eq v zero_vel \<longleftrightarrow> (\<forall>i < 3. fval (axis i v) = 0)"
  unfolding all_axes by (simp add: vel_eq_def zero_vel_def vel_ok_def flat_def speed_ok_def flit_values Let_def feq_fin sgn_val_def)

lemma limit_zero:
  assumes "smoother_config_ok s" "zero_allowed s" "i < 3"
  shows "limit_axis s i (flit B64 0) = Inr (flit B64 0)"
proof -
  let ?lo = "min_velocities s ! i" and ?hi = "max_velocities s ! i"
  have "limits_ok ?lo ?hi" "i < length (min_velocities s)" "i < length (max_velocities s)" "fval ?lo \<le> 0" "0 \<le> fval ?hi"
    using assms by (auto simp: smoother_config_ok_def zero_allowed_def)
  then show ?thesis
    by (simp add: limit_axis_def at_index_def std_clamp_def flt_fin limits_ok_def speed_ok_def flit_values sgn_val_def)
qed

lemma smoother_brakes:
  assumes "braking s" "velocity_timeout s < now - last_command_time s" "\<not> vel_eq (last_cmd s) zero_vel"
  obtains cmd v out active where
    "smootherTimer now s = Inr (s\<lparr>stopped := False, command_vs := Some cmd, last_cmd := v,
       smoothed := smoothed s @ (if active then [out] else [])\<rparr>)"
    "smoothed_cmd_pub s = Some active" "flat v" "vel_ok 16 v" "vel_eq v zero_vel \<Longrightarrow> vel_eq out zero_vel"
    "\<And>i. i < 3 \<Longrightarrow> \<bar>fval (axis i v)\<bar> \<le> max 0 (\<bar>fval (axis i (last_cmd s))\<bar> - (brake s i - 1 / 1000000000)) \<and>
       (fval (axis i (last_cmd s)) = 0 \<longrightarrow> fval (axis i v) = 0)"
proof -
  have ok: "smoother_ok s" "smoother_config_ok s" "vel_ok 16 (last_cmd s)" "zero_allowed s" "\<not> scale_velocities s"
    using assms(1) by (auto simp: braking_def smoother_ok_def)
  have m: "moves now s" using assms(3) ok(1) by (auto simp: moves_def smoother_ok_def)
  obtain received where r: "command_vs s = Some received" using assms(1) by (auto simp: braking_def)
  obtain cmd eta v out active where t: "smootherTimer now s = Inr (s\<lparr>stopped := False, command_vs := Some cmd, last_cmd := v,
       smoothed := smoothed s @ (if active then [out] else [])\<rparr>)"
    "smoothed_cmd_pub s = Some active" "flat v" "flat out" "eta = flit B64 1"
    "\<And>i. i < 3 \<Longrightarrow> limit_axis s i (axis i (timed_command now s received)) = Inr (axis i cmd)"
    "\<And>i. i < 3 \<Longrightarrow> constrain_axis s eta i (axis i (last_cmd s)) (axis i cmd) = Inr (axis i v)"
    "\<And>i. i < 3 \<Longrightarrow> speed_ok 16 (axis i v)"
    "\<And>i. i < 3 \<Longrightarrow> speed_ok 16 (axis i out) \<and> (axis i out = axis i v \<or> axis i out = flit B64 0)"
    using smoother_tick[OF ok(1) r m] ok(5) by metis
  have c0: "axis i cmd = flit B64 0" if "i < 3" for i
    using t(6)[OF that] limit_zero[OF ok(2,4) that] assms(2) by (simp add: timed_command_def)
  have "applyConstraints (smoothing_frequency s) (axis i (last_cmd s)) (flit B64 0) (max_accels s ! i) (max_decels s ! i) (flit B64 1)
      = Inr (axis i v)" if "i < 3" for i
    using t(7)[OF that] c0[OF that] t(5) ok(2) that by (simp add: constrain_axis_def at_index_def smoother_config_ok_def)
  then have ax: "\<bar>fval (axis i v)\<bar> \<le> max 0 (\<bar>fval (axis i (last_cmd s))\<bar> - (brake s i - 1 / 1000000000)) \<and>
       (fval (axis i (last_cmd s)) = 0 \<longrightarrow> fval (axis i v) = 0)" if "i < 3" for i
    using braked_change[of "smoothing_frequency s" "max_accels s ! i" "max_decels s ! i" "axis i (last_cmd s)" "axis i v"] that ok(2,3)
    by (simp add: brake_def smoother_config_ok_def vel_ok_axis)
  have v16: "vel_ok 16 v" "vel_ok 16 out" using t(8,9) by (simp_all add: vel_ok_axis)
  have "fval (axis i out) = 0" if "i < 3" "vel_eq v zero_vel" for i
    using t(9)[OF that(1)] that zero_vel_iff[OF v16(1) t(3)] by (auto simp: flit_values sgn_val_def)
  then have "vel_eq out zero_vel" if "vel_eq v zero_vel" using that zero_vel_iff[OF v16(2) t(4)] by simp
  then show ?thesis using that t(1-3) v16(1) ax by blast
qed

lemma braking_tick:
  assumes "braking s" "velocity_timeout s < now - last_command_time s" "can_stop (Suc n) s"
  obtains s' where "smootherTimer now s = Inr s'" "braking s'" "can_stop n s'" "velocity_timeout s' = velocity_timeout s"
    "last_command_time s' = last_command_time s" "smoothed_cmd_pub s' = smoothed_cmd_pub s"
proof (cases "vel_eq (last_cmd s) zero_vel")
  case True
  let ?s' = "s\<lparr>stopped := True\<rparr>"
  have c: "smoother_ok s" "command_vs s \<noteq> None" using assms(1) by (auto simp: braking_def)
  have "\<forall>i < 3. fval (axis i (last_cmd s)) = 0" using c(1) zero_vel_iff True by (auto simp: smoother_ok_def)
  then have "can_stop n ?s'" by (simp add: can_stop_def)
  moreover have "smootherTimer now s = Inr ?s'" using c assms(2) True by (auto simp: smootherTimer_def)
  moreover have "braking ?s'" using assms(1) True
    by (simp add: braking_def announced_def smoother_ok_def smoother_config_ok_def zero_allowed_def)
  ultimately show ?thesis by (intro that[of ?s']) simp_all
next
  case False
  obtain cmd v out active where t: "smootherTimer now s = Inr (s\<lparr>stopped := False, command_vs := Some cmd, last_cmd := v,
       smoothed := smoothed s @ (if active then [out] else [])\<rparr>)" (is "_ = Inr ?s'")
    "smoothed_cmd_pub s = Some active" "flat v" "vel_ok 16 v" "vel_eq v zero_vel \<Longrightarrow> vel_eq out zero_vel"
    "\<And>i. i < 3 \<Longrightarrow> \<bar>fval (axis i v)\<bar> \<le> max 0 (\<bar>fval (axis i (last_cmd s))\<bar> - (brake s i - 1 / 1000000000)) \<and>
       (fval (axis i (last_cmd s)) = 0 \<longrightarrow> fval (axis i v) = 0)"
    using smoother_brakes[OF assms(1,2) False] by metis
  obtain s1 where "smootherTimer now s = Inr s1" "smoother_ok s1" using smootherTimer_ok[of s now] assms(1) unfolding braking_def by metis
  then have ok: "smoother_ok ?s'" using t(1) by simp
  have "fval (axis i v) = 0 \<or> \<bar>fval (axis i v)\<bar> \<le> of_nat n * (brake s i - 1 / 1000000000) \<and> 1 / 1000000000 \<le> brake s i"
    if i: "i < 3" for i
  proof (cases "fval (axis i (last_cmd s)) = 0")
    case False
    let ?b = "brake s i - 1 / 1000000000"
    have "of_nat (Suc n) * ?b = of_nat n * ?b + ?b" unfolding of_nat_Suc distrib_right by simp
    then have b: "\<bar>fval (axis i (last_cmd s))\<bar> \<le> of_nat n * ?b + ?b" "0 \<le> ?b"
      using assms(3) i False unfolding can_stop_def by (metis, auto)
    then have "0 \<le> of_nat n * ?b" by simp
    then show ?thesis using t(6)[OF i] b by linarith
  qed (use t(6)[OF i] in simp)
  then have "can_stop n ?s'" by (simp add: can_stop_def brake_def)
  moreover have "braking ?s'" using assms(1) ok t(2,5) by (simp add: braking_def zero_allowed_def announced_def)
  ultimately show ?thesis using t(1) by (intro that[of ?s']) simp_all
qed

lemma braking_run:
  assumes "braking s" "can_stop (length ts) s" "\<forall>t \<in> set ts. velocity_timeout s < t - last_command_time s"
  obtains s' where "smoother_run (map SmootherTick ts) s = Inr s'" "braking s'" "vel_eq (last_cmd s') zero_vel"
    "velocity_timeout s' = velocity_timeout s" "last_command_time s' = last_command_time s" "smoothed_cmd_pub s' = smoothed_cmd_pub s"
  using assms
proof (induction ts arbitrary: s thesis)
  case Nil
  have "vel_ok 16 (last_cmd s)" "flat (last_cmd s)" using Nil.prems(2) by (auto simp: braking_def smoother_ok_def)
  moreover have "\<forall>i < 3. fval (axis i (last_cmd s)) = 0" using Nil.prems(3) by (auto simp: can_stop_def)
  ultimately show ?case using Nil by (simp add: zero_vel_iff)
next
  case (Cons t ts)
  obtain s1 where s1: "smootherTimer t s = Inr s1" "braking s1" "can_stop (length ts) s1" "velocity_timeout s1 = velocity_timeout s"
    "last_command_time s1 = last_command_time s" "smoothed_cmd_pub s1 = smoothed_cmd_pub s"
    using braking_tick[OF Cons.prems(2), of t "length ts"] Cons.prems(3,4) by auto
  have "smoother_step (SmootherTick t) s = Inr s1" using Cons.prems(2) s1(1) by (simp add: braking_def)
  then show ?case using Cons.IH[OF _ s1(2,3)] Cons.prems(1,4) s1(4-6) by auto
qed

lemma can_stop_mono: "can_stop n s \<Longrightarrow> n \<le> m \<Longrightarrow> can_stop m s"
  unfolding can_stop_def by (meson diff_ge_0_iff_ge mult_right_mono of_nat_mono order_trans)

section \<open>The closed loop\<close>

text \<open>An odometry message that is not a number stays in the sum of the moving average.\<close>

lemma nan_ops [simp]:
  assumes "isnan x"
  shows "isnan (fadd B64 x y)" "isnan (fsub B64 x y)" "isnan (fdiv B64 x y)" "\<not> flt (fabs x) y"
  using assms by (cases x; simp add: fsub_def)+

lemma drop_old_nan: "isnan (lin_x c) \<Longrightarrow> isnan (lin_x (snd (drop_old now d h c)))"
  by (induction now d h c rule: drop_old.induct) (auto simp: map_vel_def)

lemma odomCallback_nan:
  assumes "isnan (lin_x (odom_cumulate od)) \<or> isnan (lin_x w)"
  shows "isnan (lin_x (odom_cumulate (odomCallback t w od)))" "isnan (lin_x (vel_smooth (odomCallback t w od)))"
proof -
  obtain h c where d: "drop_old t (odom_history_duration od) (odom_history od) (odom_cumulate od) = (h, c)" by fastforce
  have "isnan (fadd B64 (lin_x c) (lin_x w))"
    using assms drop_old_nan[of "odom_cumulate od" t "odom_history_duration od" "odom_history od"]
    by (auto simp: d) (cases "lin_x c"; cases "lin_x w"; simp)
  then show "isnan (lin_x (odom_cumulate (odomCallback t w od)))" "isnan (lin_x (vel_smooth (odomCallback t w od)))"
    by (simp_all add: odomCallback_def updateState_def d Let_def map_vel_def)
qed

lemma odom_run_nan:
  assumes "odom_smoother s = Some od" "isnan (lin_x (odom_cumulate od))" "isnan (lin_x (vel_smooth od))"
  shows "\<exists>od'. smoother_run (map (\<lambda>(t, w). OdomMsg t w) ws @ evs) s = smoother_run evs (s\<lparr>odom_smoother := Some od'\<rparr>) \<and>
    isnan (lin_x (vel_smooth od'))"
  using assms
proof (induction ws arbitrary: s od)
  case Nil
  then have "s\<lparr>odom_smoother := Some od\<rparr> = s" by simp
  then show ?case using Nil.prems(3) unfolding list.map append.simps by metis
next
  case (Cons tw ws)
  obtain t w where tw: "tw = (t, w)" by fastforce
  let ?od = "odomCallback t w od"
  have "\<exists>od'. smoother_run (map (\<lambda>(t, w). OdomMsg t w) ws @ evs) (s\<lparr>odom_smoother := Some ?od\<rparr>) =
      smoother_run evs (s\<lparr>odom_smoother := Some ?od, odom_smoother := Some od'\<rparr>) \<and> isnan (lin_x (vel_smooth od'))"
    by (rule Cons.IH) (use odomCallback_nan[of od w t] Cons.prems in simp_all)
  then show ?case using Cons.prems(1) by (simp add: tw)
qed

lemma constrain_axis_total:
  assumes "smoother_config_ok s" "i < 3"
  obtains r where "constrain_axis s eta i v c = Inr r" "isnan v \<longrightarrow> isnan r"
proof -
  have r: "rates_ok (smoothing_frequency s) (max_accels s ! i) (max_decels s ! i)" "i < length (max_accels s)" "i < length (max_decels s)"
    using assms by (auto simp: smoother_config_ok_def)
  obtain lo hi h where b: "change_bounds (smoothing_frequency s) v c (max_accels s ! i) (max_decels s ! i) = (lo, hi)"
    "is_fin lo" "is_fin hi" "fval lo = - h" "fval hi = h" "0 \<le> h"
    using change_bounds_ok[OF r(1), of v c] by metis
  have "\<not> flt hi lo" using b by (simp add: flt_fin)
  then show ?thesis using that r(2,3) b(1)
    by (simp add: constrain_axis_def at_index_def applyConstraints_def std_clamp_def Let_def)
qed

lemma scale_total: "smoother_config_ok s \<Longrightarrow> \<exists>e. find_eta s v c = Inr e"
  by (auto simp: find_eta_def scale_step_def at_index_def smoother_config_ok_def Let_def)

lemma closed_loop_tick:
  assumes "smoother_config_ok s" "\<not> open_loop s" "odom_smoother s = Some od" "isnan (lin_x (vel_smooth od))"
    "command_vs s = Some received" "vel_fin received" "moves now s" "smoothed_cmd_pub s = Some True"
  obtains s' out where "smootherTimer now s = Inr s'" "smoothed s' = smoothed s @ [out]" "isnan (lin_x out)"
proof -
  let ?cmd0 = "timed_command now s received" and ?v = "vel_smooth od"
  have moving: "(velocity_timeout s < now - last_command_time s \<and> (vel_eq (last_cmd s) zero_vel \<or> stopped s)) = False"
    using assms(7) by (simp add: moves_def)
  have fin: "is_fin (axis i ?cmd0)" "fp_wf B64 (axis i ?cmd0)" for i
    using assms(6) zero_vel_facts(3) by (auto simp: timed_command_def vel_fin_def axis_def)
  obtain cmd where cmd: "each_axis (\<lambda>i v _. limit_axis s i v) ?cmd0 ?cmd0 ?cmd0 = Inr cmd"
    using each_axis_ok[of "\<lambda>i v _. limit_axis s i v" ?cmd0 ?cmd0 "\<lambda>i r. True" ?cmd0] limit_axis_ok[OF assms(1)] fin by metis
  obtain eta where eta: "find_eta s ?v cmd = Inr eta" using scale_total[OF assms(1)] by blast
  have "\<exists>r. constrain_axis s eta i (axis i ?v) (axis i cmd) = Inr r \<and> (isnan (axis i ?v) \<longrightarrow> isnan r)" if "i < 3" for i
    using constrain_axis_total[OF assms(1) that] by metis
  then obtain v where v: "each_axis (constrain_axis s eta) ?v cmd zero_vel = Inr v"
    "\<And>i. i < 3 \<Longrightarrow> isnan (axis i ?v) \<longrightarrow> isnan (axis i v)"
    using each_axis_ok[of "constrain_axis s eta" ?v cmd "\<lambda>i r. isnan (axis i ?v) \<longrightarrow> isnan r" zero_vel] by metis
  have "\<exists>r. deadband_axis s i (axis i v) = Inr r \<and> (isnan (axis i v) \<longrightarrow> isnan r)" if "i < 3" for i
    using assms(1) that by (auto simp: deadband_axis_def at_index_def smoother_config_ok_def)
  then obtain out where out: "each_axis (\<lambda>i v _. deadband_axis s i v) v v v = Inr out"
    "\<And>i. i < 3 \<Longrightarrow> isnan (axis i v) \<longrightarrow> isnan (axis i out)"
    using each_axis_ok[of "\<lambda>i v _. deadband_axis s i v" v v "\<lambda>i r. isnan (axis i v) \<longrightarrow> isnan r" v] by metis
  have "smootherTimer now s = Inr (s\<lparr>stopped := False, command_vs := Some cmd, last_cmd := v, smoothed := smoothed s @ [out]\<rparr>)"
    unfolding smootherTimer_def Let_def timed_command_def[symmetric] moving if_False
    using assms(2,3,5,8) cmd eta v(1) out(1) by simp
  then show ?thesis using that[of _ out] v(2)[of 0] out(2)[of 0] assms(4) by simp
qed

section \<open>Configuration\<close>

text \<open>What the checks of \<open>on_configure\<close> leave: three axes, ordered limits and signed accelerations.\<close>

definition checked_config :: "VelocitySmoother \<Rightarrow> bool" where
  "checked_config s \<longleftrightarrow> length (max_velocities s) = 3 \<and> length (min_velocities s) = 3 \<and> length (max_accels s) = 3 \<and>
     length (max_decels s) = 3 \<and> length (deadband_velocities s) = 3 \<and>
     (\<forall>i < 3. \<not> flt (flit B64 0) (max_decels s ! i) \<and> \<not> flt (max_accels s ! i) (flit B64 0) \<and>
        \<not> flt (max_velocities s ! i) (min_velocities s ! i))"

lemma check_axis_iff:
  "check_axis s i = Inr () \<longleftrightarrow> i < length (max_decels s) \<and> i < length (max_accels s) \<and> i < length (min_velocities s) \<and>
     i < length (max_velocities s) \<and> \<not> flt (flit B64 0) (max_decels s ! i) \<and> \<not> flt (max_accels s ! i) (flit B64 0) \<and>
     \<not> flt (max_velocities s ! i) (min_velocities s ! i)"
  by (auto simp: check_axis_def at_index_def res_bind_def split: sum.splits if_splits)

lemma configured:
  assumes "smoother_on_configure from_sec sp s = Inr s'"
  shows "checked_config s'" "smoothed_cmd_pub s' = Some False" "cmd_sub s'"
    "last_cmd s' = last_cmd s" "command_vs s' = command_vs s" "stopped s' = stopped s" "open_loop s' \<or> odom_smoother s' \<noteq> None"
  using assms unfolding checked_config_def all_axes
  by (auto simp: smoother_on_configure_def Let_def res_iff check_axis_iff split: if_splits)

text \<open>The default parameters give a configuration the smoother runs with.\<close>

definition no_smoother_params :: SmootherParams where
  "no_smoother_params = \<lparr>sp_smoothing_frequency = None, sp_feedback = None, sp_scale_velocities = None, sp_max_velocity = None,
     sp_min_velocity = None, sp_max_accel = None, sp_max_decel = None, sp_odom_topic = None, sp_odom_duration = None,
     sp_deadband_velocity = None, sp_velocity_timeout = None\<rparr>"

lemma flit_speed:
  assumes "\<bar>q\<bar> \<le> 100"
  shows "is_fin (flit B64 q)" "fp_wf B64 (flit B64 q)" "fval (flit B64 q) = srnd B64 q" "\<bar>srnd B64 q - q\<bar> \<le> 1 / 1000"
proof -
  have "\<bar>q\<bar> \<le> pow2 100" using assms by (simp add: pow2_def)
  then show "is_fin (flit B64 q)" "fval (flit B64 q) = srnd B64 q"
    using fval_pack[of "\<bar>q\<bar>" B64 "q < 0"] by (auto simp: flit_def sgn_val_def abs_if)
  show "\<bar>srnd B64 q - q\<bar> \<le> 1 / 1000" using assms by (rule srnd_error) (simp_all add: pow2_def)
qed (rule fp_wf_flit)

lemma flit_speed_ok:
  assumes "\<bar>q\<bar> \<le> 100" "\<bar>q\<bar> + 1 / 1000 \<le> b"
  shows "speed_ok b (flit B64 q)"
proof -
  have "\<bar>srnd B64 q\<bar> \<le> b" using flit_speed(4)[OF assms(1)] assms(2) by linarith
  then show ?thesis using flit_speed(1-3)[OF assms(1)] by (simp add: speed_ok_def)
qed

lemma flit_order: "\<bar>p\<bar> \<le> 100 \<Longrightarrow> \<bar>q\<bar> \<le> 100 \<Longrightarrow> p \<le> q \<Longrightarrow> fval (flit B64 p) \<le> fval (flit B64 q)"
  using srnd_mono[of p q B64] by (simp add: flit_speed)

lemma flit_not_less: "p \<le> q \<Longrightarrow> \<bar>p\<bar> \<le> 100 \<Longrightarrow> \<bar>q\<bar> \<le> 100 \<Longrightarrow> \<not> flt (flit B64 q) (flit B64 p)"
  using flit_order[of p q] by (simp add: flt_fin flit_speed)

lemma symmetric_configuration:
  assumes "last_cmd s = zero_vel" "command_vs s = None"
    and "smoother_on_configure from_sec sp s = Inr s'" "smoothing_frequency s' = flit B64 20" "open_loop s'"
      "max_velocities s' = [flit B64 vx, flit B64 0, flit B64 vz]" "min_velocities s' = [flit B64 (- vx), flit B64 0, flit B64 (- vz)]"
      "max_accels s' = [flit B64 ax, flit B64 0, flit B64 az]" "max_decels s' = [flit B64 (- ax), flit B64 0, flit B64 (- az)]"
    and "\<forall>q \<in> {vx, vz, ax, az}. 0 \<le> q \<and> q \<le> 14"
  shows "smoother_ok s'"
proof -
  have z: "fval (flit B64 0) = 0" by (simp add: flit_values sgn_val_def)
  have l: "limits_ok (flit B64 (- q)) (flit B64 q)" if "0 \<le> q" "q \<le> 14" for q
    using that flit_order[of "- q" q] by (simp add: limits_ok_def flit_speed_ok)
  have "19 \<le> srnd B64 20" using flit_speed(4)[of 20] by linarith
  then have r: "rates_ok (flit B64 20) (flit B64 q) (flit B64 (- q))" if "0 \<le> q" "q \<le> 14" for q
    using that flit_order[of 0 q] flit_order[of "- q" 0] z flit_speed[of 20] by (simp add: rates_ok_def flit_speed_ok)
  note c = configured[OF assms(3)]
  have "smoother_config_ok s'" unfolding smoother_config_ok_def all_axes
    using c(1,2) assms(4-) l[of vx] l[of 0] l[of vz] r[of ax] r[of 0] r[of az] by (simp add: checked_config_def)
  moreover have "vel_eq zero_vel zero_vel" using zero_vel_iff zero_vel_facts(1)[of 16] zero_vel_facts(2) z by simp
  ultimately show ?thesis using c(4-6) assms(1,2,5) zero_vel_facts(1)[of 16] zero_vel_facts(2) by (simp add: smoother_ok_def)
qed

lemmas configure_eval = smoother_on_configure_def check_axis_def at_index_def flit_not_less Let_def

lemma default_configuration:
  assumes "last_cmd s = zero_vel" "command_vs s = None"
  shows "\<exists>s'. smoother_on_configure from_sec no_smoother_params s = Inr s' \<and> smoother_ok s'"
proof -
  obtain s' where s': "smoother_on_configure from_sec no_smoother_params s = Inr s'"
    "smoothing_frequency s' = flit B64 20" "open_loop s'"
    "max_velocities s' = [flit B64 (1 / 2), flit B64 0, flit B64 (5 / 2)]" "min_velocities s' = [flit B64 (- (1 / 2)), flit B64 0, flit B64 (- (5 / 2))]"
    "max_accels s' = [flit B64 (5 / 2), flit B64 0, flit B64 (16 / 5)]" "max_decels s' = [flit B64 (- (5 / 2)), flit B64 0, flit B64 (- (16 / 5))]"
    by (simp add: no_smoother_params_def configure_eval)
  then show ?thesis using symmetric_configuration[OF assms s'] by auto
qed

text \<open>So do the parameters of \<open>wego_2d_nav/config/nav2_params.yaml\<close>.\<close>

definition deployed_params :: SmootherParams where
  "deployed_params = \<lparr>sp_smoothing_frequency = Some (flit B64 20), sp_feedback = Some ''OPEN_LOOP'', sp_scale_velocities = Some False,
     sp_max_velocity = Some [flit B64 (8 / 10), flit B64 0, flit B64 1], sp_min_velocity = Some [flit B64 (- 8 / 10), flit B64 0, flit B64 (- 1)],
     sp_max_accel = Some [flit B64 (25 / 10), flit B64 0, flit B64 (32 / 10)],
     sp_max_decel = Some [flit B64 (- 25 / 10), flit B64 0, flit B64 (- 32 / 10)],
     sp_odom_topic = Some ''/odometry/local'', sp_odom_duration = Some (flit B64 (1 / 10)),
     sp_deadband_velocity = Some [flit B64 0, flit B64 0, flit B64 0], sp_velocity_timeout = Some (flit B64 1)\<rparr>"

lemma deployed_configuration:
  assumes "last_cmd s = zero_vel" "command_vs s = None"
  shows "\<exists>s'. smoother_on_configure from_sec deployed_params s = Inr s' \<and> smoother_ok s'"
proof -
  obtain s' where s': "smoother_on_configure from_sec deployed_params s = Inr s'"
    "smoothing_frequency s' = flit B64 20" "open_loop s'"
    "max_velocities s' = [flit B64 (4 / 5), flit B64 0, flit B64 1]" "min_velocities s' = [flit B64 (- (4 / 5)), flit B64 0, flit B64 (- 1)]"
    "max_accels s' = [flit B64 (5 / 2), flit B64 0, flit B64 (16 / 5)]" "max_decels s' = [flit B64 (- (5 / 2)), flit B64 0, flit B64 (- (16 / 5))]"
    by (simp add: deployed_params_def configure_eval)
  then show ?thesis using symmetric_configuration[OF assms s'] by auto
qed

section \<open>Samples\<close>

definition sample_smoother :: "fp \<Rightarrow> VelocitySmoother" where
  "sample_smoother v = \<lparr>odom_smoother = None, smoothed_cmd_pub = Some True, cmd_sub = True, timer_ms = Some 50,
     last_cmd = zero_vel\<lparr>lin_x := v\<rparr>, command_vs = Some (zero_vel\<lparr>lin_x := v\<rparr>), smoothing_frequency = fint B64 20,
     odom_duration = fint B64 0, odom_topic = ''odom'', open_loop = True, stopped = False, scale_velocities = False,
     max_velocities = [fint B64 1, fint B64 0, fint B64 2], min_velocities = [fint B64 (- 1), fint B64 0, fint B64 (- 2)],
     max_accels = [fint B64 2, fint B64 0, fint B64 3], max_decels = [fint B64 (- 2), fint B64 0, fint B64 (- 3)],
     deadband_velocities = [fint B64 0, fint B64 0, fint B64 0], velocity_timeout = 1000000000, last_command_time = 0,
     dyn_params_handler = True, smoothed = []\<rparr>"

lemma fint_speed: "\<bar>x\<bar> \<le> 1000 \<Longrightarrow> of_int \<bar>x\<bar> \<le> b \<Longrightarrow> speed_ok b (fint B64 x)"
  using fint_value[of x B64] by (simp add: speed_ok_def fp_wf_fint)

lemma sample_smoother_ok: "speed_ok 1 v \<Longrightarrow> smoother_ok (sample_smoother v)"
  using zero_vel_facts(1)[of 16] zero_vel_facts(2,3) fint_value[of 20 B64]
  unfolding smoother_ok_def smoother_config_ok_def all_axes
  by (auto simp: sample_smoother_def limits_ok_def rates_ok_def fint_speed fint_value vel_ok_def flat_def vel_fin_def speed_ok_def)

section \<open>Properties\<close>

text \<open>
  C27: in one period each axis of the commanded velocity changes by at most the largest of the
  configured acceleration and deceleration over the frequency (and a rounding error of a nanometre per
  second); what is published differs from it only by axes set to zero.
\<close>

theorem smoother_rate_limited:
  assumes "smoother_ok s" "i < 3"
  shows "\<exists>s'. smootherTimer now s = Inr s' \<and>
    \<bar>fval (axis i (last_cmd s')) - fval (axis i (last_cmd s))\<bar> \<le> max_change s i + 1 / 1000000000 \<and>
    (smoothed s' = smoothed s \<or>
     (\<exists>out. smoothed s' = smoothed s @ [out] \<and> (axis i out = axis i (last_cmd s') \<or> axis i out = flit B64 0)))"
proof -
  have "0 \<le> max_change s i + 1 / 1000000000" using max_change_nonneg[of s i] assms by (simp add: smoother_ok_def)
  with assms(1) show ?thesis
  proof (cases rule: smootherTimer_cases[of s now])
    case (move received)
    obtain cmd v out active where t: "smootherTimer now s = Inr (s\<lparr>stopped := False, command_vs := Some cmd, last_cmd := v,
         smoothed := smoothed s @ (if active then [out] else [])\<rparr>)"
      "\<And>i. i < 3 \<Longrightarrow> \<bar>fval (axis i v) - fval (axis i (last_cmd s))\<bar> \<le> max_change s i + 1 / 1000000000"
      "\<And>i. i < 3 \<Longrightarrow> axis i out = axis i v \<or> axis i out = flit B64 0"
      using smoother_tick[OF assms(1) move] by metis
    then show ?thesis using assms(2) by simp
  qed simp_all
qed

theorem smoother_rate_limited_witness:
  "\<exists>s'. smootherTimer 9 (sample_smoother (fint B64 0)) = Inr s' \<and> \<bar>fval (lin_x (last_cmd s'))\<bar> \<le> 2 / 20 + 1 / 1000000000"
  using smoother_rate_limited[of "sample_smoother (fint B64 0)" 0 9] sample_smoother_ok[OF fint_speed[of 0 1]]
  by (auto simp: max_change_def sample_smoother_def fint_value)

text \<open>
  C3: when commands cease, the smoother with the open loop and no scaling brings every axis to zero within
  the number of periods its deceleration needs, announces it with a zero velocity, and then stays
  silent until a new command arrives.
\<close>

theorem smoother_stops:
  assumes "smoother_ok s" "command_vs s \<noteq> None" "timer_ms s \<noteq> None" "\<not> scale_velocities s" "zero_allowed s"
    "\<not> vel_eq (last_cmd s) zero_vel" "can_stop n s" "n \<le> length ts" "\<forall>t \<in> set ts. velocity_timeout s < t - last_command_time s"
  shows "\<exists>s'. smoother_run (map SmootherTick ts) s = Inr s' \<and> vel_eq (last_cmd s') zero_vel \<and>
    (smoothed_cmd_pub s = Some True \<longrightarrow> smoothed s' \<noteq> [] \<and> vel_eq (last (smoothed s')) zero_vel) \<and>
    (\<forall>t. velocity_timeout s < t - last_command_time s \<longrightarrow> smootherTimer t s' = Inr (s'\<lparr>stopped := True\<rparr>))"
proof -
  have "braking s" using assms(1-6) by (simp add: braking_def announced_def)
  then obtain s' where s': "smoother_run (map SmootherTick ts) s = Inr s'" "braking s'" "vel_eq (last_cmd s') zero_vel"
    "velocity_timeout s' = velocity_timeout s" "last_command_time s' = last_command_time s" "smoothed_cmd_pub s' = smoothed_cmd_pub s"
    using braking_run can_stop_mono[OF assms(7,8)] assms(9) by metis
  have "smootherTimer t s' = Inr (s'\<lparr>stopped := True\<rparr>)" if "velocity_timeout s < t - last_command_time s" for t
    using s'(2-5) that by (auto simp: smootherTimer_def braking_def)
  then show ?thesis using s' by (auto simp: braking_def announced_def)
qed

theorem smoother_stops_witness:
  "\<exists>s'. smoother_run (map SmootherTick (replicate 11 2000000000)) (sample_smoother (fint B64 1)) = Inr s' \<and>
     vel_eq (last_cmd s') zero_vel \<and> vel_eq (last (smoothed s')) zero_vel"
proof -
  let ?s = "sample_smoother (fint B64 1)"
  have v: "fval (fint B64 1) = 1" "is_fin (fint B64 1)" using fint_value[of 1 B64] by simp_all
  have "\<not> vel_eq (last_cmd ?s) zero_vel" using v by (simp add: sample_smoother_def vel_eq_def feq_fin zero_vel_def flit_values Let_def sgn_val_def)
  moreover have "can_stop 11 ?s" unfolding can_stop_def all_axes
    by (simp add: sample_smoother_def brake_def fint_value zero_vel_def flit_values Let_def sgn_val_def)
  moreover have "zero_allowed ?s" unfolding zero_allowed_def all_axes by (simp add: sample_smoother_def fint_value)
  ultimately show ?thesis
    using smoother_stops[of ?s 11 "replicate 11 2000000000"] sample_smoother_ok[OF fint_speed[of 1 1]]
    by (auto simp: sample_smoother_def)
qed

text \<open>
  C40: \<open>dynamicParametersCallback\<close> answers that negative accelerations are refused but stores them; from rest,
  the next period with a command then clamps between bounds in the wrong order, which is undefined.
\<close>

lemma rejected_accel_faults:
  assumes "smoother_ok s" "\<not> scale_velocities s" "fval (lin_x (last_cmd s)) = 0" "command_vs s = Some received" "moves now s"
    "speed_ok 1000 a" "fval a / fval (smoothing_frequency s) \<le> - 1 / 1000000"
  shows "\<exists>s'. smoother_dynamicParametersCallback from_sec [(''max_accel'', PDoubleArray [a, b, c])] s = Inr (False, s') \<and>
    smootherTimer now s' = Inl LibraryPrecondition"
proof -
  let ?s = "s\<lparr>max_accels := [a, b, c]\<rparr>"
  have c: "smoother_config_ok s" "vel_fin received" "open_loop s" "vel_ok 16 (last_cmd s)"
    "rates_ok (smoothing_frequency s) (max_accels s ! 0) (max_decels s ! 0)" "0 < length (max_decels s)"
    using assms(1,4) by (auto simp: smoother_ok_def smoother_config_ok_def)
  have f: "is_fin (smoothing_frequency s)" "fp_wf B64 (smoothing_frequency s)" "1 \<le> fval (smoothing_frequency s)"
    using c(5) by (auto simp: rates_ok_def)
  note hi = rate_value[OF c(5) assms(6)] and lo = rate_value[OF c(5), of "fneg a"]
  have na: "speed_ok 1000 (fneg a)" using assms(6) by (simp add: speed_ok_def)
  have "\<bar>srnd B64 (fval a / fval (smoothing_frequency s)) - fval a / fval (smoothing_frequency s)\<bar> \<le> 1 / 1000000000"
    using hi(4) by (rule srnd_error) (simp_all add: pow2_def)
  then have h: "srnd B64 (fval a / fval (smoothing_frequency s)) < 0" using assms(7) by linarith
  have bad: "flt (fdiv B64 a (smoothing_frequency s)) (fdiv B64 (fneg a) (smoothing_frequency s))"
    using hi(1,3) lo(1,3)[OF na] h by (simp add: flt_fin srnd_minus)
  have "fval a < 0" using assms(7) f(3) by (simp add: divide_le_eq)
  then have set: "smoother_dynamicParametersCallback from_sec [(''max_accel'', PDoubleArray [a, b, c])] s = Inr (False, ?s)"
    using assms(6) by (simp add: smoother_dynamicParametersCallback_def set_parameter_def flt_fin speed_ok_def flit_values sgn_val_def)
  let ?cmd0 = "timed_command now s received"
  have fin: "is_fin (axis i ?cmd0)" "fp_wf B64 (axis i ?cmd0)" for i
    using c(2) zero_vel_facts(3) by (auto simp: timed_command_def vel_fin_def axis_def)
  obtain cmd where cmd: "each_axis (\<lambda>i v _. limit_axis s i v) ?cmd0 ?cmd0 ?cmd0 = Inr cmd" "\<And>i. i < 3 \<Longrightarrow> speed_ok 15 (axis i cmd)"
    using each_axis_ok[of "\<lambda>i v _. limit_axis s i v" ?cmd0 ?cmd0 "\<lambda>i r. speed_ok 15 r" ?cmd0] limit_axis_ok[OF c(1)] fin by metis
  let ?v = "lin_x (last_cmd s)"
  have x: "speed_ok 15 (lin_x cmd)" "speed_ok 16 ?v" using cmd(2)[of 0] c(4) by (simp_all add: vel_ok_def)
  have "fle (fabs ?v) (fabs (lin_x cmd))" "fle (flit B64 0) (fmul B64 ?v (lin_x cmd))"
    using x assms(3) fval_fmul[of ?v B64 "lin_x cmd" B64 B64]
    by (auto simp: fle_fin speed_ok_def fval_fabs pow2_def flit_values sgn_val_def)
  then have fault: "constrain_axis ?s (flit B64 1) 0 ?v (lin_x cmd) = Inl LibraryPrecondition"
    using c(6) bad by (simp add: constrain_axis_def at_index_def applyConstraints_def change_bounds_def std_clamp_def Let_def)
  have moving: "(velocity_timeout ?s < now - last_command_time ?s \<and> (vel_eq (last_cmd ?s) zero_vel \<or> stopped ?s)) = False"
    using assms(5) by (simp add: moves_def)
  have same: "limit_axis ?s = limit_axis s" "timed_command now ?s received = ?cmd0" by (auto simp: limit_axis_def timed_command_def fun_eq_iff)
  have "smootherTimer now ?s = Inl LibraryPrecondition"
    unfolding smootherTimer_def Let_def timed_command_def[symmetric] moving if_False
    using assms(2,4) c(3) cmd(1) fault by (simp add: same find_eta_def each_axis_def[of "constrain_axis ?s (flit B64 1)"])
  then show ?thesis using set by blast
qed

text \<open>
  With the closed loop, one odometry message whose forward velocity is not a number makes the smoother
  publish a velocity that is not a number, whatever odometry follows and however long ago it was: the
  message leaves the history but not the running sum.
\<close>

lemma odom_nan_sticks:
  assumes "smoother_config_ok s" "\<not> open_loop s" "odom_smoother s = Some od" "isnan (lin_x w)"
    "command_vs s = Some received" "vel_fin received" "moves now s" "smoothed_cmd_pub s = Some True" "timer_ms s \<noteq> None"
  shows "\<exists>s' out. smoother_run (OdomMsg t w # map (\<lambda>(t, w). OdomMsg t w) ws @ [SmootherTick now]) s = Inr s' \<and>
    smoothed s' = smoothed s @ [out] \<and> isnan (lin_x out)"
proof -
  let ?s = "s\<lparr>odom_smoother := Some (odomCallback t w od)\<rparr>"
  obtain od' where r: "smoother_run (map (\<lambda>(t, w). OdomMsg t w) ws @ [SmootherTick now]) ?s =
      smoother_run [SmootherTick now] (?s\<lparr>odom_smoother := Some od'\<rparr>)" "isnan (lin_x (vel_smooth od'))"
    using odom_run_nan[of ?s "odomCallback t w od" ws "[SmootherTick now]"] odomCallback_nan[of od w t] assms(4) by auto
  let ?s' = "s\<lparr>odom_smoother := Some od'\<rparr>"
  have "smoother_config_ok ?s'" "moves now ?s'" using assms(1,7) by (simp_all add: smoother_config_ok_def moves_def)
  then obtain s'' out where "smootherTimer now ?s' = Inr s''" "smoothed s'' = smoothed s @ [out]" "isnan (lin_x out)"
    using closed_loop_tick[of ?s' od' received now] r(2) assms by auto
  then show ?thesis using r(1) assms(3,9) by simp
qed

end
