(* ===== verification/Drive_Stack.thy ===== *)
theory Drive_Stack
  imports Velocity_Smoother_Theorems Ranger_Messenger_Theorems
begin

text \<open>
  The velocity smoother and the Ranger node together, as \<open>wego_2d_nav/launch/navigation_launch.py\<close> connects
  them: the topic \<open>cmd_vel_smoothed\<close> of the one is the topic \<open>cmd_vel\<close> of the other. Messages on the topic
  are delivered in order, late, or lost.
\<close>

definition to_twist :: "Vel6 \<Rightarrow> Twist" where
  "to_twist v = \<lparr>linear_x = lin_x v, linear_y = lin_y v, angular_z = ang_z v\<rparr>"

record DriveStack =
  smoother_ds :: VelocitySmoother
  cmd_vel_ds :: "Vel6 list"
  node_ds :: Messenger

datatype stack_event = SmootherEvent smoother_event | NodeTick int | NodeRx SdkTimePoint can_frame | Deliver | Lose

fun stack_step ::
  "Ros \<Rightarrow> Mem \<Rightarrow> RangerCoreState \<Rightarrow> RangerCommonSensorState \<Rightarrow> stack_event \<Rightarrow> DriveStack \<Rightarrow> DriveStack res" where
  "stack_step ros mem mc ms (SmootherEvent ev) d =
     res_bind (smoother_step ev (smoother_ds d)) (\<lambda>s.
       Inr (d\<lparr>smoother_ds := s, cmd_vel_ds := cmd_vel_ds d @ drop (length (smoothed (smoother_ds d))) (smoothed s)\<rparr>))"
| "stack_step ros mem mc ms (NodeTick now) d =
     res_bind (node_step ros mem mc ms (Tick now) (node_ds d)) (\<lambda>m. Inr (d\<lparr>node_ds := m\<rparr>))"
| "stack_step ros mem mc ms (NodeRx now rx) d =
     res_bind (node_step ros mem mc ms (Rx now rx) (node_ds d)) (\<lambda>m. Inr (d\<lparr>node_ds := m\<rparr>))"
| "stack_step ros mem mc ms Deliver d =
    (case cmd_vel_ds d of [] \<Rightarrow> Inr d
     | v # vs \<Rightarrow> res_bind (node_step ros mem mc ms (Cmd (to_twist v)) (node_ds d)) (\<lambda>m.
         Inr (d\<lparr>cmd_vel_ds := vs, node_ds := m\<rparr>)))"
| "stack_step ros mem mc ms Lose d = Inr (d\<lparr>cmd_vel_ds := tl (cmd_vel_ds d)\<rparr>)"

fun stack_run ::
  "Ros \<Rightarrow> Mem \<Rightarrow> RangerCoreState \<Rightarrow> RangerCommonSensorState \<Rightarrow> stack_event list \<Rightarrow> DriveStack \<Rightarrow> DriveStack res" where
  "stack_run ros mem mc ms [] d = Inr d"
| "stack_run ros mem mc ms (ev # evs) d = res_bind (stack_step ros mem mc ms ev d) (stack_run ros mem mc ms evs)"

section \<open>Invariant\<close>

fun stack_event_ok :: "stack_event \<Rightarrow> bool" where
  "stack_event_ok (SmootherEvent ev) = smoother_event_ok ev"
| "stack_event_ok (NodeRx now rx) = rx_ok rx"
| "stack_event_ok ev = True"

definition stack_inv :: "DriveStack \<Rightarrow> bool" where
  "stack_inv d \<longleftrightarrow> smoother_ok (smoother_ds d) \<and> list_all (vel_ok 16) (cmd_vel_ds d) \<and> node_inv (node_ds d)"

lemma to_twist_ok: "vel_ok 16 v \<Longrightarrow> twist_ok (to_twist v)"
  by (simp add: twist_ok_def to_twist_def vel_ok_def speed_ok_def)

lemma node_step_inv:
  assumes "libm_ok (libm ros)" "mem_wf mem" "event_ok ev" "node_inv m"
  obtains m' frs where "node_step ros mem mc ms ev m = Inr m'" "node_inv m'" "sent (robot_m m') = sent (robot_m m) @ frs" "length frs \<le> 2"
  using node_step_safe[OF assms] by metis

lemma stack_step_inv:
  assumes "libm_ok (libm ros)" "mem_wf mem" "stack_event_ok ev" "stack_inv d"
  shows "\<exists>d' frs. stack_step ros mem mc ms ev d = Inr d' \<and> stack_inv d' \<and>
    sent (robot_m (node_ds d')) = sent (robot_m (node_ds d)) @ frs \<and> length frs \<le> 2"
proof -
  have i: "smoother_ok (smoother_ds d)" "list_all (vel_ok 16) (cmd_vel_ds d)" "node_inv (node_ds d)"
    using assms(4) by (simp_all add: stack_inv_def)
  have node: "\<exists>m' frs. node_step ros mem mc ms nev (node_ds d) = Inr m' \<and> node_inv m' \<and>
      sent (robot_m m') = sent (robot_m (node_ds d)) @ frs \<and> length frs \<le> 2" if "event_ok nev" for nev
    using node_step_inv[OF assms(1,2) that i(3)] by metis
  show ?thesis
  proof (cases ev)
    case (SmootherEvent sev)
    obtain s outs where s: "smoother_step sev (smoother_ds d) = Inr s" "smoother_ok s"
      "smoothed s = smoothed (smoother_ds d) @ outs" "\<forall>v \<in> set outs. vel_ok 16 v"
      using smoother_step_ok[OF i(1), of sev] assms(3) SmootherEvent by auto
    then show ?thesis using i SmootherEvent by (simp add: stack_inv_def list_all_iff ball_Un)
  next
    case (NodeTick now)
    then show ?thesis using node[of "Tick now"] i by (auto simp: stack_inv_def event_ok_def)
  next
    case (NodeRx now rx)
    then show ?thesis using node[of "Rx now rx"] i assms(3) by (auto simp: stack_inv_def event_ok_def)
  next
    case Deliver
    show ?thesis
    proof (cases "cmd_vel_ds d")
      case (Cons v vs)
      then have "event_ok (Cmd (to_twist v))" using i(2) by (simp add: event_ok_def to_twist_ok)
      then show ?thesis using node[of "Cmd (to_twist v)"] i Cons Deliver by (auto simp: stack_inv_def)
    qed (use Deliver assms(4) in simp)
  next
    case Lose
    have "list_all (vel_ok 16) (tl (cmd_vel_ds d))" using i(2) by (cases "cmd_vel_ds d") simp_all
    then show ?thesis using i Lose by (simp add: stack_inv_def)
  qed
qed

lemma stack_run_inv:
  assumes "libm_ok (libm ros)" "mem_wf mem" "list_all stack_event_ok evs" "stack_inv d"
  shows "\<exists>d' frs. stack_run ros mem mc ms evs d = Inr d' \<and> stack_inv d' \<and>
    sent (robot_m (node_ds d')) = sent (robot_m (node_ds d)) @ frs \<and> length frs \<le> 2 * length evs"
  using assms(3,4)
proof (induction evs arbitrary: d)
  case (Cons ev evs)
  obtain d1 f1 where 1: "stack_step ros mem mc ms ev d = Inr d1" "stack_inv d1"
    "sent (robot_m (node_ds d1)) = sent (robot_m (node_ds d)) @ f1" "length f1 \<le> 2"
    using stack_step_inv[OF assms(1,2) _ Cons.prems(2)] Cons.prems(1) by (metis list.pred_inject(2))
  obtain d2 f2 where 2: "stack_run ros mem mc ms evs d1 = Inr d2" "stack_inv d2"
    "sent (robot_m (node_ds d2)) = sent (robot_m (node_ds d1)) @ f2" "length f2 \<le> 2 * length evs"
    using Cons.IH[OF _ 1(2)] Cons.prems(1) by auto
  show ?case using 1 2 by (intro exI[of _ d2] exI[of _ "f1 @ f2"]) simp
qed simp

section \<open>Properties\<close>



end
