(* ===== verification/Simple_Action_Server.thy ===== *)
theory Simple_Action_Server
  imports Prelude
begin

text \<open>
  \<open>nav2_util/simple_action_server.hpp\<close>: the wrapper around an action server that runs one goal at a time on a
  worker thread and keeps one more goal pending. Goal handles belong to \<open>rclcpp_action\<close>; their operations
  are the record \<open>GoalHandles\<close>, a parameter. A shared pointer to a handle is its number, counted in the
  order of acceptance. The mutex makes every operation atomic; the worker's position between
  operations is part of the state.
\<close>

section \<open>Goal handles\<close>

record ('h, 'g, 'r, 'f) GoalHandles =
  h_is_active :: "'h \<Rightarrow> bool"
  h_is_canceling :: "'h \<Rightarrow> bool"
  h_get_goal :: "'h \<Rightarrow> 'g"
  h_cancel_goal :: "'h \<Rightarrow> 'h"
  h_abort :: "'r \<Rightarrow> 'h \<Rightarrow> 'h res"
  h_canceled :: "'r \<Rightarrow> 'h \<Rightarrow> 'h res"
  h_succeed :: "'r \<Rightarrow> 'h \<Rightarrow> 'h res"
  h_publish_feedback :: "'f \<Rightarrow> 'h \<Rightarrow> 'h"

section \<open>State\<close>

text \<open>
  The worker: no thread yet, at the head of the loop of \<open>work\<close>, in the callback, before the locked part
  that follows it, past the loop but not yet finished, and finished.
\<close>

datatype Worker = NoWorker | LoopHead | InCallback | AfterCallback | Leaving | Finished

record 'h ActionServer =
  handles :: "'h list"
  current_handle :: "nat option"
  pending_handle :: "nat option"
  preempt_requested :: bool
  server_active :: bool
  stop_execution :: bool
  has_completion :: bool
  execution_future :: Worker

definition SimpleActionServer :: "bool \<Rightarrow> 'h ActionServer" where
  "SimpleActionServer completion = \<lparr>handles = [], current_handle = None, pending_handle = None, preempt_requested = False,
     server_active = False, stop_execution = False, has_completion = completion, execution_future = NoWorker\<rparr>"

definition is_active :: "('h, 'g, 'r, 'f) GoalHandles \<Rightarrow> 'h ActionServer \<Rightarrow> nat option \<Rightarrow> bool" where
  "is_active H s p = (case p of None \<Rightarrow> False | Some h \<Rightarrow> h_is_active H (handles s ! h))"

definition is_running :: "'h ActionServer \<Rightarrow> bool" where
  "is_running s = (execution_future s \<notin> {NoWorker, Finished})"

section \<open>Termination of goals\<close>

definition set_handle :: "nat \<Rightarrow> 'h ActionServer \<Rightarrow> 'h \<Rightarrow> 'h ActionServer" where
  "set_handle h s x = s\<lparr>handles := (handles s)[h := x]\<rparr>"

text \<open>The new value of the pointer passed by reference, and the server.\<close>

definition terminate ::
  "('h, 'g, 'r, 'f) GoalHandles \<Rightarrow> 'r \<Rightarrow> nat option \<Rightarrow> 'h ActionServer \<Rightarrow> (nat option \<times> 'h ActionServer) res" where
  "terminate H result p s =
    (case p of
       None \<Rightarrow> Inr (p, s)
     | Some h \<Rightarrow>
         if h_is_active H (handles s ! h) then
           res_bind (if h_is_canceling H (handles s ! h) then h_canceled H result (handles s ! h)
                     else h_abort H result (handles s ! h)) (\<lambda>x. Inr (None, set_handle h s x))
         else Inr (p, s))"

definition terminate_current :: "('h, 'g, 'r, 'f) GoalHandles \<Rightarrow> 'r \<Rightarrow> 'h ActionServer \<Rightarrow> 'h ActionServer res" where
  "terminate_current H result s =
     res_bind (terminate H result (current_handle s) s) (\<lambda>(p, s'). Inr (s'\<lparr>current_handle := p\<rparr>))"

definition terminate_pending :: "('h, 'g, 'r, 'f) GoalHandles \<Rightarrow> 'r \<Rightarrow> 'h ActionServer \<Rightarrow> 'h ActionServer res" where
  "terminate_pending H result s =
     res_bind (terminate H result (pending_handle s) s) (\<lambda>(p, s'). Inr (s'\<lparr>pending_handle := p\<rparr>))"

definition terminate_all :: "('h, 'g, 'r, 'f) GoalHandles \<Rightarrow> 'r \<Rightarrow> 'h ActionServer \<Rightarrow> 'h ActionServer res" where
  "terminate_all H result s =
     res_bind (terminate_current H result s) (\<lambda>s1. res_bind (terminate_pending H result s1) (\<lambda>s2.
       Inr (s2\<lparr>preempt_requested := False\<rparr>)))"

definition terminate_pending_goal :: "('h, 'g, 'r, 'f) GoalHandles \<Rightarrow> 'r \<Rightarrow> 'h ActionServer \<Rightarrow> 'h ActionServer res" where
  "terminate_pending_goal H empty_result s =
    (if \<not> is_active H s (pending_handle s) then Inr s
     else res_bind (terminate_pending H empty_result s) (\<lambda>s'. Inr (s'\<lparr>preempt_requested := False\<rparr>)))"

definition succeeded_current :: "('h, 'g, 'r, 'f) GoalHandles \<Rightarrow> 'r \<Rightarrow> 'h ActionServer \<Rightarrow> 'h ActionServer res" where
  "succeeded_current H result s =
    (case current_handle s of
       None \<Rightarrow> Inr s
     | Some h \<Rightarrow>
         if h_is_active H (handles s ! h)
         then res_bind (h_succeed H result (handles s ! h)) (\<lambda>x. Inr ((set_handle h s x)\<lparr>current_handle := None\<rparr>))
         else Inr s)"

section \<open>Requests\<close>

definition handle_goal :: "'h ActionServer \<Rightarrow> bool" where
  "handle_goal s = server_active s"

definition handle_cancel :: "('h, 'g, 'r, 'f) GoalHandles \<Rightarrow> nat \<Rightarrow> 'h ActionServer \<Rightarrow> bool" where
  "handle_cancel H h s = h_is_active H (handles s ! h)"

text \<open>The handle of an accepted goal gets the next number.\<close>

definition handle_accepted :: "('h, 'g, 'r, 'f) GoalHandles \<Rightarrow> 'r \<Rightarrow> 'h \<Rightarrow> 'h ActionServer \<Rightarrow> 'h ActionServer res" where
  "handle_accepted H empty_result handle s =
    (if is_active H s (current_handle s) \<or> is_running s then
       res_bind (if is_active H s (pending_handle s) then terminate_pending H empty_result s else Inr s) (\<lambda>s1.
         Inr (s1\<lparr>handles := handles s1 @ [handle], pending_handle := Some (length (handles s1)), preempt_requested := True\<rparr>))
     else
       res_bind (if is_active H s (pending_handle s)
                 then res_bind (terminate_pending H empty_result s) (\<lambda>s1. Inr (s1\<lparr>preempt_requested := False\<rparr>))
                 else Inr s) (\<lambda>s1.
         Inr (s1\<lparr>handles := handles s1 @ [handle], current_handle := Some (length (handles s1)), execution_future := LoopHead\<rparr>)))"

definition accept_pending_goal ::
  "('h, 'g, 'r, 'f) GoalHandles \<Rightarrow> 'r \<Rightarrow> 'h ActionServer \<Rightarrow> ('g option \<times> 'h ActionServer) res" where
  "accept_pending_goal H empty_result s =
    (case pending_handle s of
       None \<Rightarrow> Inr (None, s)
     | Some p \<Rightarrow>
         if \<not> h_is_active H (handles s ! p) then Inr (None, s)
         else res_bind (case current_handle s of
                None \<Rightarrow> Inr s
              | Some c \<Rightarrow> if h_is_active H (handles s ! c) \<and> c \<noteq> p
                          then res_bind (h_abort H empty_result (handles s ! c)) (\<lambda>x. Inr (set_handle c s x))
                          else Inr s) (\<lambda>s1.
              Inr (Some (h_get_goal H (handles s1 ! p)),
                   s1\<lparr>current_handle := Some p, pending_handle := None, preempt_requested := False\<rparr>)))"

definition get_current_goal :: "('h, 'g, 'r, 'f) GoalHandles \<Rightarrow> 'h ActionServer \<Rightarrow> 'g option" where
  "get_current_goal H s =
    (case current_handle s of None \<Rightarrow> None
     | Some h \<Rightarrow> if h_is_active H (handles s ! h) then Some (h_get_goal H (handles s ! h)) else None)"

definition get_pending_goal :: "('h, 'g, 'r, 'f) GoalHandles \<Rightarrow> 'h ActionServer \<Rightarrow> 'g option" where
  "get_pending_goal H s =
    (case pending_handle s of None \<Rightarrow> None
     | Some h \<Rightarrow> if h_is_active H (handles s ! h) then Some (h_get_goal H (handles s ! h)) else None)"

definition is_cancel_requested :: "('h, 'g, 'r, 'f) GoalHandles \<Rightarrow> 'h ActionServer \<Rightarrow> bool" where
  "is_cancel_requested H s =
    (case current_handle s of None \<Rightarrow> False
     | Some c \<Rightarrow> (case pending_handle s of Some p \<Rightarrow> h_is_canceling H (handles s ! p)
                  | None \<Rightarrow> h_is_canceling H (handles s ! c)))"

definition publish_feedback :: "('h, 'g, 'r, 'f) GoalHandles \<Rightarrow> 'f \<Rightarrow> 'h ActionServer \<Rightarrow> 'h ActionServer" where
  "publish_feedback H feedback s =
    (case current_handle s of None \<Rightarrow> s
     | Some h \<Rightarrow> if h_is_active H (handles s ! h) then set_handle h s (h_publish_feedback H feedback (handles s ! h)) else s)"

section \<open>The worker\<close>

definition work_head :: "('h, 'g, 'r, 'f) GoalHandles \<Rightarrow> 'h ActionServer \<Rightarrow> 'h ActionServer" where
  "work_head H s =
     s\<lparr>execution_future := (if \<not> stop_execution s \<and> is_active H s (current_handle s) then InCallback else Leaving)\<rparr>"

text \<open>
  Calling an empty \<open>completion_callback_\<close> throws; the exception ends the worker and is kept, unread, in the
  future.
\<close>

definition work_after :: "('h, 'g, 'r, 'f) GoalHandles \<Rightarrow> 'r \<Rightarrow> 'h ActionServer \<Rightarrow> 'h ActionServer res" where
  "work_after H empty_result s =
    (if stop_execution s then
       res_bind (terminate_all H empty_result s) (\<lambda>s1. Inr (s1\<lparr>execution_future := Leaving\<rparr>))
     else
       let unfinished = is_active H s (current_handle s) in
       res_bind (if unfinished then terminate_current H empty_result s else Inr s) (\<lambda>s1.
         if unfinished \<and> \<not> has_completion s1 then Inr (s1\<lparr>execution_future := Leaving\<rparr>)
         else if is_active H s1 (pending_handle s1)
         then res_bind (accept_pending_goal H empty_result s1) (\<lambda>(goal, s2). Inr (s2\<lparr>execution_future := LoopHead\<rparr>))
         else Inr (s1\<lparr>execution_future := Leaving\<rparr>)))"

text \<open>The callback has thrown: every goal is terminated.\<close>

definition work_failed :: "('h, 'g, 'r, 'f) GoalHandles \<Rightarrow> 'r \<Rightarrow> 'h ActionServer \<Rightarrow> 'h ActionServer res" where
  "work_failed H empty_result s = res_bind (terminate_all H empty_result s) (\<lambda>s1. Inr (s1\<lparr>execution_future := Leaving\<rparr>))"

section \<open>Activation\<close>

definition activate :: "'h ActionServer \<Rightarrow> 'h ActionServer" where
  "activate s = s\<lparr>server_active := True, stop_execution := False\<rparr>"

definition deactivate_request :: "'h ActionServer \<Rightarrow> 'h ActionServer" where
  "deactivate_request s = s\<lparr>server_active := False, stop_execution := True\<rparr>"

text \<open>One wait of 100 ms in \<open>deactivate\<close> that has ended without the worker being done.\<close>

definition deactivate_wait :: "('h, 'g, 'r, 'f) GoalHandles \<Rightarrow> 'r \<Rightarrow> bool \<Rightarrow> 'h ActionServer \<Rightarrow> 'h ActionServer res" where
  "deactivate_wait H empty_result timed_out s = (if timed_out then terminate_all H empty_result s else Inr s)"

end
