(* ===== verification/Waypoint_Follower.thy ===== *)
theory Waypoint_Follower
  imports Simple_Action_Server Waypoint_Runner
begin

text \<open>
  \<open>nav2_waypoint_follower/src/waypoint_follower.cpp\<close>: the action server that the waypoint runner sends its
  goals to. It drives to the waypoints of a goal one after the other, as goals of the action client
  \<open>navigate_to_pose\<close>. Its callback runs on the worker of the action server; each pass of its loop is a step.
  The callbacks of the client run when the loop spins, in the order of the list \<open>evs\<close>. The plugin that acts at a
  waypoint is the parameter \<open>task\<close>. Goals sent to the client are numbered. The program is not shut down
  while the loop runs.
\<close>

section \<open>State\<close>

datatype ActionStatus = St_UNKNOWN | St_PROCESSING | St_FAILED | St_SUCCEEDED

text \<open>The response to a goal of the client, once it has arrived.\<close>

datatype NavResponse = Awaiting | Rejected | Accepted

record 'h WaypointFollower =
  action_server :: "'h ActionServer option"
  nav_client :: bool
  nav_goals :: "PoseStamped list"
  nav_responses :: "NavResponse list"
  nav_cancels :: nat
  future_goal_handle :: "nat option"
  stop_on_failure :: bool
  current_goal_status :: ActionStatus
  loop_rate :: int
  failed_ids :: "int list"
  task_executor :: bool
  dyn_params :: bool
  in_loop :: bool
  fw_goal :: "PoseStamped list option"
  goal_index :: u32
  new_goal :: bool

type_synonym 'h WaypointHandles = "('h, PoseStamped list, int list, u32) GoalHandles"

definition with_server :: "'h WaypointFollower \<Rightarrow> ('h ActionServer \<Rightarrow> 'a res) \<Rightarrow> 'a res" where
  "with_server fw f = (case action_server fw of None \<Rightarrow> Inl NullDereference | Some s \<Rightarrow> f s)"

definition put_server :: "'h WaypointFollower \<Rightarrow> 'h ActionServer \<Rightarrow> 'h WaypointFollower" where
  "put_server fw s = fw\<lparr>action_server := Some s\<rparr>"

section \<open>Life cycle\<close>

text \<open>\<open>plugin_found\<close>: whether the plugin can be created; when it cannot, configuring still succeeds.\<close>

definition follower_on_configure :: "bool \<Rightarrow> int \<Rightarrow> bool \<Rightarrow> 'h WaypointFollower \<Rightarrow> 'h WaypointFollower" where
  "follower_on_configure stop_param rate_param plugin_found fw =
     fw\<lparr>stop_on_failure := stop_param, loop_rate := rate_param, nav_client := True,
        action_server := Some (SimpleActionServer False), task_executor := (plugin_found \<or> task_executor fw)\<rparr>"

definition follower_on_activate :: "'h WaypointFollower \<Rightarrow> 'h WaypointFollower res" where
  "follower_on_activate fw = with_server fw (\<lambda>s. Inr ((put_server fw (activate s))\<lparr>dyn_params := True\<rparr>))"

text \<open>The request that starts \<open>on_deactivate\<close>; the waiting for the worker is \<open>deactivate_wait\<close>.\<close>

definition follower_on_deactivate :: "'h WaypointFollower \<Rightarrow> 'h WaypointFollower res" where
  "follower_on_deactivate fw = with_server fw (\<lambda>s. Inr ((put_server fw (deactivate_request s))\<lparr>dyn_params := False\<rparr>))"

definition follower_on_cleanup :: "'h WaypointFollower \<Rightarrow> 'h WaypointFollower" where
  "follower_on_cleanup fw = fw\<lparr>action_server := None, nav_client := False\<rparr>"

section \<open>Callbacks of the client\<close>

definition follower_resultCallback :: "nat \<Rightarrow> ResultCode \<Rightarrow> 'h WaypointFollower \<Rightarrow> 'h WaypointFollower res" where
  "follower_resultCallback goal_id code fw =
    (case future_goal_handle fw of
       None \<Rightarrow> Inl (Thrown ''future_error'')
     | Some k \<Rightarrow>
         (case nav_responses fw ! k of
            Awaiting \<Rightarrow> Inl Blocked
          | Rejected \<Rightarrow> Inl NullDereference
          | Accepted \<Rightarrow>
              Inr (if goal_id \<noteq> k then fw
                   else fw\<lparr>current_goal_status := (case code of SUCCEEDED \<Rightarrow> St_SUCCEEDED | ABORTED \<Rightarrow> St_FAILED
                          | CANCELED \<Rightarrow> St_FAILED | UNKNOWN_RESULT \<Rightarrow> St_UNKNOWN)\<rparr>)))"

definition follower_goalResponseCallback :: "bool \<Rightarrow> 'h WaypointFollower \<Rightarrow> 'h WaypointFollower" where
  "follower_goalResponseCallback accepted fw = (if accepted then fw else fw\<lparr>current_goal_status := St_FAILED\<rparr>)"

datatype nav_event = NavGoalResponse nat bool | NavResult nat ResultCode

fun nav_callback :: "nav_event \<Rightarrow> 'h WaypointFollower \<Rightarrow> 'h WaypointFollower res" where
  "nav_callback (NavGoalResponse k accepted) fw = Inr (follower_goalResponseCallback accepted
     (fw\<lparr>nav_responses := (nav_responses fw)[k := (if accepted then Accepted else Rejected)]\<rparr>))"
| "nav_callback (NavResult k code) fw = follower_resultCallback k code fw"

fun nav_spin :: "nav_event list \<Rightarrow> 'h WaypointFollower \<Rightarrow> 'h WaypointFollower res" where
  "nav_spin [] fw = Inr fw"
| "nav_spin (ev # evs) fw = res_bind (nav_callback ev fw) (nav_spin evs)"

section \<open>The callback of the action server\<close>

text \<open>What precedes the loop; true when the callback returns.\<close>

definition follow_enter :: "'h WaypointHandles \<Rightarrow> 'h WaypointFollower \<Rightarrow> (bool \<times> 'h WaypointFollower) res" where
  "follow_enter H fw = with_server fw (\<lambda>s.
     if \<not> server_active s then Inr (True, fw)
     else case get_current_goal H s of
       None \<Rightarrow> Inl NullDereference
     | Some poses \<Rightarrow>
         if poses = [] then res_bind (succeeded_current H [] s) (\<lambda>s'. Inr (True, put_server fw s'))
         else Inr (False, fw\<lparr>in_loop := True, fw_goal := Some poses, goal_index := 0, new_goal := True\<rparr>))"

definition follow_preempt :: "'h WaypointHandles \<Rightarrow> 'h WaypointFollower \<Rightarrow> 'h WaypointFollower res" where
  "follow_preempt H fw = with_server fw (\<lambda>s.
     if preempt_requested s then
       res_bind (accept_pending_goal H [] s) (\<lambda>(goal, s').
         Inr ((put_server fw s')\<lparr>fw_goal := goal, goal_index := 0, new_goal := True\<rparr>))
     else Inr fw)"

definition current_pose :: "'h WaypointFollower \<Rightarrow> PoseStamped res" where
  "current_pose fw =
    (case fw_goal fw of None \<Rightarrow> Inl NullDereference
     | Some poses \<Rightarrow> if unat (goal_index fw) < length poses then Inr (poses ! unat (goal_index fw)) else Inl IndexOutOfRange)"

definition follow_send :: "'h WaypointFollower \<Rightarrow> 'h WaypointFollower res" where
  "follow_send fw =
    (if \<not> new_goal fw then Inr fw
     else res_bind (current_pose fw) (\<lambda>pose.
       if \<not> nav_client fw then Inl NullDereference else
       Inr (fw\<lparr>new_goal := False, nav_goals := nav_goals fw @ [pose], nav_responses := nav_responses fw @ [Awaiting],
              future_goal_handle := Some (length (nav_responses fw)), current_goal_status := St_PROCESSING\<rparr>)))"

text \<open>The current goal ends with the list of missed waypoints.\<close>

definition follow_terminate :: "'h WaypointHandles \<Rightarrow> 'h WaypointFollower \<Rightarrow> 'h WaypointFollower res" where
  "follow_terminate H fw = with_server fw (\<lambda>s.
     res_bind (terminate_current H (failed_ids fw) s) (\<lambda>s'. Inr ((put_server fw s')\<lparr>failed_ids := []\<rparr>)))"

definition push_failed :: "'h WaypointFollower \<Rightarrow> 'h WaypointFollower" where
  "push_failed fw = fw\<lparr>failed_ids := failed_ids fw @ [sint (goal_index fw)]\<rparr>"

text \<open>The outcome of the current waypoint: true when the callback returns.\<close>

definition follow_outcome ::
  "'h WaypointHandles \<Rightarrow> (PoseStamped \<Rightarrow> u32 \<Rightarrow> bool) \<Rightarrow> 'h WaypointFollower \<Rightarrow> (bool \<times> 'h WaypointFollower) res" where
  "follow_outcome H task fw =
    (if current_goal_status fw = St_FAILED then
       (let fw1 = push_failed fw in
        if stop_on_failure fw then res_bind (follow_terminate H fw1) (\<lambda>fw2. Inr (True, fw2)) else Inr (False, fw1))
     else if current_goal_status fw = St_SUCCEEDED then
       (if \<not> task_executor fw then Inl NullDereference
        else res_bind (current_pose fw) (\<lambda>pose.
          if \<not> task pose (goal_index fw) \<and> stop_on_failure fw
          then res_bind (follow_terminate H (push_failed fw)) (\<lambda>fw2. Inr (True, fw2))
          else Inr (False, fw)))
     else Inr (False, fw))"

definition follow_advance :: "'h WaypointHandles \<Rightarrow> 'h WaypointFollower \<Rightarrow> (bool \<times> 'h WaypointFollower) res" where
  "follow_advance H fw =
    (if current_goal_status fw = St_PROCESSING \<or> current_goal_status fw = St_UNKNOWN then Inr (False, fw)
     else
       let fw1 = fw\<lparr>goal_index := goal_index fw + 1, new_goal := True\<rparr> in
       case fw_goal fw1 of None \<Rightarrow> Inl NullDereference
       | Some poses \<Rightarrow>
           if length poses \<le> unat (goal_index fw1) then with_server fw1 (\<lambda>s.
             res_bind (succeeded_current H (failed_ids fw1) s) (\<lambda>s'. Inr (True, (put_server fw1 s')\<lparr>failed_ids := []\<rparr>)))
           else Inr (False, fw1))"

text \<open>A pass of the loop up to the point where it spins.\<close>

definition follow_body ::
  "'h WaypointHandles \<Rightarrow> (PoseStamped \<Rightarrow> u32 \<Rightarrow> bool) \<Rightarrow> 'h WaypointFollower \<Rightarrow> (bool \<times> 'h WaypointFollower) res" where
  "follow_body H task fw =
     res_bind (follow_preempt H fw) (\<lambda>fw1. res_bind (follow_send fw1) (\<lambda>fw2. with_server fw2 (\<lambda>s.
       res_bind (follow_outcome H task (put_server fw2 (publish_feedback H (goal_index fw2) s))) (\<lambda>(returned, fw3).
         if returned then Inr (True, fw3) else follow_advance H fw3))))"

definition follow_cancel :: "'h WaypointHandles \<Rightarrow> nav_event list \<Rightarrow> 'h WaypointFollower \<Rightarrow> 'h WaypointFollower res" where
  "follow_cancel H evs fw =
    (if \<not> nav_client fw then Inl NullDereference
     else res_bind (nav_spin evs (fw\<lparr>nav_cancels := Suc (nav_cancels fw)\<rparr>)) (\<lambda>fw1. with_server fw1 (\<lambda>s.
       res_bind (terminate_all H [] s) (\<lambda>s'. Inr (put_server fw1 s')))))"

definition follow_iteration ::
  "'h WaypointHandles \<Rightarrow> (PoseStamped \<Rightarrow> u32 \<Rightarrow> bool) \<Rightarrow> nav_event list \<Rightarrow> 'h WaypointFollower \<Rightarrow> (bool \<times> 'h WaypointFollower) res" where
  "follow_iteration H task evs fw = with_server fw (\<lambda>s.
     if is_cancel_requested H s then res_bind (follow_cancel H evs fw) (\<lambda>fw1. Inr (True, fw1))
     else res_bind (follow_body H task fw) (\<lambda>(returned, fw1).
       if returned then Inr (True, fw1) else res_bind (nav_spin evs fw1) (\<lambda>fw2. Inr (False, fw2))))"

text \<open>One step of the callback \<open>followWaypoints\<close>.\<close>

definition followWaypoints ::
  "'h WaypointHandles \<Rightarrow> (PoseStamped \<Rightarrow> u32 \<Rightarrow> bool) \<Rightarrow> nav_event list \<Rightarrow> 'h WaypointFollower \<Rightarrow> (bool \<times> 'h WaypointFollower) res" where
  "followWaypoints H task evs fw = (if in_loop fw then follow_iteration H task evs fw else follow_enter H fw)"

section \<open>Parameters at run time\<close>

datatype follower_param = IntParam int | BoolParam bool | OtherParam

text \<open>The result's flag \<open>successful\<close> is the last component.\<close>

fun follower_dynamicParametersCallback :: "(string \<times> follower_param) list \<Rightarrow> 'h WaypointFollower \<Rightarrow> 'h WaypointFollower \<times> bool" where
  "follower_dynamicParametersCallback [] fw = (fw, True)"
| "follower_dynamicParametersCallback ((name, value) # ps) fw =
     follower_dynamicParametersCallback ps
       (case value of
          IntParam n \<Rightarrow> if name = ''loop_rate'' then fw\<lparr>loop_rate := n\<rparr> else fw
        | BoolParam b \<Rightarrow> if name = ''stop_on_failure'' then fw\<lparr>stop_on_failure := b\<rparr> else fw
        | OtherParam \<Rightarrow> fw)"

section \<open>Runs\<close>

text \<open>Requests of clients, and the steps of the worker, one of which is a step of the callback.\<close>

datatype 'h follower_event =
    GoalRequest 'h
  | CancelRequest nat
  | WorkerStep "nav_event list"
  | DeactivateRequest
  | DeactivateWait bool

definition worker_step ::
  "'h WaypointHandles \<Rightarrow> (PoseStamped \<Rightarrow> u32 \<Rightarrow> bool) \<Rightarrow> nav_event list \<Rightarrow> 'h WaypointFollower \<Rightarrow> 'h WaypointFollower res" where
  "worker_step H task evs fw = with_server fw (\<lambda>s.
     case execution_future s of
       LoopHead \<Rightarrow> Inr ((put_server fw (work_head H s))\<lparr>in_loop := False\<rparr>)
     | InCallback \<Rightarrow> res_bind (followWaypoints H task evs fw) (\<lambda>(returned, fw1). with_server fw1 (\<lambda>s1.
         Inr (if returned then put_server fw1 (s1\<lparr>execution_future := AfterCallback\<rparr>) else fw1)))
     | AfterCallback \<Rightarrow> res_bind (work_after H [] s) (\<lambda>s1. Inr (put_server fw s1))
     | Leaving \<Rightarrow> Inr (put_server fw (s\<lparr>execution_future := Finished\<rparr>))
     | _ \<Rightarrow> Inr fw)"

fun follower_step ::
  "'h WaypointHandles \<Rightarrow> (PoseStamped \<Rightarrow> u32 \<Rightarrow> bool) \<Rightarrow> 'h follower_event \<Rightarrow> 'h WaypointFollower \<Rightarrow> 'h WaypointFollower res" where
  "follower_step H task (GoalRequest x) fw = with_server fw (\<lambda>s.
     if handle_goal s then res_bind (handle_accepted H [] x s) (\<lambda>s'. Inr (put_server fw s')) else Inr fw)"
| "follower_step H task (CancelRequest h) fw = with_server fw (\<lambda>s.
     Inr (if h < length (handles s) \<and> handle_cancel H h s
          then put_server fw (set_handle h s (h_cancel_goal H (handles s ! h))) else fw))"
| "follower_step H task (WorkerStep evs) fw = worker_step H task evs fw"
| "follower_step H task DeactivateRequest fw = follower_on_deactivate fw"
| "follower_step H task (DeactivateWait b) fw = with_server fw (\<lambda>s.
     if is_running s \<and> stop_execution s then res_bind (deactivate_wait H [] b s) (\<lambda>s'. Inr (put_server fw s')) else Inr fw)"

fun follower_run ::
  "'h WaypointHandles \<Rightarrow> (PoseStamped \<Rightarrow> u32 \<Rightarrow> bool) \<Rightarrow> 'h follower_event list \<Rightarrow> 'h WaypointFollower \<Rightarrow> 'h WaypointFollower res" where
  "follower_run H task [] fw = Inr fw"
| "follower_run H task (ev # evs) fw = res_bind (follower_step H task ev fw) (follower_run H task evs)"

end
