(* ===== verification/Simple_Action_Server_Theorems.thy ===== *)
theory Simple_Action_Server_Theorems
  imports Simple_Action_Server
begin

text \<open>
  The action server as a transition system: requests of clients, the steps of the worker, whatever
  the callback does in between, and activation, in any interleaving. No accepted goal is forgotten;
  two windows in which a goal is never executed.
\<close>

section \<open>Goal handles\<close>

text \<open>
  What \<open>rclcpp_action\<close> documents of a goal handle: canceling is an active state; an active goal can be
  aborted and can succeed, a canceling one can be canceled, and each of these ends it; feedback changes
  nothing, and a cancel request makes an active goal canceling.
\<close>

definition ends :: "('h, 'g, 'r, 'f) GoalHandles \<Rightarrow> 'h \<Rightarrow> 'h res \<Rightarrow> bool" where
  "ends H x y \<longleftrightarrow> (\<exists>x'. y = Inr x' \<and> \<not> h_is_active H x')"

definition handles_ok :: "('h, 'g, 'r, 'f) GoalHandles \<Rightarrow> bool" where
  "handles_ok H \<longleftrightarrow>
     (\<forall>x. h_is_canceling H x \<longrightarrow> h_is_active H x) \<and>
     (\<forall>x r. h_is_active H x \<longrightarrow> ends H x (h_abort H r x) \<and> ends H x (h_succeed H r x)) \<and>
     (\<forall>x r. h_is_canceling H x \<longrightarrow> ends H x (h_canceled H r x)) \<and>
     (\<forall>x f. h_is_active H (h_publish_feedback H f x) = h_is_active H x \<and>
            h_is_canceling H (h_publish_feedback H f x) = h_is_canceling H x \<and>
            h_get_goal H (h_publish_feedback H f x) = h_get_goal H x) \<and>
     (\<forall>x. h_is_active H x \<longrightarrow> h_is_active H (h_cancel_goal H x) \<and> h_is_canceling H (h_cancel_goal H x) \<and>
            h_get_goal H (h_cancel_goal H x) = h_get_goal H x)"

section \<open>Steps\<close>

inductive server_step ::
  "('h, 'g, 'r, 'f) GoalHandles \<Rightarrow> 'r \<Rightarrow> 'h ActionServer \<Rightarrow> 'h ActionServer \<Rightarrow> bool"
  for H e where
  accept: "handle_goal s \<Longrightarrow> h_is_active H x \<Longrightarrow> handle_accepted H e x s = Inr s' \<Longrightarrow> server_step H e s s'"
| cancel: "h < length (handles s) \<Longrightarrow> handle_cancel H h s \<Longrightarrow>
    server_step H e s (set_handle h s (h_cancel_goal H (handles s ! h)))"
| head: "execution_future s = LoopHead \<Longrightarrow> server_step H e s (work_head H s)"
| call_accept: "execution_future s = InCallback \<Longrightarrow> accept_pending_goal H e s = Inr (g, s') \<Longrightarrow> server_step H e s s'"
| call_terminate: "execution_future s = InCallback \<Longrightarrow> terminate_current H r s = Inr s' \<Longrightarrow> server_step H e s s'"
| call_terminate_all: "execution_future s = InCallback \<Longrightarrow> terminate_all H r s = Inr s' \<Longrightarrow> server_step H e s s'"
| call_terminate_pending: "execution_future s = InCallback \<Longrightarrow> terminate_pending_goal H e s = Inr s' \<Longrightarrow> server_step H e s s'"
| call_succeed: "execution_future s = InCallback \<Longrightarrow> succeeded_current H r s = Inr s' \<Longrightarrow> server_step H e s s'"
| call_feedback: "execution_future s = InCallback \<Longrightarrow> server_step H e s (publish_feedback H f s)"
| call_return: "execution_future s = InCallback \<Longrightarrow> server_step H e s (s\<lparr>execution_future := AfterCallback\<rparr>)"
| call_throw: "execution_future s = InCallback \<Longrightarrow> work_failed H e s = Inr s' \<Longrightarrow> server_step H e s s'"
| after: "execution_future s = AfterCallback \<Longrightarrow> work_after H e s = Inr s' \<Longrightarrow> server_step H e s s'"
| leave: "execution_future s = Leaving \<Longrightarrow> server_step H e s (s\<lparr>execution_future := Finished\<rparr>)"
| activate: "server_step H e s (activate s)"
| deactivate: "server_step H e s (deactivate_request s)"
| deactivate_wait: "is_running s \<Longrightarrow> stop_execution s \<Longrightarrow> deactivate_wait H e b s = Inr s' \<Longrightarrow> server_step H e s s'"

inductive_cases server_stepE: "server_step H e s s'"

section \<open>Invariant\<close>

text \<open>The active goals are exactly the current and the pending one.\<close>

definition server_inv :: "('h, 'g, 'r, 'f) GoalHandles \<Rightarrow> 'h ActionServer \<Rightarrow> bool" where
  "server_inv H s \<longleftrightarrow>
     (\<forall>h. h < length (handles s) \<and> h_is_active H (handles s ! h) \<longleftrightarrow> current_handle s = Some h \<or> pending_handle s = Some h) \<and>
     (current_handle s = None \<or> current_handle s \<noteq> pending_handle s) \<and>
     (preempt_requested s \<longleftrightarrow> pending_handle s \<noteq> None)"

lemma server_invD:
  assumes "server_inv H s"
  shows "current_handle s = Some h \<Longrightarrow> h < length (handles s) \<and> h_is_active H (handles s ! h)"
    "pending_handle s = Some h \<Longrightarrow> h < length (handles s) \<and> h_is_active H (handles s ! h)"
    "current_handle s = Some h \<Longrightarrow> pending_handle s = Some p \<Longrightarrow> h \<noteq> p"
  using assms unfolding server_inv_def by auto

lemma is_active_None [simp]: "\<not> is_active H s None"
  by (simp add: is_active_def)

lemma is_active_inv:
  assumes "server_inv H s"
  shows "is_active H s (current_handle s) \<longleftrightarrow> current_handle s \<noteq> None" "is_active H s (pending_handle s) \<longleftrightarrow> pending_handle s \<noteq> None"
  using server_invD(1,2)[OF assms] by (auto simp: is_active_def split: option.splits)

lemma inv_frame [simp]:
  "server_inv H (s\<lparr>execution_future := w\<rparr>) = server_inv H s"
  "server_inv H (s\<lparr>server_active := a\<rparr>) = server_inv H s"
  "server_inv H (s\<lparr>stop_execution := b\<rparr>) = server_inv H s"
  by (simp_all add: server_inv_def)

text \<open>What an operation on the goals leaves alone.\<close>

definition same_run :: "'h ActionServer \<Rightarrow> 'h ActionServer \<Rightarrow> bool" where
  "same_run s s' \<longleftrightarrow> execution_future s' = execution_future s \<and> server_active s' = server_active s \<and>
     stop_execution s' = stop_execution s \<and> has_completion s' = has_completion s \<and> length (handles s') = length (handles s)"

text \<open>The goals that are still tracked are the same goals.\<close>

definition kept :: "('h, 'g, 'r, 'f) GoalHandles \<Rightarrow> 'h ActionServer \<Rightarrow> 'h ActionServer \<Rightarrow> bool" where
  "kept H s s' \<longleftrightarrow> (\<forall>h. current_handle s' = Some h \<or> pending_handle s' = Some h \<longrightarrow>
     (current_handle s = Some h \<or> pending_handle s = Some h) \<and> h_get_goal H (handles s' ! h) = h_get_goal H (handles s ! h))"

lemma kept_refl [simp]: "kept H s s"
  by (simp add: kept_def)

lemma kept_trans: "kept H s s' \<Longrightarrow> kept H s' s'' \<Longrightarrow> kept H s s''"
  unfolding kept_def by metis

lemma kept_frame [simp]:
  "kept H s (s'\<lparr>execution_future := w\<rparr>) = kept H s s'"
  "kept H s (s'\<lparr>preempt_requested := b\<rparr>) = kept H s s'"
  by (simp_all add: kept_def)

lemma terminate_ends:
  assumes "handles_ok H" "h < length (handles s)" "h_is_active H (handles s ! h)"
  shows "\<exists>x. terminate H r (Some h) s = Inr (None, set_handle h s x) \<and> \<not> h_is_active H x"
proof (cases "h_is_canceling H (handles s ! h)")
  case True
  then obtain x where "h_canceled H r (handles s ! h) = Inr x" "\<not> h_is_active H x"
    using assms(1) unfolding handles_ok_def ends_def by metis
  then show ?thesis using True assms(3) by (intro exI[of _ x]) (simp add: terminate_def)
next
  case False
  obtain x where "h_abort H r (handles s ! h) = Inr x" "\<not> h_is_active H x"
    using assms(1,3) unfolding handles_ok_def ends_def by metis
  then show ?thesis using False assms(3) by (intro exI[of _ x]) (simp add: terminate_def)
qed

lemma active_update:
  "\<not> P x \<Longrightarrow> k < length (xs[h := x]) \<and> P (xs[h := x] ! k) \<longleftrightarrow> k \<noteq> h \<and> k < length xs \<and> P (xs ! k)"
  by (cases "k = h") auto

lemma drop_current:
  assumes "server_inv H s" "current_handle s = Some h" "\<not> h_is_active H x"
  shows "server_inv H ((set_handle h s x)\<lparr>current_handle := None\<rparr>)"
  using assms(1,2) active_update[of "h_is_active H" x, OF assms(3)] unfolding server_inv_def by (auto simp: set_handle_def)

lemma drop_pending:
  assumes "server_inv H s" "pending_handle s = Some h" "\<not> h_is_active H x"
  shows "server_inv H ((set_handle h s x)\<lparr>pending_handle := None, preempt_requested := False\<rparr>)"
  using assms(1,2) active_update[of "h_is_active H" x, OF assms(3)] unfolding server_inv_def by (auto simp: set_handle_def)

lemma terminate_current_ok:
  assumes "handles_ok H" "server_inv H s"
  shows "\<exists>s'. terminate_current H r s = Inr s' \<and> server_inv H s' \<and> same_run s s' \<and> kept H s s' \<and> current_handle s' = None \<and>
    pending_handle s' = pending_handle s"
proof (cases "current_handle s")
  case None
  then show ?thesis using assms(2) by (simp add: terminate_current_def terminate_def same_run_def kept_def server_inv_def)
next
  case (Some h)
  obtain x where "terminate H r (Some h) s = Inr (None, set_handle h s x)" "\<not> h_is_active H x"
    using terminate_ends[OF assms(1)] server_invD(1)[OF assms(2) Some] by metis
  then show ?thesis using drop_current[OF assms(2) Some] Some server_invD(3)[OF assms(2) Some]
    by (auto simp: terminate_current_def same_run_def kept_def set_handle_def)
qed

lemma terminate_pending_ok:
  assumes "handles_ok H" "server_inv H s"
  shows "\<exists>s'. terminate_pending H r s = Inr s' \<and> server_inv H (s'\<lparr>preempt_requested := False\<rparr>) \<and> same_run s s' \<and> kept H s s' \<and>
    current_handle s' = current_handle s \<and> pending_handle s' = None"
proof (cases "pending_handle s")
  case None
  then show ?thesis using assms(2) by (simp add: terminate_pending_def terminate_def same_run_def kept_def server_inv_def)
next
  case (Some h)
  obtain x where "terminate H r (Some h) s = Inr (None, set_handle h s x)" "\<not> h_is_active H x"
    using terminate_ends[OF assms(1)] server_invD(2)[OF assms(2) Some] by metis
  then show ?thesis using drop_pending[OF assms(2) Some] Some server_invD(3)[OF assms(2) _ Some]
    by (auto simp: terminate_pending_def same_run_def kept_def set_handle_def)
qed

lemma terminate_all_ok:
  assumes "handles_ok H" "server_inv H s"
  shows "\<exists>s'. terminate_all H r s = Inr s' \<and> server_inv H s' \<and> same_run s s' \<and> kept H s s' \<and> current_handle s' = None \<and> pending_handle s' = None"
proof -
  obtain s1 where 1: "terminate_current H r s = Inr s1" "server_inv H s1" "same_run s s1" "kept H s s1" "current_handle s1 = None"
    using terminate_current_ok[OF assms] by blast
  obtain s2 where 2: "terminate_pending H r s1 = Inr s2" "server_inv H (s2\<lparr>preempt_requested := False\<rparr>)" "same_run s1 s2" "kept H s1 s2"
      "current_handle s2 = current_handle s1" "pending_handle s2 = None"
    using terminate_pending_ok[OF assms(1) 1(2)] by blast
  show ?thesis using 1 2 kept_trans[OF 1(4) 2(4)] by (simp add: terminate_all_def same_run_def)
qed

lemma accept_pending_ok:
  assumes "handles_ok H" "server_inv H s" "pending_handle s = Some p"
  shows "\<exists>s'. accept_pending_goal H r s = Inr (Some (h_get_goal H (handles s ! p)), s') \<and> server_inv H s' \<and> same_run s s' \<and> kept H s s' \<and>
    current_handle s' = Some p \<and> pending_handle s' = None \<and> handles s' ! p = handles s ! p"
proof -
  have p: "p < length (handles s)" "h_is_active H (handles s ! p)" using server_invD(2)[OF assms(2,3)] by auto
  show ?thesis
  proof (cases "current_handle s")
    case None
    have "server_inv H (s\<lparr>current_handle := Some p, pending_handle := None, preempt_requested := False\<rparr>)"
      using assms(2,3) None by (simp add: server_inv_def)
    then show ?thesis using None assms(3) p by (simp add: accept_pending_goal_def same_run_def kept_def)
  next
    case (Some c)
    have c: "c < length (handles s)" "h_is_active H (handles s ! c)" "c \<noteq> p"
      using server_invD(1)[OF assms(2) Some] server_invD(3)[OF assms(2) Some assms(3)] by auto
    obtain x where x: "h_abort H r (handles s ! c) = Inr x" "\<not> h_is_active H x"
      using assms(1) c(2) unfolding handles_ok_def ends_def by metis
    have "server_inv H ((set_handle c s x)\<lparr>current_handle := None\<rparr>)" by (rule drop_current[OF assms(2) Some x(2)])
    then have "server_inv H ((set_handle c s x)\<lparr>current_handle := Some p, pending_handle := None, preempt_requested := False\<rparr>)"
      using assms(3) by (simp add: server_inv_def set_handle_def)
    then show ?thesis using Some c x(1) assms(3) p by (simp add: accept_pending_goal_def same_run_def kept_def set_handle_def)
  qed
qed

lemma terminate_pending_goal_ok:
  assumes "handles_ok H" "server_inv H s"
  shows "\<exists>s'. terminate_pending_goal H r s = Inr s' \<and> server_inv H s' \<and> same_run s s' \<and> kept H s s' \<and> current_handle s' = current_handle s"
proof (cases "pending_handle s")
  case None
  then show ?thesis using assms(2) by (simp add: terminate_pending_goal_def is_active_def same_run_def)
next
  case (Some h)
  obtain s' where "terminate_pending H r s = Inr s'" "server_inv H (s'\<lparr>preempt_requested := False\<rparr>)" "same_run s s'" "kept H s s'"
      "current_handle s' = current_handle s"
    using terminate_pending_ok[OF assms] by blast
  then show ?thesis using Some is_active_inv(2)[OF assms(2)] by (simp add: terminate_pending_goal_def same_run_def)
qed

lemma succeeded_current_ok:
  assumes "handles_ok H" "server_inv H s"
  shows "\<exists>s'. succeeded_current H r s = Inr s' \<and> server_inv H s' \<and> same_run s s' \<and> kept H s s' \<and> current_handle s' = None \<and>
    pending_handle s' = pending_handle s"
proof (cases "current_handle s")
  case None
  then show ?thesis using assms(2) by (simp add: succeeded_current_def same_run_def)
next
  case (Some h)
  have a: "h_is_active H (handles s ! h)" using server_invD(1)[OF assms(2) Some] by simp
  then obtain x where "h_succeed H r (handles s ! h) = Inr x" "\<not> h_is_active H x"
    using assms(1) unfolding handles_ok_def ends_def by metis
  then show ?thesis using drop_current[OF assms(2) Some] Some a server_invD(3)[OF assms(2) Some]
    by (auto simp: succeeded_current_def same_run_def kept_def set_handle_def)
qed

lemma update_active_ok:
  assumes "server_inv H s" "h_is_active H x = h_is_active H (handles s ! h)"
  shows "server_inv H (set_handle h s x)"
proof -
  have "k < length (handles s) \<and> h_is_active H ((handles s)[h := x] ! k) \<longleftrightarrow> k < length (handles s) \<and> h_is_active H (handles s ! k)" for k
    using assms(2) by (cases "k = h") auto
  then show ?thesis using assms(1) by (simp add: server_inv_def set_handle_def)
qed

lemma publish_feedback_ok: "handles_ok H \<Longrightarrow> server_inv H s \<Longrightarrow> server_inv H (publish_feedback H f s) \<and> same_run s (publish_feedback H f s) \<and> kept H s (publish_feedback H f s) \<and>
    current_handle (publish_feedback H f s) = current_handle s \<and> pending_handle (publish_feedback H f s) = pending_handle s"
  using update_active_ok[of H s] server_invD(1,2)[of H s]
  by (auto simp: publish_feedback_def handles_ok_def same_run_def kept_def set_handle_def nth_list_update split: option.split)

lemma active_append:
  "P x \<Longrightarrow> k < length (xs @ [x]) \<and> P ((xs @ [x]) ! k) \<longleftrightarrow> (k < length xs \<and> P (xs ! k)) \<or> k = length xs"
  by (auto simp: nth_append)

lemma accepted_inv:
  assumes "server_inv H s" "h_is_active H x"
  shows "pending_handle s = None \<Longrightarrow>
      server_inv H (s\<lparr>handles := handles s @ [x], pending_handle := Some (length (handles s)), preempt_requested := True\<rparr>)"
    "current_handle s = None \<Longrightarrow> server_inv H (s\<lparr>handles := handles s @ [x], current_handle := Some (length (handles s))\<rparr>)"
proof -
  have new: "current_handle s \<noteq> Some (length (handles s))" "pending_handle s \<noteq> Some (length (handles s))"
    using server_invD(1,2)[OF assms(1)] by blast+
  show "pending_handle s = None \<Longrightarrow>
      server_inv H (s\<lparr>handles := handles s @ [x], pending_handle := Some (length (handles s)), preempt_requested := True\<rparr>)"
    using assms(1) new active_append[of "h_is_active H" x, OF assms(2)] by (auto simp: server_inv_def)
  show "current_handle s = None \<Longrightarrow> server_inv H (s\<lparr>handles := handles s @ [x], current_handle := Some (length (handles s))\<rparr>)"
    using assms(1) new active_append[of "h_is_active H" x, OF assms(2)] by (auto simp: server_inv_def)
qed

definition kept_or_new :: "('h, 'g, 'r, 'f) GoalHandles \<Rightarrow> 'h \<Rightarrow> 'h ActionServer \<Rightarrow> 'h ActionServer \<Rightarrow> bool" where
  "kept_or_new H x s s' \<longleftrightarrow> (\<forall>h. current_handle s' = Some h \<or> pending_handle s' = Some h \<longrightarrow>
     h = length (handles s) \<and> handles s' ! h = x \<or>
     (current_handle s = Some h \<or> pending_handle s = Some h) \<and> h_get_goal H (handles s' ! h) = h_get_goal H (handles s ! h))"

lemma handle_accepted_ok:
  assumes "handles_ok H" "server_inv H s" "h_is_active H x"
  shows "\<exists>s'. handle_accepted H e x s = Inr s' \<and> server_inv H s' \<and> length (handles s') = Suc (length (handles s)) \<and>
    kept_or_new H x s s' \<and> server_active s' = server_active s \<and> stop_execution s' = stop_execution s \<and>
    (if current_handle s \<noteq> None \<or> is_running s
     then pending_handle s' = Some (length (handles s)) \<and> current_handle s' = current_handle s \<and> execution_future s' = execution_future s
     else current_handle s' = Some (length (handles s)) \<and> pending_handle s' = None \<and> execution_future s' = LoopHead)"
proof -
  obtain s1 where t: "terminate_pending H e s = Inr s1" "server_inv H (s1\<lparr>preempt_requested := False\<rparr>)" "same_run s s1" "kept H s s1"
      "current_handle s1 = current_handle s" "pending_handle s1 = None"
    using terminate_pending_ok[OF assms(1,2)] by blast
  define s2 where "s2 = (if pending_handle s = None then s else s1\<lparr>preempt_requested := False\<rparr>)"
  have s2: "server_inv H s2" "same_run s s2" "current_handle s2 = current_handle s" "pending_handle s2 = None" "kept H s s2"
    using t assms(2) by (simp_all add: s2_def same_run_def)
  have app: "(handles s2 @ [x]) ! h = handles s2 ! h" if "current_handle s2 = Some h" for h
    using server_invD(1)[OF s2(1) that] by (simp add: nth_append)
  have new: "(handles s2 @ [x]) ! length (handles s) = x" using s2(2) by (simp add: same_run_def nth_append)
  note acc = accepted_inv[OF s2(1) assms(3)] is_active_inv[OF assms(2)]
  show ?thesis
  proof (cases "current_handle s \<noteq> None \<or> is_running s")
    case True
    have "handle_accepted H e x s = Inr (s2\<lparr>handles := handles s2 @ [x], pending_handle := Some (length (handles s2)), preempt_requested := True\<rparr>)"
      using True t(1) by (simp add: handle_accepted_def acc(3,4) s2_def)
    then show ?thesis using True acc(1) s2 app new by (simp add: same_run_def kept_def kept_or_new_def)
  next
    case False
    have "handle_accepted H e x s = Inr (s2\<lparr>handles := handles s2 @ [x], current_handle := Some (length (handles s2)), execution_future := LoopHead\<rparr>)"
      using False t(1) by (simp add: handle_accepted_def acc(3,4) s2_def)
    then show ?thesis using False acc(2) s2 new by (simp add: same_run_def kept_or_new_def)
  qed
qed

lemma work_after_ok:
  assumes "handles_ok H" "server_inv H s"
  shows "\<exists>s'. work_after H e s = Inr s' \<and> server_inv H s' \<and> kept H s s' \<and>
    server_active s' = server_active s \<and> stop_execution s' = stop_execution s \<and>
    (execution_future s' = Leaving \<and> current_handle s' = None \<or> execution_future s' = LoopHead \<and> current_handle s' \<noteq> None)"
proof (cases "stop_execution s")
  case True
  then show ?thesis using terminate_all_ok[OF assms, of e] by (auto simp: work_after_def same_run_def)
next
  case False
  obtain s1 where 1: "terminate_current H e s = Inr s1" "server_inv H s1" "current_handle s1 = None" "kept H s s1" "same_run s s1"
    using terminate_current_ok[OF assms] by blast
  define s2 where "s2 = (if current_handle s = None then s else s1)"
  have s2: "server_inv H s2" "current_handle s2 = None" "kept H s s2" "same_run s s2" using 1 assms(2) by (simp_all add: s2_def same_run_def)
  have w: "work_after H e s = (if current_handle s \<noteq> None \<and> \<not> has_completion s2 then Inr (s2\<lparr>execution_future := Leaving\<rparr>)
      else if pending_handle s2 \<noteq> None
      then res_bind (accept_pending_goal H e s2) (\<lambda>(goal, s3). Inr (s3\<lparr>execution_future := LoopHead\<rparr>))
      else Inr (s2\<lparr>execution_future := Leaving\<rparr>))"
    using False 1(1) by (auto simp: work_after_def Let_def is_active_inv[OF assms(2)] is_active_inv[OF 1(2)] s2_def)
  show ?thesis
  proof (cases "pending_handle s2")
    case None
    then show ?thesis using w s2 by (simp add: same_run_def)
  next
    case (Some p)
    then obtain g s3 where a: "accept_pending_goal H e s2 = Inr (g, s3)" "server_inv H s3" "current_handle s3 = Some p" "kept H s2 s3" "same_run s2 s3"
      using accept_pending_ok[OF assms(1) s2(1)] by blast
    then show ?thesis using w s2 Some kept_trans[OF s2(3) a(4)] by (simp add: same_run_def)
  qed
qed

lemma server_step_inv:
  assumes "handles_ok H" "server_step H e s s'" "server_inv H s"
  shows "server_inv H s'"
  using assms(2,3)
proof (cases rule: server_step.cases)
  case (accept x)
  then show ?thesis using handle_accepted_ok[OF assms(1,3), of x e] by auto
next
  case (cancel h)
  then show ?thesis using update_active_ok[OF assms(3)] assms(1) by (simp add: handle_cancel_def handles_ok_def)
next
  case (call_accept g)
  then show ?thesis using accept_pending_ok[OF assms(1,3), of _ e] assms(3)
    by (cases "pending_handle s") (auto simp: accept_pending_goal_def)
next
  case (call_terminate r)
  then show ?thesis using terminate_current_ok[OF assms(1,3), of r] by auto
next
  case (call_terminate_all r)
  then show ?thesis using terminate_all_ok[OF assms(1,3), of r] by auto
next
  case call_terminate_pending
  then show ?thesis using terminate_pending_goal_ok[OF assms(1,3), of e] by auto
next
  case (call_succeed r)
  then show ?thesis using succeeded_current_ok[OF assms(1,3), of r] by auto
next
  case (call_feedback f)
  then show ?thesis using publish_feedback_ok[OF assms(1,3)] by simp
next
  case call_throw
  then show ?thesis using terminate_all_ok[OF assms(1,3), of e] by (auto simp: work_failed_def)
next
  case after
  then show ?thesis using work_after_ok[OF assms(1,3), of e] by auto
next
  case (deactivate_wait b)
  then show ?thesis using terminate_all_ok[OF assms(1,3), of e] assms(3) by (auto simp: deactivate_wait_def split: if_splits)
qed (use assms(3) in \<open>simp_all add: work_head_def activate_def deactivate_request_def\<close>)

lemma reachable_inv:
  assumes "handles_ok H" "(server_step H e)\<^sup>*\<^sup>* s s'" "server_inv H s"
  shows "server_inv H s'"
  using assms(2,3) by (induction rule: rtranclp_induct) (auto intro: server_step_inv[OF assms(1)])

lemma initial_inv: "server_inv H (SimpleActionServer c)"
  by (simp add: server_inv_def SimpleActionServer_def)

section \<open>A server that never runs a goal again\<close>

definition wedged :: "'h ActionServer \<Rightarrow> bool" where
  "wedged s \<longleftrightarrow> current_handle s \<noteq> None \<and> execution_future s = Finished"

lemma wedged_step:
  assumes "handles_ok H" "server_step H e s s'" "server_inv H s" "wedged s"
  shows "wedged s'"
  using assms(2,4)
proof (cases rule: server_step.cases)
  case (accept x)
  then show ?thesis using handle_accepted_ok[OF assms(1,3), of x e] assms(4) by (auto simp: wedged_def split: if_splits)
qed (auto simp: wedged_def set_handle_def activate_def deactivate_request_def is_running_def)

lemma wedged_forever:
  assumes "handles_ok H" "(server_step H e)\<^sup>*\<^sup>* s s'" "server_inv H s" "wedged s"
  shows "wedged s'"
  using assms(2,4)
proof (induction rule: rtranclp_induct)
  case (step s1 s2)
  then show ?case using wedged_step[OF assms(1) step.hyps(2) reachable_inv[OF assms(1) step.hyps(1) assms(3)]] by blast
qed simp

section \<open>Samples\<close>

datatype sample_state = Executing | Canceling | Ended

definition sample_handles :: "(sample_state \<times> nat, nat, unit, unit) GoalHandles" where
  "sample_handles = \<lparr>h_is_active = (\<lambda>(st, g). st \<noteq> Ended), h_is_canceling = (\<lambda>(st, g). st = Canceling), h_get_goal = snd,
     h_cancel_goal = (\<lambda>(st, g). (Canceling, g)), h_abort = (\<lambda>r (st, g). if st = Ended then Inl (Thrown ''state'') else Inr (Ended, g)),
     h_canceled = (\<lambda>r (st, g). if st = Canceling then Inr (Ended, g) else Inl (Thrown ''state'')),
     h_succeed = (\<lambda>r (st, g). if st = Ended then Inl (Thrown ''state'') else Inr (Ended, g)), h_publish_feedback = (\<lambda>f x. x)\<rparr>"

lemma sample_handles_ok: "handles_ok sample_handles"
  by (auto simp: handles_ok_def ends_def sample_handles_def)

definition sample_server :: "(sample_state \<times> nat) ActionServer" where
  "sample_server = \<lparr>handles = [(Executing, 7)], current_handle = Some 0, pending_handle = None, preempt_requested = False,
     server_active = True, stop_execution = False, has_completion = False, execution_future = LoopHead\<rparr>"

lemma sample_server_reachable: "(server_step sample_handles ())\<^sup>*\<^sup>* (SimpleActionServer False) sample_server"
proof -
  have "server_step sample_handles () (SimpleActionServer False) (activate (SimpleActionServer False))" by (rule server_step.activate)
  moreover have "server_step sample_handles () (activate (SimpleActionServer False)) sample_server"
    by (rule server_step.accept[where x = "(Executing, 7)"])
      (simp_all add: handle_goal_def activate_def sample_handles_def handle_accepted_def SimpleActionServer_def is_running_def sample_server_def)
  ultimately show ?thesis by (meson converse_rtranclp_into_rtranclp r_into_rtranclp)
qed

section \<open>Properties\<close>

text \<open>
  C11: whatever clients, the callback and the worker do in whatever interleaving, the goals that are active
  are exactly the current and the pending one: no accepted goal is forgotten while a client waits for
  its result, a preemption is requested exactly while a goal is pending, and no operation asks a goal
  handle for a transition that it refuses.
\<close>

theorem server_goals_tracked:
  assumes "handles_ok H" "(server_step H e)\<^sup>*\<^sup>* (SimpleActionServer c) s"
  shows "(\<forall>h. h < length (handles s) \<and> h_is_active H (handles s ! h) \<longleftrightarrow> current_handle s = Some h \<or> pending_handle s = Some h) \<and>
    (preempt_requested s \<longleftrightarrow> pending_handle s \<noteq> None) \<and>
    is_ok (terminate_all H r s) \<and> is_ok (succeeded_current H r s) \<and> is_ok (work_after H e s) \<and>
    is_ok (accept_pending_goal H e s) \<and> (h_is_active H x \<longrightarrow> is_ok (handle_accepted H e x s))"
proof -
  have inv: "server_inv H s" by (rule reachable_inv[OF assms initial_inv])
  have "is_ok (accept_pending_goal H e s)"
    using accept_pending_ok[OF assms(1) inv, of _ e] by (cases "pending_handle s") (auto simp: accept_pending_goal_def)
  moreover have "is_ok (terminate_all H r s)" "is_ok (succeeded_current H r s)" "is_ok (work_after H e s)"
    using terminate_all_ok[OF assms(1) inv, of r] succeeded_current_ok[OF assms(1) inv, of r] work_after_ok[OF assms(1) inv, of e] by auto
  moreover have "h_is_active H x \<longrightarrow> is_ok (handle_accepted H e x s)"
    using handle_accepted_ok[OF assms(1) inv, of x e] by auto
  ultimately show ?thesis using inv by (simp add: server_inv_def)
qed

theorem server_goals_tracked_witness: "is_ok (work_after sample_handles () sample_server) \<and> \<not> preempt_requested sample_server"
  using server_goals_tracked[OF sample_handles_ok sample_server_reachable, of "()" "(Executing, 1)"] by (simp add: sample_server_def)

text \<open>
  C39: a stop request that arrives between the acceptance of a goal and the first look of the worker at it
  wedges the server: the worker leaves, the goal stays current and active, and from then on, whatever
  happens, activation included, goals are accepted and none is ever executed.
\<close>

theorem stop_wedges_server:
  assumes "handles_ok H" "server_inv H s" "execution_future s = LoopHead" "current_handle s \<noteq> None" "stop_execution s"
  shows "\<exists>s1. (server_step H e)\<^sup>*\<^sup>* s s1 \<and> server_active s1 \<and>
    (\<forall>s2. (server_step H e)\<^sup>*\<^sup>* s1 s2 \<longrightarrow> execution_future s2 = Finished \<and> current_handle s2 \<noteq> None \<and> server_inv H s2)"
proof -
  let ?s1 = "activate (s\<lparr>execution_future := Finished\<rparr>)"
  have "server_step H e s (s\<lparr>execution_future := Leaving\<rparr>)"
    using server_step.head[OF assms(3), of H e] assms(5) by (simp add: work_head_def)
  moreover have "server_step H e (s\<lparr>execution_future := Leaving\<rparr>) (s\<lparr>execution_future := Finished\<rparr>)"
    using server_step.leave[of "s\<lparr>execution_future := Leaving\<rparr>" H e] by simp
  moreover have "server_step H e (s\<lparr>execution_future := Finished\<rparr>) ?s1" by (rule server_step.activate)
  ultimately have r: "(server_step H e)\<^sup>*\<^sup>* s ?s1" by (meson converse_rtranclp_into_rtranclp r_into_rtranclp)
  have w: "wedged ?s1" using assms(4) by (simp add: wedged_def activate_def)
  have "execution_future s2 = Finished \<and> current_handle s2 \<noteq> None \<and> server_inv H s2" if "(server_step H e)\<^sup>*\<^sup>* ?s1 s2" for s2
    using wedged_forever[OF assms(1) that reachable_inv[OF assms(1) r assms(2)] w]
      reachable_inv[OF assms(1) that reachable_inv[OF assms(1) r assms(2)]] by (simp add: wedged_def)
  then show ?thesis using r by (intro exI[of _ ?s1]) (simp add: activate_def)
qed

theorem stop_wedges_server_witness:
  "\<exists>s1. (server_step sample_handles ())\<^sup>*\<^sup>* (deactivate_request sample_server) s1 \<and> server_active s1 \<and>
    (\<forall>s2. (server_step sample_handles ())\<^sup>*\<^sup>* s1 s2 \<longrightarrow> execution_future s2 = Finished)"
proof -
  have "server_inv sample_handles (deactivate_request sample_server)"
    using reachable_inv[OF sample_handles_ok sample_server_reachable initial_inv] by (simp add: deactivate_request_def)
  then show ?thesis using stop_wedges_server[OF sample_handles_ok, of "deactivate_request sample_server" "()"]
    by (auto simp: deactivate_request_def sample_server_def)
qed

text \<open>
  A goal that is accepted after the worker has made its last check, but before its future is ready, is
  lost: it becomes pending, the worker ends without looking at it, and the next goal that is accepted
  ends it and runs in its place.
\<close>

lemma late_goal_lost:
  assumes "handles_ok H" "server_inv H s" "execution_future s = Leaving" "current_handle s = None" "h_is_active H x" "h_is_active H y"
  shows "\<exists>s1 s2. handle_accepted H e x s = Inr s1 \<and> pending_handle s1 = Some (length (handles s)) \<and>
    handle_accepted H e y (s1\<lparr>execution_future := Finished\<rparr>) = Inr s2 \<and> current_handle s2 = Some (Suc (length (handles s))) \<and>
    pending_handle s2 = None \<and> \<not> h_is_active H (handles s2 ! length (handles s))"
proof -
  obtain s1 where 1: "handle_accepted H e x s = Inr s1" "server_inv H s1" "length (handles s1) = Suc (length (handles s))"
      "pending_handle s1 = Some (length (handles s))" "current_handle s1 = None" "execution_future s1 = Leaving"
    using handle_accepted_ok[OF assms(1,2,5), of e] assms(3,4) by (auto simp: is_running_def)
  obtain s2 where 2: "handle_accepted H e y (s1\<lparr>execution_future := Finished\<rparr>) = Inr s2" "server_inv H s2"
      "length (handles s2) = Suc (Suc (length (handles s)))" "current_handle s2 = Some (Suc (length (handles s)))" "pending_handle s2 = None"
    using handle_accepted_ok[OF assms(1) _ assms(6), of "s1\<lparr>execution_future := Finished\<rparr>" e] 1 by (auto simp: is_running_def)
  have "\<not> h_is_active H (handles s2 ! length (handles s))" using 2(2-5) unfolding server_inv_def
    by (metis Suc_n_not_le_n less_Suc_eq option.distinct(1) option.inject order_refl)
  then show ?thesis using 1 2 by blast
qed

end
