(* ===== verification/Waypoint_Follower_Theorems.thy ===== *)
theory Waypoint_Follower_Theorems
  imports Waypoint_Follower Simple_Action_Server_Theorems
begin

text \<open>
  The waypoint follower on its action server: runs without a fault, visits every waypoint of a goal in order
  and reports the missed ones; and the cases in which it does not.
\<close>

section \<open>Invariant\<close>

definition goal_ok :: "PoseStamped list \<Rightarrow> bool" where
  "goal_ok poses \<longleftrightarrow> poses \<noteq> [] \<and> length poses < 2 ^ 31"

definition loop_ok :: "'h WaypointFollower \<Rightarrow> bool" where
  "loop_ok fw \<longleftrightarrow> (\<exists>poses. fw_goal fw = Some poses \<and> goal_ok poses \<and> unat (goal_index fw) < length poses)"

definition tracked_goals_ok :: "'h WaypointHandles \<Rightarrow> 'h ActionServer \<Rightarrow> bool" where
  "tracked_goals_ok H s \<longleftrightarrow>
     (\<forall>h. current_handle s = Some h \<or> pending_handle s = Some h \<longrightarrow> goal_ok (h_get_goal H (handles s ! h)))"

definition server_part :: "'h WaypointHandles \<Rightarrow> 'h ActionServer \<Rightarrow> bool" where
  "server_part H s \<longleftrightarrow> server_inv H s \<and> tracked_goals_ok H s \<and> (stop_execution s \<longrightarrow> \<not> server_active s)"

definition follower_inv :: "'h WaypointHandles \<Rightarrow> 'h WaypointFollower \<Rightarrow> bool" where
  "follower_inv H fw \<longleftrightarrow> nav_client fw \<and> task_executor fw \<and> (\<exists>s. action_server fw = Some s \<and> server_part H s \<and>
     (execution_future s = InCallback \<longrightarrow> (if in_loop fw then loop_ok fw else current_handle s \<noteq> None \<or> \<not> server_active s)))"

lemma tracked_kept: "tracked_goals_ok H s \<Longrightarrow> kept H s s' \<Longrightarrow> tracked_goals_ok H s'"
  unfolding tracked_goals_ok_def kept_def by metis

lemma tracked_frame [simp]: "tracked_goals_ok H (s\<lparr>execution_future := w\<rparr>) = tracked_goals_ok H s"
  by (simp add: tracked_goals_ok_def)

lemma server_part_kept:
  "server_part H s \<Longrightarrow> server_inv H s' \<Longrightarrow> same_run s s' \<Longrightarrow> kept H s s' \<Longrightarrow> server_part H s'"
  by (auto simp: server_part_def same_run_def intro: tracked_kept)

lemma with_server_Some [simp]: "action_server fw = Some s \<Longrightarrow> with_server fw f = f s"
  by (simp add: with_server_def)

lemma put_server_simps [simp]:
  "action_server (put_server fw s) = Some s" "nav_client (put_server fw s) = nav_client fw"
  "nav_goals (put_server fw s) = nav_goals fw" "nav_responses (put_server fw s) = nav_responses fw"
  "future_goal_handle (put_server fw s) = future_goal_handle fw" "stop_on_failure (put_server fw s) = stop_on_failure fw"
  "current_goal_status (put_server fw s) = current_goal_status fw" "failed_ids (put_server fw s) = failed_ids fw"
  "task_executor (put_server fw s) = task_executor fw" "in_loop (put_server fw s) = in_loop fw"
  "fw_goal (put_server fw s) = fw_goal fw" "goal_index (put_server fw s) = goal_index fw" "new_goal (put_server fw s) = new_goal fw"
  "put_server (put_server fw s) s' = put_server fw s'" "nav_cancels (put_server fw s) = nav_cancels fw"
  by (simp_all add: put_server_def)

lemma put_server_same [simp]: "action_server fw = Some s \<Longrightarrow> put_server fw s = fw"
  by (simp add: put_server_def)

section \<open>Callbacks of the client\<close>

text \<open>
  A result is handled only after the response to the latest goal, and that response was positive.
\<close>

definition latest_accepted :: "'h WaypointFollower \<Rightarrow> bool" where
  "latest_accepted fw \<longleftrightarrow> (\<exists>k. future_goal_handle fw = Some k \<and> nav_responses fw ! k = Accepted)"

fun nav_orderly :: "nav_event list \<Rightarrow> 'h WaypointFollower \<Rightarrow> bool" where
  "nav_orderly [] fw = True"
| "nav_orderly (NavGoalResponse k ok # evs) fw =
     (\<forall>fw'. nav_callback (NavGoalResponse k ok) fw = Inr fw' \<longrightarrow> nav_orderly evs fw')"
| "nav_orderly (NavResult k code # evs) fw =
     (latest_accepted fw \<and> (\<forall>fw'. nav_callback (NavResult k code) fw = Inr fw' \<longrightarrow> nav_orderly evs fw'))"

text \<open>The callbacks touch the responses and the status only.\<close>

definition same_loop :: "'h WaypointFollower \<Rightarrow> 'h WaypointFollower \<Rightarrow> bool" where
  "same_loop fw fw' \<longleftrightarrow> action_server fw' = action_server fw \<and> nav_client fw' = nav_client fw \<and> task_executor fw' = task_executor fw \<and>
     in_loop fw' = in_loop fw \<and> fw_goal fw' = fw_goal fw \<and> goal_index fw' = goal_index fw \<and> failed_ids fw' = failed_ids fw \<and>
     nav_goals fw' = nav_goals fw \<and> stop_on_failure fw' = stop_on_failure fw \<and> new_goal fw' = new_goal fw \<and>
     future_goal_handle fw' = future_goal_handle fw \<and> length (nav_responses fw') = length (nav_responses fw)"

lemma nav_spin_ok: "nav_orderly evs fw \<Longrightarrow> \<exists>fw'. nav_spin evs fw = Inr fw' \<and> same_loop fw fw'"
proof (induction evs arbitrary: fw)
  case Nil
  then show ?case by (simp add: same_loop_def)
next
  case (Cons ev evs)
  have "\<exists>fw1. nav_callback ev fw = Inr fw1 \<and> same_loop fw fw1"
    using Cons.prems
    by (cases ev) (auto simp: follower_goalResponseCallback_def follower_resultCallback_def latest_accepted_def same_loop_def)
  then obtain fw1 where 1: "nav_callback ev fw = Inr fw1" "same_loop fw fw1" by blast
  then obtain fw2 where "nav_spin evs fw1 = Inr fw2" "same_loop fw1 fw2" using Cons by (cases ev) auto
  then show ?case using 1 by (simp add: same_loop_def)
qed

section \<open>Passes of the loop\<close>

text \<open>The follower invariant without the position of the worker.\<close>

definition loop_part :: "'h WaypointHandles \<Rightarrow> 'h WaypointFollower \<Rightarrow> bool" where
  "loop_part H fw \<longleftrightarrow> nav_client fw \<and> task_executor fw \<and> in_loop fw \<and> loop_ok fw \<and>
     (\<exists>s. action_server fw = Some s \<and> server_part H s \<and> execution_future s = InCallback)"

text \<open>What a step of the callback leaves: when it returns, a sound server; otherwise the loop goes on.\<close>

definition callback_ok :: "'h WaypointHandles \<Rightarrow> bool \<times> 'h WaypointFollower \<Rightarrow> bool" where
  "callback_ok H = (\<lambda>(returned, fw). nav_client fw \<and> task_executor fw \<and>
     (\<exists>s. action_server fw = Some s \<and> server_part H s \<and> execution_future s = InCallback) \<and> (returned \<or> in_loop fw \<and> loop_ok fw))"

lemma loop_part_cases:
  assumes "loop_part H fw"
  obtains s poses where "action_server fw = Some s" "server_part H s" "execution_future s = InCallback" "nav_client fw" "task_executor fw"
    "in_loop fw" "fw_goal fw = Some poses" "goal_ok poses" "unat (goal_index fw) < length poses" "server_inv H s" "tracked_goals_ok H s"
  using assms by (auto simp: loop_part_def loop_ok_def server_part_def)

lemma follow_preempt_ok:
  assumes "handles_ok H" "loop_part H fw"
  shows "\<exists>fw'. follow_preempt H fw = Inr fw' \<and> loop_part H fw'"
proof -
  obtain s where s: "action_server fw = Some s" "server_part H s" "execution_future s = InCallback" "server_inv H s" "tracked_goals_ok H s"
    using assms(2) by (rule loop_part_cases)
  show ?thesis
  proof (cases "pending_handle s")
    case None
    then show ?thesis using s assms(2) by (simp add: follow_preempt_def server_inv_def)
  next
    case (Some p)
    obtain s' where a: "accept_pending_goal H [] s = Inr (Some (h_get_goal H (handles s ! p)), s')" "server_inv H s'" "same_run s s'" "kept H s s'"
      using accept_pending_ok[OF assms(1) s(4) Some] by blast
    have g: "goal_ok (h_get_goal H (handles s ! p))" using s(5) Some by (simp add: tracked_goals_ok_def)
    have "server_part H s'" by (rule server_part_kept[OF s(2) a(2-4)])
    then show ?thesis using s(1,3,4) Some a g assms(2)
      by (auto simp: follow_preempt_def server_inv_def[of H s] loop_part_def loop_ok_def same_run_def goal_ok_def)
  qed
qed

lemma follow_send_ok:
  assumes "loop_part H fw"
  shows "\<exists>fw'. follow_send fw = Inr fw' \<and> loop_part H fw' \<and> action_server fw' = action_server fw"
  using assms by (auto simp: follow_send_def current_pose_def loop_part_def loop_ok_def)

lemma feedback_loop_part:
  assumes "handles_ok H" "loop_part H fw" "action_server fw = Some s"
  shows "loop_part H (put_server fw (publish_feedback H f s))"
proof -
  have s: "server_part H s" "execution_future s = InCallback" "server_inv H s" using assms(2,3) by (auto elim: loop_part_cases)
  have "server_part H (publish_feedback H f s)"
    using publish_feedback_ok[OF assms(1) s(3), of f] server_part_kept[OF s(1)] by blast
  then show ?thesis using publish_feedback_ok[OF assms(1) s(3), of f] assms(2,3) s(2) by (auto simp: loop_part_def loop_ok_def same_run_def)
qed

lemma follow_terminate_ok:
  assumes "handles_ok H" "loop_part H fw"
  shows "\<exists>fw'. follow_terminate H fw = Inr fw' \<and> callback_ok H (True, fw')"
proof -
  obtain s where s: "action_server fw = Some s" "server_part H s" "execution_future s = InCallback" "server_inv H s" "nav_client fw" "task_executor fw"
    using assms(2) by (rule loop_part_cases)
  obtain s' where t: "terminate_current H (failed_ids fw) s = Inr s'" "server_inv H s'" "same_run s s'" "kept H s s'"
    using terminate_current_ok[OF assms(1) s(4)] by blast
  have "server_part H s'" by (rule server_part_kept[OF s(2) t(2-4)])
  then show ?thesis using s t(1,3) by (simp add: follow_terminate_def callback_ok_def same_run_def)
qed

lemma loop_part_callback: "loop_part H fw \<Longrightarrow> callback_ok H (b, fw)"
  by (auto simp: loop_part_def callback_ok_def)

lemma push_failed_loop_part: "loop_part H fw \<Longrightarrow> loop_part H (push_failed fw)"
  by (simp add: loop_part_def loop_ok_def push_failed_def)

lemma follow_outcome_ok:
  assumes "handles_ok H" "loop_part H fw"
  shows "\<exists>returned fw'. follow_outcome H task fw = Inr (returned, fw') \<and> callback_ok H (returned, fw') \<and> (returned \<or> loop_part H fw')"
proof -
  obtain fw1 where t: "follow_terminate H (push_failed fw) = Inr fw1" "callback_ok H (True, fw1)"
    using follow_terminate_ok[OF assms(1) push_failed_loop_part[OF assms(2)]] by blast
  have "task_executor fw" "\<exists>pose. current_pose fw = Inr pose" using assms(2) by (auto simp: loop_part_def loop_ok_def current_pose_def)
  then show ?thesis using t assms(2) push_failed_loop_part[OF assms(2)] loop_part_callback
    by (auto simp: follow_outcome_def Let_def)
qed

lemma index_step: "unat (i :: u32) < n \<Longrightarrow> n < 2 ^ 31 \<Longrightarrow> unat (i + 1) = Suc (unat i)"
  using unat_add_lem[of i 1] by simp

lemma follow_advance_ok:
  assumes "handles_ok H" "loop_part H fw"
  shows "\<exists>r. follow_advance H fw = Inr r \<and> callback_ok H r"
proof -
  obtain s poses where s: "action_server fw = Some s" "server_part H s" "execution_future s = InCallback" "server_inv H s" "nav_client fw"
      "task_executor fw" "in_loop fw" "fw_goal fw = Some poses" "goal_ok poses"
    using assms(2) by (rule loop_part_cases)
  obtain s' where t: "succeeded_current H (failed_ids fw) s = Inr s'" "server_inv H s'" "same_run s s'" "kept H s s'"
    using succeeded_current_ok[OF assms(1) s(4)] by blast
  have "server_part H s'" by (rule server_part_kept[OF s(2) t(2-4)])
  then show ?thesis using s t(1,3) loop_part_callback[OF assms(2)]
    by (auto simp: follow_advance_def Let_def callback_ok_def same_run_def loop_ok_def)
qed

lemma follow_body_ok:
  assumes "handles_ok H" "loop_part H fw"
  shows "\<exists>r. follow_body H task fw = Inr r \<and> callback_ok H r"
proof -
  obtain fw1 where 1: "follow_preempt H fw = Inr fw1" "loop_part H fw1" using follow_preempt_ok[OF assms] by blast
  obtain fw2 where 2: "follow_send fw1 = Inr fw2" "loop_part H fw2" using follow_send_ok[OF 1(2)] by blast
  obtain s where s: "action_server fw2 = Some s" using 2(2) by (auto elim: loop_part_cases)
  obtain returned fw3 where 3: "follow_outcome H task (put_server fw2 (publish_feedback H (goal_index fw2) s)) = Inr (returned, fw3)"
      "callback_ok H (returned, fw3)" "returned \<or> loop_part H fw3"
    using follow_outcome_ok[OF assms(1) feedback_loop_part[OF assms(1) 2(2) s]] by blast
  then show ?thesis using 1 2 s follow_advance_ok[OF assms(1), of fw3] by (cases returned) (auto simp: follow_body_def)
qed

section \<open>Runs\<close>

text \<open>Goals have waypoints, and the client's callbacks arrive in order.\<close>

fun event_orderly ::
  "'h WaypointHandles \<Rightarrow> (PoseStamped \<Rightarrow> u32 \<Rightarrow> bool) \<Rightarrow> 'h follower_event \<Rightarrow> 'h WaypointFollower \<Rightarrow> bool" where
  "event_orderly H task (GoalRequest x) fw = (h_is_active H x \<and> goal_ok (h_get_goal H x))"
| "event_orderly H task (WorkerStep evs) fw =
    (if is_cancel_requested H (the (action_server fw)) then nav_orderly evs (fw\<lparr>nav_cancels := Suc (nav_cancels fw)\<rparr>)
     else (\<forall>fw1. follow_body H task fw = Inr (False, fw1) \<longrightarrow> nav_orderly evs fw1))"
| "event_orderly H task ev fw = True"

fun run_orderly ::
  "'h WaypointHandles \<Rightarrow> (PoseStamped \<Rightarrow> u32 \<Rightarrow> bool) \<Rightarrow> 'h follower_event list \<Rightarrow> 'h WaypointFollower \<Rightarrow> bool" where
  "run_orderly H task [] fw = True"
| "run_orderly H task (ev # evs) fw =
     (event_orderly H task ev fw \<and> (\<forall>fw'. follower_step H task ev fw = Inr fw' \<longrightarrow> run_orderly H task evs fw'))"

lemma run_orderlyI: "(\<And>ev fw. ev \<in> set evs \<Longrightarrow> event_orderly H task ev fw) \<Longrightarrow> run_orderly H task evs fw"
  by (induction evs arbitrary: fw) simp_all

lemma same_loop_callback: "callback_ok H (b, fw) \<Longrightarrow> same_loop fw fw' \<Longrightarrow> callback_ok H (b, fw')"
  by (auto simp: callback_ok_def same_loop_def loop_ok_def)

lemma follow_iteration_ok:
  assumes "handles_ok H" "loop_part H fw" "event_orderly H task (WorkerStep evs) fw"
  shows "\<exists>r. follow_iteration H task evs fw = Inr r \<and> callback_ok H r"
proof -
  obtain s where s: "action_server fw = Some s" "server_part H s" "execution_future s = InCallback" "server_inv H s" "nav_client fw" "task_executor fw"
    using assms(2) by (rule loop_part_cases)
  show ?thesis
  proof (cases "is_cancel_requested H s")
    case True
    then obtain fw1 where 1: "nav_spin evs (fw\<lparr>nav_cancels := Suc (nav_cancels fw)\<rparr>) = Inr fw1"
        "same_loop (fw\<lparr>nav_cancels := Suc (nav_cancels fw)\<rparr>) fw1"
      using nav_spin_ok assms(3) s(1) by fastforce
    obtain s' where t: "terminate_all H [] s = Inr s'" "server_inv H s'" "same_run s s'" "kept H s s'"
      using terminate_all_ok[OF assms(1) s(4)] by blast
    have "server_part H s'" by (rule server_part_kept[OF s(2) t(2-4)])
    then show ?thesis using True 1 s t(1,3)
      by (simp add: follow_iteration_def follow_cancel_def callback_ok_def same_loop_def same_run_def)
  next
    case False
    obtain b fw1 where 1: "follow_body H task fw = Inr (b, fw1)" "callback_ok H (b, fw1)"
      using follow_body_ok[OF assms(1,2), of task] by fastforce
    show ?thesis
    proof (cases b)
      case True
      then show ?thesis using 1 False s(1) by (simp add: follow_iteration_def)
    next
      case b: False
      then obtain fw2 where 2: "nav_spin evs fw1 = Inr fw2" "same_loop fw1 fw2"
        using nav_spin_ok[of evs fw1] assms(3) 1(1) False s(1) by auto
      then show ?thesis using 1 False b s(1) same_loop_callback[OF 1(2) 2(2)] by (simp add: follow_iteration_def)
    qed
  qed
qed

lemma followWaypoints_ok:
  assumes "handles_ok H" "follower_inv H fw" "action_server fw = Some s" "execution_future s = InCallback"
    "event_orderly H task (WorkerStep evs) fw"
  shows "\<exists>r. followWaypoints H task evs fw = Inr r \<and> callback_ok H r"
proof (cases "in_loop fw")
  case True
  then have "loop_part H fw" using assms(2-4) by (auto simp: follower_inv_def loop_part_def)
  then show ?thesis using True follow_iteration_ok[OF assms(1) _ assms(5)] by (simp add: followWaypoints_def)
next
  case False
  have s: "server_part H s" "server_inv H s" "nav_client fw" "task_executor fw" "current_handle s \<noteq> None \<or> \<not> server_active s" "tracked_goals_ok H s"
    using assms(2-4) False by (auto simp: follower_inv_def server_part_def)
  show ?thesis
  proof (cases "server_active s")
    case True
    then obtain h where h: "current_handle s = Some h" using s(5) by blast
    then have "get_current_goal H s = Some (h_get_goal H (handles s ! h))" "goal_ok (h_get_goal H (handles s ! h))"
      using server_invD(1)[OF s(2) h] s(6) by (simp_all add: get_current_goal_def tracked_goals_ok_def)
    then show ?thesis using False True s assms(3,4)
      by (simp add: followWaypoints_def follow_enter_def callback_ok_def loop_ok_def goal_ok_def)
  qed (use False s assms(3,4) in \<open>simp add: followWaypoints_def follow_enter_def callback_ok_def\<close>)
qed

lemma callback_follower_inv:
  assumes "callback_ok H (b, fw)" "action_server fw = Some s"
  shows "follower_inv H (if b then put_server fw (s\<lparr>execution_future := AfterCallback\<rparr>) else fw)"
  using assms by (auto simp: callback_ok_def follower_inv_def server_part_def)

lemma server_update_inv:
  assumes "follower_inv H fw" "server_part H s'" "execution_future s' \<noteq> InCallback"
  shows "follower_inv H (put_server fw s')"
  using assms by (auto simp: follower_inv_def)

lemma worker_step_ok:
  assumes "handles_ok H" "follower_inv H fw" "event_orderly H task (WorkerStep evs) fw"
  shows "\<exists>fw'. worker_step H task evs fw = Inr fw' \<and> follower_inv H fw'"
proof -
  obtain s where s: "action_server fw = Some s" "server_part H s" "server_inv H s" "tracked_goals_ok H s" "stop_execution s \<longrightarrow> \<not> server_active s"
    using assms(2) by (auto simp: follower_inv_def server_part_def)
  show ?thesis
  proof (cases "execution_future s")
    case LoopHead
    have "server_part H (work_head H s)" using s(3-5) by (simp add: server_part_def work_head_def)
    moreover have "execution_future (work_head H s) = InCallback \<longrightarrow> current_handle (work_head H s) \<noteq> None"
      using is_active_inv(1)[OF s(3)] by (simp add: work_head_def)
    moreover have "nav_client fw" "task_executor fw" using assms(2) by (simp_all add: follower_inv_def)
    ultimately show ?thesis using LoopHead s(1) by (simp add: worker_step_def follower_inv_def)
  next
    case InCallback
    obtain b fw1 where r: "followWaypoints H task evs fw = Inr (b, fw1)" "callback_ok H (b, fw1)"
      using followWaypoints_ok[OF assms(1,2) s(1) InCallback assms(3)] by fastforce
    then obtain s1 where s1: "action_server fw1 = Some s1" by (auto simp: callback_ok_def)
    show ?thesis using r s(1) s1 InCallback callback_follower_inv[OF r(2) s1] by (simp add: worker_step_def)
  next
    case AfterCallback
    obtain s1 where w: "work_after H [] s = Inr s1" "server_inv H s1" "kept H s s1" "execution_future s1 \<noteq> InCallback"
        "stop_execution s1 = stop_execution s \<and> server_active s1 = server_active s"
      using work_after_ok[OF assms(1) s(3), of "[]"] by auto
    have "server_part H s1" using w s(4,5) tracked_kept[OF s(4) w(3)] by (simp add: server_part_def)
    then show ?thesis using w s(1) AfterCallback server_update_inv[OF assms(2)] by (simp add: worker_step_def)
  next
    case Leaving
    have "server_part H (s\<lparr>execution_future := Finished\<rparr>)" using s by (simp add: server_part_def)
    then show ?thesis using Leaving s(1) server_update_inv[OF assms(2)] by (simp add: worker_step_def)
  qed (use s(1) assms(2) in \<open>simp_all add: worker_step_def\<close>)
qed

lemma follower_step_ok:
  assumes "handles_ok H" "follower_inv H fw" "event_orderly H task ev fw"
  shows "\<exists>fw'. follower_step H task ev fw = Inr fw' \<and> follower_inv H fw'"
proof -
  obtain s where s: "action_server fw = Some s" "server_part H s" "server_inv H s" "tracked_goals_ok H s" "stop_execution s \<longrightarrow> \<not> server_active s"
    using assms(2) by (auto simp: follower_inv_def server_part_def)
  show ?thesis
  proof (cases ev)
    case (GoalRequest x)
    then have x: "h_is_active H x" "goal_ok (h_get_goal H x)" using assms(3) by simp_all
    obtain s' where a: "handle_accepted H [] x s = Inr s'" "server_inv H s'" "server_active s' = server_active s" "stop_execution s' = stop_execution s"
        "kept_or_new H x s s'"
        "if current_handle s \<noteq> None \<or> is_running s
         then pending_handle s' = Some (length (handles s)) \<and> current_handle s' = current_handle s \<and> execution_future s' = execution_future s
         else current_handle s' = Some (length (handles s)) \<and> pending_handle s' = None \<and> execution_future s' = LoopHead"
      using handle_accepted_ok[OF assms(1) s(3) x(1), of "[]"] by blast
    from a(6) have "execution_future s' = InCallback \<longrightarrow> execution_future s = InCallback \<and> current_handle s' = current_handle s"
      by (auto split: if_splits)
    moreover have "tracked_goals_ok H s'" using a(5) s(4) x(2) unfolding tracked_goals_ok_def kept_or_new_def by metis
    moreover note a(2-4)
    ultimately have "follower_inv H (put_server fw s')"
      using s assms(2) by (auto simp: follower_inv_def server_part_def loop_ok_def)
    then show ?thesis using GoalRequest s(1) a(1) assms(2) by simp
  next
    case (CancelRequest h)
    let ?s' = "set_handle h s (h_cancel_goal H (handles s ! h))"
    have "follower_inv H (put_server fw ?s')" if "h < length (handles s)" "handle_cancel H h s"
    proof -
      have "server_inv H ?s'" using update_active_ok[OF s(3)] that assms(1) by (simp add: handle_cancel_def handles_ok_def)
      moreover have "kept H s ?s'" using that assms(1) by (auto simp: kept_def set_handle_def handle_cancel_def handles_ok_def nth_list_update)
      ultimately have "server_part H ?s'" using server_part_kept[OF s(2)] by (simp add: same_run_def set_handle_def)
      then show ?thesis using assms(2) s(1) by (auto simp: follower_inv_def set_handle_def loop_ok_def)
    qed
    then show ?thesis using CancelRequest s(1) assms(2) by simp
  next
    case (WorkerStep evs)
    then show ?thesis using worker_step_ok[OF assms(1,2)] assms(3) by simp
  next
    case DeactivateRequest
    have "server_part H (deactivate_request s)" using s by (simp add: server_part_def deactivate_request_def tracked_goals_ok_def)
    then show ?thesis using DeactivateRequest s(1) assms(2)
      by (auto simp: follower_on_deactivate_def follower_inv_def deactivate_request_def loop_ok_def)
  next
    case (DeactivateWait b)
    obtain s' where t: "terminate_all H [] s = Inr s'" "server_inv H s'" "same_run s s'" "kept H s s'"
      using terminate_all_ok[OF assms(1) s(3)] by blast
    have p: "server_part H s'" by (rule server_part_kept[OF s(2) t(2-4)])
    have "follower_inv H (put_server fw s')" if "stop_execution s"
      using p t(3) assms(2) s(1,5) that by (auto simp: follower_inv_def same_run_def loop_ok_def)
    then show ?thesis using DeactivateWait s(1) t(1) assms(2)
      by (auto simp: deactivate_wait_def)
  qed
qed

lemma follower_run_ok:
  assumes "handles_ok H" "follower_inv H fw" "run_orderly H task evs fw"
  shows "\<exists>fw'. follower_run H task evs fw = Inr fw' \<and> follower_inv H fw'"
  using assms(2,3)
proof (induction evs arbitrary: fw)
  case (Cons ev evs)
  then obtain fw1 where "follower_step H task ev fw = Inr fw1" "follower_inv H fw1"
    using follower_step_ok[OF assms(1)] by (metis run_orderly.simps(2))
  then show ?case using Cons by simp
qed simp

section \<open>Following a goal\<close>

text \<open>The worker is in the callback for goal \<open>h\<close>, and no other request has arrived.\<close>

definition driving :: "'h WaypointHandles \<Rightarrow> nat \<Rightarrow> 'h ActionServer \<Rightarrow> bool" where
  "driving H h s \<longleftrightarrow> server_inv H s \<and> current_handle s = Some h \<and> pending_handle s = None \<and> execution_future s = InCallback \<and>
     \<not> h_is_canceling H (handles s ! h)"

definition only_handle :: "nat \<Rightarrow> 'h ActionServer \<Rightarrow> 'h ActionServer \<Rightarrow> bool" where
  "only_handle h s s' \<longleftrightarrow> length (handles s') = length (handles s) \<and> (\<forall>k. k \<noteq> h \<longrightarrow> handles s' ! k = handles s ! k) \<and>
     server_active s' = server_active s \<and> stop_execution s' = stop_execution s"

lemma only_handle_trans: "only_handle h s s' \<Longrightarrow> only_handle h s' s'' \<Longrightarrow> only_handle h s s''"
  by (simp add: only_handle_def)

lemma drivingD:
  assumes "driving H h s"
  shows "server_inv H s" "\<not> is_cancel_requested H s" "\<not> preempt_requested s" "execution_future s = InCallback"
    "h < length (handles s)" "h_is_active H (handles s ! h)" "current_handle s = Some h"
  using assms server_invD(1)[of H s h] by (auto simp: driving_def is_cancel_requested_def server_inv_def)

lemma driving_feedback:
  assumes "handles_ok H" "driving H h s"
  shows "driving H h (publish_feedback H f s)" "only_handle h s (publish_feedback H f s)"
proof -
  note d = drivingD[OF assms(2)]
  have p: "publish_feedback H f s = set_handle h s (h_publish_feedback H f (handles s ! h))"
    using d by (simp add: publish_feedback_def)
  have "server_inv H (publish_feedback H f s)" using publish_feedback_ok[OF assms(1) d(1)] by blast
  then show "driving H h (publish_feedback H f s)"
    using assms d by (auto simp: p driving_def set_handle_def handles_ok_def)
  show "only_handle h s (publish_feedback H f s)" by (simp add: p only_handle_def set_handle_def)
qed

definition at_waypoint ::
  "'h WaypointHandles \<Rightarrow> nat \<Rightarrow> PoseStamped list \<Rightarrow> nat \<Rightarrow> int list \<Rightarrow> PoseStamped list \<Rightarrow> 'h WaypointFollower \<Rightarrow> bool" where
  "at_waypoint H h poses i fs gs fw \<longleftrightarrow> (\<exists>s. action_server fw = Some s \<and> driving H h s) \<and> in_loop fw \<and> fw_goal fw = Some poses \<and>
     unat (goal_index fw) = i \<and> i < length poses \<and> goal_ok poses \<and> failed_ids fw = fs \<and> nav_goals fw = gs \<and> nav_client fw \<and> task_executor fw \<and>
     \<not> stop_on_failure fw"

definition under_way :: "nat \<Rightarrow> 'h WaypointFollower \<Rightarrow> bool" where
  "under_way n fw \<longleftrightarrow> \<not> new_goal fw \<and> current_goal_status fw = St_PROCESSING \<and> future_goal_handle fw = Some n \<and>
     length (nav_responses fw) = Suc n \<and> nav_responses fw ! n = Accepted"

lemma nav_callback_same:
  assumes "nav_callback ev fw = Inr fw'"
  shows "same_loop fw fw'"
proof (cases ev)
  case (NavGoalResponse k accepted)
  then have "fw' = follower_goalResponseCallback accepted (fw\<lparr>nav_responses := (nav_responses fw)[k := (if accepted then Accepted else Rejected)]\<rparr>)"
    using assms by simp
  then show ?thesis by (cases accepted) (simp_all add: follower_goalResponseCallback_def same_loop_def)
next
  case (NavResult k code)
  then have "fw' = fw \<or> (\<exists>st. fw' = fw\<lparr>current_goal_status := st\<rparr>)"
    using assms by (auto simp: follower_resultCallback_def split: option.splits NavResponse.splits if_splits)
  then show ?thesis by (elim disjE exE) (simp_all add: same_loop_def)
qed

lemma nav_spin_same: "nav_spin evs fw = Inr fw' \<Longrightarrow> same_loop fw fw'"
proof (induction evs arbitrary: fw)
  case (Cons ev evs)
  then obtain fw1 where 1: "nav_callback ev fw = Inr fw1" "nav_spin evs fw1 = Inr fw'" by (auto simp: res_iff)
  show ?case using nav_callback_same[OF 1(1)] Cons.IH[OF 1(2)] by (simp add: same_loop_def)
qed (simp add: same_loop_def)

text \<open>A step of the worker in the callback, when the body of the loop goes on and when it returns.\<close>

lemma worker_pass:
  assumes "action_server fw = Some s" "driving H h s" "in_loop fw" "follow_body H task fw = Inr (False, fw1)" "action_server fw1 \<noteq> None"
  shows "worker_step H task evs fw = nav_spin evs fw1"
proof (cases "nav_spin evs fw1")
  case (Inl e)
  then show ?thesis using assms drivingD[OF assms(2)] by (simp add: worker_step_def followWaypoints_def follow_iteration_def)
next
  case (Inr fw2)
  then obtain s2 where "action_server fw2 = Some s2" using nav_spin_same[OF Inr] assms(5) by (auto simp: same_loop_def)
  then show ?thesis using Inr assms drivingD[OF assms(2)] by (simp add: worker_step_def followWaypoints_def follow_iteration_def)
qed

lemma worker_return:
  assumes "action_server fw = Some s" "driving H h s" "in_loop fw" "follow_body H task fw = Inr (True, fw1)" "action_server fw1 = Some s1"
  shows "worker_step H task evs fw = Inr (put_server fw1 (s1\<lparr>execution_future := AfterCallback\<rparr>))"
  using assms drivingD[OF assms(2)] by (simp add: worker_step_def followWaypoints_def follow_iteration_def)

lemma at_waypointD:
  assumes "at_waypoint H h poses i fs gs fw" "action_server fw = Some s"
  shows "driving H h s" "in_loop fw" "fw_goal fw = Some poses" "unat (goal_index fw) = i" "i < length poses" "goal_ok poses" "failed_ids fw = fs"
    "nav_goals fw = gs" "nav_client fw" "task_executor fw" "\<not> stop_on_failure fw"
  using assms by (auto simp: at_waypoint_def)

lemma pass_waiting:
  assumes "handles_ok H" "at_waypoint H h poses i fs gs fw" "under_way n fw" "action_server fw = Some s"
  shows "\<exists>s1. worker_step H task evs fw = nav_spin evs (put_server fw s1) \<and> driving H h s1 \<and> only_handle h s s1"
proof -
  note d = at_waypointD[OF assms(2,4)]
  let ?s1 = "publish_feedback H (goal_index fw) s"
  have "follow_body H task fw = Inr (False, put_server fw ?s1)"
    using assms(3,4) drivingD(3)[OF d(1)]
    by (simp add: follow_body_def follow_preempt_def follow_send_def follow_outcome_def follow_advance_def under_way_def)
  then have "worker_step H task evs fw = nav_spin evs (put_server fw ?s1)" by (rule worker_pass[OF assms(4) d(1,2)]) simp
  then show ?thesis using driving_feedback[OF assms(1) d(1)] by blast
qed

lemma pass_sends:
  assumes "handles_ok H" "at_waypoint H h poses i fs gs fw" "new_goal fw" "action_server fw = Some s" "length (nav_responses fw) = n"
  shows "\<exists>fw1 s1. worker_step H task [NavGoalResponse n True] fw = Inr fw1 \<and> action_server fw1 = Some s1 \<and> only_handle h s s1 \<and>
    at_waypoint H h poses i fs (gs @ [poses ! i]) fw1 \<and> under_way n fw1"
proof -
  note d = at_waypointD[OF assms(2,4)]
  let ?s1 = "publish_feedback H (goal_index fw) s"
  let ?fw1 = "put_server (fw\<lparr>new_goal := False, nav_goals := nav_goals fw @ [poses ! i], nav_responses := nav_responses fw @ [Awaiting],
              future_goal_handle := Some n, current_goal_status := St_PROCESSING\<rparr>) ?s1"
  have "follow_body H task fw = Inr (False, ?fw1)"
    using assms(3-5) d drivingD(3)[OF d(1)]
    by (simp add: follow_body_def follow_preempt_def follow_send_def follow_outcome_def follow_advance_def current_pose_def)
  then have "worker_step H task [NavGoalResponse n True] fw = nav_spin [NavGoalResponse n True] ?fw1"
    by (rule worker_pass[OF assms(4) d(1,2)]) simp
  then show ?thesis using driving_feedback[OF assms(1) d(1), of "goal_index fw"] d assms(5)
    by (auto simp: follower_goalResponseCallback_def at_waypoint_def under_way_def nth_append put_server_def)
qed

lemma waiting_passes:
  assumes "handles_ok H" "at_waypoint H h poses i fs gs fw" "under_way n fw" "action_server fw = Some s"
  shows "\<exists>fw1 s1. follower_run H task (replicate w (WorkerStep [])) fw = Inr fw1 \<and> action_server fw1 = Some s1 \<and> only_handle h s s1 \<and>
    at_waypoint H h poses i fs gs fw1 \<and> under_way n fw1"
  using assms(2-4)
proof (induction w arbitrary: fw s)
  case 0
  then show ?case by (simp add: only_handle_def)
next
  case (Suc w)
  obtain s1 where 1: "worker_step H task [] fw = Inr (put_server fw s1)" "driving H h s1" "only_handle h s s1"
    using pass_waiting[OF assms(1) Suc.prems, of task "[]"] by auto
  have "at_waypoint H h poses i fs gs (put_server fw s1)" "under_way n (put_server fw s1)"
    using Suc.prems(1,2) 1(2) by (auto simp: at_waypoint_def under_way_def)
  from Suc.IH[OF this, of s1] show ?case using 1 only_handle_trans[OF 1(3)] by fastforce
qed

lemma pass_result:
  assumes "handles_ok H" "at_waypoint H h poses i fs gs fw" "under_way n fw" "action_server fw = Some s" "c \<noteq> UNKNOWN_RESULT"
  shows "\<exists>fw1 s1. worker_step H task [NavResult n c] fw = Inr fw1 \<and> action_server fw1 = Some s1 \<and> only_handle h s s1 \<and>
    at_waypoint H h poses i fs gs fw1 \<and> \<not> new_goal fw1 \<and> length (nav_responses fw1) = Suc n \<and>
    current_goal_status fw1 = (if c = SUCCEEDED then St_SUCCEEDED else St_FAILED)"
proof -
  obtain s1 where 1: "worker_step H task [NavResult n c] fw = nav_spin [NavResult n c] (put_server fw s1)" "driving H h s1" "only_handle h s s1"
    using pass_waiting[OF assms(1-4)] by blast
  then show ?thesis using assms(2,3,5)
    by (cases c) (auto simp: follower_resultCallback_def under_way_def at_waypoint_def)
qed

lemma sint_index:
  assumes "unat (w :: u32) < n" "n < 2 ^ 31"
  shows "sint w = int (unat w)"
proof -
  have "int (unat w) < int n" "int n < int (2 ^ 31)" using assms by (simp_all only: of_nat_less_iff)
  then have "uint w < 2 ^ 31" by simp
  then have "signed_take_bit 31 (uint w) = uint w" using uint_ge_0[of w] by (intro signed_take_bit_int_eq_self) linarith+
  then show ?thesis by (simp add: sint_uint)
qed

definition missed_at :: "ActionStatus \<Rightarrow> nat \<Rightarrow> int list" where
  "missed_at st i = (if st = St_FAILED then [int i] else [])"

text \<open>The pass that handles an outcome, before it looks whether waypoints are left.\<close>

lemma pass_outcome:
  assumes "handles_ok H" "at_waypoint H h poses i fs gs fw" "\<not> new_goal fw" "action_server fw = Some s" "current_goal_status fw \<in> {St_SUCCEEDED, St_FAILED}"
  shows "\<exists>fw1 s1. follow_body H task fw = follow_advance H fw1 \<and> action_server fw1 = Some s1 \<and> only_handle h s s1 \<and>
    at_waypoint H h poses i (fs @ missed_at (current_goal_status fw) i) gs fw1 \<and> current_goal_status fw1 = current_goal_status fw \<and>
    nav_responses fw1 = nav_responses fw"
proof -
  note d = at_waypointD[OF assms(2,4)] and f = driving_feedback[OF assms(1) at_waypointD(1)[OF assms(2,4)], of "goal_index fw"]
  let ?s1 = "publish_feedback H (goal_index fw) s"
  let ?fw1 = "if current_goal_status fw = St_FAILED then push_failed (put_server fw ?s1) else put_server fw ?s1"
  have "sint (goal_index fw) = int i" using sint_index[of "goal_index fw" "length poses"] d(4-6) by (simp add: goal_ok_def)
  moreover have "follow_body H task fw = follow_advance H ?fw1"
    using assms(3-5) d drivingD(3)[OF d(1)]
    by (auto simp: follow_body_def follow_preempt_def follow_send_def follow_outcome_def current_pose_def push_failed_def put_server_def Let_def)
  ultimately show ?thesis using f d assms(5)
    by (intro exI[of _ ?fw1] exI[of _ ?s1]) (auto simp: at_waypoint_def push_failed_def missed_at_def put_server_def)
qed

lemma pass_advances:
  assumes "handles_ok H" "at_waypoint H h poses i fs gs fw" "\<not> new_goal fw" "action_server fw = Some s"
    "current_goal_status fw \<in> {St_SUCCEEDED, St_FAILED}" "Suc i < length poses"
  shows "\<exists>fw1 s1. worker_step H task [] fw = Inr fw1 \<and> action_server fw1 = Some s1 \<and> only_handle h s s1 \<and> new_goal fw1 \<and>
    at_waypoint H h poses (Suc i) (fs @ missed_at (current_goal_status fw) i) gs fw1 \<and> nav_responses fw1 = nav_responses fw"
proof -
  obtain fw1 s1 where 1: "follow_body H task fw = follow_advance H fw1" "action_server fw1 = Some s1" "only_handle h s s1"
      "at_waypoint H h poses i (fs @ missed_at (current_goal_status fw) i) gs fw1" "current_goal_status fw1 = current_goal_status fw"
      "nav_responses fw1 = nav_responses fw"
    using pass_outcome[OF assms(1-5)] by blast
  note d = at_waypointD[OF assms(2,4)] and e = at_waypointD[OF 1(4,2)]
  let ?fw2 = "fw1\<lparr>goal_index := goal_index fw1 + 1, new_goal := True\<rparr>"
  have u: "unat (goal_index fw1 + 1) = Suc i" using index_step[of "goal_index fw1" "length poses"] e(4-6) by (simp add: goal_ok_def)
  have "follow_body H task fw = Inr (False, ?fw2)"
    using 1(1,2,5) assms(5,6) e(3) u by (auto simp: follow_advance_def Let_def)
  then have "worker_step H task [] fw = Inr ?fw2" using worker_pass[OF assms(4) d(1,2)] 1(2) by fastforce
  then show ?thesis using 1(2,3,6) u e assms(6) by (auto simp: at_waypoint_def)
qed

text \<open>The goal has ended successfully with the list of missed waypoints, and the callback has returned.\<close>

definition goal_done ::
  "'h WaypointHandles \<Rightarrow> nat \<Rightarrow> int list \<Rightarrow> PoseStamped list \<Rightarrow> 'h ActionServer \<Rightarrow> 'h WaypointFollower \<Rightarrow> bool" where
  "goal_done H h missed gs s fw \<longleftrightarrow> (\<exists>s1 x. action_server fw = Some s1 \<and> only_handle h s s1 \<and> server_inv H s1 \<and> current_handle s1 = None \<and>
     pending_handle s1 = None \<and> execution_future s1 = AfterCallback \<and> h_succeed H missed x = Inr (handles s1 ! h)) \<and>
     failed_ids fw = [] \<and> nav_goals fw = gs \<and> nav_client fw \<and> task_executor fw"

lemma goal_done_mono: "goal_done H h m gs s1 fw \<Longrightarrow> only_handle h s s1 \<Longrightarrow> goal_done H h m gs s fw"
  unfolding goal_done_def using only_handle_trans by blast

lemma pass_completes:
  assumes "handles_ok H" "at_waypoint H h poses i fs gs fw" "\<not> new_goal fw" "action_server fw = Some s"
    "current_goal_status fw \<in> {St_SUCCEEDED, St_FAILED}" "Suc i = length poses"
  shows "\<exists>fw1. worker_step H task [] fw = Inr fw1 \<and> goal_done H h (fs @ missed_at (current_goal_status fw) i) gs s fw1"
proof -
  obtain fw1 s1 where 1: "follow_body H task fw = follow_advance H fw1" "action_server fw1 = Some s1" "only_handle h s s1"
      "at_waypoint H h poses i (fs @ missed_at (current_goal_status fw) i) gs fw1" "current_goal_status fw1 = current_goal_status fw"
    using pass_outcome[OF assms(1-5)] by blast
  note d = at_waypointD[OF assms(2,4)] and e = at_waypointD[OF 1(4,2)]
  note dr = drivingD[OF e(1)]
  have u: "unat (goal_index fw1 + 1) = Suc i" using index_step[of "goal_index fw1" "length poses"] e(4-6) by (simp add: goal_ok_def)
  obtain y where y: "h_succeed H (failed_ids fw1) (handles s1 ! h) = Inr y" "\<not> h_is_active H y"
    using assms(1) dr(6) unfolding handles_ok_def ends_def by metis
  let ?s2 = "(set_handle h s1 y)\<lparr>current_handle := None\<rparr>"
  let ?fw2 = "(put_server (fw1\<lparr>goal_index := goal_index fw1 + 1, new_goal := True\<rparr>) ?s2)\<lparr>failed_ids := []\<rparr>"
  have "follow_body H task fw = Inr (True, ?fw2)"
    using 1(1,2,5) assms(5,6) e(3) u y(1) dr(6,7) by (auto simp: follow_advance_def Let_def succeeded_current_def)
  then have "worker_step H task [] fw = Inr (put_server ?fw2 (?s2\<lparr>execution_future := AfterCallback\<rparr>))"
    by (rule worker_return[OF assms(4) d(1,2)]) simp
  moreover have "goal_done H h (fs @ missed_at (current_goal_status fw) i) gs s (put_server ?fw2 (?s2\<lparr>execution_future := AfterCallback\<rparr>))"
    using drop_current[OF dr(1,7) y(2)] y(1) dr(5) 1(3) e e(1)[unfolded driving_def]
    by (auto simp: goal_done_def only_handle_def set_handle_def)
  ultimately show ?thesis by blast
qed

text \<open>
  What happens while a goal is followed: for each waypoint the client accepts the goal, \<open>w\<close> passes go by, the
  result arrives, and the next pass handles it.
\<close>

fun goal_events :: "nat \<Rightarrow> (nat \<times> ResultCode) list \<Rightarrow> 'h follower_event list" where
  "goal_events n [] = []"
| "goal_events n ((w, c) # cs) =
     WorkerStep [NavGoalResponse n True] # replicate w (WorkerStep []) @ [WorkerStep [NavResult n c], WorkerStep []] @ goal_events (Suc n) cs"

fun missed :: "nat \<Rightarrow> (nat \<times> ResultCode) list \<Rightarrow> int list" where
  "missed i [] = []"
| "missed i ((w, c) # cs) = (if c = SUCCEEDED then [] else [int i]) @ missed (Suc i) cs"

lemma follower_run_append: "follower_run H task (as @ bs) fw = res_bind (follower_run H task as fw) (follower_run H task bs)"
proof (induction as arbitrary: fw)
  case (Cons a as)
  then show ?case by (cases "follower_step H task a fw") simp_all
qed simp

text \<open>One waypoint, up to the pass that handles its outcome.\<close>

lemma one_waypoint:
  assumes "handles_ok H" "at_waypoint H h poses i fs gs fw" "new_goal fw" "action_server fw = Some s" "length (nav_responses fw) = n" "c \<noteq> UNKNOWN_RESULT"
  shows "\<exists>fw1 s1. follower_run H task (WorkerStep [NavGoalResponse n True] # replicate w (WorkerStep []) @ WorkerStep [NavResult n c] # evs) fw =
      follower_run H task evs fw1 \<and> action_server fw1 = Some s1 \<and> only_handle h s s1 \<and>
    at_waypoint H h poses i fs (gs @ [poses ! i]) fw1 \<and> \<not> new_goal fw1 \<and> length (nav_responses fw1) = Suc n \<and>
    current_goal_status fw1 = (if c = SUCCEEDED then St_SUCCEEDED else St_FAILED)"
proof -
  obtain fw1 s1 where 1: "worker_step H task [NavGoalResponse n True] fw = Inr fw1" "action_server fw1 = Some s1" "only_handle h s s1"
      "at_waypoint H h poses i fs (gs @ [poses ! i]) fw1" "under_way n fw1"
    using pass_sends[OF assms(1-5)] by blast
  obtain fw2 s2 where 2: "follower_run H task (replicate w (WorkerStep [])) fw1 = Inr fw2" "action_server fw2 = Some s2" "only_handle h s1 s2"
      "at_waypoint H h poses i fs (gs @ [poses ! i]) fw2" "under_way n fw2"
    using waiting_passes[OF assms(1) 1(4,5,2)] by blast
  obtain fw3 s3 where 3: "worker_step H task [NavResult n c] fw2 = Inr fw3" "action_server fw3 = Some s3" "only_handle h s2 s3"
      "at_waypoint H h poses i fs (gs @ [poses ! i]) fw3" "\<not> new_goal fw3" "length (nav_responses fw3) = Suc n"
      "current_goal_status fw3 = (if c = SUCCEEDED then St_SUCCEEDED else St_FAILED)"
    using pass_result[OF assms(1) 2(4,5,2) assms(6)] by blast
  show ?thesis using 1(1) 2(1) 3 only_handle_trans[OF 1(3) only_handle_trans[OF 2(3) 3(3)]]
    by (intro exI[of _ fw3] exI[of _ s3]) (simp add: follower_run_append)
qed

lemma follow_rest:
  assumes "handles_ok H" "at_waypoint H h poses i fs gs fw" "new_goal fw" "action_server fw = Some s" "length (nav_responses fw) = n"
    "i + length cs = length poses" "\<forall>(w, c) \<in> set cs. c \<noteq> UNKNOWN_RESULT"
  shows "\<exists>fw'. follower_run H task (goal_events n cs) fw = Inr fw' \<and> goal_done H h (fs @ missed i cs) (gs @ drop i poses) s fw'"
  using assms(2-)
proof (induction cs arbitrary: i fs gs fw s n)
  case Nil
  then show ?case using at_waypointD(5)[OF Nil.prems(1,3)] by simp
next
  case (Cons wc cs)
  obtain w c where wc: "wc = (w, c)" by fastforce
  have cok: "c \<noteq> UNKNOWN_RESULT" using Cons.prems(6) wc by simp
  have i: "i < length poses" using Cons.prems(5) by simp
  obtain fw1 s1 where 1: "follower_run H task (goal_events n ((w, c) # cs)) fw = follower_run H task (WorkerStep [] # goal_events (Suc n) cs) fw1"
      "action_server fw1 = Some s1" "only_handle h s s1" "at_waypoint H h poses i fs (gs @ [poses ! i]) fw1" "\<not> new_goal fw1"
      "length (nav_responses fw1) = Suc n" "current_goal_status fw1 = (if c = SUCCEEDED then St_SUCCEEDED else St_FAILED)"
    using one_waypoint[OF assms(1) Cons.prems(1-4) cok, of task w "WorkerStep [] # goal_events (Suc n) cs"] by auto
  have st: "current_goal_status fw1 \<in> {St_SUCCEEDED, St_FAILED}" "missed_at (current_goal_status fw1) i = (if c = SUCCEEDED then [] else [int i])"
    using 1(7) by (simp_all add: missed_at_def)
  show ?case
  proof (cases "cs = []")
    case True
    then have "Suc i = length poses" using Cons.prems(5) by simp
    then obtain fw2 where "worker_step H task [] fw1 = Inr fw2" "goal_done H h (fs @ missed_at (current_goal_status fw1) i) (gs @ [poses ! i]) s1 fw2"
      using pass_completes[OF assms(1) 1(4,5,2) st(1)] by blast
    then show ?thesis using 1(1) True st(2) wc Cons_nth_drop_Suc[OF i] goal_done_mono[OF _ 1(3)] \<open>Suc i = length poses\<close> by simp
  next
    case False
    then have "Suc i < length poses" using Cons.prems(5) by (cases cs) simp_all
    then obtain fw2 s2 where 2: "worker_step H task [] fw1 = Inr fw2" "action_server fw2 = Some s2" "only_handle h s1 s2" "new_goal fw2"
        "at_waypoint H h poses (Suc i) (fs @ (if c = SUCCEEDED then [] else [int i])) (gs @ [poses ! i]) fw2" "nav_responses fw2 = nav_responses fw1"
      using pass_advances[OF assms(1) 1(4,5,2) st(1)] unfolding st(2) by blast
    obtain fw' where "follower_run H task (goal_events (Suc n) cs) fw2 = Inr fw'"
        "goal_done H h ((fs @ (if c = SUCCEEDED then [] else [int i])) @ missed (Suc i) cs) ((gs @ [poses ! i]) @ drop (Suc i) poses) s2 fw'"
      using Cons.IH[OF 2(5,4,2), of "Suc n"] 1(6) 2(6) Cons.prems(5,6) by auto
    then show ?thesis using 1(1) 2(1) wc Cons_nth_drop_Suc[OF i] goal_done_mono[OF _ only_handle_trans[OF 1(3) 2(3)]] by simp
  qed
qed

section \<open>A goal from its acceptance to its end\<close>

definition idle_server :: "'h WaypointHandles \<Rightarrow> 'h ActionServer \<Rightarrow> bool" where
  "idle_server H s \<longleftrightarrow> server_inv H s \<and> server_active s \<and> \<not> stop_execution s \<and> current_handle s = None \<and> pending_handle s = None \<and> \<not> is_running s"

lemma goal_starts:
  assumes "handles_ok H" "action_server fw = Some s" "idle_server H s" "h_is_active H x" "\<not> h_is_canceling H x" "goal_ok (h_get_goal H x)"
    "nav_client fw" "task_executor fw" "\<not> stop_on_failure fw"
  shows "\<exists>fw1 s1. follower_run H task (GoalRequest x # WorkerStep [] # WorkerStep [] # evs) fw = follower_run H task evs fw1 \<and>
    action_server fw1 = Some s1 \<and> handles s1 = handles s @ [x] \<and> server_active s1 \<and> \<not> stop_execution s1 \<and> new_goal fw1 \<and>
    nav_responses fw1 = nav_responses fw \<and>
    at_waypoint H (length (handles s)) (h_get_goal H x) 0 (failed_ids fw) (nav_goals fw) fw1"
proof -
  have i: "server_inv H s" "server_active s" "\<not> stop_execution s" "current_handle s = None" "pending_handle s = None" "\<not> is_running s"
    using assms(3) by (simp_all add: idle_server_def)
  let ?s1 = "s\<lparr>handles := handles s @ [x], current_handle := Some (length (handles s)), execution_future := InCallback\<rparr>"
  have inv: "server_inv H ?s1" using accepted_inv(2)[OF i(1) assms(4) i(4)] by simp
  let ?fw1 = "(put_server fw ?s1)\<lparr>in_loop := True, fw_goal := Some (h_get_goal H x), goal_index := 0, new_goal := True\<rparr>"
  have "follower_run H task (GoalRequest x # WorkerStep [] # WorkerStep [] # evs) fw = follower_run H task evs ?fw1"
    using assms(2,4,6) i(2-6)
    by (simp add: handle_goal_def handle_accepted_def worker_step_def work_head_def is_active_def followWaypoints_def follow_enter_def
        get_current_goal_def goal_ok_def put_server_def)
  moreover have "driving H (length (handles s)) ?s1" using inv i(5) assms(5) by (simp add: driving_def)
  ultimately show ?thesis using assms(6-9) i
    by (intro exI[of _ ?fw1] exI[of _ ?s1]) (auto simp: at_waypoint_def goal_ok_def)
qed

lemma goal_ends:
  assumes "handles_ok H" "goal_done H h m gs s fw" "server_active s" "\<not> stop_execution s"
  shows "\<exists>fw1 s1 y. follower_run H task [WorkerStep [], WorkerStep []] fw = Inr fw1 \<and> action_server fw1 = Some s1 \<and> idle_server H s1 \<and>
    only_handle h s s1 \<and> h_succeed H m y = Inr (handles s1 ! h) \<and> failed_ids fw1 = [] \<and> nav_goals fw1 = gs"
proof -
  obtain s1 y where d: "action_server fw = Some s1" "only_handle h s s1" "server_inv H s1" "current_handle s1 = None" "pending_handle s1 = None"
      "execution_future s1 = AfterCallback" "h_succeed H m y = Inr (handles s1 ! h)" "failed_ids fw = []" "nav_goals fw = gs"
    using assms(2) unfolding goal_done_def by blast
  have "\<not> stop_execution s1" "server_active s1" using d(2) assms(3,4) by (simp_all add: only_handle_def)
  then show ?thesis using d
    by (intro exI[of _ "put_server fw (s1\<lparr>execution_future := Finished\<rparr>)"])
      (auto simp: worker_step_def work_after_def idle_server_def is_running_def only_handle_def Let_def)
qed

lemma goal_followed:
  assumes "handles_ok H" "action_server fw = Some s" "idle_server H s" "h_is_active H x" "\<not> h_is_canceling H x" "goal_ok (h_get_goal H x)"
    "nav_client fw" "task_executor fw" "\<not> stop_on_failure fw"
    and "length cs = length (h_get_goal H x)" "\<forall>(w, c) \<in> set cs. c \<noteq> UNKNOWN_RESULT" "length (nav_responses fw) = n"
  shows "\<exists>fw' s' y. follower_run H task (GoalRequest x # WorkerStep [] # WorkerStep [] # goal_events n cs @ [WorkerStep [], WorkerStep []]) fw = Inr fw' \<and>
    action_server fw' = Some s' \<and> idle_server H s' \<and> nav_goals fw' = nav_goals fw @ h_get_goal H x \<and> failed_ids fw' = [] \<and>
    h_succeed H (failed_ids fw @ missed 0 cs) y = Inr (handles s' ! length (handles s)) \<and> take (length (handles s)) (handles s') = handles s"
proof -
  let ?h = "length (handles s)" and ?gs = "nav_goals fw @ h_get_goal H x" and ?m = "failed_ids fw @ missed 0 cs"
  obtain fw1 s1 where 1: "follower_run H task (GoalRequest x # WorkerStep [] # WorkerStep [] # goal_events n cs @ [WorkerStep [], WorkerStep []]) fw =
        follower_run H task (goal_events n cs @ [WorkerStep [], WorkerStep []]) fw1"
      "action_server fw1 = Some s1" "handles s1 = handles s @ [x]" "server_active s1" "\<not> stop_execution s1" "new_goal fw1"
      "nav_responses fw1 = nav_responses fw" "at_waypoint H ?h (h_get_goal H x) 0 (failed_ids fw) (nav_goals fw) fw1"
    using goal_starts[OF assms(1-9)] by metis
  obtain fw2 where 2: "follower_run H task (goal_events n cs) fw1 = Inr fw2" "goal_done H ?h ?m ?gs s1 fw2"
    using follow_rest[OF assms(1) 1(8,6,2), of n cs task] 1(7) assms(10-12) by auto
  obtain fw3 s3 y where 3: "follower_run H task [WorkerStep [], WorkerStep []] fw2 = Inr fw3" "action_server fw3 = Some s3" "idle_server H s3"
      "only_handle ?h s1 s3" "h_succeed H ?m y = Inr (handles s3 ! ?h)" "failed_ids fw3 = []" "nav_goals fw3 = ?gs"
    using goal_ends[OF assms(1) 2(2) 1(4,5)] by blast
  have "take ?h (handles s3) = handles s"
    using 3(4) 1(3) by (intro nth_equalityI) (auto simp: only_handle_def nth_append)
  then show ?thesis using 1(1) 2(1) 3 by (auto simp: follower_run_append simp del: follower_run.simps(2))
qed

lemma canceled_goal_ends:
  assumes "handles_ok H" "action_server fw = Some s" "server_inv H s" "server_active s" "\<not> stop_execution s" "execution_future s = InCallback"
    "in_loop fw" "is_cancel_requested H s" "nav_client fw"
  shows "\<exists>fw1 s1. follower_run H task (WorkerStep [] # WorkerStep [] # WorkerStep [] # evs) fw = follower_run H task evs fw1 \<and>
    action_server fw1 = Some s1 \<and> idle_server H s1 \<and> length (handles s1) = length (handles s) \<and> failed_ids fw1 = failed_ids fw \<and>
    nav_goals fw1 = nav_goals fw \<and> nav_responses fw1 = nav_responses fw \<and> nav_client fw1 \<and> task_executor fw1 = task_executor fw \<and>
    stop_on_failure fw1 = stop_on_failure fw"
proof -
  obtain s1 where t: "terminate_all H [] s = Inr s1" "server_inv H s1" "same_run s s1" "current_handle s1 = None" "pending_handle s1 = None"
    using terminate_all_ok[OF assms(1,3)] by blast
  let ?fw1 = "put_server (fw\<lparr>nav_cancels := Suc (nav_cancels fw)\<rparr>) (s1\<lparr>execution_future := Finished\<rparr>)"
  have "follower_run H task (WorkerStep [] # WorkerStep [] # WorkerStep [] # evs) fw = follower_run H task evs ?fw1"
    using assms t by (simp add: worker_step_def followWaypoints_def follow_iteration_def follow_cancel_def work_after_def same_run_def Let_def)
  then show ?thesis using t assms(4,5,9)
    by (intro exI[of _ ?fw1]) (simp add: idle_server_def is_running_def same_run_def)
qed

section \<open>Samples\<close>

definition sample_wp_handles :: "(sample_state \<times> PoseStamped list \<times> int list) WaypointHandles" where
  "sample_wp_handles = \<lparr>h_is_active = (\<lambda>(st, g, m). st \<noteq> Ended), h_is_canceling = (\<lambda>(st, g, m). st = Canceling), h_get_goal = (\<lambda>(st, g, m). g),
     h_cancel_goal = (\<lambda>(st, g, m). (Canceling, g, m)), h_abort = (\<lambda>r (st, g, m). if st = Ended then Inl (Thrown ''state'') else Inr (Ended, g, r)),
     h_canceled = (\<lambda>r (st, g, m). if st = Canceling then Inr (Ended, g, r) else Inl (Thrown ''state'')),
     h_succeed = (\<lambda>r (st, g, m). if st = Ended then Inl (Thrown ''state'') else Inr (Ended, g, r)), h_publish_feedback = (\<lambda>f x. x)\<rparr>"

lemma sample_wp_handles_ok: "handles_ok sample_wp_handles"
  by (auto simp: handles_ok_def ends_def sample_wp_handles_def)

definition sample_wp_server :: "(sample_state \<times> PoseStamped list \<times> int list) ActionServer" where
  "sample_wp_server = activate (SimpleActionServer False)"

definition sample_follower :: "(sample_state \<times> PoseStamped list \<times> int list) WaypointFollower" where
  "sample_follower = \<lparr>action_server = Some sample_wp_server, nav_client = True, nav_goals = [], nav_responses = [], nav_cancels = 0,
     future_goal_handle = None, stop_on_failure = False, current_goal_status = St_UNKNOWN, loop_rate = 20, failed_ids = [],
     task_executor = True, dyn_params = True, in_loop = False, fw_goal = None, goal_index = 0, new_goal = False\<rparr>"

definition sample_pose :: PoseStamped where
  "sample_pose = \<lparr>stamp_ps = 0, frame_id_ps = ''map'', pos_x = NaN, pos_y = NaN, pos_z = NaN,
     ori_x = NaN, ori_y = NaN, ori_z = NaN, ori_w = NaN\<rparr>"

text \<open>A follower on its way to the first of two waypoints.\<close>

definition busy_server :: "sample_state \<Rightarrow> (sample_state \<times> PoseStamped list \<times> int list) ActionServer" where
  "busy_server st = \<lparr>handles = [(st, [sample_pose, sample_pose], [])], current_handle = Some 0, pending_handle = None, preempt_requested = False,
     server_active = True, stop_execution = False, has_completion = False, execution_future = InCallback\<rparr>"

definition busy_follower :: "sample_state \<Rightarrow> (sample_state \<times> PoseStamped list \<times> int list) WaypointFollower" where
  "busy_follower st = sample_follower\<lparr>action_server := Some (busy_server st), in_loop := True, fw_goal := Some [sample_pose, sample_pose],
     nav_goals := [sample_pose], nav_responses := [Accepted], future_goal_handle := Some 0, failed_ids := [0]\<rparr>"

lemma busy_inv: "st \<noteq> Ended \<Longrightarrow> server_inv sample_wp_handles (busy_server st)"
  by (auto simp: server_inv_def busy_server_def sample_wp_handles_def)

lemma sample_idle: "idle_server sample_wp_handles sample_wp_server"
  by (simp add: idle_server_def server_inv_def sample_wp_server_def activate_def is_running_def SimpleActionServer_def)

section \<open>Properties\<close>

text \<open>
  C20: an idle follower that accepts a goal sends its waypoints to the navigation one after the other, in order
  and each once, whatever the outcomes and however long they take; when it does not stop on failures,
  the goal succeeds, and its result names the waypoints whose navigation failed, preceded by whatever
  was left in the list of failed waypoints. The follower is idle again, with the list empty.
\<close>

theorem follower_visits_all:
  assumes "handles_ok H" "action_server fw = Some s" "idle_server H s" "h_is_active H x" "\<not> h_is_canceling H x" "goal_ok (h_get_goal H x)"
    "nav_client fw" "task_executor fw" "\<not> stop_on_failure fw"
    and "length cs = length (h_get_goal H x)" "\<forall>(w, c) \<in> set cs. c \<noteq> UNKNOWN_RESULT" "length (nav_responses fw) = n"
  shows "\<exists>fw' s' y. follower_run H task (GoalRequest x # WorkerStep [] # WorkerStep [] # goal_events n cs @ [WorkerStep [], WorkerStep []]) fw = Inr fw' \<and>
    action_server fw' = Some s' \<and> idle_server H s' \<and> nav_goals fw' = nav_goals fw @ h_get_goal H x \<and> failed_ids fw' = [] \<and>
    h_succeed H (failed_ids fw @ missed 0 cs) y = Inr (handles s' ! length (handles s)) \<and> take (length (handles s)) (handles s') = handles s"
  by (rule goal_followed[OF assms])

theorem follower_visits_all_witness:
  "\<exists>fw'. follower_run sample_wp_handles (\<lambda>_ _. True) (GoalRequest (Executing, [sample_pose, sample_pose], []) # WorkerStep [] # WorkerStep [] #
      goal_events 0 [(2, ABORTED), (0, SUCCEEDED)] @ [WorkerStep [], WorkerStep []]) sample_follower = Inr fw' \<and>
    nav_goals fw' = [sample_pose, sample_pose]"
  using follower_visits_all[OF sample_wp_handles_ok, of sample_follower sample_wp_server "(Executing, [sample_pose, sample_pose], [])" "[(2, ABORTED), (0, SUCCEEDED)]" 0 "\<lambda>_ _. True"]
    sample_idle
  by (auto simp: sample_follower_def sample_wp_handles_def goal_ok_def)



text \<open>
  The list of failed waypoints is not cleared when a goal is canceled: the next goal, all of whose
  waypoints are reached, is reported with the failures of the canceled one.
\<close>

lemma stale_missed_waypoints:
  assumes "handles_ok H" "action_server fw = Some s" "server_inv H s" "server_active s" "\<not> stop_execution s" "execution_future s = InCallback"
    "in_loop fw" "is_cancel_requested H s" "nav_client fw" "task_executor fw" "\<not> stop_on_failure fw"
    and "h_is_active H x" "\<not> h_is_canceling H x" "goal_ok (h_get_goal H x)" "length ws = length (h_get_goal H x)" "length (nav_responses fw) = n"
  shows "\<exists>fw' s' y. follower_run H task (WorkerStep [] # WorkerStep [] # WorkerStep [] # GoalRequest x # WorkerStep [] # WorkerStep [] #
      goal_events n (map (\<lambda>w. (w, SUCCEEDED)) ws) @ [WorkerStep [], WorkerStep []]) fw = Inr fw' \<and>
    action_server fw' = Some s' \<and> nav_goals fw' = nav_goals fw @ h_get_goal H x \<and>
    h_succeed H (failed_ids fw) y = Inr (handles s' ! length (handles s))"
proof -
  let ?cs = "map (\<lambda>w. (w, SUCCEEDED)) ws"
  let ?evs = "GoalRequest x # WorkerStep [] # WorkerStep [] # goal_events n ?cs @ [WorkerStep [], WorkerStep []]"
  obtain fw1 s1 where 1: "follower_run H task (WorkerStep [] # WorkerStep [] # WorkerStep [] # ?evs) fw = follower_run H task ?evs fw1"
      "action_server fw1 = Some s1" "idle_server H s1" "length (handles s1) = length (handles s)" "failed_ids fw1 = failed_ids fw"
      "nav_goals fw1 = nav_goals fw" "nav_responses fw1 = nav_responses fw" "nav_client fw1" "task_executor fw1 = task_executor fw"
      "stop_on_failure fw1 = stop_on_failure fw"
    using canceled_goal_ends[OF assms(1-9), of task ?evs] by blast
  have m: "missed i ?cs = []" for i by (induction ws arbitrary: i) simp_all
  show ?thesis
    using goal_followed[OF assms(1) 1(2,3) assms(12-14) 1(8), of ?cs n task] 1 assms(10,11,15,16) m[of 0] by auto
qed

text \<open>
  A goal is checked for waypoints only when it starts a run of the callback. A goal without waypoints that
  preempts another one makes the loop read the first element of an empty list.
\<close>

lemma empty_preemption_faults:
  assumes "handles_ok H" "action_server fw = Some s" "driving H h s" "in_loop fw" "server_active s"
    "h_is_active H x" "\<not> h_is_canceling H x" "h_get_goal H x = []"
  shows "follower_run H task [GoalRequest x, WorkerStep evs] fw = Inl IndexOutOfRange"
proof -
  note d = drivingD[OF assms(3)]
  have p: "pending_handle s = None" using assms(3) by (simp add: driving_def)
  let ?s1 = "s\<lparr>handles := handles s @ [x], pending_handle := Some (length (handles s)), preempt_requested := True\<rparr>"
  have acc: "handle_accepted H [] x s = Inr ?s1"
    using d(4) p by (simp add: handle_accepted_def is_running_def)
  have inv: "server_inv H ?s1" by (rule accepted_inv(1)[OF d(1) assms(6) p])
  obtain s2 where "accept_pending_goal H [] ?s1 = Inr (Some [], s2)"
    using accept_pending_ok[OF assms(1) inv, of "length (handles s)" "[]"] assms(8) by auto
  moreover have "\<not> is_cancel_requested H ?s1" using d(7) assms(7) by (simp add: is_cancel_requested_def)
  ultimately show ?thesis using assms(2,4,5) acc d(4)
    by (simp add: handle_goal_def worker_step_def followWaypoints_def follow_iteration_def follow_body_def follow_preempt_def
        follow_send_def current_pose_def put_server_def)
qed

text \<open>
  C38: deactivating the follower does not stop the robot. The loop does not look at the server's state: after
  the request and the wait that terminates the goal, it still sends the next waypoint to the navigation.
\<close>

theorem deactivation_keeps_driving:
  assumes "handles_ok H" "at_waypoint H h poses i fs gs fw" "\<not> new_goal fw" "current_goal_status fw = St_SUCCEEDED" "Suc i < length poses"
  shows "\<exists>fw'. follower_run H task [DeactivateRequest, DeactivateWait True, WorkerStep [], WorkerStep []] fw = Inr fw' \<and>
    nav_goals fw' = gs @ [poses ! Suc i]"
proof -
  obtain s where s: "action_server fw = Some s" using assms(2) by (auto simp: at_waypoint_def)
  note d = at_waypointD[OF assms(2) s]
  let ?s0 = "deactivate_request s"
  have i0: "server_inv H ?s0" "is_running ?s0" "execution_future ?s0 = InCallback" "stop_execution ?s0"
    using drivingD[OF d(1)] by (simp_all add: deactivate_request_def is_running_def)
  obtain s1 where t: "terminate_all H [] ?s0 = Inr s1" "server_inv H s1" "same_run ?s0 s1" "current_handle s1 = None" "pending_handle s1 = None"
    using terminate_all_ok[OF assms(1) i0(1)] by blast
  have "\<not> preempt_requested s1" using t(2,5) by (simp add: server_inv_def)
  moreover have "unat (goal_index fw + 1) = Suc i" using index_step[of "goal_index fw" "length poses"] d(4-6) by (simp add: goal_ok_def)
  ultimately show ?thesis using s d t(1,3-5) i0 assms(3-5)
    by (auto simp: follower_on_deactivate_def deactivate_wait_def worker_step_def followWaypoints_def follow_iteration_def is_cancel_requested_def
        follow_body_def follow_preempt_def follow_send_def follow_outcome_def follow_advance_def current_pose_def publish_feedback_def
        same_run_def Let_def)
qed

theorem deactivation_keeps_driving_witness:
  "\<exists>fw'. follower_run sample_wp_handles (\<lambda>_ _. True) [DeactivateRequest, DeactivateWait True, WorkerStep [], WorkerStep []]
      (busy_follower Executing\<lparr>current_goal_status := St_SUCCEEDED\<rparr>) = Inr fw' \<and> nav_goals fw' = [sample_pose, sample_pose]"
  using deactivation_keeps_driving[OF sample_wp_handles_ok, of 0 "[sample_pose, sample_pose]" 0 "[0]" "[sample_pose]"
      "busy_follower Executing\<lparr>current_goal_status := St_SUCCEEDED\<rparr>" "\<lambda>_ _. True"] busy_inv[of Executing]
  by (auto simp: at_waypoint_def busy_follower_def busy_server_def sample_follower_def driving_def sample_wp_handles_def goal_ok_def)

end
