(* ===== verification/Scenario.thy ===== *)
theory Scenario
  imports Waypoint_Runner_Theorems Waypoint_Follower_Theorems
begin

text \<open>
  The waypoint runner and the waypoint follower together: a scenario from the request that starts it to its
  end. The runner's goal is the goal the follower accepts, and the follower's feedback and result are what the
  runner's callbacks get.
\<close>

lemma feedbacks:
  "\<exists>l c. action_callbacks (map Feedback fbs @ evs) r = action_callbacks evs (r\<lparr>local_wp_idx := l, current_waypoint := c\<rparr>)"
proof (induction fbs arbitrary: r)
  case Nil
  have "r\<lparr>local_wp_idx := local_wp_idx r, current_waypoint := current_waypoint r\<rparr> = r" by simp
  then show ?case by (metis append_Nil list.simps(8))
next
  case (Cons w fbs)
  obtain l c where "action_callbacks (map Feedback fbs @ evs) (feedbackCallback w r) =
      action_callbacks evs ((feedbackCallback w r)\<lparr>local_wp_idx := l, current_waypoint := c\<rparr>)" using Cons.IH by blast
  then show ?case by (intro exI[of _ l] exI[of _ c]) (simp add: action_callback_def feedbackCallback_def)
qed

lemma scenario_started:
  assumes "scene_path r scene = Some path" "loadCSV tr fs path [] = (True, poses, msg)" "poses \<noteq> []"
    "last_req_kind r \<noteq> 0 \<or> 200 \<le> (now - last_req_tp r) div 1000000"
  shows "\<exists>r1. setTask tr fs True now polls scene r = Inr (True, r1) \<and> goals_sent r1 = goals_sent r @ [poses] \<and> base_start_idx r1 = 0 \<and>
    last_goal_size r1 = int_size poses \<and> paused_waypoint r1 = - 1 \<and> last_scene r1 = scene"
proof -
  have k: "(if scene = PAUSE then 1 else if scene = CONTINUE then 2 else 0) = (0 :: int)"
    using assms(1) by (auto simp: scene_path_def scene_defs split: if_splits)
  have "debounce 0 200 now r = (False, r\<lparr>last_req_kind := 0, last_req_tp := now\<rparr>)" using assms(4) by (auto simp: debounce_def)
  moreover have "scene_path (r\<lparr>last_req_kind := 0, last_req_tp := now\<rparr>) scene = Some path" using assms(1) by (simp add: scene_path_def)
  ultimately show ?thesis using assms(2,3) unfolding setTask_def k Let_def
    by (simp add: task_start_def sendWaypointsGoal_def Let_def)
qed

lemma scenario_finished:
  assumes "base_start_idx r = 0" "last_goal_size r = int (length poses)" "poses \<noteq> []" "length poses \<le> 1000000000" "paused_waypoint r = - 1"
  shows "\<exists>r'. action_callbacks (GoalResponse (Some g) # map Feedback fbs @ [Result SUCCEEDED]) r = Inr r' \<and> run_state r' = Idle \<and>
    paused_waypoint r' = int (length poses) - 1 \<and> published r' = published r @ [10, 20] \<and> goals_sent r' = goals_sent r"
proof -
  let ?r = "goalResponseCallback (Some g) r"
  obtain l c where f: "action_callbacks (map Feedback fbs @ [Result SUCCEEDED]) ?r =
      action_callbacks [Result SUCCEEDED] (?r\<lparr>local_wp_idx := l, current_waypoint := c\<rparr>)"
    using feedbacks by blast
  have n: "1 \<le> int (length poses)" "int (length poses) \<le> 1000000000" using assms(3,4) by (cases poses; simp)+
  have m: "max (int (length poses) - 1) 0 = int (length poses) - 1" using n(1) by simp
  have "last_completed SUCCEEDED (?r\<lparr>local_wp_idx := l, current_waypoint := c\<rparr>) = Inr (int (length poses) - 1)"
    using assms(1,2) n by (simp add: last_completed_def i32_of_def goalResponseCallback_def m)
  then show ?thesis using f assms(5) n by (simp add: action_callback_def resultCallback_def goalResponseCallback_def)
qed

section \<open>Properties\<close>



end
