(* ===== verification/Lifecycle_Manager.thy ===== *)
theory Lifecycle_Manager
  imports Prelude
begin

text \<open>
  \<open>nav2_lifecycle_manager/src/lifecycle_manager.cpp\<close> and the service clients it is built on
  (\<open>nav2_util/service_client.hpp\<close>, \<open>nav2_util/src/lifecycle_service_client.cpp\<close>): the node that brings the other
  nodes of the navigation up and down and watches them through bonds. The services and bonds themselves are a
  parameter, the record \<open>Graph\<close> of functions on a world \<open>'w\<close> of the other nodes. An operation returns its result
  and the state it leaves, also when it ends in an exception: what was done before is not undone. A loop that
  waits without end gives up as \<open>Blocked\<close> after \<open>g_patience\<close> passes. Log messages are left out.
\<close>

section \<open>Operations that may fail\<close>

type_synonym ('s, 'a) act = "'s \<Rightarrow> 'a res \<times> 's"

definition act_bind :: "('s, 'a) act \<Rightarrow> ('a \<Rightarrow> ('s, 'b) act) \<Rightarrow> ('s, 'b) act" where
  "act_bind m f s = (case m s of (Inl e, s') \<Rightarrow> (Inl e, s') | (Inr x, s') \<Rightarrow> f x s')"

section \<open>Services and bonds of the other nodes\<close>

text \<open>
  How waiting for an answer ends: with the answer, without one (time-out or interruption), or never. The other
  fields: waiting so many seconds for a service to appear, the requests \<open>change_state\<close> (its answer says whether the
  transition was made) and \<open>get_state\<close> (with its time-out), whether ROS still runs, the creation of a bond with
  the wait until it has formed, whether it is broken, its destruction, and the clock in nanoseconds.
\<close>

datatype 'r spin = SpinSuccess 'r | SpinFailure | SpinForever

record 'w Graph =
  g_wait :: "string \<Rightarrow> int \<Rightarrow> 'w \<Rightarrow> bool \<times> 'w"
  g_change :: "string \<Rightarrow> u8 \<Rightarrow> 'w \<Rightarrow> bool spin \<times> 'w"
  g_get :: "string \<Rightarrow> int \<Rightarrow> 'w \<Rightarrow> u8 spin \<times> 'w"
  g_ok :: "'w \<Rightarrow> bool"
  g_bond_start :: "string \<Rightarrow> int \<Rightarrow> 'w \<Rightarrow> bool \<times> 'w"
  g_bond_broken :: "string \<Rightarrow> 'w \<Rightarrow> bool"
  g_bond_end :: "string \<Rightarrow> 'w \<Rightarrow> 'w"
  g_now :: "'w \<Rightarrow> int"
  g_patience :: nat

section \<open>Service clients\<close>

fun await_service :: "'w Graph \<Rightarrow> string \<Rightarrow> nat \<Rightarrow> ('w, unit) act" where
  "await_service G srv 0 w = (Inl Blocked, w)"
| "await_service G srv (Suc n) w =
    (case g_wait G srv 1 w of
       (True, w') \<Rightarrow> (Inr (), w')
     | (False, w') \<Rightarrow> if \<not> g_ok G w' then (Inl (Thrown (srv @ '' service client: interrupted while waiting for service'')), w') else await_service G srv n w')"

text \<open>The two overloads of \<open>invoke\<close>. The second one only says that an answer came: the answer is a pointer that is not null.\<close>

definition invoke :: "'w Graph \<Rightarrow> string \<Rightarrow> ('w \<Rightarrow> 'r spin \<times> 'w) \<Rightarrow> ('w, 'r) act" where
  "invoke G srv send = act_bind (await_service G srv (g_patience G)) (\<lambda>_ w.
    (case send w of
       (SpinSuccess r, w') \<Rightarrow> (Inr r, w')
     | (SpinFailure, w') \<Rightarrow> (Inl (Thrown (srv @ '' service client: async_send_request failed'')), w')
     | (SpinForever, w') \<Rightarrow> (Inl Blocked, w')))"

definition invoke_flag :: "'w Graph \<Rightarrow> string \<Rightarrow> ('w \<Rightarrow> 'r spin \<times> 'w) \<Rightarrow> ('w, bool) act" where
  "invoke_flag G srv send = act_bind (await_service G srv (g_patience G)) (\<lambda>_ w.
    (case send w of
       (SpinSuccess r, w') \<Rightarrow> (Inr True, w')
     | (SpinFailure, w') \<Rightarrow> (Inr False, w')
     | (SpinForever, w') \<Rightarrow> (Inl Blocked, w')))"

definition change_service :: "string \<Rightarrow> string" where
  "change_service node = node @ ''/change_state''"

definition get_service :: "string \<Rightarrow> string" where
  "get_service node = node @ ''/get_state''"

text \<open>The constructor waits until the node's services are up.\<close>

fun LifecycleServiceClient :: "'w Graph \<Rightarrow> string \<Rightarrow> nat \<Rightarrow> ('w, unit) act" where
  "LifecycleServiceClient G node 0 w = (Inl Blocked, w)"
| "LifecycleServiceClient G node (Suc n) w =
    (case g_wait G (get_service node) 2 w of
       (True, w') \<Rightarrow> (Inr (), w')
     | (False, w') \<Rightarrow> LifecycleServiceClient G node n w')"

definition change_state :: "'w Graph \<Rightarrow> string \<Rightarrow> u8 \<Rightarrow> ('w, bool) act" where
  "change_state G node transition w =
    (case g_wait G (change_service node) 5 w of
       (False, w') \<Rightarrow> (Inl (Thrown ''change_state service is not available!''), w')
     | (True, w') \<Rightarrow> invoke_flag G (change_service node) (g_change G node transition) w')"

definition get_state :: "'w Graph \<Rightarrow> string \<Rightarrow> int \<Rightarrow> ('w, u8) act" where
  "get_state G node timeout w =
    (case g_wait G (get_service node) timeout w of
       (False, w') \<Rightarrow> (Inl (Thrown ''get_state service is not available!''), w')
     | (True, w') \<Rightarrow> invoke G (get_service node) (g_get G node timeout) w')"

section \<open>State of the manager\<close>

text \<open>
  \<open>node_map\<close> holds the names whose client pointer is not null and \<open>bond_map\<close> the names with a bond; a timer is a
  flag that tells whether it is running.
\<close>

record 'w LifecycleManager =
  world :: 'w
  node_names :: "string list"
  node_map :: "string list"
  bond_map :: "string list"
  system_active :: bool
  init_timer :: bool
  startup_timer :: bool
  bond_timer :: bool
  bond_respawn_timer :: bool
  service_thread :: bool
  bond_timeout :: int
  autostart :: bool
  attempt_respawn_reconnection :: bool
  bond_respawn_start_time :: int
  bond_respawn_max_duration :: int

definition TRANSITION_CONFIGURE :: u8 where "TRANSITION_CONFIGURE = 1"
definition TRANSITION_CLEANUP :: u8 where "TRANSITION_CLEANUP = 2"
definition TRANSITION_ACTIVATE :: u8 where "TRANSITION_ACTIVATE = 3"
definition TRANSITION_DEACTIVATE :: u8 where "TRANSITION_DEACTIVATE = 4"
definition TRANSITION_UNCONFIGURED_SHUTDOWN :: u8 where "TRANSITION_UNCONFIGURED_SHUTDOWN = 5"

definition STATE_UNCONFIGURED :: u8 where "STATE_UNCONFIGURED = 1"
definition STATE_INACTIVE :: u8 where "STATE_INACTIVE = 2"
definition STATE_ACTIVE :: u8 where "STATE_ACTIVE = 3"
definition STATE_FINALIZED :: u8 where "STATE_FINALIZED = 4"

lemmas transition_defs = TRANSITION_CONFIGURE_def TRANSITION_CLEANUP_def TRANSITION_ACTIVATE_def TRANSITION_DEACTIVATE_def
  TRANSITION_UNCONFIGURED_SHUTDOWN_def
lemmas state_defs = STATE_UNCONFIGURED_def STATE_INACTIVE_def STATE_ACTIVE_def STATE_FINALIZED_def

definition transition_state_map :: "u8 \<Rightarrow> u8" where
  "transition_state_map transition =
    (if transition = TRANSITION_CONFIGURE then STATE_INACTIVE
     else if transition = TRANSITION_CLEANUP then STATE_UNCONFIGURED
     else if transition = TRANSITION_ACTIVATE then STATE_ACTIVE
     else if transition = TRANSITION_DEACTIVATE then STATE_INACTIVE
     else if transition = TRANSITION_UNCONFIGURED_SHUTDOWN then STATE_FINALIZED
     else 0)"

definition LifecycleManager_ctor :: "string list \<Rightarrow> bool \<Rightarrow> int \<Rightarrow> int \<Rightarrow> bool \<Rightarrow> 'w \<Rightarrow> 'w LifecycleManager" where
  "LifecycleManager_ctor names auto timeout max_duration attempt w =
    \<lparr>world = w, node_names = names, node_map = [], bond_map = [], system_active = False, init_timer = True, startup_timer = False,
     bond_timer = False, bond_respawn_timer = False, service_thread = False, bond_timeout = timeout, autostart = auto,
     attempt_respawn_reconnection = attempt, bond_respawn_start_time = 0, bond_respawn_max_duration = max_duration\<rparr>"

definition on_world :: "('w, 'a) act \<Rightarrow> ('w LifecycleManager, 'a) act" where
  "on_world a m = (case a (world m) of (r, w') \<Rightarrow> (r, m\<lparr>world := w'\<rparr>))"

section \<open>Clients and bonds\<close>

fun create_clients :: "'w Graph \<Rightarrow> string list \<Rightarrow> ('w LifecycleManager, unit) act" where
  "create_clients G [] m = (Inr (), m)"
| "create_clients G (n # ns) m =
    act_bind (on_world (LifecycleServiceClient G n (g_patience G))) (\<lambda>_ m1. create_clients G ns (m1\<lparr>node_map := n # node_map m1\<rparr>)) m"

definition createLifecycleServiceClients :: "'w Graph \<Rightarrow> ('w LifecycleManager, unit) act" where
  "createLifecycleServiceClients G m = create_clients G (node_names m) m"

definition destroyLifecycleServiceClients :: "'w LifecycleManager \<Rightarrow> 'w LifecycleManager" where
  "destroyLifecycleServiceClients m = m\<lparr>node_map := []\<rparr>"

definition createBondConnection :: "'w Graph \<Rightarrow> string \<Rightarrow> 'w LifecycleManager \<Rightarrow> bool \<times> 'w LifecycleManager" where
  "createBondConnection G node m =
    (if node \<notin> set (bond_map m) \<and> 0 < bond_timeout m
     then (case g_bond_start G node (bond_timeout m) (world m) of
             (formed, w') \<Rightarrow> (formed, m\<lparr>world := w', bond_map := node # bond_map m\<rparr>))
     else (True, m))"

definition erase_bond :: "'w Graph \<Rightarrow> string \<Rightarrow> 'w LifecycleManager \<Rightarrow> 'w LifecycleManager" where
  "erase_bond G node m =
    (if node \<in> set (bond_map m) then m\<lparr>world := g_bond_end G node (world m), bond_map := removeAll node (bond_map m)\<rparr> else m)"

definition clear_bonds :: "'w Graph \<Rightarrow> 'w LifecycleManager \<Rightarrow> 'w LifecycleManager" where
  "clear_bonds G m = m\<lparr>world := fold (g_bond_end G) (bond_map m) (world m), bond_map := []\<rparr>"

definition createBondTimer :: "'w LifecycleManager \<Rightarrow> 'w LifecycleManager" where
  "createBondTimer m = (if bond_timeout m \<le> 0 then m else m\<lparr>bond_timer := True\<rparr>)"

definition destroyBondTimer :: "'w LifecycleManager \<Rightarrow> 'w LifecycleManager" where
  "destroyBondTimer m = m\<lparr>bond_timer := False\<rparr>"

section \<open>Transitions\<close>

definition changeStateForNode :: "'w Graph \<Rightarrow> u8 \<Rightarrow> string \<Rightarrow> ('w LifecycleManager, bool) act" where
  "changeStateForNode G transition node m =
    (if node \<notin> set (node_map m) then (Inl NullDereference, m)
     else act_bind (on_world (change_state G node transition)) (\<lambda>called m1.
       if \<not> called then (Inr False, m1)
       else act_bind (on_world (get_state G node 2)) (\<lambda>state m2.
         if state \<noteq> transition_state_map transition then (Inr False, m2)
         else if transition = TRANSITION_ACTIVATE then (case createBondConnection G node m2 of (b, m3) \<Rightarrow> (Inr b, m3))
         else if transition = TRANSITION_DEACTIVATE then (Inr True, erase_bond G node m2)
         else (Inr True, m2)) m1) m)"

text \<open>
  One pass over the nodes. An exception ends it, a node that fails ends it unless the change is a hard one. What
  is not a \<open>std::runtime_error\<close> is not caught.
\<close>

fun sweep :: "(string \<Rightarrow> ('s, bool) act) \<Rightarrow> bool \<Rightarrow> string list \<Rightarrow> ('s, bool) act" where
  "sweep visit hard [] m = (Inr True, m)"
| "sweep visit hard (n # ns) m =
    (case visit n m of
       (Inr b, m') \<Rightarrow> if \<not> b \<and> \<not> hard then (Inr False, m') else sweep visit hard ns m'
     | (Inl (Thrown e), m') \<Rightarrow> (Inr False, m')
     | (Inl e, m') \<Rightarrow> (Inl e, m'))"

definition visit_order :: "u8 \<Rightarrow> string list \<Rightarrow> string list" where
  "visit_order transition names =
    (if transition = TRANSITION_CONFIGURE \<or> transition = TRANSITION_ACTIVATE then names else rev names)"

definition changeStateForAllNodes :: "'w Graph \<Rightarrow> u8 \<Rightarrow> bool \<Rightarrow> ('w LifecycleManager, bool) act" where
  "changeStateForAllNodes G transition hard_change m =
     sweep (changeStateForNode G transition) hard_change (visit_order transition (node_names m)) m"

section \<open>Commands\<close>

definition shutdownAllNodes :: "'w Graph \<Rightarrow> ('w LifecycleManager, unit) act" where
  "shutdownAllNodes G =
     act_bind (changeStateForAllNodes G TRANSITION_DEACTIVATE False) (\<lambda>_.
     act_bind (changeStateForAllNodes G TRANSITION_CLEANUP False) (\<lambda>_.
     act_bind (changeStateForAllNodes G TRANSITION_UNCONFIGURED_SHUTDOWN False) (\<lambda>_ m. (Inr (), m))))"

definition startup :: "'w Graph \<Rightarrow> ('w LifecycleManager, bool) act" where
  "startup G =
     act_bind (changeStateForAllNodes G TRANSITION_CONFIGURE False) (\<lambda>configured m1.
       if \<not> configured then (Inr False, m1)
       else act_bind (changeStateForAllNodes G TRANSITION_ACTIVATE False) (\<lambda>activated m2.
         if \<not> activated then (Inr False, m2)
         else (Inr True, createBondTimer (m2\<lparr>system_active := True\<rparr>))) m1)"

definition shutdown :: "'w Graph \<Rightarrow> ('w LifecycleManager, bool) act" where
  "shutdown G m =
     act_bind (shutdownAllNodes G) (\<lambda>_ m1. (Inr True, destroyLifecycleServiceClients m1)) (destroyBondTimer (m\<lparr>system_active := False\<rparr>))"

definition reset :: "'w Graph \<Rightarrow> bool \<Rightarrow> ('w LifecycleManager, bool) act" where
  "reset G hard_reset m =
     act_bind (changeStateForAllNodes G TRANSITION_DEACTIVATE hard_reset) (\<lambda>deactivated m1.
       if \<not> deactivated then (Inr hard_reset, m1)
       else act_bind (changeStateForAllNodes G TRANSITION_CLEANUP hard_reset) (\<lambda>cleaned m2.
         (Inr (cleaned \<or> hard_reset), m2)) m1) (destroyBondTimer (m\<lparr>system_active := False\<rparr>))"

definition pause :: "'w Graph \<Rightarrow> ('w LifecycleManager, bool) act" where
  "pause G m = changeStateForAllNodes G TRANSITION_DEACTIVATE False (destroyBondTimer (m\<lparr>system_active := False\<rparr>))"

definition resume :: "'w Graph \<Rightarrow> ('w LifecycleManager, bool) act" where
  "resume G =
     act_bind (changeStateForAllNodes G TRANSITION_ACTIVATE False) (\<lambda>activated m1.
       if \<not> activated then (Inr False, m1) else (Inr True, createBondTimer (m1\<lparr>system_active := True\<rparr>)))"

definition STARTUP :: u8 where "STARTUP = 0"
definition PAUSE_NODES :: u8 where "PAUSE_NODES = 1"
definition RESUME :: u8 where "RESUME = 2"
definition RESET :: u8 where "RESET = 3"
definition SHUTDOWN :: u8 where "SHUTDOWN = 4"

lemmas command_defs = STARTUP_def PAUSE_NODES_def RESUME_def RESET_def SHUTDOWN_def

text \<open>The response's flag \<open>success\<close> is false from the start, and stays so for an unknown command.\<close>

definition managerCallback :: "'w Graph \<Rightarrow> u8 \<Rightarrow> ('w LifecycleManager, bool) act" where
  "managerCallback G command =
    (if command = STARTUP then startup G
     else if command = RESET then reset G False
     else if command = SHUTDOWN then shutdown G
     else if command = PAUSE_NODES then pause G
     else if command = RESUME then resume G
     else (\<lambda>m. (Inr False, m)))"

definition isActiveCallback :: "'w LifecycleManager \<Rightarrow> bool" where
  "isActiveCallback m = system_active m"

datatype DiagnosticLevel = Diagnostic_OK | Diagnostic_ERROR

definition CreateActiveDiagnostic :: "'w LifecycleManager \<Rightarrow> DiagnosticLevel \<times> string" where
  "CreateActiveDiagnostic m =
    (if system_active m then (Diagnostic_OK, ''Nav2 is active'') else (Diagnostic_ERROR, ''Nav2 is inactive''))"

section \<open>Timers\<close>

text \<open>The first timer; the services and the other timers run on the thread that it starts last.\<close>

definition init_callback :: "'w Graph \<Rightarrow> ('w LifecycleManager, unit) act" where
  "init_callback G m =
     act_bind (createLifecycleServiceClients G) (\<lambda>_ m1.
       (Inr (), m1\<lparr>startup_timer := autostart m1, service_thread := True\<rparr>)) (m\<lparr>init_timer := False\<rparr>)"

definition bond_failure :: "'w Graph \<Rightarrow> ('w LifecycleManager, unit) act" where
  "bond_failure G =
     act_bind (reset G True) (\<lambda>_ m1.
       let m2 = clear_bonds G m1 in
       (Inr (), if attempt_respawn_reconnection m2 then m2\<lparr>bond_respawn_timer := True\<rparr> else m2))"

fun check_bonds :: "'w Graph \<Rightarrow> string list \<Rightarrow> ('w LifecycleManager, unit) act" where
  "check_bonds G [] m = (Inr (), m)"
| "check_bonds G (n # ns) m =
    (if \<not> g_ok G (world m) then (Inr (), m)
     else if n \<notin> set (bond_map m) then (Inl NullDereference, m)
     else if g_bond_broken G n (world m) then bond_failure G m
     else check_bonds G ns m)"

definition checkBondConnections :: "'w Graph \<Rightarrow> ('w LifecycleManager, unit) act" where
  "checkBondConnections G m =
    (if \<not> system_active m \<or> \<not> g_ok G (world m) \<or> bond_map m = [] then (Inr (), m)
     else check_bonds G (node_names m) m)"

text \<open>The number of nodes that answer before the first that does not; none when ROS is shut down meanwhile.\<close>

fun count_live :: "'w Graph \<Rightarrow> string list \<Rightarrow> nat \<Rightarrow> ('w LifecycleManager, nat option) act" where
  "count_live G [] live m = (Inr (Some live), m)"
| "count_live G (n # ns) live m =
    (if \<not> g_ok G (world m) then (Inr None, m)
     else if n \<notin> set (node_map m) then (Inl NullDereference, m)
     else case on_world (get_state G n 2) m of
       (Inr s, m') \<Rightarrow> count_live G ns (Suc live) m'
     | (Inl (Thrown e), m') \<Rightarrow> (Inr (Some live), m')
     | (Inl e, m') \<Rightarrow> (Inl e, m'))"

definition end_respawn :: "'w LifecycleManager \<Rightarrow> 'w LifecycleManager" where
  "end_respawn m = m\<lparr>bond_respawn_start_time := 0, bond_respawn_timer := False\<rparr>"

definition checkBondRespawnConnection :: "'w Graph \<Rightarrow> ('w LifecycleManager, unit) act" where
  "checkBondRespawnConnection G m =
    (let m1 = (if bond_respawn_start_time m = 0 then m\<lparr>bond_respawn_start_time := g_now G (world m)\<rparr> else m) in
     if system_active m1 \<or> \<not> g_ok G (world m1) \<or> node_names m1 = [] then (Inr (), end_respawn m1)
     else act_bind (count_live G (node_names m1) 0) (\<lambda>live m2.
       case live of None \<Rightarrow> (Inr (), m2)
       | Some k \<Rightarrow>
           if k = length (node_names m2) then act_bind (startup G) (\<lambda>_ m3. (Inr (), m3)) (end_respawn m2)
           else if bond_respawn_max_duration m2 \<le> g_now G (world m2) - bond_respawn_start_time m2 then (Inr (), end_respawn m2)
           else (Inr (), m2)) m1)"

definition onRclPreshutdown :: "'w Graph \<Rightarrow> 'w LifecycleManager \<Rightarrow> 'w LifecycleManager" where
  "onRclPreshutdown G m =
     clear_bonds G ((destroyBondTimer m)\<lparr>service_thread := False, node_names := [], node_map := []\<rparr>)"

section \<open>Events\<close>

text \<open>
  What the executor runs, one at a time, as the callback group is mutually exclusive. A timer that is not running
  and a request before the thread is started have no effect; \<open>Elsewhere\<close> is whatever happens to the other nodes
  between two events.
\<close>

datatype 'w manager_event = InitTimer | StartupTimer | BondTimer | RespawnTimer | Manage u8 | Preshutdown | Elsewhere 'w

fun manager_step :: "'w Graph \<Rightarrow> 'w manager_event \<Rightarrow> ('w LifecycleManager, unit) act" where
  "manager_step G InitTimer m = (if init_timer m then init_callback G m else (Inr (), m))"
| "manager_step G StartupTimer m =
    (if service_thread m \<and> startup_timer m then act_bind (startup G) (\<lambda>_ m'. (Inr (), m')) (m\<lparr>startup_timer := False\<rparr>) else (Inr (), m))"
| "manager_step G BondTimer m = (if service_thread m \<and> bond_timer m then checkBondConnections G m else (Inr (), m))"
| "manager_step G RespawnTimer m = (if service_thread m \<and> bond_respawn_timer m then checkBondRespawnConnection G m else (Inr (), m))"
| "manager_step G (Manage command) m =
    (if service_thread m then act_bind (managerCallback G command) (\<lambda>_ m'. (Inr (), m')) m else (Inr (), m))"
| "manager_step G Preshutdown m = (Inr (), onRclPreshutdown G m)"
| "manager_step G (Elsewhere w) m = (Inr (), m\<lparr>world := w\<rparr>)"

fun manager_run :: "'w Graph \<Rightarrow> 'w manager_event list \<Rightarrow> ('w LifecycleManager, unit) act" where
  "manager_run G [] m = (Inr (), m)"
| "manager_run G (ev # evs) m = act_bind (manager_step G ev) (\<lambda>_. manager_run G evs) m"

end
