(* ===== verification/Lifecycle_Manager_Theorems.thy ===== *)
theory Lifecycle_Manager_Theorems
  imports Lifecycle_Manager
begin

text \<open>
  The lifecycle manager. What a pass over the nodes guarantees is proved once, in a locale, for any visit of a
  node, and used for the manager's transitions: no null pointer before a shutdown, the states a successful command
  leaves the nodes in, that commands succeed with nodes that obey, and three ways in which nodes stay active
  although the manager has taken the system down.
\<close>

section \<open>Passes over the nodes\<close>

text \<open>
  A visit changes the state within \<open>rel\<close>; for a node in the state's \<open>known\<close> set it ends in no other failure than
  waiting and exceptions; once it succeeded the node has the property \<open>post\<close>, which visits that succeed keep.
\<close>

locale node_visit =
  fixes visit :: "string \<Rightarrow> ('s, bool) act"
    and rel :: "'s \<Rightarrow> 's \<Rightarrow> bool"
    and known :: "'s \<Rightarrow> string set"
  assumes rel_refl: "rel s s"
    and rel_trans: "rel s s' \<Longrightarrow> rel s' s'' \<Longrightarrow> rel s s''"
    and rel_known: "rel s s' \<Longrightarrow> known s' = known s"
    and visit_rel: "rel s (snd (visit n s))"
    and visit_fails: "n \<in> known s \<Longrightarrow> fst (visit n s) = Inl e \<Longrightarrow> e = Blocked \<or> (\<exists>t. e = Thrown t)"
begin

lemma sweep_rel: "rel s (snd (sweep visit hard ns s))"
proof (induction ns arbitrary: s)
  case Nil
  show ?case by (simp add: rel_refl)
next
  case (Cons n ns)
  have "rel s (snd (visit n s))" by (rule visit_rel)
  then show ?case using Cons.IH[of "snd (visit n s)"] rel_trans by (auto split: prod.split sum.split ub.split)
qed

lemma sweep_fails: "set ns \<subseteq> known s \<Longrightarrow> fst (sweep visit hard ns s) = Inl e \<Longrightarrow> e = Blocked"
proof (induction ns arbitrary: s)
  case Nil
  then show ?case by simp
next
  case (Cons n ns)
  obtain r s' where v: "visit n s = (r, s')" by fastforce
  then have k: "known s' = known s" using visit_rel[of s n] rel_known by simp
  show ?case
  proof (cases r)
    case (Inl f)
    then have "f = Blocked \<or> (\<exists>t. f = Thrown t)" using visit_fails[of n s f] v Cons.prems(1) by simp
    then show ?thesis using Cons.prems(2) v Inl by auto
  next
    case (Inr b)
    then show ?thesis using Cons.IH[of s'] Cons.prems v k by (simp split: if_splits)
  qed
qed

lemma sweep_post:
  assumes "\<And>n s s'. visit n s = (Inr True, s') \<Longrightarrow> post n s'"
    and "\<And>n k s s'. visit k s = (Inr True, s') \<Longrightarrow> post n s \<Longrightarrow> post n s'"
    and "sweep visit False ns s = (Inr True, s')"
  shows "(\<forall>n \<in> set ns. post n s') \<and> (\<forall>n. post n s \<longrightarrow> post n s')"
  using assms(3)
proof (induction ns arbitrary: s)
  case Nil
  then show ?case by simp
next
  case (Cons n ns)
  then obtain s1 where v: "visit n s = (Inr True, s1)" "sweep visit False ns s1 = (Inr True, s')"
    by (auto split: prod.splits sum.splits if_splits ub.splits)
  then show ?case using Cons.IH[OF v(2)] assms(1,2)[OF v(1)] by auto
qed

text \<open>When every node that is visited can be, the pass succeeds.\<close>

lemma sweep_succeeds:
  assumes "\<And>n s. n \<in> known s \<Longrightarrow> ready n s \<Longrightarrow> fst (visit n s) = Inr True"
    and "\<And>n k s. k \<noteq> n \<Longrightarrow> ready n s \<Longrightarrow> ready n (snd (visit k s))"
  shows "set ns \<subseteq> known s \<Longrightarrow> distinct ns \<Longrightarrow> \<forall>n \<in> set ns. ready n s \<Longrightarrow> fst (sweep visit hard ns s) = Inr True"
proof (induction ns arbitrary: s)
  case Nil
  then show ?case by simp
next
  case (Cons n ns)
  obtain s1 where v: "visit n s = (Inr True, s1)" using assms(1)[of n s] Cons.prems by (metis list.set_intros(1) prod.collapse subsetD)
  then have k: "known s1 = known s" using visit_rel[of s n] rel_known by simp
  have "\<forall>k \<in> set ns. ready k s1" using assms(2)[of n _ s] v Cons.prems(2,3) by fastforce
  then show ?case using Cons.IH[of s1] Cons.prems(1,2) k v by simp
qed

lemma sweep_returns:
  assumes "\<And>n s. n \<in> known s \<Longrightarrow> \<exists>b s'. visit n s = (Inr b, s')"
  shows "set ns \<subseteq> known s \<Longrightarrow> \<exists>b s'. sweep visit hard ns s = (Inr b, s')"
proof (induction ns arbitrary: s)
  case Nil
  show ?case by (rule exI[of _ True]) simp
next
  case (Cons n ns)
  obtain b s' where v: "visit n s = (Inr b, s')" using assms Cons.prems by (meson list.set_intros(1) subsetD)
  then have "known s' = known s" using visit_rel[of s n] rel_known by simp
  then obtain c s'' where "sweep visit hard ns s' = (Inr c, s'')" using Cons.IH[of s'] Cons.prems by auto
  then have "sweep visit hard (n # ns) s = (if \<not> b \<and> \<not> hard then (Inr False, s') else (Inr c, s''))" using v by (cases hard; cases b) simp_all
  then show ?case by metis
qed

end

section \<open>The world of the nodes\<close>

lemma act_bind_simps:
  "m s = (Inl e, s') \<Longrightarrow> act_bind m f s = (Inl e, s')"
  "m s = (Inr x, s') \<Longrightarrow> act_bind m f s = f x s'"
  by (simp_all add: act_bind_def)

lemma await_fails: "fst (await_service G srv n w) = Inl e \<Longrightarrow> e = Blocked \<or> (\<exists>t. e = Thrown t)"
  by (induction n arbitrary: w) (auto split: prod.splits bool.splits if_splits)

lemma change_state_fails: "fst (change_state G n tr w) = Inl e \<Longrightarrow> e = Blocked \<or> (\<exists>t. e = Thrown t)"
  by (auto simp: change_state_def invoke_flag_def act_bind_def split: prod.splits bool.splits sum.splits spin.splits dest: await_fails)
    (metis await_fails fst_conv)

lemma get_state_fails: "fst (get_state G n t w) = Inl e \<Longrightarrow> e = Blocked \<or> (\<exists>t. e = Thrown t)"
  by (auto simp: get_state_def invoke_def act_bind_def split: prod.splits bool.splits sum.splits spin.splits dest: await_fails)
    (metis await_fails fst_conv)

section \<open>Frame of the transitions\<close>

text \<open>What a pass with a transition leaves of the manager: only deactivation removes bonds.\<close>

definition same_manager :: "u8 \<Rightarrow> 'w LifecycleManager \<Rightarrow> 'w LifecycleManager \<Rightarrow> bool" where
  "same_manager tr m m' \<longleftrightarrow> m' = m\<lparr>world := world m', bond_map := bond_map m'\<rparr> \<and>
     (tr \<noteq> TRANSITION_DEACTIVATE \<longrightarrow> set (bond_map m) \<subseteq> set (bond_map m'))"

lemma same_manager_refl: "same_manager tr m m"
  by (simp add: same_manager_def)

lemma same_manager_trans: "same_manager tr m m' \<Longrightarrow> same_manager tr m' m'' \<Longrightarrow> same_manager tr m m''"
  unfolding same_manager_def by (cases m; cases m'; cases m'') auto

lemma same_managerD:
  assumes "same_manager tr m m'"
  shows "node_names m' = node_names m" "node_map m' = node_map m" "system_active m' = system_active m" "bond_timer m' = bond_timer m"
    "bond_timeout m' = bond_timeout m" "service_thread m' = service_thread m" "bond_respawn_timer m' = bond_respawn_timer m"
    "attempt_respawn_reconnection m' = attempt_respawn_reconnection m" "init_timer m' = init_timer m"
  using assms unfolding same_manager_def by (cases m; cases m'; simp)+

lemma on_world_same: "same_manager tr m (snd (on_world a m))"
  by (simp add: on_world_def same_manager_def split: prod.split)

lemma act_bind_same:
  assumes "\<And>m. same_manager tr m (snd (a m))" "\<And>x m. same_manager tr m (snd (f x m))"
  shows "same_manager tr m (snd (act_bind a f m))"
proof -
  obtain r m' where a: "a m = (r, m')" by fastforce
  then have "same_manager tr m m'" using assms(1)[of m] by simp
  then show ?thesis using a same_manager_trans[of tr m m', OF _ assms(2)] by (cases r) (auto simp: act_bind_def)
qed

lemma snd_case [simp]: "snd (case p of (b, m) \<Rightarrow> (Inr b, m)) = snd p" "fst (case p of (b, m) \<Rightarrow> (Inr b, m)) = Inr (fst p)"
  by (cases p; simp)+

lemma createBondConnection_same: "same_manager tr m (snd (createBondConnection G n m))"
  by (auto simp: createBondConnection_def same_manager_def split: prod.split)

lemma changeStateForNode_same: "same_manager tr m (snd (changeStateForNode G tr n m))"
proof -
  have 1: "same_manager tr m (m\<lparr>world := w\<rparr>)" for m :: "'a LifecycleManager" and w by (simp add: same_manager_def)
  have 2: "tr = TRANSITION_DEACTIVATE \<Longrightarrow> same_manager tr m (erase_bond G n m)" for m
    by (simp add: erase_bond_def same_manager_def)
  have 3: "same_manager tr m (snd (act_bind (on_world (get_state G n 2)) (\<lambda>state m2.
         if state \<noteq> transition_state_map tr then (Inr False, m2)
         else if tr = TRANSITION_ACTIVATE then (case createBondConnection G n m2 of (b, m3) \<Rightarrow> (Inr b, m3))
         else if tr = TRANSITION_DEACTIVATE then (Inr True, erase_bond G n m2)
         else (Inr True, m2)) m))" for m
    using 2 by (intro act_bind_same on_world_same) (auto simp: same_manager_refl createBondConnection_same)
  show ?thesis using 3 unfolding changeStateForNode_def
    by (auto simp: same_manager_refl intro!: act_bind_same on_world_same)
qed

lemma on_world_Inl: "on_world a m = (Inl e, m') \<Longrightarrow> fst (a (world m)) = Inl e"
  by (auto simp: on_world_def split: prod.splits)

lemma changeStateForNode_fails:
  assumes "n \<in> set (node_map m)" "fst (changeStateForNode G tr n m) = Inl e"
  shows "e = Blocked \<or> (\<exists>t. e = Thrown t)"
  using assms unfolding changeStateForNode_def
  by (auto simp: act_bind_def split: prod.splits sum.splits if_splits dest!: on_world_Inl dest: change_state_fails get_state_fails)

interpretation nv: node_visit "changeStateForNode G tr" "same_manager tr" "\<lambda>m. set (node_map m)" for G :: "'w Graph" and tr
  by unfold_locales
    (simp_all add: same_manager_refl changeStateForNode_same changeStateForNode_fails same_managerD(2), erule (1) same_manager_trans)

lemma all_nodes_same: "same_manager tr m (snd (changeStateForAllNodes G tr hard m))"
  unfolding changeStateForAllNodes_def by (rule nv.sweep_rel)

lemma set_visit_order [simp]: "set (visit_order tr ns) = set ns"
  by (simp add: visit_order_def)

lemma all_nodes_fails:
  "set (node_names m) \<subseteq> set (node_map m) \<Longrightarrow> fst (changeStateForAllNodes G tr hard m) = Inl e \<Longrightarrow> e = Blocked"
  unfolding changeStateForAllNodes_def using nv.sweep_fails[of "visit_order tr (node_names m)" m G tr hard e] by simp

section \<open>Invariant\<close>

text \<open>
  Every managed node has a client while the thread runs, and a bond while the system is active and bonds are in
  use; their timer runs only then, and the thread only when the first timer is done.
\<close>

definition manager_inv :: "'w LifecycleManager \<Rightarrow> bool" where
  "manager_inv m \<longleftrightarrow> (service_thread m \<longrightarrow> set (node_names m) \<subseteq> set (node_map m)) \<and>
     (system_active m \<and> 0 < bond_timeout m \<longrightarrow> set (node_names m) \<subseteq> set (bond_map m)) \<and>
     (bond_timer m \<longrightarrow> 0 < bond_timeout m) \<and> (service_thread m \<longrightarrow> \<not> init_timer m)"

definition serving :: "'w LifecycleManager \<Rightarrow> bool" where
  "serving m \<longleftrightarrow> manager_inv m \<and> service_thread m"

definition only_blocks :: "'a res \<Rightarrow> bool" where
  "only_blocks r \<longleftrightarrow> (\<forall>e. r = Inl e \<longrightarrow> e = Blocked)"

lemma only_blocks_simps [simp]: "only_blocks (Inr x)" "only_blocks (Inl e) \<longleftrightarrow> e = Blocked"
  by (simp_all add: only_blocks_def)

lemma act_bind_keeps:
  assumes "only_blocks (fst (a m))" "P (snd (a m))"
    and "\<And>x m'. a m = (Inr x, m') \<Longrightarrow> P m' \<Longrightarrow> only_blocks (fst (f x m')) \<and> Q (snd (f x m'))" "\<And>m. P m \<Longrightarrow> Q m"
  shows "only_blocks (fst (act_bind a f m)) \<and> Q (snd (act_bind a f m))"
  using assms by (cases "a m") (auto simp: act_bind_def split: sum.splits)

lemma all_nodes_serving:
  assumes "serving m" "tr = TRANSITION_DEACTIVATE \<longrightarrow> \<not> system_active m"
  shows "only_blocks (fst (changeStateForAllNodes G tr hard m)) \<and> serving (snd (changeStateForAllNodes G tr hard m)) \<and>
    system_active (snd (changeStateForAllNodes G tr hard m)) = system_active m"
proof -
  let ?m = "snd (changeStateForAllNodes G tr hard m)"
  have s: "same_manager tr m ?m" by (rule all_nodes_same)
  have "tr \<noteq> TRANSITION_DEACTIVATE \<longrightarrow> set (bond_map m) \<subseteq> set (bond_map ?m)" using s unfolding same_manager_def by blast
  then have "serving ?m" using assms same_managerD[OF s] unfolding serving_def manager_inv_def by auto
  moreover have "only_blocks (fst (changeStateForAllNodes G tr hard m))"
    using assms(1) all_nodes_fails unfolding only_blocks_def serving_def manager_inv_def by blast
  ultimately show ?thesis using same_managerD(3)[OF s] by blast
qed

lemma changeStateForNode_True:
  assumes "changeStateForNode G tr n m = (Inr True, m')"
  obtains w1 w2 where "change_state G n tr (world m) = (Inr True, w1)" "get_state G n 2 w1 = (Inr (transition_state_map tr), w2)"
    "tr = TRANSITION_ACTIVATE \<and> createBondConnection G n (m\<lparr>world := w2\<rparr>) = (True, m') \<or>
     tr = TRANSITION_DEACTIVATE \<and> m' = erase_bond G n (m\<lparr>world := w2\<rparr>) \<or>
     tr \<noteq> TRANSITION_ACTIVATE \<and> tr \<noteq> TRANSITION_DEACTIVATE \<and> m' = m\<lparr>world := w2\<rparr>"
  using assms unfolding changeStateForNode_def by (auto simp: act_bind_def on_world_def split: prod.splits sum.splits if_splits)

lemma createBondConnection_bond: "0 < bond_timeout m \<Longrightarrow> createBondConnection G n m = (b, m') \<Longrightarrow> n \<in> set (bond_map m')"
  by (auto simp: createBondConnection_def split: if_splits prod.splits)

lemma activated_bonds:
  assumes "changeStateForAllNodes G TRANSITION_ACTIVATE False m = (Inr True, m')" "0 < bond_timeout m"
  shows "set (node_names m) \<subseteq> set (bond_map m')"
proof -
  let ?v = "changeStateForNode G TRANSITION_ACTIVATE"
  let ?post = "\<lambda>n m :: 'a LifecycleManager. 0 < bond_timeout m \<longrightarrow> n \<in> set (bond_map m)"
  have d: "TRANSITION_ACTIVATE \<noteq> TRANSITION_DEACTIVATE" by (simp add: transition_defs)
  have same: "same_manager TRANSITION_ACTIVATE s s'" if "?v n s = (Inr True, s')" for n s s'
    using changeStateForNode_same[of TRANSITION_ACTIVATE s G n] that by simp
  have p1: "?post n s'" if v: "?v n s = (Inr True, s')" for n s s'
  proof -
    obtain w2 where "createBondConnection G n (s\<lparr>world := w2\<rparr>) = (True, s')"
      using v d by (auto elim!: changeStateForNode_True)
    then show ?thesis using createBondConnection_bond[of "s\<lparr>world := w2\<rparr>"] same_managerD(5)[OF same[OF v]] by simp
  qed
  have p2: "?post n s'" if "?v k s = (Inr True, s')" "?post n s" for n k s s'
    using same[OF that(1)] that(2) same_managerD(5)[OF same[OF that(1)]] d unfolding same_manager_def by auto
  have "sweep ?v False (node_names m) m = (Inr True, m')" using assms(1) by (simp add: changeStateForAllNodes_def visit_order_def)
  then have "\<forall>n \<in> set (node_names m). ?post n m'" using nv.sweep_post[where post = ?post and s = m and s' = m'] p1 p2 by blast
  moreover have "bond_timeout m' = bond_timeout m"
    using same_managerD(5)[OF all_nodes_same[of TRANSITION_ACTIVATE m G False]] assms(1) by simp
  ultimately show ?thesis using assms(2) by auto
qed

lemma active_serving:
  assumes "changeStateForAllNodes G TRANSITION_ACTIVATE False m = (Inr True, m')" "serving m'"
  shows "serving (createBondTimer (m'\<lparr>system_active := True\<rparr>))"
proof -
  have s: "same_manager TRANSITION_ACTIVATE m m'" using all_nodes_same[of TRANSITION_ACTIVATE m G False] assms(1) by simp
  show ?thesis using assms(2) activated_bonds[OF assms(1)] same_managerD[OF s]
    by (auto simp: serving_def manager_inv_def createBondTimer_def)
qed

lemma transition_distinct [simp]:
  "TRANSITION_CONFIGURE \<noteq> TRANSITION_DEACTIVATE" "TRANSITION_ACTIVATE \<noteq> TRANSITION_DEACTIVATE" "TRANSITION_CLEANUP \<noteq> TRANSITION_DEACTIVATE"
  "TRANSITION_UNCONFIGURED_SHUTDOWN \<noteq> TRANSITION_DEACTIVATE"
  by (simp_all add: transition_defs)

lemma resume_serving:
  assumes "serving m"
  shows "only_blocks (fst (resume G m)) \<and> serving (snd (resume G m))"
  unfolding resume_def using assms
  by (intro act_bind_keeps[where P = serving]) (auto simp: all_nodes_serving intro: active_serving)

text \<open>Starting is configuring and then what resuming does.\<close>

lemma startup_resume:
  "startup G = act_bind (changeStateForAllNodes G TRANSITION_CONFIGURE False) (\<lambda>configured m1.
     if \<not> configured then (Inr False, m1) else resume G m1)"
  unfolding startup_def resume_def ..

lemma startup_serving:
  assumes "serving m"
  shows "only_blocks (fst (startup G m)) \<and> serving (snd (startup G m))"
  unfolding startup_resume using assms
  by (intro act_bind_keeps[where P = serving]) (simp_all add: all_nodes_serving resume_serving)

definition stopped :: "'w LifecycleManager \<Rightarrow> bool" where
  "stopped m \<longleftrightarrow> serving m \<and> \<not> system_active m"

lemma stopped_serving: "stopped m \<Longrightarrow> serving m"
  by (simp add: stopped_def)

lemma all_nodes_stopped:
  "stopped m \<Longrightarrow> only_blocks (fst (changeStateForAllNodes G tr hard m)) \<and> stopped (snd (changeStateForAllNodes G tr hard m))"
  using all_nodes_serving[of m tr G hard] by (simp add: stopped_def)

lemma stop_system: "serving m \<Longrightarrow> stopped (destroyBondTimer (m\<lparr>system_active := False\<rparr>))"
  by (simp add: stopped_def serving_def manager_inv_def destroyBondTimer_def)

lemma all_nodes_return:
  assumes "stopped m"
  shows "only_blocks (fst (act_bind (changeStateForAllNodes G tr hard) (\<lambda>b m'. (Inr (f b), m')) m)) \<and>
    stopped (snd (act_bind (changeStateForAllNodes G tr hard) (\<lambda>b m'. (Inr (f b), m')) m))"
  using assms by (intro act_bind_keeps[where P = stopped]) (simp_all add: all_nodes_stopped)

lemma reset_stopped:
  assumes "serving m"
  shows "only_blocks (fst (reset G hard m)) \<and> stopped (snd (reset G hard m))"
  unfolding reset_def using stop_system[OF assms]
  by (intro act_bind_keeps[where P = stopped]) (simp_all add: all_nodes_stopped all_nodes_return)

lemma pause_stopped: "serving m \<Longrightarrow> only_blocks (fst (pause G m)) \<and> stopped (snd (pause G m))"
  unfolding pause_def using all_nodes_stopped[OF stop_system] by blast

lemma manage_serving:
  assumes "serving m" "command \<noteq> SHUTDOWN"
  shows "only_blocks (fst (managerCallback G command m)) \<and> serving (snd (managerCallback G command m))"
  using assms unfolding managerCallback_def
  by (simp add: startup_serving resume_serving reset_stopped pause_stopped stopped_serving)

lemma bond_failure_serving:
  assumes "serving m"
  shows "only_blocks (fst (bond_failure G m)) \<and> serving (snd (bond_failure G m))"
  unfolding bond_failure_def using reset_stopped[OF assms, of G True]
  by (intro act_bind_keeps[where P = stopped])
    (auto simp: stopped_def serving_def manager_inv_def Let_def clear_bonds_def)

lemma check_bonds_serving:
  assumes "serving m" "set ns \<subseteq> set (bond_map m)"
  shows "only_blocks (fst (check_bonds G ns m)) \<and> serving (snd (check_bonds G ns m))"
  using assms by (induction ns) (simp_all add: bond_failure_serving)

lemma count_live_serving:
  assumes "serving m" "set ns \<subseteq> set (node_map m)"
  shows "only_blocks (fst (count_live G ns k m)) \<and> serving (snd (count_live G ns k m))"
  using assms
proof (induction ns arbitrary: m k)
  case Nil
  then show ?case by simp
next
  case (Cons n ns)
  obtain r w where g: "get_state G n 2 (world m) = (r, w)" by fastforce
  have "serving (m\<lparr>world := w\<rparr>)" using Cons.prems(1) by (simp add: serving_def manager_inv_def)
  moreover have "e = Blocked \<or> (\<exists>t. e = Thrown t)" if "r = Inl e" for e using get_state_fails[of G n 2 "world m" e] g that by simp
  ultimately show ?case using g Cons.prems Cons.IH[of "m\<lparr>world := w\<rparr>"]
    by (cases r) (auto simp: on_world_def split: ub.splits)
qed

lemma act_bind_unit:
  "only_blocks (fst (a m)) \<and> P (snd (a m)) \<Longrightarrow>
    only_blocks (fst (act_bind a (\<lambda>_ m'. (Inr (), m')) m)) \<and> P (snd (act_bind a (\<lambda>_ m'. (Inr (), m')) m))"
  by (rule act_bind_keeps[where P = P]) simp_all

lemma respawn_serving:
  assumes "serving m"
  shows "only_blocks (fst (checkBondRespawnConnection G m)) \<and> serving (snd (checkBondRespawnConnection G m))"
proof -
  let ?m = "if bond_respawn_start_time m = 0 then m\<lparr>bond_respawn_start_time := g_now G (world m)\<rparr> else m"
  have m: "serving ?m" "set (node_names ?m) \<subseteq> set (node_map ?m)" using assms by (simp_all add: serving_def manager_inv_def)
  have e: "serving (end_respawn m')" if "serving m'" for m' :: "'a LifecycleManager"
    using that by (simp add: end_respawn_def serving_def manager_inv_def)
  have "only_blocks (fst (act_bind (startup G) (\<lambda>_ m'. (Inr (), m')) (end_respawn m'))) \<and>
      serving (snd (act_bind (startup G) (\<lambda>_ m'. (Inr (), m')) (end_respawn m')))" if "serving m'" for m'
    by (rule act_bind_unit[where P = serving and a = "startup G"]) (rule startup_serving[OF e[OF that]])
  then show ?thesis unfolding checkBondRespawnConnection_def Let_def using e m count_live_serving[OF m]
    by (cases "system_active ?m \<or> \<not> g_ok G (world ?m) \<or> node_names ?m = []")
      (simp_all only: if_True if_False fst_conv snd_conv only_blocks_simps simp_thms,
        intro act_bind_keeps[where P = serving], auto split: option.split)
qed

lemma client_fails: "fst (LifecycleServiceClient G n k w) = Inl e \<Longrightarrow> e = Blocked"
  by (induction k arbitrary: w) (auto split: prod.splits bool.splits)

lemma create_clients_spec:
  "only_blocks (fst (create_clients G ns m)) \<and>
   (\<exists>w k. snd (create_clients G ns m) = m\<lparr>world := w, node_map := k\<rparr> \<and>
     (fst (create_clients G ns m) = Inr () \<longrightarrow> set k = set ns \<union> set (node_map m)))"
proof (induction ns arbitrary: m)
  case Nil
  show ?case by (intro conjI exI[of _ "world m"] exI[of _ "node_map m"]) simp_all
next
  case (Cons n ns)
  obtain r w where c: "LifecycleServiceClient G n (g_patience G) (world m) = (r, w)" by fastforce
  show ?case
  proof (cases r)
    case (Inl e)
    then have "e = Blocked" using client_fails[of G n "g_patience G" "world m" e] c by simp
    then show ?thesis using c Inl by (intro conjI exI[of _ w] exI[of _ "node_map m"]) (simp_all add: act_bind_def on_world_def)
  next
    case (Inr u)
    let ?m = "m\<lparr>world := w, node_map := n # node_map m\<rparr>"
    have "create_clients G (n # ns) m = create_clients G ns ?m" using c Inr by (simp add: act_bind_def on_world_def)
    then show ?thesis using Cons.IH[of ?m] by auto
  qed
qed

lemma init_inv:
  assumes "manager_inv m" "\<not> service_thread m"
  shows "only_blocks (fst (init_callback G m)) \<and> manager_inv (snd (init_callback G m))"
proof -
  let ?c = "createLifecycleServiceClients G (m\<lparr>init_timer := False\<rparr>)"
  obtain w k where c: "only_blocks (fst ?c)" "snd ?c = m\<lparr>init_timer := False, world := w, node_map := k\<rparr>"
      "fst ?c = Inr () \<longrightarrow> set (node_names m) \<subseteq> set k"
    using create_clients_spec[of G "node_names m" "m\<lparr>init_timer := False\<rparr>"] by (auto simp: createLifecycleServiceClients_def)
  then show ?thesis using assms by (cases ?c) (auto simp: init_callback_def act_bind_def manager_inv_def split: sum.splits)
qed

fun no_shutdown :: "'w manager_event \<Rightarrow> bool" where
  "no_shutdown (Manage command) = (command \<noteq> SHUTDOWN)"
| "no_shutdown ev = True"

lemma serving_timers [simp]:
  "serving (m\<lparr>startup_timer := b\<rparr>) = serving m" "serving (m\<lparr>bond_respawn_timer := b\<rparr>) = serving m"
  by (simp_all add: serving_def manager_inv_def)

lemma serving_step:
  assumes "serving m" "no_shutdown ev" "ev \<noteq> Preshutdown"
  shows "only_blocks (fst (manager_step G ev m)) \<and> serving (snd (manager_step G ev m))"
proof (cases ev)
  case InitTimer
  then show ?thesis using assms(1) by (simp add: serving_def manager_inv_def)
next
  case StartupTimer
  have "serving (m\<lparr>startup_timer := False\<rparr>)" using assms(1) by simp
  then have "only_blocks (fst (act_bind (startup G) (\<lambda>_ m'. (Inr (), m')) (m\<lparr>startup_timer := False\<rparr>))) \<and>
      serving (snd (act_bind (startup G) (\<lambda>_ m'. (Inr (), m')) (m\<lparr>startup_timer := False\<rparr>)))"
    by (intro act_bind_unit startup_serving)
  then show ?thesis using assms(1) by (simp add: StartupTimer)
next
  case BondTimer
  have "set (node_names m) \<subseteq> set (bond_map m)" if "system_active m" "bond_timer m"
    using that assms(1) by (simp add: serving_def manager_inv_def)
  then show ?thesis using assms(1) check_bonds_serving[of m "node_names m" G] by (simp add: BondTimer checkBondConnections_def)
next
  case RespawnTimer
  then show ?thesis using assms(1) respawn_serving[of m G] by simp
next
  case (Manage command)
  then show ?thesis using assms act_bind_unit[where P = serving and a = "managerCallback G command"] manage_serving[of m command G] by simp
next
  case (Elsewhere w)
  then show ?thesis using assms(1) by (simp add: serving_def manager_inv_def)
qed (use assms(3) in simp)

lemma step_inv:
  assumes "manager_inv m" "no_shutdown ev"
  shows "only_blocks (fst (manager_step G ev m)) \<and> manager_inv (snd (manager_step G ev m))"
proof (cases "service_thread m \<and> ev \<noteq> Preshutdown")
  case True
  then show ?thesis using serving_step[of m ev G] assms by (simp add: serving_def)
next
  case False
  then show ?thesis using assms(1) init_inv[of m G]
    by (cases ev) (auto simp: onRclPreshutdown_def clear_bonds_def destroyBondTimer_def manager_inv_def)
qed

lemma run_inv:
  assumes "manager_inv m" "list_all no_shutdown evs"
  shows "only_blocks (fst (manager_run G evs m)) \<and> manager_inv (snd (manager_run G evs m))"
  using assms
proof (induction evs arbitrary: m)
  case Nil
  then show ?case by simp
next
  case (Cons ev evs)
  have "only_blocks (fst (manager_step G ev m))" "manager_inv (snd (manager_step G ev m))"
    using step_inv[of m ev G] Cons.prems by simp_all
  then show ?case using Cons.IH Cons.prems(2) by (simp, intro act_bind_keeps[where P = manager_inv]) auto
qed

section \<open>States of the nodes\<close>

text \<open>
  What the services and bonds do to the states \<open>st\<close> of the nodes, from which nothing else takes them while the
  manager works: a request to change the state reaches only the node it is addressed to, a request for the state tells it, and nothing
  else changes it.
\<close>

definition nodes_ok :: "'w Graph \<Rightarrow> ('w \<Rightarrow> string \<Rightarrow> u8) \<Rightarrow> bool" where
  "nodes_ok G st \<longleftrightarrow>
     (\<forall>srv t w. st (snd (g_wait G srv t w)) = st w) \<and>
     (\<forall>n t w. st (snd (g_get G n t w)) = st w \<and> (\<forall>s. fst (g_get G n t w) = SpinSuccess s \<longrightarrow> s = st w n)) \<and>
     (\<forall>n tr w k. k \<noteq> n \<longrightarrow> st (snd (g_change G n tr w)) k = st w k) \<and>
     (\<forall>n t w. st (snd (g_bond_start G n t w)) = st w) \<and> (\<forall>n w. st (g_bond_end G n w) = st w)"

lemma nodes_okD:
  assumes "nodes_ok G st"
  shows "g_wait G srv t w = (b, w') \<Longrightarrow> st w' = st w" "g_get G n t w = (r, w') \<Longrightarrow> st w' = st w"
    "g_get G n t w = (SpinSuccess s, w') \<Longrightarrow> s = st w n" "k \<noteq> n \<Longrightarrow> g_change G n tr w = (q, w') \<Longrightarrow> st w' k = st w k"
    "g_bond_start G n t w = (b, w') \<Longrightarrow> st w' = st w" "st (g_bond_end G n w) = st w"
  using assms unfolding nodes_ok_def by (metis fst_conv snd_conv)+

lemma await_state:
  assumes "nodes_ok G st"
  shows "await_service G srv n w = (r, w') \<Longrightarrow> st w' = st w"
proof (induction n arbitrary: w)
  case (Suc n)
  then show ?case using nodes_okD(1)[OF assms] by (auto split: prod.splits bool.splits if_splits)
qed simp

lemma change_state_frame:
  assumes "nodes_ok G st" "change_state G n tr w = (r, w')" "k \<noteq> n"
  shows "st w' k = st w k"
  using assms(2) nodes_okD(1)[OF assms(1)] await_state[OF assms(1)] nodes_okD(4)[OF assms(1,3)]
  unfolding change_state_def invoke_flag_def act_bind_def
  by (auto split: prod.splits bool.splits sum.splits spin.splits)

lemma get_state_frame:
  assumes "nodes_ok G st" "get_state G n t w = (r, w')"
  shows "st w' = st w" "r = Inr s \<Longrightarrow> s = st w n"
  using assms(2) nodes_okD(1-3)[OF assms(1)] await_state[OF assms(1)]
  unfolding get_state_def invoke_def act_bind_def
  by (auto split: prod.splits bool.splits sum.splits spin.splits) metis

lemma bond_state:
  assumes "nodes_ok G st"
  shows "createBondConnection G n m = (b, m') \<Longrightarrow> st (world m') = st (world m)" "st (world (erase_bond G n m)) = st (world m)"
    "st (world (clear_bonds G m)) = st (world m)"
proof -
  show "createBondConnection G n m = (b, m') \<Longrightarrow> st (world m') = st (world m)"
    using nodes_okD(5)[OF assms] by (auto simp: createBondConnection_def split: if_splits prod.splits)
  show "st (world (erase_bond G n m)) = st (world m)" using nodes_okD(6)[OF assms] by (simp add: erase_bond_def)
  have "st (fold (g_bond_end G) ns w) = st w" for ns w using nodes_okD(6)[OF assms] by (induction ns arbitrary: w) simp_all
  then show "st (world (clear_bonds G m)) = st (world m)" by (simp add: clear_bonds_def)
qed

lemma visit_frame:
  assumes "nodes_ok G st" "k \<noteq> n"
  shows "st (world (snd (changeStateForNode G tr n m))) k = st (world m) k"
proof -
  obtain r1 w1 where c: "change_state G n tr (world m) = (r1, w1)" by fastforce
  obtain r2 w2 where g: "get_state G n 2 w1 = (r2, w2)" by fastforce
  obtain b m3 where b: "createBondConnection G n (m\<lparr>world := w2\<rparr>) = (b, m3)" by fastforce
  have s: "st w1 k = st (world m) k" "st w2 = st w1" "st (world m3) = st w2"
    using change_state_frame[OF assms(1) c assms(2)] get_state_frame(1)[OF assms(1) g] bond_state(1)[OF assms(1) b] by simp_all
  show ?thesis using c g b s bond_state(2)[OF assms(1), of n "m\<lparr>world := w2\<rparr>"]
    by (cases r1; cases r2) (simp_all add: changeStateForNode_def act_bind_def on_world_def)
qed

lemma visit_state:
  assumes "nodes_ok G st" "changeStateForNode G tr n m = (Inr True, m')"
  shows "st (world m') n = transition_state_map tr"
  using assms(2)
proof (rule changeStateForNode_True)
  fix w1 w2
  assume g: "get_state G n 2 w1 = (Inr (transition_state_map tr), w2)" and
    "tr = TRANSITION_ACTIVATE \<and> createBondConnection G n (m\<lparr>world := w2\<rparr>) = (True, m') \<or>
     tr = TRANSITION_DEACTIVATE \<and> m' = erase_bond G n (m\<lparr>world := w2\<rparr>) \<or>
     tr \<noteq> TRANSITION_ACTIVATE \<and> tr \<noteq> TRANSITION_DEACTIVATE \<and> m' = m\<lparr>world := w2\<rparr>"
  then have "st (world m') = st w2" using bond_state[OF assms(1)] by auto
  then show ?thesis using get_state_frame[OF assms(1) g] by simp
qed

lemma all_nodes_state:
  assumes "nodes_ok G st" "changeStateForAllNodes G tr False m = (Inr True, m')"
  shows "\<forall>n \<in> set (node_names m). st (world m') n = transition_state_map tr"
proof -
  let ?post = "\<lambda>n m :: 'a LifecycleManager. st (world m) n = transition_state_map tr"
  have "?post n s'" if "changeStateForNode G tr k s = (Inr True, s')" "?post n s" for n k s s'
    using that visit_state[OF assms(1) that(1)] visit_frame[OF assms(1), of n k tr s] by (cases "n = k") simp_all
  then show ?thesis
    using nv.sweep_post[where post = ?post and s = m and s' = m'] visit_state[OF assms(1)] assms(2)
    unfolding changeStateForAllNodes_def by (metis set_visit_order)
qed

text \<open>The states in which a successful command leaves the nodes.\<close>

definition command_state :: "u8 \<Rightarrow> u8" where
  "command_state command =
    (if command = PAUSE_NODES then STATE_INACTIVE else if command = RESET then STATE_UNCONFIGURED else STATE_ACTIVE)"

definition bonded :: "'w LifecycleManager \<Rightarrow> bool" where
  "bonded m \<longleftrightarrow> (0 < bond_timeout m \<longrightarrow> set (node_names m) \<subseteq> set (bond_map m))"

lemma act_bind_True:
  "act_bind a (\<lambda>b m1. if \<not> b then (Inr False, m1) else f m1) m = (Inr True, m') \<longleftrightarrow> (\<exists>m1. a m = (Inr True, m1) \<and> f m1 = (Inr True, m'))"
  by (auto simp: act_bind_def split: prod.splits sum.splits)

lemma createBondTimer_fields [simp]:
  "world (createBondTimer m) = world m" "node_names (createBondTimer m) = node_names m" "bond_map (createBondTimer m) = bond_map m"
  "bond_timeout (createBondTimer m) = bond_timeout m" "system_active (createBondTimer m) = system_active m"
  "node_map (createBondTimer m) = node_map m" "service_thread (createBondTimer m) = service_thread m"
  by (simp_all add: createBondTimer_def)

lemma destroyBondTimer_fields [simp]:
  "world (destroyBondTimer m) = world m" "node_names (destroyBondTimer m) = node_names m" "bond_map (destroyBondTimer m) = bond_map m"
  "bond_timeout (destroyBondTimer m) = bond_timeout m" "system_active (destroyBondTimer m) = system_active m"
  "node_map (destroyBondTimer m) = node_map m" "service_thread (destroyBondTimer m) = service_thread m"
  "bond_respawn_timer (destroyBondTimer m) = bond_respawn_timer m"
  by (simp_all add: destroyBondTimer_def)

lemma all_nodes_fields:
  assumes "changeStateForAllNodes G tr hard m = (r, m')"
  shows "node_names m' = node_names m" "node_map m' = node_map m" "system_active m' = system_active m" "bond_timeout m' = bond_timeout m"
    "bond_respawn_timer m' = bond_respawn_timer m" "service_thread m' = service_thread m"
    "attempt_respawn_reconnection m' = attempt_respawn_reconnection m"
  using same_managerD[OF all_nodes_same[of tr m G hard]] assms by simp_all

lemma resume_True:
  assumes "nodes_ok G st" "resume G m = (Inr True, m')"
  shows "(\<forall>n \<in> set (node_names m). st (world m') n = STATE_ACTIVE) \<and> system_active m' \<and> bonded m' \<and> node_names m' = node_names m \<and>
    node_map m' = node_map m"
proof -
  obtain m1 where a: "changeStateForAllNodes G TRANSITION_ACTIVATE False m = (Inr True, m1)"
      and m': "m' = createBondTimer (m1\<lparr>system_active := True\<rparr>)"
    using assms(2) unfolding resume_def act_bind_True by auto
  then show ?thesis using all_nodes_state[OF assms(1) a] all_nodes_fields[OF a] activated_bonds[OF a]
    by (simp add: bonded_def transition_state_map_def transition_defs)
qed

lemma reset_False:
  "reset G False m = act_bind (changeStateForAllNodes G TRANSITION_DEACTIVATE False) (\<lambda>deactivated m1.
     if \<not> deactivated then (Inr False, m1) else changeStateForAllNodes G TRANSITION_CLEANUP False m1)
     (destroyBondTimer (m\<lparr>system_active := False\<rparr>))"
proof -
  have h: "act_bind (changeStateForAllNodes G TRANSITION_CLEANUP False) (\<lambda>cleaned m2. (Inr (cleaned \<or> False), m2)) =
      changeStateForAllNodes G TRANSITION_CLEANUP False"
    by (rule ext) (auto simp: act_bind_def split: prod.split sum.split)
  show ?thesis unfolding reset_def h ..
qed

lemma command_True:
  assumes "nodes_ok G st" "command \<noteq> SHUTDOWN" "managerCallback G command m = (Inr True, m')"
  shows "(\<forall>n \<in> set (node_names m). st (world m') n = command_state command) \<and>
    system_active m' = (command = STARTUP \<or> command = RESUME) \<and> (system_active m' \<longrightarrow> bonded m') \<and> node_names m' = node_names m \<and>
    node_map m' = node_map m"
proof -
  consider "command = STARTUP" "startup G m = (Inr True, m')" | "command = RESET" "reset G False m = (Inr True, m')"
    | "command = PAUSE_NODES" "pause G m = (Inr True, m')" | "command = RESUME" "resume G m = (Inr True, m')"
    using assms(2,3) unfolding managerCallback_def by (auto split: if_splits)
  then show ?thesis
  proof cases
    case 1
    then obtain m1 where c: "changeStateForAllNodes G TRANSITION_CONFIGURE False m = (Inr True, m1)" "resume G m1 = (Inr True, m')"
      unfolding startup_resume act_bind_True by auto
    then show ?thesis using resume_True[OF assms(1) c(2)] all_nodes_fields[OF c(1)] 1(1) by (simp add: command_state_def command_defs)
  next
    case 2
    let ?m = "destroyBondTimer (m\<lparr>system_active := False\<rparr>)"
    obtain m1 where c: "changeStateForAllNodes G TRANSITION_DEACTIVATE False ?m = (Inr True, m1)"
        "changeStateForAllNodes G TRANSITION_CLEANUP False m1 = (Inr True, m')"
      using 2(2) unfolding reset_False act_bind_True by auto
    then show ?thesis using all_nodes_state[OF assms(1) c(2)] all_nodes_fields[OF c(1)] all_nodes_fields[OF c(2)] 2(1)
      by (simp add: command_state_def command_defs transition_state_map_def transition_defs)
  next
    case 3
    let ?m = "destroyBondTimer (m\<lparr>system_active := False\<rparr>)"
    have c: "changeStateForAllNodes G TRANSITION_DEACTIVATE False ?m = (Inr True, m')" using 3(2) by (simp add: pause_def)
    show ?thesis using all_nodes_state[OF assms(1) c] all_nodes_fields[OF c] 3(1)
      by (simp add: command_state_def command_defs transition_state_map_def transition_defs)
  next
    case 4
    then show ?thesis using resume_True[OF assms(1) 4(2)] by (simp add: command_state_def command_defs)
  qed
qed

section \<open>Nodes that obey\<close>

text \<open>
  The life cycle of a managed node as ROS documents it: a transition that is allowed in the current state leads to
  its target, any other is refused and changes nothing. Nodes that obey are up, answer, make every allowed
  transition and form their bonds.
\<close>

definition allowed :: "u8 \<Rightarrow> u8 \<Rightarrow> bool" where
  "allowed s transition \<longleftrightarrow>
     transition = TRANSITION_CONFIGURE \<and> s = STATE_UNCONFIGURED \<or> transition = TRANSITION_CLEANUP \<and> s = STATE_INACTIVE \<or>
     transition = TRANSITION_ACTIVATE \<and> s = STATE_INACTIVE \<or> transition = TRANSITION_DEACTIVATE \<and> s = STATE_ACTIVE \<or>
     transition = TRANSITION_UNCONFIGURED_SHUTDOWN \<and> s = STATE_UNCONFIGURED"

definition next_state :: "u8 \<Rightarrow> u8 \<Rightarrow> u8" where
  "next_state s transition = (if allowed s transition then transition_state_map transition else s)"

definition nodes_obey :: "'w Graph \<Rightarrow> ('w \<Rightarrow> string \<Rightarrow> u8) \<Rightarrow> bool" where
  "nodes_obey G st \<longleftrightarrow> nodes_ok G st \<and> 0 < g_patience G \<and> (\<forall>w. g_ok G w) \<and> (\<forall>srv t w. fst (g_wait G srv t w)) \<and>
     (\<forall>n tr w. (\<exists>b. fst (g_change G n tr w) = SpinSuccess b) \<and> st (snd (g_change G n tr w)) n = next_state (st w n) tr) \<and>
     (\<forall>n t w. fst (g_get G n t w) = SpinSuccess (st w n)) \<and> (\<forall>n t w. fst (g_bond_start G n t w))"

lemma obey_ok: "nodes_obey G st \<Longrightarrow> nodes_ok G st"
  by (simp add: nodes_obey_def)

lemma obey_wait:
  assumes "nodes_obey G st"
  obtains w' where "g_wait G srv t w = (True, w')" "st w' = st w"
  using assms nodes_okD(1)[OF obey_ok[OF assms]] unfolding nodes_obey_def by (metis (full_types) prod.collapse)

lemma obey_await:
  assumes "nodes_obey G st"
  obtains w' where "await_service G srv (g_patience G) w = (Inr (), w')" "st w' = st w"
proof -
  obtain p where p: "g_patience G = Suc p" using assms unfolding nodes_obey_def by (auto simp: gr0_conv_Suc)
  obtain w' where "g_wait G srv 1 w = (True, w')" "st w' = st w" using obey_wait[OF assms] .
  then show ?thesis using that p by simp
qed

lemma obey_change:
  assumes "nodes_obey G st"
  obtains w' where "change_state G n tr w = (Inr True, w')" "st w' = (st w)(n := next_state (st w n) tr)"
proof -
  obtain w1 where w1: "g_wait G (change_service n) 5 w = (True, w1)" "st w1 = st w" using obey_wait[OF assms] .
  obtain w2 where w2: "await_service G (change_service n) (g_patience G) w1 = (Inr (), w2)" "st w2 = st w1" using obey_await[OF assms] .
  obtain b w3 where w3: "g_change G n tr w2 = (SpinSuccess b, w3)" "st w3 n = next_state (st w2 n) tr"
    using assms unfolding nodes_obey_def by (metis prod.collapse)
  have "st w3 = (st w)(n := next_state (st w n) tr)"
    using nodes_okD(4)[OF obey_ok[OF assms] _ w3(1)] w1(2) w2(2) w3(2) by (auto simp: fun_eq_iff)
  then show ?thesis using that w1 w2 w3 by (simp add: change_state_def invoke_flag_def act_bind_def)
qed

lemma obey_get:
  assumes "nodes_obey G st"
  obtains w' where "get_state G n t w = (Inr (st w n), w')" "st w' = st w"
proof -
  obtain w1 where w1: "g_wait G (get_service n) t w = (True, w1)" "st w1 = st w" using obey_wait[OF assms] .
  obtain w2 where w2: "await_service G (get_service n) (g_patience G) w1 = (Inr (), w2)" "st w2 = st w1" using obey_await[OF assms] .
  obtain w3 where w3: "g_get G n t w2 = (SpinSuccess (st w2 n), w3)" using assms unfolding nodes_obey_def by (metis prod.collapse)
  show ?thesis using that w1 w2 w3 nodes_okD(2)[OF obey_ok[OF assms] w3] by (simp add: get_state_def invoke_def act_bind_def)
qed

lemma obey_visit:
  assumes "nodes_obey G st" "n \<in> set (node_map m)"
  shows "\<exists>m'. changeStateForNode G tr n m = (Inr (next_state (st (world m) n) tr = transition_state_map tr), m') \<and>
    st (world m') = (st (world m))(n := next_state (st (world m) n) tr)"
proof -
  obtain w1 where w1: "change_state G n tr (world m) = (Inr True, w1)" "st w1 = (st (world m))(n := next_state (st (world m) n) tr)"
    using obey_change[OF assms(1)] .
  obtain w2 where w2: "get_state G n 2 w1 = (Inr (st w1 n), w2)" "st w2 = st w1" using obey_get[OF assms(1)] .
  obtain b m3 where b: "createBondConnection G n (m\<lparr>world := w2\<rparr>) = (b, m3)" by fastforce
  have "b" using b assms(1) by (auto simp: createBondConnection_def nodes_obey_def split: prod.splits if_splits) (metis fst_conv)
  moreover have "st (world m3) = st w2" using bond_state(1)[OF obey_ok[OF assms(1)] b] by simp
  ultimately show ?thesis using w1 w2 b assms(2) bond_state(2)[OF obey_ok[OF assms(1)], of n "m\<lparr>world := w2\<rparr>"]
    by (simp add: changeStateForNode_def act_bind_def on_world_def)
qed

lemma distinct_visit_order [simp]: "distinct (visit_order tr ns) = distinct ns"
  by (simp add: visit_order_def)

lemma obey_all_nodes:
  assumes "nodes_obey G st" "set (node_names m) \<subseteq> set (node_map m)" "distinct (node_names m)"
    and "\<forall>n \<in> set (node_names m). next_state (st (world m) n) tr = transition_state_map tr"
  obtains m' where "changeStateForAllNodes G tr hard m = (Inr True, m')"
proof -
  let ?ready = "\<lambda>n m :: 'a LifecycleManager. next_state (st (world m) n) tr = transition_state_map tr"
  have "fst (changeStateForNode G tr n s) = Inr True" if "n \<in> set (node_map s)" "?ready n s" for n s
    using obey_visit[OF assms(1) that(1), of tr] that(2) by auto
  moreover have "?ready n (snd (changeStateForNode G tr k s))" if "k \<noteq> n" "?ready n s" for n k s
    using visit_frame[OF obey_ok[OF assms(1)], of n k tr s] that by simp
  ultimately have "fst (changeStateForAllNodes G tr hard m) = Inr True"
    unfolding changeStateForAllNodes_def
    using nv.sweep_succeeds[where ready = ?ready and ns = "visit_order tr (node_names m)" and s = m] assms(2-4) by simp
  then show ?thesis using that by (metis prod.collapse)
qed

text \<open>All nodes have a client and are in the state \<open>s\<close>.\<close>

definition nodes_in :: "('w \<Rightarrow> string \<Rightarrow> u8) \<Rightarrow> u8 \<Rightarrow> 'w LifecycleManager \<Rightarrow> bool" where
  "nodes_in st s m \<longleftrightarrow> set (node_names m) \<subseteq> set (node_map m) \<and> distinct (node_names m) \<and> (\<forall>n \<in> set (node_names m). st (world m) n = s)"

lemma obey_transition:
  assumes "nodes_obey G st" "nodes_in st s m" "next_state s tr = transition_state_map tr"
  obtains m' where "changeStateForAllNodes G tr False m = (Inr True, m')" "nodes_in st (transition_state_map tr) m'"
proof -
  obtain m' where m': "changeStateForAllNodes G tr False m = (Inr True, m')"
    using obey_all_nodes[OF assms(1), of m tr False] assms(2,3) unfolding nodes_in_def by auto
  then have "nodes_in st (transition_state_map tr) m'"
    using all_nodes_state[OF obey_ok[OF assms(1)] m'] all_nodes_fields[OF m'] assms(2) unfolding nodes_in_def by simp
  then show ?thesis using that m' by blast
qed

lemma nodes_in_stop [simp]: "nodes_in st s (destroyBondTimer (m\<lparr>system_active := False\<rparr>)) = nodes_in st s m"
  by (simp add: nodes_in_def)

lemmas life_cycle_defs = next_state_def allowed_def transition_state_map_def transition_defs state_defs

text \<open>The system as its users see it: a single state that the commands change.\<close>

definition accepts :: "u8 \<Rightarrow> u8 \<Rightarrow> bool" where
  "accepts s command \<longleftrightarrow>
     (command = STARTUP \<and> s \<in> {STATE_UNCONFIGURED, STATE_INACTIVE}) \<or>
     (command \<in> {PAUSE_NODES, RESUME, RESET} \<and> s \<in> {STATE_INACTIVE, STATE_ACTIVE})"

fun system_run :: "u8 \<Rightarrow> u8 list \<Rightarrow> u8 option" where
  "system_run s [] = Some s"
| "system_run s (command # commands) = (if accepts s command then system_run (command_state command) commands else None)"

text \<open>Commands one after the other, as long as they succeed.\<close>

fun requests :: "'w Graph \<Rightarrow> u8 list \<Rightarrow> ('w LifecycleManager, bool) act" where
  "requests G [] m = (Inr True, m)"
| "requests G (command # commands) m =
    act_bind (managerCallback G command) (\<lambda>success m'. if \<not> success then (Inr False, m') else requests G commands m') m"

lemma obey_resume:
  assumes "nodes_obey G st" "nodes_in st s m" "s = STATE_INACTIVE \<or> s = STATE_ACTIVE"
  obtains m' where "resume G m = (Inr True, m')"
proof -
  have "next_state s TRANSITION_ACTIVATE = transition_state_map TRANSITION_ACTIVATE" using assms(3) by (auto simp: life_cycle_defs)
  then obtain m1 where "changeStateForAllNodes G TRANSITION_ACTIVATE False m = (Inr True, m1)"
    using obey_transition[OF assms(1,2)] by blast
  then have "resume G m = (Inr True, createBondTimer (m1\<lparr>system_active := True\<rparr>))" by (simp add: resume_def act_bind_def)
  then show ?thesis using that by blast
qed

lemma obey_command:
  assumes "nodes_obey G st" "nodes_in st s m" "accepts s command"
  obtains m' where "managerCallback G command m = (Inr True, m')"
proof -
  let ?m = "destroyBondTimer (m\<lparr>system_active := False\<rparr>)"
  have step: "\<exists>m1. changeStateForAllNodes G tr False m0 = (Inr True, m1) \<and> nodes_in st (transition_state_map tr) m1"
    if "nodes_in st s m0" "next_state s tr = transition_state_map tr" for s tr m0
    using obey_transition[OF assms(1) that] by blast
  consider "command = STARTUP" "s = STATE_UNCONFIGURED \<or> s = STATE_INACTIVE"
    | "command = PAUSE_NODES" "s = STATE_INACTIVE \<or> s = STATE_ACTIVE" | "command = RESET" "s = STATE_INACTIVE \<or> s = STATE_ACTIVE"
    | "command = RESUME" "s = STATE_INACTIVE \<or> s = STATE_ACTIVE"
    using assms(3) unfolding accepts_def by blast
  then show ?thesis
  proof cases
    case 1
    then obtain m1 where c: "changeStateForAllNodes G TRANSITION_CONFIGURE False m = (Inr True, m1)" "nodes_in st STATE_INACTIVE m1"
      using step[OF assms(2), of TRANSITION_CONFIGURE] by (auto simp: life_cycle_defs)
    obtain m2 where "resume G m1 = (Inr True, m2)" using obey_resume[OF assms(1) c(2)] by blast
    then show ?thesis using that 1(1) c(1) by (simp add: managerCallback_def startup_resume act_bind_def)
  next
    case 2
    then obtain m1 where "changeStateForAllNodes G TRANSITION_DEACTIVATE False ?m = (Inr True, m1)"
      using step[of s ?m TRANSITION_DEACTIVATE] assms(2) by (auto simp: life_cycle_defs)
    then show ?thesis using that 2(1) by (simp add: managerCallback_def pause_def command_defs)
  next
    case 3
    then obtain m1 where c: "changeStateForAllNodes G TRANSITION_DEACTIVATE False ?m = (Inr True, m1)" "nodes_in st STATE_INACTIVE m1"
      using step[of s ?m TRANSITION_DEACTIVATE] assms(2) by (auto simp: life_cycle_defs)
    then obtain m2 where "changeStateForAllNodes G TRANSITION_CLEANUP False m1 = (Inr True, m2)"
      using step[OF c(2), of TRANSITION_CLEANUP] by (auto simp: life_cycle_defs)
    then show ?thesis using that 3(1) c(1) by (simp add: managerCallback_def reset_False act_bind_def command_defs)
  next
    case 4
    obtain m1 where "resume G m = (Inr True, m1)" using obey_resume[OF assms(1,2) 4(2)] .
    then show ?thesis using that 4(1) by (simp add: managerCallback_def command_defs)
  qed
qed

lemma accepted_command:
  assumes "nodes_obey G st" "nodes_in st s m" "accepts s command"
  obtains m' where "managerCallback G command m = (Inr True, m')" "nodes_in st (command_state command) m'"
    "system_active m' \<longleftrightarrow> command_state command = STATE_ACTIVE"
proof -
  obtain m' where m': "managerCallback G command m = (Inr True, m')" using obey_command[OF assms] .
  have "command \<noteq> SHUTDOWN" using assms(3) by (auto simp: accepts_def command_defs)
  from command_True[OF obey_ok[OF assms(1)] this m'] have "nodes_in st (command_state command) m'"
      "system_active m' \<longleftrightarrow> command = STARTUP \<or> command = RESUME"
    using assms(2) unfolding nodes_in_def by simp_all
  moreover have "command_state command = STATE_ACTIVE \<longleftrightarrow> command = STARTUP \<or> command = RESUME"
    using assms(3) by (auto simp: accepts_def command_state_def command_defs state_defs)
  ultimately show ?thesis using that m' by blast
qed

section \<open>A node that is gone\<close>

lemma sweep_stops:
  assumes "\<And>s. \<exists>e s'. visit k s = (Inl e, s')"
  shows "sweep visit hard (xs @ k # ys) s = sweep visit hard (xs @ [k]) s \<and> fst (sweep visit hard (xs @ [k]) s) \<noteq> Inr True"
proof (induction xs arbitrary: s)
  case Nil
  obtain e s' where "visit k s = (Inl e, s')" using assms by blast
  then show ?case by (auto split: ub.split)
next
  case (Cons x xs)
  then show ?case by (auto split: prod.split sum.split ub.split)
qed

lemma sweep_keeps:
  assumes "\<And>k s. k \<in> set ns \<Longrightarrow> P s \<Longrightarrow> P (snd (visit k s))"
  shows "P s \<Longrightarrow> P (snd (sweep visit hard ns s))"
  using assms
proof (induction ns arbitrary: s)
  case (Cons n ns)
  have "P (snd (visit n s))" using Cons.prems by simp
  then show ?case using Cons.IH Cons.prems(2) by (auto split: prod.split sum.split ub.split)
qed simp

lemma gone_visit:
  assumes "\<forall>t w. \<not> fst (g_wait G (change_service k) t w)"
  shows "\<exists>e m'. changeStateForNode G tr k m = (Inl e, m')"
proof -
  obtain w where "g_wait G (change_service k) 5 (world m) = (False, w)" using assms by (metis (full_types) prod.collapse)
  then show ?thesis by (simp add: changeStateForNode_def act_bind_def on_world_def change_state_def)
qed

lemma gone_all_nodes:
  assumes "nodes_ok G st" "\<forall>t w. \<not> fst (g_wait G (change_service k) t w)" "node_names m = n0 # ns" "k \<in> set ns" "n0 \<notin> set ns"
    and "changeStateForAllNodes G TRANSITION_DEACTIVATE hard m = (r, m')"
  shows "r \<noteq> Inr True" "st (world m') n0 = st (world m) n0"
proof -
  let ?v = "changeStateForNode G TRANSITION_DEACTIVATE"
  obtain xs ys where ns: "rev ns = xs @ k # ys" using assms(4) by (metis set_rev split_list)
  have "visit_order TRANSITION_DEACTIVATE (node_names m) = xs @ k # (ys @ [n0])"
    using assms(3) ns by (simp add: visit_order_def transition_defs)
  then have e: "changeStateForAllNodes G TRANSITION_DEACTIVATE hard m = sweep ?v hard (xs @ [k]) m"
      "fst (sweep ?v hard (xs @ [k]) m) \<noteq> Inr True"
    using sweep_stops[of ?v k hard xs "ys @ [n0]" m] gone_visit[OF assms(2)] unfolding changeStateForAllNodes_def by auto
  show "r \<noteq> Inr True" using e assms(6) by (metis fst_conv)
  have n0: "n0 \<notin> set (xs @ [k])" using ns assms(5) by (metis Un_iff append_Cons append_Nil append_assoc set_append set_rev)
  have "st (world (snd (?v j s))) n0 = st (world m) n0" if "j \<in> set (xs @ [k])" "st (world s) n0 = st (world m) n0" for j s
  proof -
    have "n0 \<noteq> j" using that(1) n0 by blast
    then show ?thesis using visit_frame[OF assms(1)] that(2) by metis
  qed
  then have "st (world (snd (sweep ?v hard (xs @ [k]) m))) n0 = st (world m) n0"
    using sweep_keeps[where P = "\<lambda>s. st (world s) n0 = st (world m) n0" and visit = ?v and ns = "xs @ [k]" and s = m] by blast
  then show "st (world m') n0 = st (world m) n0" using e assms(6) by (metis snd_conv)
qed

lemma check_bonds_broken:
  assumes "set ns \<subseteq> set (bond_map m)" "g_ok G (world m)" "\<exists>n \<in> set ns. g_bond_broken G n (world m)"
  shows "check_bonds G ns m = bond_failure G m"
  using assms by (induction ns) auto

lemma gone_failure:
  assumes "nodes_ok G st" "\<forall>t w. \<not> fst (g_wait G (change_service k) t w)" "node_names m = n0 # ns" "k \<in> set ns" "n0 \<notin> set ns"
    and "bond_failure G m = (Inr (), m1)"
  shows "st (world m1) n0 = st (world m) n0" "\<not> system_active m1" "node_names m1 = node_names m" "node_map m1 = node_map m"
    "attempt_respawn_reconnection m \<longrightarrow> bond_respawn_timer m1"
proof -
  let ?m = "destroyBondTimer (m\<lparr>system_active := False\<rparr>)"
  have a: "attempt_respawn_reconnection ?m = attempt_respawn_reconnection m" by (simp add: destroyBondTimer_def)
  obtain r m2 where c: "changeStateForAllNodes G TRANSITION_DEACTIVATE True ?m = (r, m2)" by fastforce
  have n: "node_names ?m = n0 # ns" using assms(3) by simp
  have s: "r \<noteq> Inr True" "st (world m2) n0 = st (world m) n0" using gone_all_nodes[OF assms(1,2) n assms(4,5) c] by simp_all
  obtain b where r: "r = Inr b" using assms(6) c by (cases r) (auto simp: bond_failure_def reset_def act_bind_def)
  let ?c = "clear_bonds G m2"
  have m1: "m1 = (if attempt_respawn_reconnection ?c then ?c\<lparr>bond_respawn_timer := True\<rparr> else ?c)"
    using assms(6) c r s(1) by (simp add: bond_failure_def reset_def act_bind_def Let_def)
  have "st (world ?c) = st (world m2)" by (rule bond_state(3)[OF assms(1)])
  then show "st (world m1) n0 = st (world m) n0" using m1 s(2) by simp
  show "\<not> system_active m1" "node_names m1 = node_names m" "node_map m1 = node_map m"
    "attempt_respawn_reconnection m \<longrightarrow> bond_respawn_timer m1"
    using m1 all_nodes_fields[OF c] a by (simp_all add: clear_bonds_def)
qed

lemma obey_live:
  assumes "nodes_obey G st"
  shows "set ns \<subseteq> set (node_map m) \<Longrightarrow> \<exists>w. count_live G ns k m = (Inr (Some (k + length ns)), m\<lparr>world := w\<rparr>) \<and> st w = st (world m)"
proof (induction ns arbitrary: k m)
  case Nil
  show ?case by (intro exI[of _ "world m"]) simp
next
  case (Cons n ns)
  obtain w1 where w1: "get_state G n 2 (world m) = (Inr (st (world m) n), w1)" "st w1 = st (world m)" using obey_get[OF assms] .
  have "g_ok G (world m)" using assms by (simp add: nodes_obey_def)
  then show ?case using Cons.IH[of "m\<lparr>world := w1\<rparr>" "Suc k"] Cons.prems w1 by (auto simp: on_world_def)
qed

text \<open>An active node cannot be configured: no start succeeds.\<close>

lemma active_node_startup:
  assumes "nodes_obey G st" "node_names m = n0 # ns" "n0 \<in> set (node_map m)" "st (world m) n0 = STATE_ACTIVE"
  shows "\<exists>m'. startup G m = (Inr False, m') \<and> st (world m') n0 = STATE_ACTIVE \<and> same_manager TRANSITION_CONFIGURE m m'"
proof -
  obtain m' where v: "changeStateForNode G TRANSITION_CONFIGURE n0 m = (Inr False, m')" "st (world m') n0 = STATE_ACTIVE"
    using obey_visit[OF assms(1,3), of TRANSITION_CONFIGURE] assms(4) by (auto simp: life_cycle_defs)
  then have "startup G m = (Inr False, m')"
    using assms(2) by (simp add: startup_def changeStateForAllNodes_def visit_order_def act_bind_def)
  then show ?thesis using v changeStateForNode_same[of TRANSITION_CONFIGURE m G n0] by simp
qed

section \<open>After a shutdown\<close>

lemma no_clients_fault:
  assumes "node_map m = []" "node_names m \<noteq> []"
  shows "changeStateForAllNodes G tr hard m = (Inl NullDereference, m)"
proof -
  obtain n ns where "visit_order tr (node_names m) = n # ns" using assms(2) by (cases "visit_order tr (node_names m)") (auto simp: visit_order_def split: if_splits)
  then show ?thesis using assms(1) by (simp add: changeStateForAllNodes_def changeStateForNode_def)
qed

lemma shutdown_fields:
  assumes "shutdown G m = (r, m')"
  shows "node_names m' = node_names m" "\<not> system_active m'" "bond_respawn_timer m' = bond_respawn_timer m" "service_thread m' = service_thread m"
    "r = Inr b \<Longrightarrow> b \<and> node_map m' = []"
proof -
  let ?m = "destroyBondTimer (m\<lparr>system_active := False\<rparr>)"
  let ?same = "\<lambda>m1. node_names m1 = node_names m \<and> \<not> system_active m1 \<and> bond_respawn_timer m1 = bond_respawn_timer m \<and>
    service_thread m1 = service_thread m"
  have step: "?same (snd (act_bind (changeStateForAllNodes G tr False) f s))" if "?same s" "\<And>x s. ?same s \<Longrightarrow> ?same (snd (f x s))" for tr f s
    using that all_nodes_fields[of G tr False s] by (cases "changeStateForAllNodes G tr False s") (auto simp: act_bind_def split: sum.split)
  have "?same (snd (shutdownAllNodes G ?m))" unfolding shutdownAllNodes_def by (intro step) auto
  then have "?same m' \<and> (\<forall>b. r = Inr b \<longrightarrow> b \<and> node_map m' = [])" using assms
    by (cases "shutdownAllNodes G ?m") (auto simp: shutdown_def act_bind_def destroyLifecycleServiceClients_def split: sum.splits)
  then show "node_names m' = node_names m" "\<not> system_active m'" "bond_respawn_timer m' = bond_respawn_timer m" "service_thread m' = service_thread m"
    "r = Inr b \<Longrightarrow> b \<and> node_map m' = []" by auto
qed

text \<open>Neither cleaning up nor shutting down touches a node that is active.\<close>

lemma keeps_active:
  assumes "nodes_obey G st" "tr = TRANSITION_CLEANUP \<or> tr = TRANSITION_UNCONFIGURED_SHUTDOWN"
    and "set (node_names m) \<subseteq> set (node_map m)" "\<forall>n \<in> A. st (world m) n = STATE_ACTIVE"
  obtains b m' where "changeStateForAllNodes G tr False m = (Inr b, m')" "\<forall>n \<in> A. st (world m') n = STATE_ACTIVE"
proof -
  let ?v = "changeStateForNode G tr"
  let ?P = "\<lambda>s. set (node_names m) \<subseteq> set (node_map s) \<and> (\<forall>n \<in> A. st (world s) n = STATE_ACTIVE)"
  have returns: "\<exists>b s'. ?v n s = (Inr b, s')" if "n \<in> set (node_map s)" for n s using obey_visit[OF assms(1) that] by blast
  have "next_state STATE_ACTIVE tr = STATE_ACTIVE" using assms(2) by (auto simp: life_cycle_defs)
  then have "?P (snd (?v n s))" if "n \<in> set (visit_order tr (node_names m))" "?P s" for n s
  proof -
    have "n \<in> set (node_map s)" using that by auto
    then obtain b s' where "?v n s = (Inr b, s')" "st (world s') = (st (world s))(n := next_state (st (world s) n) tr)"
      using obey_visit[OF assms(1)] by blast
    moreover have "node_map (snd (?v n s)) = node_map s" by (rule same_managerD(2)[OF changeStateForNode_same])
    ultimately show ?thesis using that(2) \<open>next_state STATE_ACTIVE tr = STATE_ACTIVE\<close> by auto
  qed
  then have "?P (snd (changeStateForAllNodes G tr False m))"
    unfolding changeStateForAllNodes_def using assms(3,4) by (intro sweep_keeps[where P = ?P]) blast+
  moreover obtain b m' where "changeStateForAllNodes G tr False m = (Inr b, m')"
    unfolding changeStateForAllNodes_def using nv.sweep_returns[where ns = "visit_order tr (node_names m)" and s = m and hard = False, OF returns] assms(3) by auto
  ultimately show ?thesis using that by simp
qed

lemma shutdown_skips:
  assumes "nodes_obey G st" "node_names m = ns @ [k]" "set (node_names m) \<subseteq> set (node_map m)" "k \<notin> set ns"
    and "st (world m) k = STATE_UNCONFIGURED" "\<forall>n \<in> set ns. st (world m) n = STATE_ACTIVE"
  obtains m' where "shutdown G m = (Inr True, m')" "\<forall>n \<in> set ns. st (world m') n = STATE_ACTIVE"
proof -
  let ?m = "destroyBondTimer (m\<lparr>system_active := False\<rparr>)"
  have "k \<in> set (node_map ?m)" "st (world ?m) k = STATE_UNCONFIGURED" using assms(2,3,5) by simp_all
  then obtain m1 where v: "changeStateForNode G TRANSITION_DEACTIVATE k ?m = (Inr False, m1)" "\<forall>n. n \<noteq> k \<longrightarrow> st (world m1) n = st (world m) n"
    using obey_visit[OF assms(1), of k ?m TRANSITION_DEACTIVATE] by (auto simp: life_cycle_defs)
  have d: "changeStateForAllNodes G TRANSITION_DEACTIVATE False ?m = (Inr False, m1)"
    using v(1) assms(2) by (simp add: changeStateForAllNodes_def visit_order_def transition_defs)
  have s1: "set (node_names m1) \<subseteq> set (node_map m1)" "\<forall>n \<in> set ns. st (world m1) n = STATE_ACTIVE"
    using all_nodes_fields[OF d] assms(3,4,6) v(2) by auto
  obtain b2 m2 where c: "changeStateForAllNodes G TRANSITION_CLEANUP False m1 = (Inr b2, m2)" "\<forall>n \<in> set ns. st (world m2) n = STATE_ACTIVE"
    using keeps_active[OF assms(1) _ s1, of TRANSITION_CLEANUP] by auto
  have "set (node_names m2) \<subseteq> set (node_map m2)" using all_nodes_fields[OF c(1)] s1(1) by simp
  then obtain b3 m3 where e: "changeStateForAllNodes G TRANSITION_UNCONFIGURED_SHUTDOWN False m2 = (Inr b3, m3)"
      "\<forall>n \<in> set ns. st (world m3) n = STATE_ACTIVE"
    using keeps_active[OF assms(1) _ _ c(2), of TRANSITION_UNCONFIGURED_SHUTDOWN] by auto
  have "shutdown G m = (Inr True, destroyLifecycleServiceClients m3)"
    using d c(1) e(1) by (simp add: shutdown_def shutdownAllNodes_def act_bind_def)
  then show ?thesis using that e(2) by (simp add: destroyLifecycleServiceClients_def)
qed

section \<open>Properties\<close>

text \<open>A world that is the states of its nodes, with nodes that obey; \<open>gone k\<close>: the same without the services of \<open>k\<close>.\<close>

definition obedient :: "(string \<Rightarrow> u8) Graph" where
  "obedient = \<lparr>g_wait = (\<lambda>_ _ w. (True, w)), g_change = (\<lambda>n tr w. (SpinSuccess (allowed (w n) tr), w(n := next_state (w n) tr))),
     g_get = (\<lambda>n _ w. (SpinSuccess (w n), w)), g_ok = (\<lambda>_. True), g_bond_start = (\<lambda>_ _ w. (True, w)), g_bond_broken = (\<lambda>_ _. False),
     g_bond_end = (\<lambda>_ w. w), g_now = (\<lambda>_. 1), g_patience = 1\<rparr>"

definition gone :: "string \<Rightarrow> (string \<Rightarrow> u8) Graph" where
  "gone k = obedient\<lparr>g_wait := (\<lambda>srv _ w. (srv \<noteq> change_service k \<and> srv \<noteq> get_service k, w)), g_bond_broken := (\<lambda>n _. n = k)\<rparr>"

lemma obedient_obeys: "nodes_obey obedient (\<lambda>w. w)"
  by (simp add: nodes_obey_def nodes_ok_def obedient_def)

lemma gone_ok: "nodes_ok (gone k) (\<lambda>w. w)"
  by (simp add: nodes_ok_def gone_def obedient_def)

definition smoother_manager :: "u8 \<Rightarrow> (string \<Rightarrow> u8) LifecycleManager" where
  "smoother_manager s = (LifecycleManager_ctor [''bt'', ''vs''] True 4000 10000000000 True (\<lambda>_. s))
     \<lparr>node_map := [''bt'', ''vs''], init_timer := False, service_thread := True\<rparr>"

text \<open>
  C12: whatever the other nodes, services and bonds do, and in whatever order the timers fire and commands other
  than the shutdown arrive, the manager never follows a null client or bond pointer and no exception leaves its
  callbacks: from its construction on, every event is handled or, at worst, waits for a service.
\<close>

theorem manager_run_safe:
  assumes "list_all no_shutdown evs" "manager_run G evs (LifecycleManager_ctor names auto timeout max_duration attempt w) = (r, m)"
  shows "(r = Inr () \<or> r = Inl Blocked) \<and> manager_inv m"
proof -
  have "manager_inv (LifecycleManager_ctor names auto timeout max_duration attempt w)"
    by (simp add: manager_inv_def LifecycleManager_ctor_def)
  from run_inv[OF this assms(1), of G] show ?thesis using assms(2) by (cases r) simp_all
qed

theorem manager_run_safe_witness:
  "fst (manager_run obedient [InitTimer, StartupTimer, BondTimer, Manage RESET, Manage STARTUP, Preshutdown]
     (LifecycleManager_ctor [''bt'', ''vs''] True 4000 10 True (\<lambda>_. 1))) \<in> {Inr (), Inl Blocked}"
proof -
  let ?m = "LifecycleManager_ctor [''bt'', ''vs''] True 4000 10 True (\<lambda>_. 1)"
  let ?evs = "[InitTimer, StartupTimer, BondTimer, Manage RESET, Manage STARTUP, Preshutdown]"
  have "list_all no_shutdown ?evs" by (simp add: command_defs)
  from manager_run_safe[OF this, of obedient "[''bt'', ''vs'']" True 4000 10 True "\<lambda>_. 1"
      "fst (manager_run obedient ?evs ?m)" "snd (manager_run obedient ?evs ?m)"]
  show ?thesis by simp
qed



text \<open>
  C16: for its users the manager is one machine with the states of a single node. While the nodes obey, any
  sequence of commands that this machine accepts is answered with success all along, and takes all nodes from
  its first state to its last.
\<close>

theorem manager_refines_system:
  assumes "nodes_obey G st" "nodes_in st s m" "system_run s commands = Some s'"
  shows "\<exists>m'. requests G commands m = (Inr True, m') \<and> nodes_in st s' m' \<and> (commands \<noteq> [] \<longrightarrow> system_active m' = (s' = STATE_ACTIVE))"
  using assms(2,3)
proof (induction commands arbitrary: s m)
  case Nil
  then show ?case by simp
next
  case (Cons command commands)
  then have a: "accepts s command" "system_run (command_state command) commands = Some s'" by (simp_all split: if_splits)
  obtain m1 where m1: "managerCallback G command m = (Inr True, m1)" "nodes_in st (command_state command) m1"
      "system_active m1 \<longleftrightarrow> command_state command = STATE_ACTIVE"
    using accepted_command[OF assms(1) Cons.prems(1) a(1)] .
  show ?case using Cons.IH[OF m1(2) a(2)] m1 a(2) by (cases commands) (auto simp: act_bind_def)
qed

theorem manager_refines_system_witness:
  "\<exists>m'. requests obedient [STARTUP, PAUSE_NODES, RESUME, RESET, STARTUP] (smoother_manager STATE_UNCONFIGURED) = (Inr True, m') \<and>
    nodes_in (\<lambda>w. w) STATE_ACTIVE m' \<and> system_active m'"
proof -
  have a: "nodes_in (\<lambda>w. w) STATE_UNCONFIGURED (smoother_manager STATE_UNCONFIGURED)"
    by (simp add: nodes_in_def smoother_manager_def LifecycleManager_ctor_def)
  have b: "system_run STATE_UNCONFIGURED [STARTUP, PAUSE_NODES, RESUME, RESET, STARTUP] = Some STATE_ACTIVE"
    by (simp add: accepts_def command_state_def command_defs state_defs)
  show ?thesis using manager_refines_system[OF obedient_obeys a b] by simp
qed

text \<open>
  C36: when a node whose services are gone makes its bond break, the nodes before it in the list are not brought
  down: the hard reset ends at the exception, and the first node stays active. If the node comes back, the
  respawn check that finds all nodes alive tries to start the system, fails at the first node, which cannot be
  configured, and gives up for good.
\<close>

theorem crash_never_recovers:
  assumes "nodes_ok G st" "\<forall>t w. \<not> fst (g_wait G (change_service k) t w)" "g_bond_broken G k (world m)" "g_ok G (world m)"
    and "node_names m = n0 # ns" "k \<in> set ns" "n0 \<notin> set ns" "set (node_names m) \<subseteq> set (node_map m)" "set (node_names m) \<subseteq> set (bond_map m)"
    and "system_active m" "st (world m) n0 = STATE_ACTIVE" "checkBondConnections G m = (Inr (), m1)"
    and "nodes_obey G2 st" "st w2 n0 = st (world m1) n0"
  shows "\<not> system_active m1 \<and> st (world m1) n0 = STATE_ACTIVE \<and>
    (\<exists>m2. checkBondRespawnConnection G2 (m1\<lparr>world := w2\<rparr>) = (Inr (), m2) \<and>
      \<not> system_active m2 \<and> \<not> bond_respawn_timer m2 \<and> st (world m2) n0 = STATE_ACTIVE)"
proof -
  have "\<exists>n \<in> set (node_names m). g_bond_broken G n (world m)" using assms(3,5,6) by auto
  then have "check_bonds G (node_names m) m = bond_failure G m" by (rule check_bonds_broken[OF assms(9,4)])
  moreover have "bond_map m \<noteq> []" using assms(5,9) by auto
  ultimately have "bond_failure G m = (Inr (), m1)" using assms(4,10,12) by (simp add: checkBondConnections_def)
  note f = gone_failure[OF assms(1,2,5-7) this]
  let ?m = "m1\<lparr>world := w2\<rparr>"
  let ?s = "if bond_respawn_start_time ?m = 0 then ?m\<lparr>bond_respawn_start_time := g_now G2 (world ?m)\<rparr> else ?m"
  have s: "\<not> system_active ?s" "g_ok G2 (world ?s)" "node_names ?s = n0 # ns" "set (node_names ?s) \<subseteq> set (node_map ?s)" "world ?s = w2"
    using f assms(5,8,13) by (simp_all add: nodes_obey_def)
  obtain w where c: "count_live G2 (node_names ?s) 0 ?s = (Inr (Some (length (node_names ?s))), ?s\<lparr>world := w\<rparr>)" "st w = st w2"
    using obey_live[OF assms(13) s(4), of 0] s(5) by auto
  let ?e = "end_respawn (?s\<lparr>world := w\<rparr>)"
  have e: "node_names ?e = n0 # ns" "n0 \<in> set (node_map ?e)" "st (world ?e) n0 = STATE_ACTIVE" "\<not> system_active ?e" "\<not> bond_respawn_timer ?e"
    using s c(2) f(1) assms(11,14) by (simp_all add: end_respawn_def)
  obtain m2 where u: "startup G2 ?e = (Inr False, m2)" "st (world m2) n0 = STATE_ACTIVE" "same_manager TRANSITION_CONFIGURE ?e m2"
    using active_node_startup[OF assms(13) e(1-3)] by blast
  have "checkBondRespawnConnection G2 ?m = act_bind (startup G2) (\<lambda>_ m3. (Inr (), m3)) ?e"
    unfolding checkBondRespawnConnection_def Let_def using s c(1) by (simp add: act_bind_def[of "count_live G2 _ _"])
  then have "checkBondRespawnConnection G2 ?m = (Inr (), m2)" using u(1) by (simp add: act_bind_def)
  then show ?thesis using f(1,2) assms(11) u same_managerD[OF u(3)] e(4,5) by auto
qed

text \<open>
  C37: \<open>SHUTDOWN\<close> answers with success although nodes stay active: when the last node of the list was restarted and
  is unconfigured, the pass that deactivates ends there, and neither clean-up nor shutdown touch the active
  nodes; the clients that could still deactivate them are destroyed.
\<close>

theorem shutdown_leaves_active:
  assumes "nodes_obey G st" "node_names m = ns @ [k]" "set (node_names m) \<subseteq> set (node_map m)" "k \<notin> set ns"
    and "st (world m) k = STATE_UNCONFIGURED" "\<forall>n \<in> set ns. st (world m) n = STATE_ACTIVE"
  shows "\<exists>m'. managerCallback G SHUTDOWN m = (Inr True, m') \<and> (\<forall>n \<in> set ns. st (world m') n = STATE_ACTIVE) \<and> node_map m' = []"
proof -
  obtain m' where m': "shutdown G m = (Inr True, m')" "\<forall>n \<in> set ns. st (world m') n = STATE_ACTIVE" using shutdown_skips[OF assms] .
  then show ?thesis using shutdown_fields(5)[OF m'(1)] by (auto simp: managerCallback_def command_defs)
qed

text \<open>
  C40: after a shutdown the manager goes on serving requests but has no clients: every further command follows a
  null pointer, and so does the check for respawned nodes, whose timer a shutdown does not stop.
\<close>

theorem shutdown_then_faults:
  assumes "managerCallback G SHUTDOWN m = (Inr b, m')" "node_names m \<noteq> []" "command \<in> {STARTUP, PAUSE_NODES, RESUME, RESET, SHUTDOWN}"
  shows "b \<and> fst (managerCallback G command m') = Inl NullDereference \<and> bond_respawn_timer m' = bond_respawn_timer m \<and>
    (g_ok G (world m') \<longrightarrow> fst (checkBondRespawnConnection G m') = Inl NullDereference)"
proof -
  have s: "shutdown G m = (Inr b, m')" using assms(1) by (simp add: managerCallback_def command_defs)
  note f = shutdown_fields[OF s]
  have n: "node_map m' = []" "node_names m' \<noteq> []" "b" using f assms(2) by simp_all
  have z: "changeStateForAllNodes G tr hard m' = (Inl NullDereference, m')" for tr hard by (rule no_clients_fault[OF n(1,2)])
  have z2: "changeStateForAllNodes G tr hard (destroyBondTimer (m'\<lparr>system_active := False\<rparr>)) =
      (Inl NullDereference, destroyBondTimer (m'\<lparr>system_active := False\<rparr>))" for tr hard
    using n by (intro no_clients_fault) simp_all
  have "fst (startup G m') = Inl NullDereference" "fst (resume G m') = Inl NullDereference" "fst (reset G False m') = Inl NullDereference"
    "fst (pause G m') = Inl NullDereference" "fst (shutdown G m') = Inl NullDereference"
    using z z2 by (simp_all add: startup_def reset_def pause_def resume_def shutdown_def shutdownAllNodes_def act_bind_def)
  then have "fst (managerCallback G command m') = Inl NullDereference" using assms(3) unfolding managerCallback_def by auto
  moreover have "fst (checkBondRespawnConnection G m') = Inl NullDereference" if "g_ok G (world m')"
  proof -
    obtain x xs where "node_names m' = x # xs" using n(2) by (cases "node_names m'") simp_all
    then show ?thesis using that n(1) f(2) by (simp add: checkBondRespawnConnection_def Let_def act_bind_def)
  qed
  ultimately show ?thesis using n f(3) by simp
qed

theorem crash_never_recovers_witness:
  "\<exists>m1 m2. checkBondConnections (gone ''vs'') ((smoother_manager STATE_ACTIVE)\<lparr>bond_map := [''bt'', ''vs''], system_active := True\<rparr>) = (Inr (), m1) \<and>
    checkBondRespawnConnection obedient (m1\<lparr>world := (world m1)(''vs'' := STATE_UNCONFIGURED)\<rparr>) = (Inr (), m2) \<and>
    \<not> system_active m2 \<and> \<not> bond_respawn_timer m2 \<and> world m2 ''bt'' = STATE_ACTIVE"
proof -
  let ?m = "(smoother_manager STATE_ACTIVE)\<lparr>bond_map := [''bt'', ''vs''], system_active := True\<rparr>"
  have b: "\<forall>t w. \<not> fst (g_wait (gone ''vs'') (change_service ''vs'') t w)" by (simp add: gone_def)
  have c: "g_bond_broken (gone ''vs'') ''vs'' (world ?m)" "g_ok (gone ''vs'') (world ?m)" by (simp_all add: gone_def obedient_def)
  have d: "node_names ?m = [''bt'', ''vs'']" "''vs'' \<in> set [''vs'']" "''bt'' \<notin> set [''vs'']"
      "set (node_names ?m) \<subseteq> set (node_map ?m)" "set (node_names ?m) \<subseteq> set (bond_map ?m)" "system_active ?m" "world ?m ''bt'' = STATE_ACTIVE"
    by (simp_all add: smoother_manager_def LifecycleManager_ctor_def)
  have "fst (checkBondConnections (gone ''vs'') ?m) = Inr ()"
    by (simp add: smoother_manager_def LifecycleManager_ctor_def checkBondConnections_def bond_failure_def reset_def act_bind_def
        changeStateForAllNodes_def visit_order_def changeStateForNode_def on_world_def change_state_def gone_def obedient_def
        destroyBondTimer_def Let_def transition_defs)
  then obtain m1 where m1: "checkBondConnections (gone ''vs'') ?m = (Inr (), m1)" by (metis prod.collapse)
  have e: "((world m1)(''vs'' := STATE_UNCONFIGURED)) ''bt'' = world m1 ''bt''" by simp
  show ?thesis using crash_never_recovers[where st = "\<lambda>w. w" and ?w2.0 = "(world m1)(''vs'' := STATE_UNCONFIGURED)", OF gone_ok b c d m1 obedient_obeys e] m1 by blast
qed

theorem shutdown_leaves_active_witness:
  "\<exists>m'. managerCallback obedient SHUTDOWN ((smoother_manager STATE_ACTIVE)\<lparr>world := (\<lambda>_. STATE_ACTIVE)(''vs'' := STATE_UNCONFIGURED)\<rparr>) = (Inr True, m') \<and>
    world m' ''bt'' = STATE_ACTIVE"
proof -
  let ?m = "(smoother_manager STATE_ACTIVE)\<lparr>world := (\<lambda>_. STATE_ACTIVE)(''vs'' := STATE_UNCONFIGURED)\<rparr>"
  have "node_names ?m = [''bt''] @ [''vs'']" "set (node_names ?m) \<subseteq> set (node_map ?m)" "''vs'' \<notin> set [''bt'']"
      "world ?m ''vs'' = STATE_UNCONFIGURED" "\<forall>n \<in> set [''bt'']. world ?m n = STATE_ACTIVE"
    by (simp_all add: smoother_manager_def LifecycleManager_ctor_def)
  from shutdown_leaves_active[where st = "\<lambda>w. w", OF obedient_obeys this] show ?thesis by auto
qed

theorem shutdown_then_faults_witness:
  "\<exists>m'. managerCallback obedient SHUTDOWN (smoother_manager STATE_UNCONFIGURED) = (Inr True, m') \<and>
    fst (managerCallback obedient STARTUP m') = Inl NullDereference"
proof -
  let ?m = "(smoother_manager STATE_UNCONFIGURED)"
  have "fst (managerCallback obedient SHUTDOWN ?m) = Inr True"
    by (simp add: managerCallback_def command_defs shutdown_def shutdownAllNodes_def act_bind_def smoother_manager_def LifecycleManager_ctor_def
        changeStateForAllNodes_def visit_order_def changeStateForNode_def on_world_def change_state_def get_state_def invoke_def invoke_flag_def
        obedient_def destroyBondTimer_def life_cycle_defs)
  then obtain m' where m': "managerCallback obedient SHUTDOWN ?m = (Inr True, m')" by (metis prod.collapse)
  have "node_names ?m \<noteq> []" by (simp add: smoother_manager_def LifecycleManager_ctor_def)
  from shutdown_then_faults[OF m' this, of STARTUP] show ?thesis using m' by blast
qed

end
