(* ===== verification/Vn_Packet.thy ===== *)
theory Vn_Packet
  imports Prelude
begin

text \<open>
  Packets of the inertial sensor, in the driver's library \<open>vnproglib\<close>: the checksums of \<open>error_detection.cpp\<close>, the hex
  digits of \<open>utilities.cpp\<close>, and from \<open>packet.cpp\<close> the type and validity of a packet and the length of a binary
  packet, which its header determines. A packet is the list of its bytes; \<open>char\<close> is signed.
\<close>

section \<open>Error detection\<close>

fun checksum8_loop :: "u8 \<Rightarrow> bytes \<Rightarrow> u8" where
  "checksum8_loop xorVal [] = xorVal"
| "checksum8_loop xorVal (b # bs) = checksum8_loop (xorVal XOR b) bs"

definition Checksum8 :: "bytes \<Rightarrow> u8" where
  "Checksum8 data = checksum8_loop 0 data"

definition crc16_step :: "u16 \<Rightarrow> u8 \<Rightarrow> u16" where
  "crc16_step crc b =
    (let crc1 = drop_bit 8 crc OR push_bit 8 crc;
         crc2 = crc1 XOR ucast b;
         crc3 = crc2 XOR ucast (drop_bit 4 (ucast (crc2 AND 0xFF) :: u8));
         crc4 = crc3 XOR push_bit 4 (push_bit 8 crc3)
     in crc4 XOR push_bit 1 (push_bit 4 (crc4 AND 0xFF)))"

definition Crc16 :: "bytes \<Rightarrow> u16" where
  "Crc16 data = foldl crc16_step 0 data"

section \<open>Hex digits\<close>

definition to_uint8_from_hexchar :: "u8 \<Rightarrow> u8" where
  "to_uint8_from_hexchar c = (if sint c < 58 then c - 48 else if sint c < 71 then c - 55 else c - 87)"

definition toUint8FromHexStr :: "u8 \<Rightarrow> u8 \<Rightarrow> u8" where
  "toUint8FromHexStr c0 c1 = push_bit 4 (to_uint8_from_hexchar c0) + to_uint8_from_hexchar c1"

definition to_uint16_from_hexstr :: "u8 \<Rightarrow> u8 \<Rightarrow> u8 \<Rightarrow> u8 \<Rightarrow> u16" where
  "to_uint16_from_hexstr c0 c1 c2 c3 = push_bit 8 (ucast (toUint8FromHexStr c0 c1)) + ucast (toUint8FromHexStr c2 c3)"

section \<open>Type and validity\<close>

datatype PacketType = TYPE_UNKNOWN | TYPE_BINARY | TYPE_ASCII

definition packet_type :: "bytes \<Rightarrow> PacketType res" where
  "packet_type p =
    (case p of [] \<Rightarrow> Inl (Thrown ''Packet does not contain any data.'')
     | b # _ \<Rightarrow> Inr (if b = 0x24 then TYPE_ASCII else if b = 0xFA then TYPE_BINARY else TYPE_UNKNOWN))"

text \<open>\<open>strncmp\<close> with a text that has no zero byte, as long as the text; it stops at the first difference.\<close>

fun strncmp_eq :: "bytes \<Rightarrow> bytes \<Rightarrow> bool res" where
  "strncmp_eq p [] = Inr True"
| "strncmp_eq [] (c # cs) = Inl IndexOutOfRange"
| "strncmp_eq (b # p) (c # cs) = (if b = c then strncmp_eq p cs else Inr False)"

definition bootloadSignature :: bytes where
  "bootloadSignature = map (\<lambda>c. of_nat (of_char c)) ''VectorNav Bootloader''"

definition ascii_isValid :: "bytes \<Rightarrow> bool" where
  "ascii_isValid p =
    (let n = length p; ch = (\<lambda>k. p ! (n - k)) in
     if ch 3 = 0x58 \<and> ch 4 = 0x58 then True
     else if ch 5 = 0x2A then toUint8FromHexStr (ch 4) (ch 3) = Checksum8 (take (n - 6) (drop 1 p))
     else if ch 7 = 0x2A then to_uint16_from_hexstr (ch 6) (ch 5) (ch 4) (ch 3) = Crc16 (take (n - 8) (drop 1 p))
     else if ch 6 = 0x2A then to_uint16_from_hexstr (ch 5) (ch 4) (ch 3) (ch 2) = Crc16 (take (n - 7) (drop 1 p))
     else False)"

definition isValid :: "bytes \<Rightarrow> bool res" where
  "isValid p =
    (if length p < 7 then Inr False
     else res_bind (packet_type p) (\<lambda>ty. case ty of
         TYPE_ASCII \<Rightarrow> Inr (ascii_isValid p)
       | TYPE_BINARY \<Rightarrow> Inr (Crc16 (drop 1 p) = 0)
       | TYPE_UNKNOWN \<Rightarrow> res_bind (strncmp_eq p bootloadSignature) (\<lambda>same.
           if same then Inr True else Inl (Thrown ''not_implemented''))))"

section \<open>Length of a binary packet\<close>

definition BinaryGroupLengths :: "nat list list" where
  "BinaryGroupLengths =
    [[8, 8, 8, 12, 16, 12, 24, 12, 12, 24, 20, 28, 2, 4, 8, 0],
     [8, 8, 8, 2, 8, 8, 8, 4, 4, 1, 0, 0, 0, 0, 0, 0],
     [2, 12, 12, 12, 4, 4, 16, 12, 12, 12, 12, 2, 40, 0, 0, 0],
     [8, 8, 2, 1, 1, 24, 24, 12, 12, 12, 4, 4, 2, 28, 0, 0],
     [2, 12, 16, 36, 12, 12, 12, 12, 12, 12, 28, 24, 12, 0, 0, 0],
     [2, 24, 24, 12, 12, 12, 12, 12, 12, 4, 4, 68, 64, 0, 0, 0],
     [8, 8, 2, 1, 1, 24, 24, 12, 12, 12, 4, 4, 2, 28, 0, 0],
     [0, 0, 0, 0, 0, 0, 0, 0, 0, 0, 0, 0, 0, 0, 0, 0]]"

text \<open>The row of a group is the number of its bit; the columns past the initialisers are zero.\<close>

definition computeNumOfBytesForBinaryGroupPayload :: "nat \<Rightarrow> u16 \<Rightarrow> nat" where
  "computeNumOfBytesForBinaryGroupPayload groupIndex groupField =
     sum_list (map (\<lambda>i. if bit groupField i then BinaryGroupLengths ! groupIndex ! i else 0) [0..<16])"

text \<open>One group after the other: the length so far and the position of the next group field.\<close>

fun group_lengths :: "u8 \<Rightarrow> bytes \<Rightarrow> nat list \<Rightarrow> nat \<Rightarrow> nat \<Rightarrow> nat res" where
  "group_lengths groups p [] pos len = Inr len"
| "group_lengths groups p (g # gs) pos len =
    (if \<not> bit groups g then group_lengths groups p gs pos len
     else if length p < pos + 2 then Inl IndexOutOfRange
     else group_lengths groups p gs (pos + 2)
       (len + 2 + computeNumOfBytesForBinaryGroupPayload g (ucast (p ! pos) + push_bit 8 (ucast (p ! (pos + 1))))))"

definition computeBinaryPacketLength :: "bytes \<Rightarrow> nat res" where
  "computeBinaryPacketLength p =
    (if length p < 2 then Inl IndexOutOfRange
     else res_bind (group_lengths (p ! 1) p [0..<7] 2 2) (\<lambda>len. Inr (len + 2)))"

section \<open>Bits of the groups field\<close>

function count_bits :: "u8 \<Rightarrow> nat \<Rightarrow> nat" where
  "count_bits d count = (if d = 0 then count else count_bits (d AND (d - 1)) (count + 1))"
  by pat_completeness auto

termination
proof (relation "measure (\<lambda>(d, count). unat d)")
  show "((d AND (d - 1), count + 1), d, count) \<in> measure (\<lambda>(d, count). unat d)" if "d \<noteq> 0" for d :: u8 and count :: nat
  proof -
    have "d AND (d - 1) \<le> d - 1" by (rule word_and_le1)
    also have "d - 1 < d" using that by (simp add: word_less_nat_alt unat_minus_one unat_gt_0)
    finally show ?thesis by (simp add: word_less_nat_alt)
  qed
qed simp

definition countSetBits :: "u8 \<Rightarrow> nat" where
  "countSetBits d = count_bits d 0"

section \<open>Facts about lengths and checks\<close>

text \<open>A binary packet ends with the check of the rest, high byte first; the check over both is then zero.\<close>

lemma numeral_255: "(255 :: u16) = mask 8"
  by (simp add: mask_eq_exp_minus_1)

lemma crc16_hi: "crc16_step crc (ucast (drop_bit 8 crc)) = push_bit 8 crc"
proof (rule bit_word_eqI)
  fix n assume "n < LENGTH(16)"
  let ?c2 = "(drop_bit 8 crc OR push_bit 8 crc) XOR ucast (ucast (drop_bit 8 crc) :: u8)"
  have "?c2 = push_bit 8 crc"
    by (rule bit_word_eqI) (auto simp: bit_simps dest: bit_imp_le_length)
  moreover have "push_bit 8 crc AND 0xFF = 0"
    by (rule bit_word_eqI) (auto simp: bit_simps numeral_255)
  ultimately show "bit (crc16_step crc (ucast (drop_bit 8 crc))) n = bit (push_bit 8 crc) n"
    unfolding crc16_step_def Let_def by (simp add: bit_simps)
qed

lemma crc16_lo: "crc16_step (push_bit 8 crc) (ucast crc) = 0"
proof -
  have "(drop_bit 8 (push_bit 8 crc) OR push_bit 8 (push_bit 8 crc)) XOR ucast (ucast crc :: u8) = 0"
    by (rule bit_word_eqI) (auto simp: bit_simps dest: bit_imp_le_length)
  then show ?thesis unfolding crc16_step_def Let_def by simp
qed

lemma crc16_append: "Crc16 (data @ [ucast (drop_bit 8 (Crc16 data)), ucast (Crc16 data)]) = 0"
  by (simp add: Crc16_def crc16_hi crc16_lo)

lemma countSetBits_all: "list_all (\<lambda>k. countSetBits (word_of_nat k) = length (filter (bit (word_of_nat k :: u8)) [0..<8])) [0..<256]"
  by code_simp

lemma countSetBits_eq: "countSetBits d = length (filter (bit d) [0..<8])"
proof -
  have "unat d < 256" by (rule order_less_le_trans [OF unsigned_less]) simp
  then have "unat d \<in> set [0..<256]" by simp
  then have "countSetBits (word_of_nat (unat d)) = length (filter (bit (word_of_nat (unat d) :: u8)) [0..<8])"
    using countSetBits_all unfolding list_all_iff by blast
  then show ?thesis by simp
qed

text \<open>The groups other than the last bit's.\<close>

definition group_count :: "u8 \<Rightarrow> nat list \<Rightarrow> nat" where
  "group_count groups gs = length (filter (bit groups) gs)"

lemma group_lengths_ok:
  "pos + 2 * group_count groups gs \<le> length p \<Longrightarrow> \<exists>n. group_lengths groups p gs pos len = Inr n \<and> len + 2 * group_count groups gs \<le> n"
proof (induction gs arbitrary: pos len)
  case (Cons g gs)
  show ?case
  proof (cases "bit groups g")
    case True
    let ?len = "len + 2 + computeNumOfBytesForBinaryGroupPayload g (ucast (p ! pos) + push_bit 8 (ucast (p ! (pos + 1))))"
    have c: "group_count groups (g # gs) = Suc (group_count groups gs)" using True by (simp add: group_count_def)
    then obtain n where "group_lengths groups p gs (pos + 2) ?len = Inr n" "?len + 2 * group_count groups gs \<le> n"
      using Cons.IH[of "pos + 2" ?len] Cons.prems by auto
    then show ?thesis using True Cons.prems c by simp
  next
    case False
    then show ?thesis using Cons by (simp add: group_count_def)
  qed
qed (simp add: group_count_def)

lemma group_lengths_prefix:
  "pos + 2 * group_count groups gs \<le> length p \<Longrightarrow> group_lengths groups (p @ q) gs pos len = group_lengths groups p gs pos len"
  by (induction gs arbitrary: pos len) (auto simp: group_count_def nth_append)

lemma group_count_bits: "group_count d [0..<7] \<le> countSetBits d" "countSetBits d \<le> Suc (group_count d [0..<7])"
  by (simp_all add: group_count_def countSetBits_eq upt_rec)

text \<open>The header of a binary packet: start, groups, and a field of two bytes for every group.\<close>

definition header_size :: "u8 \<Rightarrow> nat" where
  "header_size groups = 2 + 2 * countSetBits groups"

lemma packet_length_ok:
  assumes "header_size (p ! 1) \<le> length p"
  obtains n where "computeBinaryPacketLength p = Inr n" "header_size (p ! 1) \<le> n"
proof -
  have "2 + 2 * group_count (p ! 1) [0..<7] \<le> length p" using assms group_count_bits(1)[of "p ! 1"] by (simp add: header_size_def)
  from group_lengths_ok[OF this, of 2] obtain n where n: "group_lengths (p ! 1) p [0..<7] 2 2 = Inr n" "2 + 2 * group_count (p ! 1) [0..<7] \<le> n" by blast
  then have "header_size (p ! 1) \<le> n + 2" using group_count_bits(2)[of "p ! 1"] by (simp add: header_size_def)
  moreover have "computeBinaryPacketLength p = Inr (n + 2)" using assms n(1) by (simp add: computeBinaryPacketLength_def header_size_def)
  ultimately show ?thesis using that by blast
qed

lemma packet_length_prefix:
  assumes "header_size (p ! 1) \<le> length p"
  shows "computeBinaryPacketLength (p @ q) = computeBinaryPacketLength p"
proof -
  have "2 + 2 * group_count (p ! 1) [0..<7] \<le> length p" using assms group_count_bits(1)[of "p ! 1"] by (simp add: header_size_def)
  then show ?thesis using assms by (simp add: computeBinaryPacketLength_def header_size_def nth_append group_lengths_prefix)
qed

end
