(* ===== verification/Vn_Packet_Finder.thy ===== *)
theory Vn_Packet_Finder
  imports Vn_Packet
begin

text \<open>
  \<open>packetfinder.cpp\<close> of \<open>vnproglib\<close>: finds the packets of the inertial sensor in what the serial port delivers, read
  by read. Possible packets are tracked while their bytes arrive; what a read leaves unfinished is kept in a receive
  buffer. Sizes are natural numbers below \<open>2 ^ 64\<close>, with the wrap-around of \<open>size_t\<close> written out where the code can
  meet it. The packets handed to the user's handler are recorded with their running index and time stamp; the time
  stamp that the default constructor makes is \<open>None\<close>.
\<close>

section \<open>State\<close>

definition sub64 :: "nat \<Rightarrow> nat \<Rightarrow> nat" where
  "sub64 a b = (if b \<le> a then a - b else a + 2 ^ 64 - b)"

text \<open>\<open>groupsPresent\<close> is not initialised until it is found.\<close>

record 'ts BinaryTracker =
  possibleStartIndex :: nat
  groupsPresentFound :: bool
  groupsPresent :: "u8 option"
  numOfBytesRemainingToHaveAllGroupFields :: nat
  numOfBytesRemainingForCompletePacket :: nat
  startFoundInProvidedDataBuffer :: bool
  runningDataIndexOfStart :: nat
  bt_timeFound :: "'ts option"

definition BinaryTracker_ctor :: "nat \<Rightarrow> nat \<Rightarrow> 'ts option \<Rightarrow> 'ts BinaryTracker" where
  "BinaryTracker_ctor start running ts =
    \<lparr>possibleStartIndex = start, groupsPresentFound = False, groupsPresent = None, numOfBytesRemainingToHaveAllGroupFields = 0,
     numOfBytesRemainingForCompletePacket = 0, startFoundInProvidedDataBuffer = True, runningDataIndexOfStart = running, bt_timeFound = ts\<rparr>"

definition tracker_eq :: "'ts BinaryTracker \<Rightarrow> 'ts BinaryTracker \<Rightarrow> bool" where
  "tracker_eq lhs rhs \<longleftrightarrow>
     possibleStartIndex lhs = possibleStartIndex rhs \<and> groupsPresentFound lhs = groupsPresentFound rhs \<and>
     groupsPresent lhs = groupsPresent rhs \<and>
     numOfBytesRemainingToHaveAllGroupFields lhs = numOfBytesRemainingToHaveAllGroupFields rhs \<and>
     numOfBytesRemainingForCompletePacket lhs = numOfBytesRemainingForCompletePacket rhs"

record 'ts AsciiTracker =
  currentlyBuildingAsciiPacket :: bool
  possibleStartOfPacketIndex :: nat
  asciiEndChar1Found :: bool
  ascii_runningDataIndexOfStart :: nat
  ascii_timeFound :: "'ts option"

definition AsciiTracker_reset :: "'ts AsciiTracker" where
  "AsciiTracker_reset =
    \<lparr>currentlyBuildingAsciiPacket = False, possibleStartOfPacketIndex = 0, asciiEndChar1Found = False, ascii_runningDataIndexOfStart = 0,
     ascii_timeFound = None\<rparr>"

record 'ts PacketFinder =
  rx_buffer :: bytes
  bufferAppendLocation :: nat
  asciiOnDeck :: "'ts AsciiTracker"
  binaryOnDeck :: "'ts BinaryTracker list"
  runningDataIndex :: nat
  packetFoundHandler :: bool
  found :: "(bytes \<times> nat \<times> 'ts option) list"

definition AsciiStartChar :: u8 where "AsciiStartChar = 0x24"
definition BootloaderVersionStartChar :: u8 where "BootloaderVersionStartChar = 0x56"
definition BinaryStartChar :: u8 where "BinaryStartChar = 0xFA"
definition AsciiEndChar1 :: u8 where "AsciiEndChar1 = 0x0D"
definition AsciiEndChar2 :: u8 where "AsciiEndChar2 = 0x0A"
definition MaximumSizeExpectedForBinaryPacket :: nat where "MaximumSizeExpectedForBinaryPacket = 600"
definition MaximumSizeForAsciiPacket :: nat where "MaximumSizeForAsciiPacket = 256"

lemmas char_defs = AsciiStartChar_def BootloaderVersionStartChar_def BinaryStartChar_def AsciiEndChar1_def AsciiEndChar2_def

text \<open>\<open>mem\<close> is the uninitialised content of the receive buffer, which the default constructor makes 1200 bytes long.\<close>

definition PacketFinder_ctor :: "bytes \<Rightarrow> 'ts PacketFinder" where
  "PacketFinder_ctor mem =
    \<lparr>rx_buffer = mem, bufferAppendLocation = 0, asciiOnDeck = AsciiTracker_reset, binaryOnDeck = [], runningDataIndex = 0,
     packetFoundHandler = False, found = []\<rparr>"

section \<open>Handler, memory\<close>

definition registerPossiblePacketFoundHandler :: "'ts PacketFinder \<Rightarrow> 'ts PacketFinder res" where
  "registerPossiblePacketFoundHandler f =
    (if packetFoundHandler f then Inl (Thrown ''invalid_operation'') else Inr (f\<lparr>packetFoundHandler := True\<rparr>))"

definition unregisterPossiblePacketFoundHandler :: "'ts PacketFinder \<Rightarrow> 'ts PacketFinder res" where
  "unregisterPossiblePacketFoundHandler f =
    (if \<not> packetFoundHandler f then Inl (Thrown ''invalid_operation'') else Inr (f\<lparr>packetFoundHandler := False\<rparr>))"

definition dispatchPacket :: "bytes \<Rightarrow> nat \<Rightarrow> 'ts option \<Rightarrow> 'ts PacketFinder \<Rightarrow> 'ts PacketFinder" where
  "dispatchPacket p running ts f = (if packetFoundHandler f then f\<lparr>found := found f @ [(p, running, ts)]\<rparr> else f)"

definition resetTracking :: "'ts PacketFinder \<Rightarrow> 'ts PacketFinder" where
  "resetTracking f = f\<lparr>asciiOnDeck := AsciiTracker_reset, binaryOnDeck := [], bufferAppendLocation := 0\<rparr>"

text \<open>Copying into the receive buffer at the append location, and the bytes of a packet, which its constructor copies.\<close>

definition append_bytes :: "bytes \<Rightarrow> 'ts PacketFinder \<Rightarrow> 'ts PacketFinder res" where
  "append_bytes bs f =
    (if bufferAppendLocation f + length bs \<le> length (rx_buffer f)
     then Inr (f\<lparr>rx_buffer := take (bufferAppendLocation f) (rx_buffer f) @ bs @ drop (bufferAppendLocation f + length bs) (rx_buffer f)\<rparr>)
     else Inl IndexOutOfRange)"

definition packet_bytes :: "bytes \<Rightarrow> nat \<Rightarrow> nat \<Rightarrow> bytes res" where
  "packet_bytes mem start len = (if start + len \<le> length mem then Inr (take len (drop start mem)) else Inl IndexOutOfRange)"

section \<open>ASCII packets\<close>

text \<open>
  The end of a possible packet. When it began in an earlier read, the bytes of this read go behind those in the receive
  buffer; there may be no room, and the packet is then empty.
\<close>

definition ascii_end :: "bytes \<Rightarrow> nat \<Rightarrow> bool \<Rightarrow> 'ts PacketFinder \<Rightarrow> 'ts PacketFinder res" where
  "ascii_end data i startFound f =
    (let a = asciiOnDeck f; start = possibleStartOfPacketIndex a;
         checked = (\<lambda>len. if MaximumSizeForAsciiPacket < len then 0 else len);
         finish = (\<lambda>f p. res_bind (isValid p) (\<lambda>valid.
           Inr (if valid then dispatchPacket p (ascii_runningDataIndexOfStart a) (ascii_timeFound a) f else f))) in
     if startFound then res_bind (packet_bytes data start (checked (sub64 i start + 1))) (finish f)
     else if bufferAppendLocation f + i < length (rx_buffer f)
       then res_bind (append_bytes (take (i + 1) data) f) (\<lambda>f1.
         res_bind (packet_bytes (rx_buffer f1) start (checked (sub64 (bufferAppendLocation f + i + 1) start))) (finish f1))
     else finish f [])"

text \<open>A byte as part of an ASCII packet; the flag tells whether a packet has started in this read, the last component asks for a reset.\<close>

definition ascii_byte ::
  "bool \<Rightarrow> 'ts option \<Rightarrow> bytes \<Rightarrow> nat \<Rightarrow> bool \<Rightarrow> 'ts PacketFinder \<Rightarrow> (bool \<times> bool \<times> 'ts PacketFinder) res" where
  "ascii_byte bootloaderFilter ts data i startFound f =
    (let a = asciiOnDeck f in
     if data ! i = AsciiStartChar \<or> (bootloaderFilter \<and> \<not> currentlyBuildingAsciiPacket a \<and> data ! i = BootloaderVersionStartChar)
     then Inr (True, False, f\<lparr>asciiOnDeck := \<lparr>currentlyBuildingAsciiPacket = True, possibleStartOfPacketIndex = i,
       asciiEndChar1Found = False, ascii_runningDataIndexOfStart = runningDataIndex f, ascii_timeFound = ts\<rparr>\<rparr>)
     else if currentlyBuildingAsciiPacket a \<and> data ! i = AsciiEndChar1
     then Inr (startFound, False, f\<lparr>asciiOnDeck := a\<lparr>asciiEndChar1Found := True\<rparr>\<rparr>)
     else if ((bootloaderFilter \<and> currentlyBuildingAsciiPacket a) \<or> (\<not> bootloaderFilter \<and> asciiEndChar1Found a)) \<and> data ! i = AsciiEndChar2
     then res_bind (ascii_end data i startFound f) (\<lambda>f1. Inr (startFound, True, f1))
     else if asciiEndChar1Found a then Inr (startFound, True, f)
     else if MaximumSizeForAsciiPacket < sub64 (i + 1) (possibleStartOfPacketIndex a) then Inr (startFound, True, f)
     else Inr (startFound, False, f))"

definition ascii_reset :: "'ts PacketFinder \<Rightarrow> 'ts PacketFinder" where
  "ascii_reset f = (if binaryOnDeck f = [] then resetTracking f else f\<lparr>asciiOnDeck := AsciiTracker_reset\<rparr>)"

section \<open>Binary packets\<close>

text \<open>What a byte does to a possible binary packet: it stays, it is marked invalid, or it is a packet.\<close>

datatype 'ts outcome = Keep "'ts BinaryTracker" | Invalid "'ts BinaryTracker" | Found "'ts BinaryTracker" bytes

text \<open>The byte that completes the header.\<close>

definition header_complete :: "bytes \<Rightarrow> nat \<Rightarrow> 'ts BinaryTracker \<Rightarrow> 'ts PacketFinder \<Rightarrow> ('ts outcome \<times> 'ts PacketFinder) res" where
  "header_complete data i t f =
    (let start = possibleStartIndex t;
         finish = (\<lambda>remaining. if MaximumSizeExpectedForBinaryPacket < remaining then Invalid t
           else Keep (t\<lparr>numOfBytesRemainingForCompletePacket := remaining\<rparr>)) in
     if startFoundInProvidedDataBuffer t
     then res_bind (computeBinaryPacketLength (drop start data)) (\<lambda>len. Inr (finish (sub64 len (sub64 i start + 1)), f))
     else if bufferAppendLocation f + (i + 1) < length (rx_buffer f)
       then res_bind (append_bytes (take (i + 1) data) f) (\<lambda>f1.
         res_bind (computeBinaryPacketLength (drop start (rx_buffer f1))) (\<lambda>len.
           Inr (finish (sub64 len (sub64 (bufferAppendLocation f) start + (i + 1))), f1)))
     else Inr (Invalid t, f))"

text \<open>The byte that completes a packet.\<close>

definition packet_complete :: "bytes \<Rightarrow> nat \<Rightarrow> 'ts BinaryTracker \<Rightarrow> 'ts PacketFinder \<Rightarrow> ('ts outcome \<times> 'ts PacketFinder) res" where
  "packet_complete data i t f =
    (let start = possibleStartIndex t;
         checked = (\<lambda>len. if MaximumSizeExpectedForBinaryPacket < len then 0 else len);
         finish = (\<lambda>f p. res_bind (isValid p) (\<lambda>valid. Inr (if valid then Found t p else Invalid t, f))) in
     if startFoundInProvidedDataBuffer t then res_bind (packet_bytes data start (checked (sub64 i start + 1))) (finish f)
     else if bufferAppendLocation f + (i + 1) < length (rx_buffer f)
       then res_bind (append_bytes (take (i + 1) data) f) (\<lambda>f1.
         res_bind (packet_bytes (rx_buffer f1) start (checked (sub64 (bufferAppendLocation f) start + i + 1))) (finish f1))
     else Inr (Invalid t, f))"

definition binary_byte :: "bytes \<Rightarrow> nat \<Rightarrow> 'ts BinaryTracker \<Rightarrow> 'ts PacketFinder \<Rightarrow> ('ts outcome \<times> 'ts PacketFinder) res" where
  "binary_byte data i t f =
    (if \<not> groupsPresentFound t
     then Inr (Keep (t\<lparr>groupsPresentFound := True, groupsPresent := Some (data ! i),
       numOfBytesRemainingToHaveAllGroupFields := 2 * countSetBits (data ! i)\<rparr>), f)
     else if numOfBytesRemainingToHaveAllGroupFields t \<noteq> 0
     then (let t1 = t\<lparr>numOfBytesRemainingToHaveAllGroupFields := numOfBytesRemainingToHaveAllGroupFields t - 1\<rparr> in
       if numOfBytesRemainingToHaveAllGroupFields t1 = 0 then header_complete data i t1 f else Inr (Keep t1, f))
     else (let t1 = t\<lparr>numOfBytesRemainingForCompletePacket := sub64 (numOfBytesRemainingForCompletePacket t) 1\<rparr> in
       if numOfBytesRemainingForCompletePacket t1 = 0 then packet_complete data i t1 f else Inr (Keep t1, f)))"

text \<open>The pass over the possible packets; a packet that is found ends it and all tracking. It returns the invalid ones.\<close>

fun binary_loop ::
  "bytes \<Rightarrow> nat \<Rightarrow> 'ts BinaryTracker list \<Rightarrow> 'ts BinaryTracker list \<Rightarrow> 'ts BinaryTracker list \<Rightarrow> 'ts PacketFinder \<Rightarrow>
   ('ts BinaryTracker list \<times> 'ts PacketFinder) res" where
  "binary_loop data i [] passed invalid f = Inr (invalid, f\<lparr>binaryOnDeck := passed\<rparr>)"
| "binary_loop data i (t # ts) passed invalid f =
    res_bind (binary_byte data i t f) (\<lambda>(out, f1). case out of
       Keep t1 \<Rightarrow> binary_loop data i ts (passed @ [t1]) invalid f1
     | Invalid t1 \<Rightarrow> binary_loop data i ts (passed @ [t1]) (invalid @ [t1]) f1
     | Found t1 p \<Rightarrow> Inr ([], dispatchPacket p (runningDataIndexOfStart t1) (bt_timeFound t1) (resetTracking f1)))"

fun remove_invalid :: "'ts BinaryTracker list \<Rightarrow> 'ts BinaryTracker list \<Rightarrow> 'ts BinaryTracker list" where
  "remove_invalid [] deck = deck"
| "remove_invalid (t # ts) deck = remove_invalid ts (filter (\<lambda>x. \<not> tracker_eq x t) deck)"

section \<open>A read\<close>

definition data_byte :: "bool \<Rightarrow> 'ts option \<Rightarrow> bytes \<Rightarrow> nat \<Rightarrow> bool \<times> 'ts PacketFinder \<Rightarrow> (bool \<times> 'ts PacketFinder) res" where
  "data_byte bootloaderFilter ts data i = (\<lambda>(startFound, f).
     res_bind (ascii_byte bootloaderFilter ts data i startFound f) (\<lambda>(startFound1, doReset, f1).
       let startFound2 = (startFound1 \<and> \<not> doReset); f2 = (if doReset then ascii_reset f1 else f1) in
       res_bind (binary_loop data i (binaryOnDeck f2) [] [] f2) (\<lambda>(invalid, f3).
         let f4 = f3\<lparr>binaryOnDeck := remove_invalid invalid (binaryOnDeck f3)\<rparr>;
             f5 = (if binaryOnDeck f4 = [] \<and> \<not> currentlyBuildingAsciiPacket (asciiOnDeck f4) then f4\<lparr>bufferAppendLocation := 0\<rparr> else f4);
             f6 = (if data ! i = BinaryStartChar
               then f5\<lparr>binaryOnDeck := binaryOnDeck f5 @ [BinaryTracker_ctor i (runningDataIndex f5) ts]\<rparr> else f5) in
         Inr (startFound2, f6\<lparr>runningDataIndex := (runningDataIndex f6 + 1) mod 2 ^ 64\<rparr>))))"

fun data_loop :: "bool \<Rightarrow> 'ts option \<Rightarrow> bytes \<Rightarrow> nat list \<Rightarrow> bool \<times> 'ts PacketFinder \<Rightarrow> (bool \<times> 'ts PacketFinder) res" where
  "data_loop bootloaderFilter ts data [] s = Inr s"
| "data_loop bootloaderFilter ts data (i # is) s = res_bind (data_byte bootloaderFilter ts data i s) (data_loop bootloaderFilter ts data is)"

text \<open>What an unfinished read leaves behind.\<close>

definition adjust_tracker :: "nat \<Rightarrow> nat \<Rightarrow> 'ts BinaryTracker \<Rightarrow> 'ts BinaryTracker" where
  "adjust_tracker adjustment loc t =
    (if startFoundInProvidedDataBuffer t
     then t\<lparr>startFoundInProvidedDataBuffer := False, possibleStartIndex := sub64 (possibleStartIndex t) adjustment + loc\<rparr> else t)"

definition copy_over :: "bytes \<Rightarrow> bool \<Rightarrow> 'ts PacketFinder \<Rightarrow> 'ts PacketFinder res" where
  "copy_over data startFound f =
    (if binaryOnDeck f = [] \<and> \<not> currentlyBuildingAsciiPacket (asciiOnDeck f) then Inr f
     else
       let a = asciiOnDeck f; loc = bufferAppendLocation f;
           binaryDataToCopyOver = (binaryOnDeck f \<noteq> []);
           copyFrom = (case binaryOnDeck f of [] \<Rightarrow> 0 | t # _ \<Rightarrow> if startFoundInProvidedDataBuffer t then possibleStartIndex t else 0);
           asciiHere = (currentlyBuildingAsciiPacket a \<and> startFound);
           adjustment = (if asciiHere \<and> possibleStartOfPacketIndex a < copyFrom
             then sub64 copyFrom (sub64 copyFrom (possibleStartOfPacketIndex a)) else copyFrom);
           copyFrom1 = (if asciiHere \<and> (possibleStartOfPacketIndex a < copyFrom \<or> \<not> binaryDataToCopyOver)
             then possibleStartOfPacketIndex a else copyFrom);
           a1 = (if asciiHere then a\<lparr>possibleStartOfPacketIndex := sub64 (loc + possibleStartOfPacketIndex a) copyFrom1\<rparr> else a);
           f1 = f\<lparr>asciiOnDeck := a1, binaryOnDeck := map (adjust_tracker adjustment loc) (binaryOnDeck f)\<rparr> in
       if sub64 (loc + length data) copyFrom1 < length (rx_buffer f1)
       then res_bind (append_bytes (drop copyFrom1 data) f1) (\<lambda>f2. Inr (f2\<lparr>bufferAppendLocation := loc + (length data - copyFrom1)\<rparr>))
       else Inr (resetTracking f1))"

definition processReceivedData :: "bool \<Rightarrow> 'ts option \<Rightarrow> bytes \<Rightarrow> 'ts PacketFinder \<Rightarrow> 'ts PacketFinder res" where
  "processReceivedData bootloaderFilter ts data f =
     res_bind (data_loop bootloaderFilter ts data [0..<length data] (False, f)) (\<lambda>(startFound, f1). copy_over data startFound f1)"

fun process_reads :: "('ts option \<times> bytes) list \<Rightarrow> 'ts PacketFinder \<Rightarrow> 'ts PacketFinder res" where
  "process_reads [] f = Inr f"
| "process_reads ((ts, data) # reads) f = res_bind (processReceivedData False ts data f) (process_reads reads)"

end
