(* ===== verification/Vn_Packet_Finder_Stream.thy ===== *)
theory Vn_Packet_Finder_Stream
  imports Vn_Packet_Finder
begin

text \<open>
  The packet finder against the stream of bytes it is fed, however that stream is cut into reads. A tracker stands for
  the part of the stream from its first byte on; what a byte does to it is a function of that part alone. The invariant
  \<open>finder_inv\<close> says where in the receive buffer, or in the data of the read, that part is; it gives memory safety and that
  a binary packet handed out is a part of the stream.
\<close>

section \<open>Trackers and the stream\<close>

abbreviation (input) first :: "'ts BinaryTracker \<Rightarrow> nat" where "first \<equiv> runningDataIndexOfStart"
abbreviation (input) fields :: "'ts BinaryTracker \<Rightarrow> nat" where "fields \<equiv> numOfBytesRemainingToHaveAllGroupFields"
abbreviation (input) missing :: "'ts BinaryTracker \<Rightarrow> nat" where "missing \<equiv> numOfBytesRemainingForCompletePacket"

text \<open>How far a tracker is with its part \<open>s\<close> of the stream.\<close>

definition phase :: "'ts BinaryTracker \<Rightarrow> bytes \<Rightarrow> bool" where
  "phase t s \<longleftrightarrow> s \<noteq> [] \<and> s ! 0 = BinaryStartChar \<and>
    (if \<not> groupsPresentFound t then length s = 1 \<and> missing t = 0
     else 2 \<le> length s \<and> groupsPresent t = Some (s ! 1) \<and>
       (if fields t = 0 then header_size (s ! 1) \<le> length s else length s + fields t = header_size (s ! 1) \<and> missing t = 0))"

definition length_of :: "bytes \<Rightarrow> nat" where
  "length_of s = (case computeBinaryPacketLength s of Inr n \<Rightarrow> n | Inl _ \<Rightarrow> 0)"

definition binary_ok :: "bytes \<Rightarrow> bool" where
  "binary_ok s \<longleftrightarrow> 7 \<le> length s \<and> length s \<le> 600 \<and> Crc16 (drop 1 s) = 0"

text \<open>What a byte does to a tracker, given the stream from its first byte up to this one, and whether the receive buffer has room.\<close>

definition stream_byte :: "bool \<Rightarrow> bytes \<Rightarrow> 'ts BinaryTracker \<Rightarrow> 'ts outcome" where
  "stream_byte room s t =
    (if \<not> groupsPresentFound t
     then Keep (t\<lparr>groupsPresentFound := True, groupsPresent := Some (last s), numOfBytesRemainingToHaveAllGroupFields := 2 * countSetBits (last s)\<rparr>)
     else if fields t \<noteq> 0
     then (let t1 = t\<lparr>numOfBytesRemainingToHaveAllGroupFields := fields t - 1\<rparr> in
       if fields t1 \<noteq> 0 then Keep t1
       else if \<not> room \<or> 600 < length_of s - length s then Invalid t1
       else Keep (t1\<lparr>numOfBytesRemainingForCompletePacket := length_of s - length s\<rparr>))
     else (let t1 = t\<lparr>numOfBytesRemainingForCompletePacket := sub64 (missing t) 1\<rparr> in
       if missing t1 \<noteq> 0 then Keep t1 else if room \<and> binary_ok s then Found t1 s else Invalid t1))"

lemma header_size_ge: "2 \<le> header_size g"
  by (simp add: header_size_def)

lemma nth_1_append: "2 \<le> length s \<Longrightarrow> (s @ u) ! 1 = s ! 1"
  by (simp add: nth_append)

lemma nth_0_append: "s \<noteq> [] \<Longrightarrow> (s @ u) ! 0 = s ! 0"
  by (simp add: nth_append)

definition same_place :: "'ts BinaryTracker \<Rightarrow> 'ts BinaryTracker \<Rightarrow> bool" where
  "same_place t t' \<longleftrightarrow> possibleStartIndex t' = possibleStartIndex t \<and> first t' = first t \<and> bt_timeFound t' = bt_timeFound t \<and>
     startFoundInProvidedDataBuffer t' = startFoundInProvidedDataBuffer t"

text \<open>A tracker that is given up has nothing left to wait for.\<close>

definition given_up :: "'ts BinaryTracker \<Rightarrow> bool" where
  "given_up t \<longleftrightarrow> groupsPresentFound t \<and> fields t = 0 \<and> missing t = 0"

lemma stream_byte_phase:
  assumes "phase t s"
  shows "case stream_byte room (s @ [b]) t of
      Keep t' \<Rightarrow> phase t' (s @ [b]) \<and> same_place t t'
    | Invalid t' \<Rightarrow> phase t' (s @ [b]) \<and> same_place t t' \<and> given_up t'
    | Found t' p \<Rightarrow> p = s @ [b] \<and> binary_ok p \<and> p ! 0 = BinaryStartChar \<and> same_place t t'"
proof -
  have s: "s \<noteq> []" "(s @ [b]) ! 0 = BinaryStartChar" using assms by (simp_all add: phase_def nth_append)
  consider (start) "\<not> groupsPresentFound t" | (header) "groupsPresentFound t" "fields t \<noteq> 0" | (body) "groupsPresentFound t" "fields t = 0" by blast
  then show ?thesis
  proof cases
    case start
    then have l: "length s = 1" "(s @ [b]) ! 1 = b" "missing t = 0" using assms by (simp_all add: phase_def nth_append)
    then show ?thesis using start s by (auto simp: stream_byte_def phase_def same_place_def header_size_def)
  next
    case header
    then have l: "2 \<le> length s" "groupsPresent t = Some (s ! 1)" "length s + fields t = header_size (s ! 1)" "missing t = 0"
      using assms by (simp_all add: phase_def)
    then show ?thesis using header s nth_1_append[OF l(1), of "[b]"]
      by (auto simp: stream_byte_def phase_def same_place_def given_up_def Let_def)
  next
    case body
    then have l: "2 \<le> length s" "groupsPresent t = Some (s ! 1)" "header_size (s ! 1) \<le> length s"
      using assms by (simp_all add: phase_def)
    then show ?thesis using body s nth_1_append[OF l(1), of "[b]"]
      by (auto simp: stream_byte_def phase_def same_place_def given_up_def Let_def)
  qed
qed

lemma binary_isValid: "s ! 0 = BinaryStartChar \<Longrightarrow> isValid s = Inr (7 \<le> length s \<and> Crc16 (drop 1 s) = 0)"
  by (cases s) (simp_all add: isValid_def packet_type_def BinaryStartChar_def)

section \<open>Memory\<close>

text \<open>The valid part of the receive buffer; a read changes only what lies behind it.\<close>

definition kept_bytes :: "'ts PacketFinder \<Rightarrow> bytes" where
  "kept_bytes f = take (bufferAppendLocation f) (rx_buffer f)"

definition mem_ok :: "'ts PacketFinder \<Rightarrow> bool" where
  "mem_ok f \<longleftrightarrow> bufferAppendLocation f \<le> length (rx_buffer f)"

definition same_mem :: "'ts PacketFinder \<Rightarrow> 'ts PacketFinder \<Rightarrow> bool" where
  "same_mem f f' \<longleftrightarrow> f' = f\<lparr>rx_buffer := rx_buffer f'\<rparr> \<and> length (rx_buffer f') = length (rx_buffer f) \<and> kept_bytes f' = kept_bytes f"

lemma same_mem_refl [simp]: "same_mem f f"
  by (simp add: same_mem_def)

lemma same_mem_trans: "same_mem f f' \<Longrightarrow> same_mem f' f'' \<Longrightarrow> same_mem f f''"
  unfolding same_mem_def by (cases f; cases f'; cases f'') simp

lemma same_memD:
  assumes "same_mem f f'"
  shows "bufferAppendLocation f' = bufferAppendLocation f" "asciiOnDeck f' = asciiOnDeck f" "binaryOnDeck f' = binaryOnDeck f"
    "runningDataIndex f' = runningDataIndex f" "found f' = found f" "packetFoundHandler f' = packetFoundHandler f"
    "length (rx_buffer f') = length (rx_buffer f)" "kept_bytes f' = kept_bytes f" "mem_ok f' = mem_ok f"
  using assms unfolding same_mem_def mem_ok_def by (cases f; cases f'; simp)+

lemma append_bytes_ok:
  assumes "mem_ok f" "bufferAppendLocation f + length bs \<le> length (rx_buffer f)"
  obtains f1 where "append_bytes bs f = Inr f1" "same_mem f f1" "\<exists>r. rx_buffer f1 = kept_bytes f @ bs @ r"
    "f1 = f\<lparr>rx_buffer := kept_bytes f @ bs @ drop (bufferAppendLocation f + length bs) (rx_buffer f)\<rparr>"
proof -
  let ?f = "f\<lparr>rx_buffer := kept_bytes f @ bs @ drop (bufferAppendLocation f + length bs) (rx_buffer f)\<rparr>"
  have "append_bytes bs f = Inr ?f" using assms(2) by (simp add: append_bytes_def kept_bytes_def)
  moreover have "same_mem f ?f" using assms by (simp add: same_mem_def kept_bytes_def mem_ok_def)
  ultimately show ?thesis using that by auto
qed

lemma length_kept: "mem_ok f \<Longrightarrow> length (kept_bytes f) = bufferAppendLocation f"
  by (simp add: kept_bytes_def mem_ok_def)

section \<open>A tracker and its part of the stream\<close>

text \<open>
  \<open>S\<close> is the stream before the read, \<open>mem\<close> the valid part of the receive buffer. A tracker that began in an
  earlier read has the rest of that stream in the buffer; one that began in this read refers to the read's data.
\<close>

definition tracker_at :: "bytes \<Rightarrow> bytes \<Rightarrow> 'ts BinaryTracker \<Rightarrow> bool" where
  "tracker_at S mem t \<longleftrightarrow>
    (if startFoundInProvidedDataBuffer t then first t = length S + possibleStartIndex t
     else first t < length S \<and> possibleStartIndex t < length mem \<and> drop (possibleStartIndex t) mem = drop (first t) S)"

definition part :: "bytes \<Rightarrow> bytes \<Rightarrow> nat \<Rightarrow> 'ts BinaryTracker \<Rightarrow> bytes" where
  "part S data i t = drop (first t) (S @ take i data)"

lemma part_Suc:
  assumes "part S data i t \<noteq> []" "i < length data"
  shows "part S data (Suc i) t = part S data i t @ [data ! i]"
proof -
  have "first t < length S + i" using assms by (auto simp: part_def)
  then show ?thesis using assms(2) by (auto simp: part_def take_Suc_conv_app_nth drop_Cons')
qed

lemma part_provided:
  assumes "tracker_at S mem t" "startFoundInProvidedDataBuffer t" "part S data i t \<noteq> []" "i \<le> length data"
  shows "part S data i t = drop (possibleStartIndex t) (take i data)" "possibleStartIndex t < i"
    "length (part S data i t) = i - possibleStartIndex t"
  using assms by (auto simp: part_def tracker_at_def)

lemma part_kept:
  assumes "tracker_at S mem t" "\<not> startFoundInProvidedDataBuffer t" "i \<le> length data"
  shows "part S data i t = drop (possibleStartIndex t) mem @ take i data"
    "length (part S data i t) = length mem - possibleStartIndex t + i"
proof -
  show "part S data i t = drop (possibleStartIndex t) mem @ take i data" using assms by (simp add: part_def tracker_at_def)
  then show "length (part S data i t) = length mem - possibleStartIndex t + i" using assms(3) by simp
qed

lemma drop_take_append: "n \<le> length xs \<Longrightarrow> k \<le> n \<Longrightarrow> drop k xs = drop k (take n xs) @ drop n xs"
  by (metis append_take_drop_id diff_is_0_eq drop0 drop_append length_take min.absorb2)

lemma packet_bytes_drop: "drop start mem = s @ u \<Longrightarrow> s \<noteq> [] \<Longrightarrow> n \<le> length s \<Longrightarrow> packet_bytes mem start n = Inr (take n s)"
proof -
  assume a: "drop start mem = s @ u" "s \<noteq> []" "n \<le> length s"
  then have "length mem - start = length s + length u" by (metis length_append length_drop)
  moreover have "start < length mem" using a(1,2) by (metis append_is_Nil_conv drop_eq_Nil not_le)
  ultimately show ?thesis using a by (simp add: packet_bytes_def)
qed

text \<open>The two places where a tracker's bytes are looked at; \<open>u\<close> is whatever memory follows them.\<close>

lemma header_finish:
  assumes "phase t s" "groupsPresentFound t" "fields t = 1"
  shows "computeBinaryPacketLength ((s @ [b]) @ u) = Inr (length_of (s @ [b]))" "length (s @ [b]) \<le> length_of (s @ [b])"
proof -
  have l: "2 \<le> length s" "length (s @ [b]) = header_size (s ! 1)" using assms by (simp_all add: phase_def)
  have h: "header_size ((s @ [b]) ! 1) \<le> length (s @ [b])" using l nth_1_append[OF l(1), of "[b]"] by simp
  obtain n where n: "computeBinaryPacketLength (s @ [b]) = Inr n" "header_size ((s @ [b]) ! 1) \<le> n" using packet_length_ok[OF h] .
  show "computeBinaryPacketLength ((s @ [b]) @ u) = Inr (length_of (s @ [b]))" "length (s @ [b]) \<le> length_of (s @ [b])"
    using packet_length_prefix[OF h, of u] n l nth_1_append[OF l(1), of "[b]"] by (simp_all add: length_of_def)
qed

lemma packet_finish:
  assumes "s ! 0 = BinaryStartChar" "s \<noteq> []" "drop start mem = s @ u"
  shows "res_bind (packet_bytes mem start (if MaximumSizeExpectedForBinaryPacket < length s then 0 else length s))
      (\<lambda>p. res_bind (isValid p) (\<lambda>valid. Inr (if valid then Found t p else Invalid t, f))) =
    Inr (if binary_ok s then Found t s else Invalid t, f)"
proof (cases "MaximumSizeExpectedForBinaryPacket < length s")
  case True
  then show ?thesis using packet_bytes_drop[OF assms(3,2), of 0] by (simp add: isValid_def binary_ok_def MaximumSizeExpectedForBinaryPacket_def)
next
  case False
  then show ?thesis using packet_bytes_drop[OF assms(3,2), of "length s"] binary_isValid[OF assms(1)]
    by (auto simp: binary_ok_def MaximumSizeExpectedForBinaryPacket_def)
qed

text \<open>Where the bytes of a tracker are when it gets byte \<open>i\<close>.\<close>

lemma bytes_provided:
  assumes "tracker_at S mem t" "startFoundInProvidedDataBuffer t" "part S data i t \<noteq> []" "i < length data"
  shows "drop (possibleStartIndex t) data = part S data (Suc i) t @ drop (Suc i) data"
    "sub64 i (possibleStartIndex t) + 1 = length (part S data (Suc i) t)"
proof -
  note q = part_provided[OF assms(1-3) less_imp_le[OF assms(4)]]
  have "part S data (Suc i) t \<noteq> []" using part_Suc[OF assms(3,4)] by simp
  note p = part_provided[OF assms(1,2) this Suc_leI[OF assms(4)]]
  show "drop (possibleStartIndex t) data = part S data (Suc i) t @ drop (Suc i) data"
    unfolding p(1) by (rule drop_take_append) (use p(2) assms(4) in simp_all)
  show "sub64 i (possibleStartIndex t) + 1 = length (part S data (Suc i) t)" using p(3) q(2) by (simp add: sub64_def)
qed

lemma bytes_kept:
  assumes "mem_ok f" "tracker_at S (kept_bytes f) t" "\<not> startFoundInProvidedDataBuffer t" "i < length data"
    and "rx_buffer f1 = kept_bytes f @ take (Suc i) data @ r"
  shows "drop (possibleStartIndex t) (rx_buffer f1) = part S data (Suc i) t @ r"
    "sub64 (bufferAppendLocation f) (possibleStartIndex t) + (i + 1) = length (part S data (Suc i) t)"
proof -
  note p = part_kept[OF assms(2,3) Suc_leI[OF assms(4)]]
  have l: "possibleStartIndex t < length (kept_bytes f)" using assms(2,3) by (simp add: tracker_at_def)
  show "drop (possibleStartIndex t) (rx_buffer f1) = part S data (Suc i) t @ r" using p(1) l assms(5) by simp
  show "sub64 (bufferAppendLocation f) (possibleStartIndex t) + (i + 1) = length (part S data (Suc i) t)"
    using p(2) l length_kept[OF assms(1)] by (simp add: sub64_def)
qed

text \<open>The byte that a tracker gets does to it what the stream says.\<close>

lemma header_complete_stream:
  assumes "mem_ok f" "tracker_at S (kept_bytes f) t" "phase t (part S data i t)" "i < length data" "groupsPresentFound t" "fields t = 1"
    and "room = (startFoundInProvidedDataBuffer t \<or> bufferAppendLocation f + (i + 1) < length (rx_buffer f))"
  shows "\<exists>f1. header_complete data i (t\<lparr>numOfBytesRemainingToHaveAllGroupFields := 0\<rparr>) f = Inr (stream_byte room (part S data (Suc i) t) t, f1) \<and> same_mem f f1"
proof -
  let ?s = "part S data (Suc i) t"
  have ne: "part S data i t \<noteq> []" using assms(3) by (simp add: phase_def)
  have c: "computeBinaryPacketLength (?s @ u) = Inr (length_of ?s)" "length ?s \<le> length_of ?s" for u
    using header_finish[OF assms(3,5,6), of "data ! i"] part_Suc[OF ne assms(4)] by simp_all
  then have d: "sub64 (length_of ?s) (length ?s) = length_of ?s - length ?s" by (simp add: sub64_def)
  show ?thesis
  proof (cases "startFoundInProvidedDataBuffer t")
    case True
    note b = bytes_provided[OF assms(2) True ne assms(4)]
    show ?thesis using b c d True assms(5-7)
      by (simp add: header_complete_def stream_byte_def Let_def MaximumSizeExpectedForBinaryPacket_def)
  next
    case False
    show ?thesis
    proof (cases room)
      case True
      then have room: "bufferAppendLocation f + (i + 1) < length (rx_buffer f)" using assms(7) False by simp
      then have "bufferAppendLocation f + length (take (Suc i) data) \<le> length (rx_buffer f)" using assms(4) by simp
      then obtain f1 r where f1: "append_bytes (take (Suc i) data) f = Inr f1" "same_mem f f1" "rx_buffer f1 = kept_bytes f @ take (Suc i) data @ r"
        using append_bytes_ok[OF assms(1)] by blast
      note b = bytes_kept[OF assms(1,2) False assms(4) f1(3)]
      show ?thesis using b c d False True room f1(1,2) assms(5,6)
        by (simp add: header_complete_def stream_byte_def Let_def MaximumSizeExpectedForBinaryPacket_def)
    next
      case nroom: False
      then show ?thesis using False assms(5-7) by (simp add: header_complete_def stream_byte_def Let_def)
    qed
  qed
qed

lemma packet_complete_stream:
  assumes "mem_ok f" "tracker_at S (kept_bytes f) t" "phase t (part S data i t)" "i < length data" "groupsPresentFound t" "fields t = 0" "sub64 (missing t) 1 = 0"
    and "room = (startFoundInProvidedDataBuffer t \<or> bufferAppendLocation f + (i + 1) < length (rx_buffer f))"
  shows "\<exists>f1. packet_complete data i (t\<lparr>numOfBytesRemainingForCompletePacket := 0\<rparr>) f = Inr (stream_byte room (part S data (Suc i) t) t, f1) \<and> same_mem f f1"
proof -
  let ?t = "t\<lparr>numOfBytesRemainingForCompletePacket := 0\<rparr>"
  let ?s = "part S data (Suc i) t"
  have ne: "part S data i t \<noteq> []" using assms(3) by (simp add: phase_def)
  have s: "?s ! 0 = BinaryStartChar" "?s \<noteq> []" using part_Suc[OF ne assms(4)] assms(3) by (simp_all add: phase_def nth_append)
  show ?thesis
  proof (cases "startFoundInProvidedDataBuffer t")
    case True
    note b = bytes_provided[OF assms(2) True ne assms(4)]
    have "packet_complete data i ?t f = Inr (if binary_ok ?s then Found ?t ?s else Invalid ?t, f)"
      using packet_finish[OF s b(1), of ?t f] b(2) True by (simp add: packet_complete_def Let_def split del: if_split cong del: if_weak_cong)
    then show ?thesis using True assms(5-8) by (simp add: stream_byte_def Let_def)
  next
    case False
    show ?thesis
    proof (cases room)
      case True
      then have room: "bufferAppendLocation f + (i + 1) < length (rx_buffer f)" using assms(8) False by simp
      then have "bufferAppendLocation f + length (take (Suc i) data) \<le> length (rx_buffer f)" using assms(4) by simp
      then obtain f1 r where f1: "append_bytes (take (Suc i) data) f = Inr f1" "same_mem f f1" "rx_buffer f1 = kept_bytes f @ take (Suc i) data @ r"
        using append_bytes_ok[OF assms(1)] by blast
      note b = bytes_kept[OF assms(1,2) False assms(4) f1(3)]
      have "packet_complete data i ?t f = Inr (if binary_ok ?s then Found ?t ?s else Invalid ?t, f1)"
        using packet_finish[OF s b(1), of ?t f1] b(2) False room f1(1) by (simp add: packet_complete_def Let_def split del: if_split cong del: if_weak_cong)
      then show ?thesis using True f1(2) assms(5-7) by (simp add: stream_byte_def Let_def)
    next
      case nroom: False
      then show ?thesis using False assms(5-8) by (simp add: packet_complete_def stream_byte_def Let_def)
    qed
  qed
qed

lemma binary_byte_stream:
  assumes "mem_ok f" "tracker_at S (kept_bytes f) t" "phase t (part S data i t)" "i < length data"
    and "room = (startFoundInProvidedDataBuffer t \<or> bufferAppendLocation f + (i + 1) < length (rx_buffer f))"
  shows "\<exists>f1. binary_byte data i t f = Inr (stream_byte room (part S data (Suc i) t) t, f1) \<and> same_mem f f1"
proof -
  have ne: "part S data i t \<noteq> []" using assms(3) by (simp add: phase_def)
  have l: "last (part S data (Suc i) t) = data ! i" using part_Suc[OF ne assms(4)] by simp
  consider (start) "\<not> groupsPresentFound t" | (header) "groupsPresentFound t" "fields t > 1" | (last) "groupsPresentFound t" "fields t = 1"
    | (body) "groupsPresentFound t" "fields t = 0" "sub64 (missing t) 1 \<noteq> 0" | (complete) "groupsPresentFound t" "fields t = 0" "sub64 (missing t) 1 = 0"
    by fastforce
  then show ?thesis
  proof cases
    case start
    then show ?thesis using l by (simp add: binary_byte_def stream_byte_def)
  next
    case header
    then show ?thesis by (simp add: binary_byte_def stream_byte_def Let_def)
  next
    case last
    then show ?thesis using header_complete_stream[OF assms(1-4) last assms(5)] by (simp add: binary_byte_def Let_def)
  next
    case body
    then show ?thesis by (simp add: binary_byte_def stream_byte_def Let_def)
  next
    case complete
    then show ?thesis using packet_complete_stream[OF assms(1-4) complete assms(5)] by (simp add: binary_byte_def Let_def)
  qed
qed

section \<open>All trackers\<close>

fun tracker_of :: "'ts outcome \<Rightarrow> 'ts BinaryTracker" where
  "tracker_of (Keep t) = t"
| "tracker_of (Invalid t) = t"
| "tracker_of (Found t p) = t"

fun is_found :: "'ts outcome \<Rightarrow> bool" where
  "is_found (Found t p) = True"
| "is_found out = False"

fun is_invalid :: "'ts outcome \<Rightarrow> bool" where
  "is_invalid (Invalid t) = True"
| "is_invalid out = False"

definition out :: "bytes \<Rightarrow> bytes \<Rightarrow> nat \<Rightarrow> 'ts PacketFinder \<Rightarrow> 'ts BinaryTracker \<Rightarrow> 'ts outcome" where
  "out S data i f t = stream_byte (startFoundInProvidedDataBuffer t \<or> bufferAppendLocation f + (i + 1) < length (rx_buffer f)) (part S data (Suc i) t) t"

definition trackers_ok :: "bytes \<Rightarrow> bytes \<Rightarrow> nat \<Rightarrow> bytes \<Rightarrow> 'ts BinaryTracker list \<Rightarrow> bool" where
  "trackers_ok S data i mem ts \<longleftrightarrow> (\<forall>t \<in> set ts. tracker_at S mem t \<and> phase t (part S data i t))"

lemma out_same: "same_mem f f' \<Longrightarrow> out S data i f' = out S data i f"
  using same_memD(1,7)[of f f'] by (simp add: out_def fun_eq_iff)

lemma binary_byte_out:
  assumes "mem_ok f" "trackers_ok S data i (kept_bytes f) (t # ts)" "i < length data"
  obtains f1 where "binary_byte data i t f = Inr (out S data i f t, f1)" "same_mem f f1" "mem_ok f1" "trackers_ok S data i (kept_bytes f1) ts"
proof -
  obtain f1 where f1: "binary_byte data i t f = Inr (out S data i f t, f1)" "same_mem f f1"
    using binary_byte_stream[OF assms(1) _ _ assms(3) refl, of S t] assms(2) unfolding trackers_ok_def out_def by auto
  then show ?thesis using that same_memD(8,9)[OF f1(2)] assms(1,2) by (simp add: trackers_ok_def)
qed

lemma loop_none:
  assumes "mem_ok f" "trackers_ok S data i (kept_bytes f) ts" "i < length data" "\<forall>t \<in> set ts. \<not> is_found (out S data i f t)"
  shows "\<exists>f1. same_mem f f1 \<and> binary_loop data i ts passed invalid f =
    Inr (invalid @ map tracker_of (filter is_invalid (map (out S data i f) ts)), f1\<lparr>binaryOnDeck := passed @ map (\<lambda>t. tracker_of (out S data i f t)) ts\<rparr>)"
  using assms
proof (induction ts arbitrary: f passed invalid)
  case Nil
  show ?case by (intro exI[of _ f]) simp
next
  case (Cons t ts)
  obtain f1 where f1: "binary_byte data i t f = Inr (out S data i f t, f1)" "same_mem f f1" "mem_ok f1" "trackers_ok S data i (kept_bytes f1) ts"
    using binary_byte_out[OF Cons.prems(1-3)] .
  note o = out_same[OF f1(2), of S data i]
  have IH: "\<exists>f2. same_mem f f2 \<and> binary_loop data i ts passed invalid f1 =
    Inr (invalid @ map tracker_of (filter is_invalid (map (out S data i f) ts)), f2\<lparr>binaryOnDeck := passed @ map (\<lambda>t. tracker_of (out S data i f t)) ts\<rparr>)"
    for passed invalid using Cons.IH[OF f1(3,4) Cons.prems(3), unfolded o] Cons.prems(4) same_mem_trans[OF f1(2)] by (metis list.set_intros(2))
  show ?case
  proof (cases "out S data i f t")
    case (Keep t1)
    then show ?thesis using f1(1) IH[of "passed @ [t1]" invalid] by simp
  next
    case (Invalid t1)
    then show ?thesis using f1(1) IH[of "passed @ [t1]" "invalid @ [t1]"] by simp
  next
    case (Found t1 p)
    then show ?thesis using Cons.prems(4) by simp
  qed
qed

lemma loop_found:
  assumes "mem_ok f" "trackers_ok S data i (kept_bytes f) ts" "i < length data" "\<exists>t \<in> set ts. is_found (out S data i f t)"
  shows "\<exists>f1 t t1 p. same_mem f f1 \<and> t \<in> set ts \<and> out S data i f t = Found t1 p \<and>
    binary_loop data i ts passed invalid f = Inr ([], dispatchPacket p (first t1) (bt_timeFound t1) (resetTracking f1))"
  using assms
proof (induction ts arbitrary: f passed invalid)
  case (Cons t ts)
  obtain f1 where f1: "binary_byte data i t f = Inr (out S data i f t, f1)" "same_mem f f1" "mem_ok f1" "trackers_ok S data i (kept_bytes f1) ts"
    using binary_byte_out[OF Cons.prems(1-3)] .
  note o = out_same[OF f1(2), of S data i]
  show ?case
  proof (cases "is_found (out S data i f t)")
    case True
    then obtain t1 p where "out S data i f t = Found t1 p" by (cases "out S data i f t") simp_all
    then show ?thesis using f1(1,2) by (intro exI[of _ f1] exI[of _ t] exI[of _ t1] exI[of _ p]) simp
  next
    case False
    then have "\<exists>t \<in> set ts. is_found (out S data i f1 t)" using Cons.prems(4) o by simp
    from Cons.IH[OF f1(3,4) Cons.prems(3) this, unfolded o]
    have IH: "\<exists>f2 u t1 p. same_mem f f2 \<and> u \<in> set (t # ts) \<and> out S data i f u = Found t1 p \<and>
      binary_loop data i ts passed invalid f1 = Inr ([], dispatchPacket p (first t1) (bt_timeFound t1) (resetTracking f2))" for passed invalid
      using same_mem_trans[OF f1(2)] by (metis list.set_intros(2))
    show ?thesis using f1(1) False IH by (cases "out S data i f t") simp_all
  qed
qed simp

section \<open>ASCII packets\<close>

text \<open>The start of the possible packet is in the data of this read or in the receive buffer.\<close>

definition ascii_ok :: "bytes \<Rightarrow> nat \<Rightarrow> bool \<Rightarrow> bytes \<Rightarrow> 'ts AsciiTracker \<Rightarrow> bool" where
  "ascii_ok data i startFound mem a \<longleftrightarrow> (asciiEndChar1Found a \<longrightarrow> currentlyBuildingAsciiPacket a) \<and>
    (currentlyBuildingAsciiPacket a \<longrightarrow>
      (if startFound then possibleStartOfPacketIndex a < i \<and> data ! possibleStartOfPacketIndex a = AsciiStartChar
       else possibleStartOfPacketIndex a < length mem \<and> mem ! possibleStartOfPacketIndex a = AsciiStartChar))"

definition ascii_found :: "bytes \<times> nat \<times> 'ts option \<Rightarrow> bool" where
  "ascii_found x \<longleftrightarrow> isValid (fst x) = Inr True \<and> fst x ! 0 = AsciiStartChar"

lemma ascii_isValid_ok: "p = [] \<or> p ! 0 = AsciiStartChar \<Longrightarrow> \<exists>v. isValid p = Inr v \<and> (v \<longrightarrow> p \<noteq> [])"
  by (cases p) (auto simp: isValid_def packet_type_def AsciiStartChar_def)

lemma ascii_finish:
  assumes "start < length mem" "mem ! start = AsciiStartChar" "start + n \<le> length mem"
  shows "\<exists>xs. res_bind (packet_bytes mem start n) (\<lambda>p. res_bind (isValid p) (\<lambda>valid. Inr (if valid then dispatchPacket p r ts f else f))) =
    Inr (f\<lparr>found := found f @ xs\<rparr>) \<and> list_all ascii_found xs"
proof -
  let ?p = "take n (drop start mem)"
  have p: "?p = [] \<or> ?p ! 0 = AsciiStartChar" using assms(1,2) by (cases n) simp_all
  obtain v where v: "isValid ?p = Inr v" "v \<longrightarrow> ?p \<noteq> []" using ascii_isValid_ok[OF p] by blast
  have d: "packet_bytes mem start n = Inr ?p" using assms(3) by (simp add: packet_bytes_def)
  show ?thesis
  proof (cases "v \<and> packetFoundHandler f")
    case True
    then have "list_all ascii_found [(?p, r, ts)]" using v p by (simp add: ascii_found_def)
    then show ?thesis using d v True by (intro exI[of _ "[(?p, r, ts)]"]) (simp add: dispatchPacket_def)
  next
    case False
    then show ?thesis using d v by (intro exI[of _ "[]"]) (auto simp: dispatchPacket_def)
  qed
qed

lemma ascii_end_ok:
  assumes "mem_ok f" "ascii_ok data i startFound (kept_bytes f) (asciiOnDeck f)" "currentlyBuildingAsciiPacket (asciiOnDeck f)" "i < length data"
  shows "\<exists>f1 xs. ascii_end data i startFound f = Inr (f1\<lparr>found := found f1 @ xs\<rparr>) \<and> same_mem f f1 \<and> list_all ascii_found xs"
proof -
  let ?a = "asciiOnDeck f" and ?start = "possibleStartOfPacketIndex (asciiOnDeck f)"
  have c: "(if MaximumSizeForAsciiPacket < n then 0 else n) \<le> n" for n :: nat by simp
  show ?thesis
  proof (cases startFound)
    case True
    then have st: "?start < i" "data ! ?start = AsciiStartChar" using assms(2,3) by (simp_all add: ascii_ok_def)
    let ?n = "sub64 i ?start + 1"
    have m: "?start < length data" "?start + ?n \<le> length data" using st(1) assms(4) by (simp_all add: sub64_def)
    have n: "?start + (if MaximumSizeForAsciiPacket < ?n then 0 else ?n) \<le> length data" using c[of ?n] m(2) by linarith
    obtain xs where "res_bind (packet_bytes data ?start (if MaximumSizeForAsciiPacket < ?n then 0 else ?n)) (\<lambda>p. res_bind (isValid p) (\<lambda>valid.
        Inr (if valid then dispatchPacket p (ascii_runningDataIndexOfStart ?a) (ascii_timeFound ?a) f else f))) = Inr (f\<lparr>found := found f @ xs\<rparr>)"
        "list_all ascii_found xs"
      using ascii_finish[OF m(1) st(2) n, of "ascii_runningDataIndexOfStart ?a" "ascii_timeFound ?a" f] by blast
    then show ?thesis using True unfolding ascii_end_def Let_def by (intro exI[of _ f] exI[of _ xs]) simp
  next
    case nstart: False
    then have st: "?start < length (kept_bytes f)" "kept_bytes f ! ?start = AsciiStartChar" using assms(2,3) by (simp_all add: ascii_ok_def)
    show ?thesis
    proof (cases "bufferAppendLocation f + i < length (rx_buffer f)")
      case True
      then have "bufferAppendLocation f + length (take (i + 1) data) \<le> length (rx_buffer f)" using assms(4) by simp
      then obtain f1 r where f1: "append_bytes (take (i + 1) data) f = Inr f1" "same_mem f f1" "rx_buffer f1 = kept_bytes f @ take (i + 1) data @ r"
        using append_bytes_ok[OF assms(1)] by blast
      let ?n = "sub64 (bufferAppendLocation f + i + 1) ?start"
      have m: "?start < length (rx_buffer f1)" "rx_buffer f1 ! ?start = AsciiStartChar" using st f1(3) by (simp_all add: nth_append)
      have "?start + ?n \<le> length (rx_buffer f1)" using st(1) length_kept[OF assms(1)] f1(3) assms(4) by (simp add: sub64_def)
      then have n: "?start + (if MaximumSizeForAsciiPacket < ?n then 0 else ?n) \<le> length (rx_buffer f1)" using c[of ?n] by linarith
      obtain xs where x: "res_bind (packet_bytes (rx_buffer f1) ?start (if MaximumSizeForAsciiPacket < ?n then 0 else ?n)) (\<lambda>p. res_bind (isValid p)
          (\<lambda>valid. Inr (if valid then dispatchPacket p (ascii_runningDataIndexOfStart ?a) (ascii_timeFound ?a) f1 else f1))) =
          Inr (f1\<lparr>found := found f1 @ xs\<rparr>)" "list_all ascii_found xs"
        using ascii_finish[OF m n, of "ascii_runningDataIndexOfStart ?a" "ascii_timeFound ?a" f1] by blast
      have "ascii_end data i startFound f = Inr (f1\<lparr>found := found f1 @ xs\<rparr>)"
        using nstart True f1(1) x(1) unfolding ascii_end_def Let_def by simp
      then show ?thesis using f1(2) x(2) by blast
    next
      case False
      then have "ascii_end data i startFound f = Inr f" using nstart by (simp add: ascii_end_def isValid_def Let_def)
      then show ?thesis by (intro exI[of _ f] exI[of _ "[]"]) simp
    qed
  qed
qed

text \<open>What the ASCII part of a byte leaves for the binary part.\<close>

definition after_ascii ::
  "bytes \<Rightarrow> nat \<Rightarrow> bool \<Rightarrow> 'ts PacketFinder \<Rightarrow> (bytes \<times> nat \<times> 'ts option) list \<Rightarrow> bool \<Rightarrow> 'ts PacketFinder \<Rightarrow> bool" where
  "after_ascii data i startFound f xs startFound' f' \<longleftrightarrow>
     mem_ok f' \<and> binaryOnDeck f' = binaryOnDeck f \<and> runningDataIndex f' = runningDataIndex f \<and> packetFoundHandler f' = packetFoundHandler f \<and>
     length (rx_buffer f') = length (rx_buffer f) \<and> found f' = found f @ xs \<and> list_all ascii_found xs \<and>
     (bufferAppendLocation f' = bufferAppendLocation f \<and> kept_bytes f' = kept_bytes f \<or> binaryOnDeck f = [] \<and> bufferAppendLocation f' = 0) \<and>
     ascii_ok data (Suc i) startFound' (kept_bytes f') (asciiOnDeck f') \<and>
     (currentlyBuildingAsciiPacket (asciiOnDeck f') \<and> startFound' \<longrightarrow> possibleStartOfPacketIndex (asciiOnDeck f') = i \<or>
       currentlyBuildingAsciiPacket (asciiOnDeck f) \<and> startFound \<and> possibleStartOfPacketIndex (asciiOnDeck f') = possibleStartOfPacketIndex (asciiOnDeck f))"

lemma after_ascii_reset:
  assumes "mem_ok f" "same_mem f f0" "list_all ascii_found xs"
  shows "after_ascii data i startFound f xs False (ascii_reset (f0\<lparr>found := found f0 @ xs\<rparr>))"
  using same_memD[OF assms(2)] assms(1,3)
  by (auto simp: after_ascii_def ascii_reset_def resetTracking_def mem_ok_def kept_bytes_def ascii_ok_def AsciiTracker_reset_def)

lemma ascii_byte_ok:
  assumes "mem_ok f" "ascii_ok data i startFound (kept_bytes f) (asciiOnDeck f)" "i < length data"
  shows "\<exists>startFound1 doReset f1 xs. ascii_byte False ts data i startFound f = Inr (startFound1, doReset, f1) \<and>
    after_ascii data i startFound f xs (startFound1 \<and> \<not> doReset) (if doReset then ascii_reset f1 else f1)"
proof -
  let ?a = "asciiOnDeck f"
  have reset: "after_ascii data i startFound f [] False (ascii_reset f)" using after_ascii_reset[OF assms(1) same_mem_refl, of "[]"] by simp
  consider (start) "data ! i = AsciiStartChar"
    | (end1) "data ! i \<noteq> AsciiStartChar" "currentlyBuildingAsciiPacket ?a" "data ! i = AsciiEndChar1"
    | (end2) "data ! i \<noteq> AsciiStartChar" "asciiEndChar1Found ?a" "data ! i = AsciiEndChar2"
    | (other) "data ! i \<noteq> AsciiStartChar" "\<not> (currentlyBuildingAsciiPacket ?a \<and> data ! i = AsciiEndChar1)"
        "\<not> (asciiEndChar1Found ?a \<and> data ! i = AsciiEndChar2)" by blast
  then show ?thesis
  proof cases
    case start
    then show ?thesis using assms(1)
      by (intro exI[of _ True] exI[of _ False] exI exI[of _ "[]"] conjI)
        (simp add: ascii_byte_def, simp add: after_ascii_def mem_ok_def kept_bytes_def ascii_ok_def)
  next
    case end1
    then show ?thesis using assms(1,2)
      by (intro exI[of _ startFound] exI[of _ False] exI exI[of _ "[]"] conjI)
        (simp add: ascii_byte_def, auto simp: after_ascii_def mem_ok_def kept_bytes_def ascii_ok_def)
  next
    case end2
    then have b: "currentlyBuildingAsciiPacket ?a" using assms(2) by (simp add: ascii_ok_def)
    obtain f1 xs where e: "ascii_end data i startFound f = Inr (f1\<lparr>found := found f1 @ xs\<rparr>)" "same_mem f f1" "list_all ascii_found xs"
      using ascii_end_ok[OF assms(1,2) b assms(3)] by blast
    have "ascii_byte False ts data i startFound f = Inr (startFound, True, f1\<lparr>found := found f1 @ xs\<rparr>)"
      using end2 e(1) by (simp add: ascii_byte_def char_defs Let_def)
    then show ?thesis using after_ascii_reset[OF assms(1) e(2,3)] by (intro exI[of _ startFound] exI[of _ True] exI exI[of _ xs] conjI) simp_all
  next
    case other
    show ?thesis
    proof (cases "asciiEndChar1Found ?a \<or> MaximumSizeForAsciiPacket < sub64 (i + 1) (possibleStartOfPacketIndex ?a)")
      case True
      then have "ascii_byte False ts data i startFound f = Inr (startFound, True, f)" using other by (auto simp: ascii_byte_def Let_def)
      then show ?thesis using reset by (intro exI[of _ startFound] exI[of _ True] exI exI[of _ "[]"] conjI) simp_all
    next
      case False
      then have "ascii_byte False ts data i startFound f = Inr (startFound, False, f)" using other by (auto simp: ascii_byte_def Let_def)
      moreover have "after_ascii data i startFound f [] startFound f" using assms(1,2) by (auto simp: after_ascii_def ascii_ok_def)
      ultimately show ?thesis by (intro exI[of _ startFound] exI[of _ False] exI exI[of _ "[]"] conjI) simp_all
    qed
  qed
qed

section \<open>A byte\<close>

lemma remove_invalid_set: "set (remove_invalid us deck) \<subseteq> set deck"
  by (induction us arbitrary: deck) fastforce+

lemma remove_invalid_keeps: "t \<in> set deck \<Longrightarrow> \<forall>u \<in> set us. \<not> tracker_eq t u \<Longrightarrow> t \<in> set (remove_invalid us deck)"
  by (induction us arbitrary: deck) auto

lemma remove_invalid_sorted: "sorted_wrt P deck \<Longrightarrow> sorted_wrt P (remove_invalid us deck)"
  by (induction us arbitrary: deck) (auto simp: sorted_wrt_filter)

text \<open>A packet handed out: an ASCII packet, or a valid binary packet that is a part of the stream at the reported index.\<close>

definition from_stream :: "bytes \<Rightarrow> bytes \<times> nat \<times> 'ts option \<Rightarrow> bool" where
  "from_stream T x \<longleftrightarrow> ascii_found x \<or> (case x of (p, r, ts) \<Rightarrow>
     binary_ok p \<and> p ! 0 = BinaryStartChar \<and> r + length p \<le> length T \<and> p = take (length p) (drop r T))"

definition finder_inv :: "bytes \<Rightarrow> bytes \<Rightarrow> nat \<Rightarrow> bool \<Rightarrow> 'ts PacketFinder \<Rightarrow> bool" where
  "finder_inv S data i startFound f \<longleftrightarrow> mem_ok f \<and> packetFoundHandler f \<and> runningDataIndex f = length S + i \<and>
     trackers_ok S data i (kept_bytes f) (binaryOnDeck f) \<and> sorted_wrt (\<lambda>t u. first t < first u) (binaryOnDeck f) \<and>
     ascii_ok data i startFound (kept_bytes f) (asciiOnDeck f) \<and> list_all (from_stream (S @ take i data)) (found f)"

definition new_tracker :: "'ts option \<Rightarrow> bytes \<Rightarrow> nat \<Rightarrow> 'ts PacketFinder \<Rightarrow> 'ts BinaryTracker list" where
  "new_tracker ts data i f = (if data ! i = BinaryStartChar then [BinaryTracker_ctor i (runningDataIndex f) ts] else [])"

definition next_deck :: "bytes \<Rightarrow> bytes \<Rightarrow> nat \<Rightarrow> 'ts PacketFinder \<Rightarrow> 'ts BinaryTracker list" where
  "next_deck S data i f = remove_invalid (map tracker_of (filter is_invalid (map (out S data i f) (binaryOnDeck f))))
     (map (\<lambda>t. tracker_of (out S data i f t)) (binaryOnDeck f))"

text \<open>
  The two ways in which a byte is dealt with after its ASCII part has left \<open>f\<close>: no packet is complete, and the trackers
  step, or one is, and all tracking starts afresh.
\<close>

definition byte_kept :: "bytes \<Rightarrow> 'ts option \<Rightarrow> bytes \<Rightarrow> nat \<Rightarrow> 'ts PacketFinder \<Rightarrow> 'ts PacketFinder \<Rightarrow> bool" where
  "byte_kept S ts data i f f' \<longleftrightarrow> (\<forall>t \<in> set (binaryOnDeck f). \<not> is_found (out S data i f t)) \<and>
     binaryOnDeck f' = next_deck S data i f @ new_tracker ts data i f \<and> found f' = found f \<and> asciiOnDeck f' = asciiOnDeck f \<and>
     (bufferAppendLocation f' = bufferAppendLocation f \<and> kept_bytes f' = kept_bytes f \<or>
      bufferAppendLocation f' = 0 \<and> next_deck S data i f = [] \<and> \<not> currentlyBuildingAsciiPacket (asciiOnDeck f))"

definition byte_found :: "bytes \<Rightarrow> 'ts option \<Rightarrow> bytes \<Rightarrow> nat \<Rightarrow> 'ts PacketFinder \<Rightarrow> 'ts PacketFinder \<Rightarrow> bool" where
  "byte_found S ts data i f f' \<longleftrightarrow> (\<exists>t t1 p. t \<in> set (binaryOnDeck f) \<and> out S data i f t = Found t1 p \<and>
     found f' = found f @ [(p, first t1, bt_timeFound t1)]) \<and>
     binaryOnDeck f' = new_tracker ts data i f \<and> asciiOnDeck f' = AsciiTracker_reset \<and> bufferAppendLocation f' = 0"

definition byte_frame :: "'ts PacketFinder \<Rightarrow> 'ts PacketFinder \<Rightarrow> bool" where
  "byte_frame f f' \<longleftrightarrow> mem_ok f' \<and> runningDataIndex f' = runningDataIndex f + 1 \<and> packetFoundHandler f' = packetFoundHandler f \<and>
     length (rx_buffer f') = length (rx_buffer f)"

lemma binary_part:
  assumes "mem_ok f" "trackers_ok S data i (kept_bytes f) (binaryOnDeck f)" "i < length data" "packetFoundHandler f" "runningDataIndex f + 1 < 2 ^ 64"
  shows "\<exists>f'. res_bind (binary_loop data i (binaryOnDeck f) [] [] f) (\<lambda>(invalid, f3).
         let f4 = f3\<lparr>binaryOnDeck := remove_invalid invalid (binaryOnDeck f3)\<rparr>;
             f5 = (if binaryOnDeck f4 = [] \<and> \<not> currentlyBuildingAsciiPacket (asciiOnDeck f4) then f4\<lparr>bufferAppendLocation := 0\<rparr> else f4);
             f6 = (if data ! i = BinaryStartChar
               then f5\<lparr>binaryOnDeck := binaryOnDeck f5 @ [BinaryTracker_ctor i (runningDataIndex f5) ts]\<rparr> else f5) in
         Inr (startFound2, f6\<lparr>runningDataIndex := (runningDataIndex f6 + 1) mod 2 ^ 64\<rparr>)) = Inr (startFound2, f') \<and>
    byte_frame f f' \<and> (byte_kept S ts data i f f' \<or> byte_found S ts data i f f')"
proof (cases "\<forall>t \<in> set (binaryOnDeck f). \<not> is_found (out S data i f t)")
  case True
  obtain f1 where f1: "same_mem f f1" "binary_loop data i (binaryOnDeck f) [] [] f =
      Inr (map tracker_of (filter is_invalid (map (out S data i f) (binaryOnDeck f))), f1\<lparr>binaryOnDeck := map (\<lambda>t. tracker_of (out S data i f t)) (binaryOnDeck f)\<rparr>)"
    using loop_none[OF assms(1-3) True, of "[]" "[]"] by auto
  note m = same_memD[OF f1(1)]
  let ?g = "if next_deck S data i f = [] \<and> \<not> currentlyBuildingAsciiPacket (asciiOnDeck f) then f1\<lparr>bufferAppendLocation := 0\<rparr> else f1"
  let ?f = "?g\<lparr>binaryOnDeck := next_deck S data i f @ new_tracker ts data i f, runningDataIndex := runningDataIndex f + 1\<rparr>"
  have "byte_frame f ?f" using assms(1) m by (simp add: byte_frame_def mem_ok_def)
  moreover have "byte_kept S ts data i f ?f" using True m by (simp add: byte_kept_def kept_bytes_def)
  ultimately show ?thesis using f1(2) m assms(5)
    by (intro exI[of _ ?f]) (auto simp: Let_def next_deck_def[symmetric] new_tracker_def)
next
  case False
  then obtain f1 t t1 p where f1: "same_mem f f1" "t \<in> set (binaryOnDeck f)" "out S data i f t = Found t1 p"
      "binary_loop data i (binaryOnDeck f) [] [] f = Inr ([], dispatchPacket p (first t1) (bt_timeFound t1) (resetTracking f1))"
    using loop_found[OF assms(1-3), of "[]" "[]"] by blast
  note m = same_memD[OF f1(1)]
  let ?f = "(resetTracking f1)\<lparr>found := found f @ [(p, first t1, bt_timeFound t1)], binaryOnDeck := new_tracker ts data i f, runningDataIndex := runningDataIndex f + 1\<rparr>"
  have "byte_frame f ?f" using assms(1) m by (simp add: byte_frame_def mem_ok_def resetTracking_def)
  moreover have "byte_found S ts data i f ?f" using f1(2,3) by (auto simp: byte_found_def resetTracking_def)
  ultimately show ?thesis using f1(4) m assms(4,5)
    by (intro exI[of _ ?f]) (auto simp: Let_def new_tracker_def dispatchPacket_def resetTracking_def)
qed

lemma finder_invD:
  assumes "finder_inv S data i startFound f"
  shows "mem_ok f" "packetFoundHandler f" "runningDataIndex f = length S + i" "trackers_ok S data i (kept_bytes f) (binaryOnDeck f)"
    "sorted_wrt (\<lambda>t u. first t < first u) (binaryOnDeck f)" "ascii_ok data i startFound (kept_bytes f) (asciiOnDeck f)"
    "list_all (from_stream (S @ take i data)) (found f)"
  using assms by (simp_all add: finder_inv_def)

lemma after_asciiD:
  assumes "after_ascii data i startFound f xs startFound' f'"
  shows "mem_ok f'" "binaryOnDeck f' = binaryOnDeck f" "runningDataIndex f' = runningDataIndex f" "packetFoundHandler f' = packetFoundHandler f"
    "length (rx_buffer f') = length (rx_buffer f)" "found f' = found f @ xs" "list_all ascii_found xs"
    "bufferAppendLocation f' = bufferAppendLocation f \<and> kept_bytes f' = kept_bytes f \<or> binaryOnDeck f = [] \<and> bufferAppendLocation f' = 0"
    "ascii_ok data (Suc i) startFound' (kept_bytes f') (asciiOnDeck f')"
  using assms by (simp_all add: after_ascii_def)

lemma after_ascii_trackers:
  "after_ascii data i startFound f xs startFound' f' \<Longrightarrow> trackers_ok S data i (kept_bytes f) (binaryOnDeck f) \<Longrightarrow>
    trackers_ok S data i (kept_bytes f') (binaryOnDeck f')"
  using after_asciiD(2,8)[of data i startFound f xs startFound' f'] by (auto simp: trackers_ok_def)

lemma data_byte_ok:
  assumes "finder_inv S data i startFound f" "i < length data" "length S + length data < 2 ^ 64"
  obtains startFound' f2 xs f' where "data_byte False ts data i (startFound, f) = Inr (startFound', f')" "after_ascii data i startFound f xs startFound' f2"
    "byte_frame f2 f'" "byte_kept S ts data i f2 f' \<or> byte_found S ts data i f2 f'"
proof -
  note I = finder_invD[OF assms(1)]
  obtain sf1 doReset f1 xs where a: "ascii_byte False ts data i startFound f = Inr (sf1, doReset, f1)"
      "after_ascii data i startFound f xs (sf1 \<and> \<not> doReset) (if doReset then ascii_reset f1 else f1)"
    using ascii_byte_ok[OF I(1,6) assms(2)] by blast
  let ?f = "if doReset then ascii_reset f1 else f1"
  note A = after_asciiD[OF a(2)]
  have "packetFoundHandler ?f" "runningDataIndex ?f + 1 < 2 ^ 64" using A(3,4) I(2,3) assms(2,3) by simp_all
  from binary_part[OF A(1) after_ascii_trackers[OF a(2) I(4)] assms(2) this, of ts "sf1 \<and> \<not> doReset"]
  obtain f' where "data_byte False ts data i (startFound, f) = Inr (sf1 \<and> \<not> doReset, f')" "byte_frame ?f f'"
      "byte_kept S ts data i ?f f' \<or> byte_found S ts data i ?f f'"
    using a(1) unfolding data_byte_def by auto
  then show ?thesis using that a(2) by blast
qed

lemma out_phase:
  assumes "trackers_ok S data i mem ts" "t \<in> set ts" "i < length data"
  shows "case out S data i f t of Keep t' \<Rightarrow> phase t' (part S data (Suc i) t') \<and> same_place t t'
    | Invalid t' \<Rightarrow> phase t' (part S data (Suc i) t') \<and> same_place t t' \<and> given_up t'
    | Found t' p \<Rightarrow> p = part S data (Suc i) t \<and> binary_ok p \<and> p ! 0 = BinaryStartChar \<and> same_place t t'"
proof -
  have t: "phase t (part S data i t)" using assms(1,2) by (simp add: trackers_ok_def)
  then have "part S data i t \<noteq> []" by (simp add: phase_def)
  note p = part_Suc[OF this assms(3)]
  have "same_place t t' \<Longrightarrow> part S data (Suc i) t' = part S data (Suc i) t" for t' by (simp add: part_def same_place_def)
  then show ?thesis
    using stream_byte_phase[OF t, where b = "data ! i" and room = "startFoundInProvidedDataBuffer t \<or> bufferAppendLocation f + (i + 1) < length (rx_buffer f)"]
    unfolding out_def[symmetric] p[symmetric] by (cases "out S data i f t") auto
qed

lemma out_tracker:
  assumes "trackers_ok S data i mem ts" "t \<in> set ts" "i < length data" "\<not> is_found (out S data i f t)"
  shows "phase (tracker_of (out S data i f t)) (part S data (Suc i) (tracker_of (out S data i f t)))" "same_place t (tracker_of (out S data i f t))"
    "is_invalid (out S data i f t) \<Longrightarrow> given_up (tracker_of (out S data i f t))"
  using out_phase[OF assms(1-3), of f] assms(4) by (cases "out S data i f t"; simp)+

lemma first_bound: "trackers_ok S data i mem ts \<Longrightarrow> t \<in> set ts \<Longrightarrow> i \<le> length data \<Longrightarrow> first t < length S + i"
  by (auto simp: trackers_ok_def phase_def part_def)

lemma tracker_at_same: "same_place t t' \<Longrightarrow> tracker_at S mem t' = tracker_at S mem t"
  by (simp add: same_place_def tracker_at_def)

lemma new_tracker_ok:
  assumes "runningDataIndex f = length S + i" "i < length data"
  shows "trackers_ok S data (Suc i) mem (new_tracker ts data i f)" "t \<in> set (new_tracker ts data i f) \<Longrightarrow> first t = length S + i"
  using assms by (auto simp: new_tracker_def trackers_ok_def tracker_at_def phase_def part_def BinaryTracker_ctor_def take_Suc_conv_app_nth split: if_splits)

lemma next_deck_ok:
  assumes "trackers_ok S data i mem (binaryOnDeck f)" "i < length data" "\<forall>t \<in> set (binaryOnDeck f). \<not> is_found (out S data i f t)"
  shows "trackers_ok S data (Suc i) mem (next_deck S data i f)"
    "sorted_wrt (\<lambda>t u. first t < first u) (binaryOnDeck f) \<Longrightarrow> sorted_wrt (\<lambda>t u. first t < first u) (next_deck S data i f)"
    "\<And>u. u \<in> set (next_deck S data i f) \<Longrightarrow> \<exists>t \<in> set (binaryOnDeck f). u = tracker_of (out S data i f t) \<and> first u = first t"
proof -
  have s: "\<exists>t \<in> set (binaryOnDeck f). u = tracker_of (out S data i f t)" if "u \<in> set (next_deck S data i f)" for u
    using that remove_invalid_set unfolding next_deck_def by fastforce
  have f: "first (tracker_of (out S data i f t)) = first t" if "t \<in> set (binaryOnDeck f)" for t
    using out_tracker(2)[OF assms(1) that assms(2)] assms(3) that by (simp add: same_place_def)
  show "\<And>u. u \<in> set (next_deck S data i f) \<Longrightarrow> \<exists>t \<in> set (binaryOnDeck f). u = tracker_of (out S data i f t) \<and> first u = first t"
    using s f by blast
  show "trackers_ok S data (Suc i) mem (next_deck S data i f)"
    using s out_tracker(1,2)[OF assms(1) _ assms(2)] assms(1,3) tracker_at_same unfolding trackers_ok_def by metis
  have "sorted_wrt (\<lambda>t u. first t < first u) (map (\<lambda>t. tracker_of (out S data i f t)) (binaryOnDeck f))"
    if "sorted_wrt (\<lambda>t u. first t < first u) (binaryOnDeck f)"
    using that f by (simp add: sorted_wrt_map) (metis (no_types, lifting) sorted_wrt_mono_rel)
  then show "sorted_wrt (\<lambda>t u. first t < first u) (binaryOnDeck f) \<Longrightarrow> sorted_wrt (\<lambda>t u. first t < first u) (next_deck S data i f)"
    unfolding next_deck_def by (rule remove_invalid_sorted)
qed

lemma from_stream_drop: "r \<le> length T \<Longrightarrow> binary_ok (drop r T) \<Longrightarrow> drop r T ! 0 = BinaryStartChar \<Longrightarrow> from_stream T (drop r T, r, ts)"
  by (simp add: from_stream_def)

lemma from_stream_mono: "from_stream T x \<Longrightarrow> from_stream (T @ u) x"
  by (auto simp: from_stream_def split: prod.splits)

lemma found_mono: "list_all (from_stream (S @ take i data)) xs \<Longrightarrow> i < length data \<Longrightarrow> list_all (from_stream (S @ take (Suc i) data)) xs"
  using from_stream_mono[of "S @ take i data" _ "[data ! i]"] by (auto simp: list_all_iff take_Suc_conv_app_nth)

lemma byte_kept_inv:
  assumes "finder_inv S data i startFound f" "i < length data" "after_ascii data i startFound f xs startFound' f2" "byte_frame f2 f'" "byte_kept S ts data i f2 f'"
  shows "finder_inv S data (Suc i) startFound' f'"
proof -
  note I = finder_invD[OF assms(1)] and A = after_asciiD[OF assms(3)]
  have K: "\<forall>t \<in> set (binaryOnDeck f2). \<not> is_found (out S data i f2 t)" "binaryOnDeck f' = next_deck S data i f2 @ new_tracker ts data i f2"
      "found f' = found f2" "asciiOnDeck f' = asciiOnDeck f2" and mem: "kept_bytes f' = kept_bytes f2 \<or>
      next_deck S data i f2 = [] \<and> \<not> currentlyBuildingAsciiPacket (asciiOnDeck f2)"
    using assms(5) by (auto simp: byte_kept_def)
  have F: "mem_ok f'" "runningDataIndex f' = length S + Suc i" "packetFoundHandler f'" using assms(4) A(3,4) I(2,3) by (simp_all add: byte_frame_def)
  note T = after_ascii_trackers[OF assms(3) I(4)]
  note D = next_deck_ok[OF T assms(2) K(1)]
  have "runningDataIndex f2 = length S + i" using A(3) I(3) by simp
  note N = new_tracker_ok[OF this assms(2)]
  have "trackers_ok S data (Suc i) (kept_bytes f') (next_deck S data i f2)" using D(1) mem by (auto simp: trackers_ok_def)
  then have trackers: "trackers_ok S data (Suc i) (kept_bytes f') (binaryOnDeck f')" using N(1) K(2) by (auto simp: trackers_ok_def)
  have "first t < length S + i" if "t \<in> set (next_deck S data i f2)" for t
    using D(3)[OF that] first_bound[OF T] assms(2) by (metis less_imp_le)
  moreover have "sorted_wrt (\<lambda>t u. first t < first u) (new_tracker ts data i f2)" by (simp add: new_tracker_def)
  ultimately have sorted: "sorted_wrt (\<lambda>t u. first t < first u) (binaryOnDeck f')"
    using D(2) I(5) A(2) N(2) K(2) by (simp add: sorted_wrt_append)
  have ascii: "ascii_ok data (Suc i) startFound' (kept_bytes f') (asciiOnDeck f')" using A(9) mem K(4) by (auto simp: ascii_ok_def)
  have "list_all (from_stream (S @ take (Suc i) data)) (found f')"
    using found_mono[OF I(7) assms(2)] A(6,7) K(3) by (auto simp: list_all_iff from_stream_def)
  then show ?thesis using F trackers sorted ascii by (simp add: finder_inv_def)
qed

lemma byte_found_inv:
  assumes "finder_inv S data i startFound f" "i < length data" "after_ascii data i startFound f xs startFound' f2" "byte_frame f2 f'" "byte_found S ts data i f2 f'"
  shows "finder_inv S data (Suc i) startFound' f'"
proof -
  note I = finder_invD[OF assms(1)] and A = after_asciiD[OF assms(3)]
  note T = after_ascii_trackers[OF assms(3) I(4)]
  obtain t t1 p where t: "t \<in> set (binaryOnDeck f2)" "out S data i f2 t = Found t1 p" "found f' = found f2 @ [(p, first t1, bt_timeFound t1)]"
    using assms(5) by (auto simp: byte_found_def)
  have F: "mem_ok f'" "runningDataIndex f' = length S + Suc i" "packetFoundHandler f'" using assms(4) A(3,4) I(2,3) by (simp_all add: byte_frame_def)
  have B: "binaryOnDeck f' = new_tracker ts data i f2" "asciiOnDeck f' = AsciiTracker_reset" using assms(5) by (simp_all add: byte_found_def)
  have "runningDataIndex f2 = length S + i" using A(3) I(3) by simp
  note N = new_tracker_ok[OF this assms(2)]
  have p: "p = part S data (Suc i) t" "binary_ok p" "p ! 0 = BinaryStartChar" "first t1 = first t"
    using out_phase[OF T t(1) assms(2), of f2] t(2) by (auto simp: same_place_def)
  have "first t < length S + i" using first_bound[OF T t(1)] assms(2) by simp
  then have "first t \<le> length (S @ take (Suc i) data)" using assms(2) by simp
  then have "from_stream (S @ take (Suc i) data) (p, first t1, bt_timeFound t1)"
    using from_stream_drop[of "first t" "S @ take (Suc i) data" "bt_timeFound t1"] p by (simp add: part_def del: append_assoc drop_append)
  moreover have "list_all (from_stream (S @ take (Suc i) data)) (found f2)"
    using found_mono[OF I(7) assms(2)] A(6,7) by (auto simp: list_all_iff from_stream_def)
  ultimately have found: "list_all (from_stream (S @ take (Suc i) data)) (found f')" using t(3) by simp
  have "sorted_wrt (\<lambda>t u. first t < first u) (binaryOnDeck f')" using B(1) by (simp add: new_tracker_def)
  then show ?thesis using F found N(1) B by (simp add: finder_inv_def ascii_ok_def AsciiTracker_reset_def)
qed

lemma data_byte_inv:
  assumes "finder_inv S data i startFound f" "i < length data" "length S + length data < 2 ^ 64"
  shows "\<exists>startFound' f'. data_byte False ts data i (startFound, f) = Inr (startFound', f') \<and> finder_inv S data (Suc i) startFound' f'"
proof -
  obtain startFound' f2 xs f' where b: "data_byte False ts data i (startFound, f) = Inr (startFound', f')" "after_ascii data i startFound f xs startFound' f2"
      "byte_frame f2 f'" "byte_kept S ts data i f2 f' \<or> byte_found S ts data i f2 f'"
    by (rule data_byte_ok[OF assms])
  then show ?thesis using byte_kept_inv[OF assms(1,2) b(2,3)] byte_found_inv[OF assms(1,2) b(2,3)] by blast
qed

lemma data_loop_inv:
  assumes "length S + length data < 2 ^ 64"
  shows "i \<le> length data \<Longrightarrow> finder_inv S data i startFound f \<Longrightarrow>
    \<exists>startFound' f'. data_loop False ts data [i..<length data] (startFound, f) = Inr (startFound', f') \<and> finder_inv S data (length data) startFound' f'"
proof (induction "length data - i" arbitrary: i startFound f)
  case 0
  then show ?case by simp
next
  case (Suc n)
  then have lt: "i < length data" by simp
  obtain sf' f' where b: "data_byte False ts data i (startFound, f) = Inr (sf', f')" "finder_inv S data (Suc i) sf' f'"
    using data_byte_inv[OF Suc.prems(2) lt assms, of ts] by blast
  show ?case using Suc.hyps(1)[OF _ _ b(2)] Suc.hyps(2) lt b(1) by (simp add: upt_conv_Cons[OF lt])
qed

section \<open>The end of a read\<close>

text \<open>From where the data are kept: from the first byte of the first tracker, or of the ASCII packet when that is earlier.\<close>

definition copy_from :: "bool \<Rightarrow> 'ts PacketFinder \<Rightarrow> nat" where
  "copy_from startFound f =
    (let c = (case binaryOnDeck f of [] \<Rightarrow> 0 | t # _ \<Rightarrow> if startFoundInProvidedDataBuffer t then possibleStartIndex t else 0); a = asciiOnDeck f in
     if currentlyBuildingAsciiPacket a \<and> startFound \<and> (possibleStartOfPacketIndex a < c \<or> binaryOnDeck f = []) then possibleStartOfPacketIndex a else c)"

lemma sorted_front: "sorted_wrt (\<lambda>t u. first t < first u) (t # ts) \<Longrightarrow> u \<in> set (t # ts) \<Longrightarrow> first t \<le> first u"
  by auto

lemma copy_from_bounds:
  assumes "finder_inv S data (length data) startFound f"
  shows "copy_from startFound f \<le> length data"
    "t \<in> set (binaryOnDeck f) \<Longrightarrow> startFoundInProvidedDataBuffer t \<Longrightarrow> copy_from startFound f \<le> possibleStartIndex t"
    "t \<in> set (binaryOnDeck f) \<Longrightarrow> \<not> startFoundInProvidedDataBuffer t \<Longrightarrow> copy_from startFound f = 0"
    "currentlyBuildingAsciiPacket (asciiOnDeck f) \<Longrightarrow> startFound \<Longrightarrow> copy_from startFound f \<le> possibleStartOfPacketIndex (asciiOnDeck f)"
proof -
  note I = finder_invD[OF assms]
  have at: "tracker_at S (kept_bytes f) t" "first t < length S + length data" if "t \<in> set (binaryOnDeck f)" for t
    using I(4) that first_bound[OF I(4) that] by (simp_all add: trackers_ok_def)
  have st: "possibleStartIndex t < length data" if "t \<in> set (binaryOnDeck f)" "startFoundInProvidedDataBuffer t" for t
    using at[OF that(1)] that(2) by (simp add: tracker_at_def)
  have asc: "possibleStartOfPacketIndex (asciiOnDeck f) < length data" if "currentlyBuildingAsciiPacket (asciiOnDeck f)" "startFound"
    using I(6) that by (simp add: ascii_ok_def)
  show "copy_from startFound f \<le> length data" using less_imp_le[OF st] less_imp_le[OF asc]
    by (cases "binaryOnDeck f") (auto simp: copy_from_def Let_def)
  have ord: "first (hd (binaryOnDeck f)) \<le> first t" "hd (binaryOnDeck f) \<in> set (binaryOnDeck f)" if "t \<in> set (binaryOnDeck f)" for t
    using I(5) that by (cases "binaryOnDeck f"; auto)+
  show "copy_from startFound f \<le> possibleStartIndex t" if "t \<in> set (binaryOnDeck f)" "startFoundInProvidedDataBuffer t"
    using that ord[OF that(1)] at(1)[OF that(1)] at(1)[OF ord(2)[OF that(1)]]
    by (cases "binaryOnDeck f") (auto simp: copy_from_def Let_def tracker_at_def split: if_splits)
  show "copy_from startFound f = 0" if "t \<in> set (binaryOnDeck f)" "\<not> startFoundInProvidedDataBuffer t"
    using that ord[OF that(1)] at(1)[OF that(1)] at(1)[OF ord(2)[OF that(1)]]
    by (cases "binaryOnDeck f") (auto simp: copy_from_def Let_def tracker_at_def split: if_splits)
  show "currentlyBuildingAsciiPacket (asciiOnDeck f) \<Longrightarrow> startFound \<Longrightarrow> copy_from startFound f \<le> possibleStartOfPacketIndex (asciiOnDeck f)"
    by (auto simp: copy_from_def Let_def)
qed

text \<open>What is tracked after the read, by what is kept.\<close>

definition kept_ascii :: "bool \<Rightarrow> 'ts PacketFinder \<Rightarrow> 'ts AsciiTracker" where
  "kept_ascii startFound f =
    (let a = asciiOnDeck f in if currentlyBuildingAsciiPacket a \<and> startFound
     then a\<lparr>possibleStartOfPacketIndex := bufferAppendLocation f + possibleStartOfPacketIndex a - copy_from startFound f\<rparr> else a)"

definition kept_deck :: "bool \<Rightarrow> 'ts PacketFinder \<Rightarrow> 'ts BinaryTracker list" where
  "kept_deck startFound f = map (adjust_tracker (copy_from startFound f) (bufferAppendLocation f)) (binaryOnDeck f)"

lemma copy_over_eq:
  assumes "finder_inv S data (length data) startFound f" "binaryOnDeck f \<noteq> [] \<or> currentlyBuildingAsciiPacket (asciiOnDeck f)"
  shows "copy_over data startFound f =
    (let c = copy_from startFound f; loc = bufferAppendLocation f;
         f1 = f\<lparr>asciiOnDeck := kept_ascii startFound f, binaryOnDeck := kept_deck startFound f\<rparr> in
     if loc + (length data - c) < length (rx_buffer f)
     then res_bind (append_bytes (drop c data) f1) (\<lambda>f2. Inr (f2\<lparr>bufferAppendLocation := loc + (length data - c)\<rparr>))
     else Inr (resetTracking f1))"
proof -
  note C = copy_from_bounds[OF assms(1)]
  let ?a = "asciiOnDeck f" and ?c = "copy_from startFound f"
  let ?d = "case binaryOnDeck f of [] \<Rightarrow> 0 | t # _ \<Rightarrow> if startFoundInProvidedDataBuffer t then possibleStartIndex t else 0"
  let ?here = "currentlyBuildingAsciiPacket ?a \<and> startFound" and ?start = "possibleStartOfPacketIndex ?a"
  let ?adj = "if ?here \<and> ?start < ?d then sub64 ?d (sub64 ?d ?start) else ?d"
  have c: "(if ?here \<and> (?start < ?d \<or> \<not> binaryOnDeck f \<noteq> []) then ?start else ?d) = ?c" by (auto simp: copy_from_def Let_def)
  have adj: "binaryOnDeck f \<noteq> [] \<Longrightarrow> ?adj = ?c" by (auto simp: copy_from_def Let_def sub64_def)
  have deck: "map (adjust_tracker ?adj (bufferAppendLocation f)) (binaryOnDeck f) = kept_deck startFound f"
    using adj unfolding kept_deck_def by (cases "binaryOnDeck f = []") simp_all
  have ascii: "(if ?here then ?a\<lparr>possibleStartOfPacketIndex := sub64 (bufferAppendLocation f + ?start) ?c\<rparr> else ?a) = kept_ascii startFound f"
    using C(4) by (auto simp: kept_ascii_def sub64_def Let_def)
  have room: "sub64 (bufferAppendLocation f + length data) ?c = bufferAppendLocation f + (length data - ?c)" using C(1) by (simp add: sub64_def)
  show ?thesis using assms(2) unfolding copy_over_def Let_def c deck ascii room by auto
qed

lemma adjust_phase: "phase (adjust_tracker c loc t) s = phase t s"
  by (simp add: adjust_tracker_def phase_def)

lemma adjust_first: "first (adjust_tracker c loc t) = first t"
  by (simp add: adjust_tracker_def)

lemma adjust_tracker_ok:
  assumes "finder_inv S data (length data) startFound f" "t \<in> set (binaryOnDeck f)"
  shows "tracker_at (S @ data) (kept_bytes f @ drop (copy_from startFound f) data) (adjust_tracker (copy_from startFound f) (bufferAppendLocation f) t)"
    "phase (adjust_tracker (copy_from startFound f) (bufferAppendLocation f) t) (drop (first t) (S @ data))"
    "first (adjust_tracker (copy_from startFound f) (bufferAppendLocation f) t) = first t"
proof -
  let ?c = "copy_from startFound f"
  note I = finder_invD[OF assms(1)] and C = copy_from_bounds[OF assms(1)]
  have t: "tracker_at S (kept_bytes f) t" "phase t (drop (first t) (S @ data))" using I(4) assms(2) by (simp_all add: trackers_ok_def part_def)
  show "phase (adjust_tracker ?c (bufferAppendLocation f) t) (drop (first t) (S @ data))" using t(2) adjust_phase by blast
  show "first (adjust_tracker ?c (bufferAppendLocation f) t) = first t" by (simp add: adjust_tracker_def)
  have b: "first t < length S + length data" using first_bound[OF I(4) assms(2)] by simp
  show "tracker_at (S @ data) (kept_bytes f @ drop ?c data) (adjust_tracker ?c (bufferAppendLocation f) t)"
  proof (cases "startFoundInProvidedDataBuffer t")
    case True
    note c = C(2)[OF assms(2) True]
    then show ?thesis using True t(1) b length_kept[OF I(1)] by (simp add: tracker_at_def adjust_tracker_def sub64_def)
  next
    case False
    then show ?thesis using t(1) b C(3)[OF assms(2) False] by (simp add: tracker_at_def adjust_tracker_def)
  qed
qed

lemma kept_ascii_ok:
  assumes "finder_inv S data (length data) startFound f"
  shows "ascii_ok [] 0 False (kept_bytes f @ drop (copy_from startFound f) data) (kept_ascii startFound f)"
proof -
  note I = finder_invD[OF assms] and C = copy_from_bounds[OF assms]
  show ?thesis using I(6) C(1,4) length_kept[OF I(1)]
    by (auto simp: ascii_ok_def kept_ascii_def Let_def nth_append)
qed

lemma copy_over_inv:
  assumes "finder_inv S data (length data) startFound f"
  shows "\<exists>f'. copy_over data startFound f = Inr f' \<and> finder_inv (S @ data) [] 0 False f'"
proof (cases "binaryOnDeck f \<noteq> [] \<or> currentlyBuildingAsciiPacket (asciiOnDeck f)")
  case False
  then show ?thesis using assms by (simp add: copy_over_def finder_inv_def trackers_ok_def ascii_ok_def)
next
  case True
  note I = finder_invD[OF assms] and C = copy_from_bounds[OF assms]
  let ?c = "copy_from startFound f" and ?loc = "bufferAppendLocation f"
  let ?f = "f\<lparr>asciiOnDeck := kept_ascii startFound f, binaryOnDeck := kept_deck startFound f\<rparr>"
  note e = copy_over_eq[OF assms True]
  show ?thesis
  proof (cases "?loc + (length data - ?c) < length (rx_buffer f)")
    case room: True
    have m: "mem_ok ?f" "kept_bytes ?f = kept_bytes f" using I(1) by (simp_all add: mem_ok_def kept_bytes_def)
    have "bufferAppendLocation ?f + length (drop ?c data) \<le> length (rx_buffer ?f)" using room by simp
    then obtain f1 r where f1: "append_bytes (drop ?c data) ?f = Inr f1" "same_mem ?f f1" "rx_buffer f1 = kept_bytes ?f @ drop ?c data @ r"
      using append_bytes_ok[OF m(1)] by blast
    let ?g = "f1\<lparr>bufferAppendLocation := ?loc + (length data - ?c)\<rparr>"
    note M = same_memD[OF f1(2)]
    have k: "kept_bytes ?g = kept_bytes f @ drop ?c data" using f1(3) m(2) length_kept[OF I(1)] by (simp add: kept_bytes_def)
    have deck: "binaryOnDeck ?g = kept_deck startFound f" "asciiOnDeck ?g = kept_ascii startFound f" using M by simp_all
    have "trackers_ok (S @ data) [] 0 (kept_bytes ?g) (binaryOnDeck ?g)"
      unfolding k deck kept_deck_def trackers_ok_def using adjust_tracker_ok[OF assms] by (auto simp: part_def)
    moreover have "sorted_wrt (\<lambda>t u. first t < first u) (binaryOnDeck ?g)"
      unfolding deck kept_deck_def using I(5) by (simp add: sorted_wrt_map adjust_first)
    moreover have "mem_ok ?g" using room M(7) by (simp add: mem_ok_def)
    ultimately have "finder_inv (S @ data) [] 0 False ?g" using kept_ascii_ok[OF assms] I M k deck by (simp add: finder_inv_def)
    then show ?thesis using e room f1(1) by (simp add: Let_def)
  next
    case False
    have "finder_inv (S @ data) [] 0 False (resetTracking ?f)"
      using I by (simp add: finder_inv_def resetTracking_def trackers_ok_def ascii_ok_def AsciiTracker_reset_def mem_ok_def)
    then show ?thesis using e False by (simp add: Let_def)
  qed
qed

lemma process_inv:
  assumes "finder_inv S [] 0 False f" "length S + length data < 2 ^ 64"
  shows "\<exists>f'. processReceivedData False ts data f = Inr f' \<and> finder_inv (S @ data) [] 0 False f'"
proof -
  have "finder_inv S data 0 False f" using assms(1) by (simp add: finder_inv_def trackers_ok_def part_def ascii_ok_def)
  then obtain sf f1 where l: "data_loop False ts data [0..<length data] (False, f) = Inr (sf, f1)" "finder_inv S data (length data) sf f1"
    using data_loop_inv[OF assms(2)] by blast
  then show ?thesis using copy_over_inv[OF l(2)] by (simp add: processReceivedData_def)
qed

lemma reads_inv:
  "finder_inv S [] 0 False f \<Longrightarrow> length S + length (concat (map snd reads)) < 2 ^ 64 \<Longrightarrow>
    \<exists>f'. process_reads reads f = Inr f' \<and> finder_inv (S @ concat (map snd reads)) [] 0 False f'"
proof (induction reads arbitrary: S f)
  case (Cons r reads)
  obtain ts data where r: "r = (ts, data)" by (cases r)
  have "length S + length data < 2 ^ 64" using Cons.prems(2) r by simp
  then obtain f1 where f1: "processReceivedData False ts data f = Inr f1" "finder_inv (S @ data) [] 0 False f1"
    using process_inv[OF Cons.prems(1)] by blast
  then show ?case using Cons.IH[OF f1(2)] Cons.prems(2) r by (simp add: add.assoc)
qed simp

end
