(* ===== verification/Vn_Packet_Finder_Theorems.thy ===== *)
theory Vn_Packet_Finder_Theorems
  imports Vn_Packet_Finder_Stream
begin

text \<open>
  The properties of the packet finder: soundness from the invariant of \<open>Vn_Packet_Finder_Stream\<close>; that all packets of a stream
  of packets are found, by following the tracker of the packet that is under way; and two losses of ASCII packets.
\<close>

section \<open>Packets that the stream consists of\<close>

text \<open>A packet as the sensor sends it: its header tells its length, and its check is right.\<close>

definition well_formed :: "bytes \<Rightarrow> bool" where
  "well_formed p \<longleftrightarrow> binary_ok p \<and> p ! 0 = BinaryStartChar \<and> p ! 1 \<noteq> 0 \<and> computeBinaryPacketLength p = Inr (length p) \<and> header_size (p ! 1) < length p"

text \<open>The tracker of a packet of which \<open>k\<close> bytes have arrived.\<close>

definition tracks :: "bytes \<Rightarrow> nat \<Rightarrow> 'ts BinaryTracker \<Rightarrow> bool" where
  "tracks p k t \<longleftrightarrow> (if k = 1 then \<not> groupsPresentFound t else groupsPresentFound t \<and>
     (if k < header_size (p ! 1) then fields t = header_size (p ! 1) - k else fields t = 0 \<and> missing t = length p - k))"

lemma countSetBits_pos: "d \<noteq> 0 \<Longrightarrow> 0 < countSetBits d"
proof -
  assume "d \<noteq> 0"
  then obtain n where n: "bit d n" using bit_eqI[of d 0] by auto
  then have "n < 8" using bit_imp_le_length by fastforce
  then have "n \<in> set (filter (bit d) [0..<8])" using n by simp
  then show ?thesis unfolding countSetBits_eq by (metis length_pos_if_in_set)
qed

lemma well_formed_length_of:
  assumes "well_formed p" "n = header_size (p ! 1)"
  shows "length_of (take n p) = length p"
proof -
  have n: "2 \<le> n" "n < length p" using assms by (simp_all add: well_formed_def header_size_def)
  have h: "header_size (take n p ! 1) \<le> length (take n p)" using n assms(2) by simp
  show ?thesis using packet_length_prefix[OF h, of "drop n p"] assms(1) by (simp add: length_of_def well_formed_def)
qed

lemma tracks_step:
  assumes "well_formed p" "0 < k" "Suc k < length p" "tracks p k t"
  obtains t' where "stream_byte True (take (Suc k) p) t = Keep t'" "tracks p (Suc k) t'"
proof -
  have p: "p \<noteq> []" "2 < header_size (p ! 1)" using assms(1) countSetBits_pos[of "p ! 1"] by (auto simp: well_formed_def header_size_def)
  have len: "length p \<le> 600" using assms(1) by (simp add: well_formed_def binary_ok_def)
  let ?h = "header_size (p ! 1)"
  consider (start) "k = 1" | (header) "1 < k" "Suc k < ?h" | (last) "1 < k" "Suc k = ?h" | (body) "?h \<le> k" using assms(2) by linarith
  then show ?thesis
  proof cases
    case start
    have "last (take (Suc k) p) = p ! 1" using start assms(3) by (simp add: take_Suc_conv_app_nth)
    then have "stream_byte True (take (Suc k) p) t = Keep (t\<lparr>groupsPresentFound := True, groupsPresent := Some (p ! 1),
        numOfBytesRemainingToHaveAllGroupFields := 2 * countSetBits (p ! 1)\<rparr>)" using start assms(4) by (simp add: stream_byte_def tracks_def)
    then show ?thesis using that start p(2) by (simp add: tracks_def header_size_def)
  next
    case header
    then have "groupsPresentFound t" "fields t = ?h - k" using assms(4) by (simp_all add: tracks_def)
    then have "stream_byte True (take (Suc k) p) t = Keep (t\<lparr>numOfBytesRemainingToHaveAllGroupFields := ?h - k - 1\<rparr>)" "groupsPresentFound t"
      using header by (simp_all add: stream_byte_def Let_def)
    then show ?thesis using that header by (simp add: tracks_def)
  next
    case last
    then have t: "groupsPresentFound t" "fields t = 1" using assms(4) by (simp_all add: tracks_def)
    have "length_of (take (Suc k) p) = length p" by (rule well_formed_length_of[OF assms(1) last(2)])
    then have "stream_byte True (take (Suc k) p) t = Keep (t\<lparr>numOfBytesRemainingToHaveAllGroupFields := 0, numOfBytesRemainingForCompletePacket := length p - Suc k\<rparr>)"
      using t assms(3) len by (simp add: stream_byte_def Let_def)
    then show ?thesis using that last t by (simp add: tracks_def)
  next
    case body
    then have t: "groupsPresentFound t" "fields t = 0" "missing t = length p - k" using assms(4) p(2) by (simp_all add: tracks_def split: if_splits)
    then have "stream_byte True (take (Suc k) p) t = Keep (t\<lparr>numOfBytesRemainingForCompletePacket := length p - Suc k\<rparr>)"
      using assms(3) by (simp add: stream_byte_def Let_def sub64_def)
    then show ?thesis using that body t p(2) by (simp add: tracks_def)
  qed
qed

lemma tracks_end:
  assumes "well_formed p" "0 < k" "Suc k = length p" "tracks p k t"
  obtains t' where "stream_byte True (take (Suc k) p) t = Found t' p"
proof -
  have h: "2 < header_size (p ! 1)" "header_size (p ! 1) \<le> k" "binary_ok p"
    using assms(1,3) countSetBits_pos[of "p ! 1"] by (auto simp: well_formed_def header_size_def)
  then have "groupsPresentFound t" "fields t = 0" "missing t = 1" using assms(3,4) by (simp_all add: tracks_def split: if_splits)
  then have "stream_byte True (take (Suc k) p) t = Found (t\<lparr>numOfBytesRemainingForCompletePacket := 0\<rparr>) p"
    using h(3) assms(3) by (simp add: stream_byte_def Let_def sub64_def)
  then show ?thesis using that by blast
qed

lemma tracks_kept:
  assumes "well_formed p" "Suc k < length p" "0 < k" "tracks p (Suc k) t" "given_up u"
  shows "\<not> tracker_eq t u"
  using assms by (auto simp: tracks_def tracker_eq_def given_up_def split: if_splits)

section \<open>Progress with a packet\<close>

text \<open>
  The packet \<open>p\<close> starts at index \<open>R\<close> of the stream and \<open>k\<close> of its bytes have arrived: one of the trackers is its own, and no
  tracker, nor anything in the receive buffer, is older than the last byte before it.
\<close>

definition progress :: "nat \<Rightarrow> bytes \<Rightarrow> nat \<Rightarrow> bytes \<Rightarrow> bytes \<Rightarrow> nat \<Rightarrow> bool \<Rightarrow> 'ts PacketFinder \<Rightarrow> bool" where
  "progress R p k S data i startFound f \<longleftrightarrow> R + k = length S + i \<and> drop R (S @ take i data) = take k p \<and>
     (0 < k \<longrightarrow> (\<exists>t \<in> set (binaryOnDeck f). first t = R \<and> tracks p k t)) \<and> (\<forall>t \<in> set (binaryOnDeck f). R \<le> first t + 1) \<and>
     (bufferAppendLocation f = 0 \<or> R + bufferAppendLocation f \<le> length S + 1) \<and>
     (currentlyBuildingAsciiPacket (asciiOnDeck f) \<and> startFound \<longrightarrow> R \<le> length S + possibleStartOfPacketIndex (asciiOnDeck f) + 1) \<and>
     602 < length (rx_buffer f)"

lemma progressD:
  assumes "progress R p k S data i startFound f"
  shows "R + k = length S + i" "drop R (S @ take i data) = take k p" "0 < k \<Longrightarrow> \<exists>t \<in> set (binaryOnDeck f). first t = R \<and> tracks p k t"
    "t \<in> set (binaryOnDeck f) \<Longrightarrow> R \<le> first t + 1" "bufferAppendLocation f = 0 \<or> R + bufferAppendLocation f \<le> length S + 1"
    "currentlyBuildingAsciiPacket (asciiOnDeck f) \<Longrightarrow> startFound \<Longrightarrow> R \<le> length S + possibleStartOfPacketIndex (asciiOnDeck f) + 1"
    "602 < length (rx_buffer f)"
  using assms by (auto simp: progress_def)

definition binary_found :: "'ts PacketFinder \<Rightarrow> bytes list" where
  "binary_found f = filter (\<lambda>p. p ! 0 = BinaryStartChar) (map fst (found f))"

lemma ascii_not_binary: "list_all ascii_found xs \<Longrightarrow> filter (\<lambda>p. p ! 0 = BinaryStartChar) (map fst xs) = []"
  by (induction xs) (auto simp: ascii_found_def char_defs)

text \<open>The bytes of a packet reach its tracker: there is room for them.\<close>

lemma own_out:
  assumes "finder_inv S data i startFound f" "i < length data" "after_ascii data i startFound f xs startFound' f2"
    and "progress R p k S data i startFound f" "well_formed p" "data ! i = p ! k" "k < length p" "t \<in> set (binaryOnDeck f)" "first t = R"
  shows "out S data i f2 t = stream_byte True (take (Suc k) p) t"
proof -
  note I = finder_invD[OF assms(1)] and A = after_asciiD[OF assms(3)] and P = progressD[OF assms(4)]
  have t: "tracker_at S (kept_bytes f2) t" using after_ascii_trackers[OF assms(3) I(4)] assms(8) A(2) by (simp add: trackers_ok_def)
  have ne: "part S data i t \<noteq> []" using I(4) assms(8) by (simp add: trackers_ok_def phase_def)
  have part: "part S data (Suc i) t = take (Suc k) p"
    using part_Suc[OF ne assms(2)] P(2) assms(6,7,9) by (simp add: part_def take_Suc_conv_app_nth)
  have "length p \<le> 600" using assms(5) by (simp add: well_formed_def binary_ok_def)
  moreover have "0 < bufferAppendLocation f2" if "\<not> startFoundInProvidedDataBuffer t" using t that length_kept[OF A(1)] by (simp add: tracker_at_def)
  ultimately have "startFoundInProvidedDataBuffer t \<or> bufferAppendLocation f2 + (i + 1) < length (rx_buffer f2)"
    using A(5,8) P(1,5,7) assms(7,8) by (cases "startFoundInProvidedDataBuffer t") auto
  then show ?thesis unfolding out_def part by simp
qed

lemma no_other_found:
  assumes "trackers_ok S data i mem (binaryOnDeck f)" "i < length data" "t \<in> set (binaryOnDeck f)" "\<not> binary_ok (part S data (Suc i) t)"
  shows "\<not> is_found (out S data i f t)"
  using out_phase[OF assms(1,3,2), of f] assms(4) by (cases "out S data i f t") auto

lemma first_unique: "sorted_wrt (\<lambda>t u. first t < first u) ts \<Longrightarrow> t \<in> set ts \<Longrightarrow> u \<in> set ts \<Longrightarrow> first t = first u \<Longrightarrow> t = u"
  by (auto simp: sorted_wrt_iff_nth_less in_set_conv_nth) (metis less_irrefl linorder_neqE_nat)

lemma own_kept:
  assumes "finder_inv S data i startFound f" "i < length data" "after_ascii data i startFound f xs startFound' f2"
    and "progress R p k S data i startFound f" "well_formed p" "data ! i = p ! k" "Suc k < length p"
    and "t \<in> set (binaryOnDeck f)" "first t = R" "tracks p k t" "0 < k"
  shows "\<exists>t'. out S data i f2 t = Keep t' \<and> tracks p (Suc k) t'"
  using tracks_step[OF assms(5,11,7,10)] own_out[OF assms(1-6) _ assms(8,9)] assms(7) by (metis Suc_lessD)

lemma none_found:
  assumes "finder_inv S data i startFound f" "i < length data" "after_ascii data i startFound f xs startFound' f2"
    and "progress R p k S data i startFound f" "well_formed p" "data ! i = p ! k" "Suc k < length p"
    and "\<forall>t \<in> set (binaryOnDeck f). first t \<noteq> R \<longrightarrow> \<not> binary_ok (part S data (Suc i) t)" "t \<in> set (binaryOnDeck f2)"
  shows "\<not> is_found (out S data i f2 t)"
proof (cases "first t = R")
  case True
  note I = finder_invD[OF assms(1)] and A = after_asciiD[OF assms(3)] and P = progressD[OF assms(4)]
  have t: "t \<in> set (binaryOnDeck f)" using assms(9) A(2) by simp
  have "0 < k" using first_bound[OF I(4) t] P(1) True assms(2) by simp
  then obtain u where "u \<in> set (binaryOnDeck f)" "first u = R" "tracks p k u" using P(3) by blast
  then show ?thesis using own_kept[OF assms(1-7), of u] first_unique[OF I(5) t, of u] True \<open>0 < k\<close> by fastforce
next
  case False
  note T = after_ascii_trackers[OF assms(3) finder_invD(4)[OF assms(1)]]
  show ?thesis using no_other_found[OF T assms(2,9)] assms(8,9) False after_asciiD(2)[OF assms(3)] by simp
qed

text \<open>The tracker of the packet under way stays on deck: no tracker that is given up equals it.\<close>

lemma own_on_deck:
  assumes "finder_inv S data i startFound f" "i < length data" "after_ascii data i startFound f xs startFound' f2"
    and "progress R p k S data i startFound f" "well_formed p" "data ! i = p ! k" "Suc k < length p"
    and "\<forall>t \<in> set (binaryOnDeck f). first t \<noteq> R \<longrightarrow> \<not> binary_ok (part S data (Suc i) t)"
  shows "\<exists>t \<in> set (next_deck S data i f2 @ new_tracker ts data i f2). first t = R \<and> tracks p (Suc k) t"
proof -
  note I = finder_invD[OF assms(1)] and A = after_asciiD[OF assms(3)] and P = progressD[OF assms(4)]
  note T = after_ascii_trackers[OF assms(3) I(4)] and none = none_found[OF assms]
  have run: "runningDataIndex f2 = length S + i" using A(3) I(3) by simp
  show ?thesis
  proof (cases "k = 0")
    case True
    then have "data ! i = BinaryStartChar" using assms(5,6) by (simp add: well_formed_def)
    then show ?thesis using True P(1) run by (auto simp: new_tracker_def BinaryTracker_ctor_def tracks_def)
  next
    case False
    then obtain t where t: "t \<in> set (binaryOnDeck f)" "first t = R" "tracks p k t" using P(3) by blast
    then obtain t' where t': "out S data i f2 t = Keep t'" "tracks p (Suc k) t'" using own_kept[OF assms(1-7)] False by blast
    have "t' \<in> set (map (\<lambda>t. tracker_of (out S data i f2 t)) (binaryOnDeck f2))" using t(1) t'(1) A(2) by force
    moreover have "\<not> tracker_eq t' u" if "u \<in> set (map tracker_of (filter is_invalid (map (out S data i f2) (binaryOnDeck f2))))" for u
      using that out_tracker(3)[OF T _ assms(2)] none tracks_kept[OF assms(5,7) _ t'(2)] False by auto
    ultimately have "t' \<in> set (next_deck S data i f2)" unfolding next_deck_def by (intro remove_invalid_keeps) auto
    moreover have "first t' = R" using out_tracker(2)[OF T _ assms(2) none, of t] t t'(1) A(2) by (simp add: same_place_def)
    ultimately show ?thesis using t'(2) by auto
  qed
qed

lemma progress_step:
  assumes "finder_inv S data i startFound f" "i < length data" "after_ascii data i startFound f xs startFound' f2" "byte_frame f2 f'"
    and "byte_kept S ts data i f2 f' \<or> byte_found S ts data i f2 f'"
    and "progress R p k S data i startFound f" "well_formed p" "data ! i = p ! k" "Suc k < length p"
    and "\<forall>t \<in> set (binaryOnDeck f). first t \<noteq> R \<longrightarrow> \<not> binary_ok (part S data (Suc i) t)"
  shows "progress R p (Suc k) S data (Suc i) startFound' f'" "binary_found f' = binary_found f"
proof -
  note I = finder_invD[OF assms(1)] and A = after_asciiD[OF assms(3)] and P = progressD[OF assms(6)]
  note T = after_ascii_trackers[OF assms(3) I(4)] and none = none_found[OF assms(1-3,6-10)]
  have K: "byte_kept S ts data i f2 f'" using assms(5) none unfolding byte_found_def by fastforce
  have deck: "binaryOnDeck f' = next_deck S data i f2 @ new_tracker ts data i f2" and fnd: "found f' = found f2" and asc: "asciiOnDeck f' = asciiOnDeck f2"
    using K by (simp_all add: byte_kept_def)
  show "binary_found f' = binary_found f" using fnd A(6) ascii_not_binary[OF A(7)] by (simp add: binary_found_def)
  have run: "runningDataIndex f2 = length S + i" using A(3) I(3) by simp
  note N = new_tracker_ok[OF run assms(2)] and D = next_deck_ok[OF T assms(2)]
  have own: "\<exists>t \<in> set (binaryOnDeck f'). first t = R \<and> tracks p (Suc k) t" unfolding deck by (rule own_on_deck[OF assms(1-3,6-10)])
  have old: "R \<le> first t + 1" if "t \<in> set (binaryOnDeck f')" for t
    using that deck D(3) none P(1,4) N(2) A(2) by fastforce
  have app: "bufferAppendLocation f' = 0 \<or> R + bufferAppendLocation f' \<le> length S + 1"
    using K A(8) P(5) by (auto simp: byte_kept_def)
  have ascii: "R \<le> length S + possibleStartOfPacketIndex (asciiOnDeck f') + 1" if "currentlyBuildingAsciiPacket (asciiOnDeck f')" "startFound'"
    using assms(3) that P(1,6) asc by (auto simp: after_ascii_def)
  have "drop R (S @ take (Suc i) data) = take (Suc k) p"
    using P(1,2) assms(2,8,9) by (simp add: take_Suc_conv_app_nth)
  then show "progress R p (Suc k) S data (Suc i) startFound' f'"
    using P(1,7) A(5) assms(4) own old app ascii by (simp add: progress_def byte_frame_def)
qed

lemma progress_end:
  assumes "finder_inv S data i startFound f" "i < length data" "after_ascii data i startFound f xs startFound' f2" "byte_frame f2 f'"
    and "byte_kept S ts data i f2 f' \<or> byte_found S ts data i f2 f'"
    and "progress R p k S data i startFound f" "well_formed p" "data ! i = p ! k" "Suc k = length p"
    and "\<forall>t \<in> set (binaryOnDeck f). first t \<noteq> R \<longrightarrow> \<not> binary_ok (part S data (Suc i) t)"
  shows "progress (R + length p) q 0 S data (Suc i) startFound' f'" "binary_found f' = binary_found f @ [p]"
proof -
  note I = finder_invD[OF assms(1)] and A = after_asciiD[OF assms(3)] and P = progressD[OF assms(6)]
  note T = after_ascii_trackers[OF assms(3) I(4)]
  have k: "0 < k" "k < length p" using assms(7,9) by (auto simp: well_formed_def header_size_def)
  obtain t where t: "t \<in> set (binaryOnDeck f)" "first t = R" "tracks p k t" using P(3)[OF k(1)] by blast
  have "is_found (out S data i f2 t)"
    using tracks_end[OF assms(7) k(1) assms(9) t(3)] own_out[OF assms(1-3,6-8) k(2) t(1,2)] by (metis is_found.simps(1))
  then have F: "byte_found S ts data i f2 f'" using assms(5) t(1) A(2) by (auto simp: byte_kept_def)
  then obtain u t1 r where u: "u \<in> set (binaryOnDeck f2)" "out S data i f2 u = Found t1 r" "found f' = found f2 @ [(r, first t1, bt_timeFound t1)]"
    by (auto simp: byte_found_def)
  have "drop R (S @ take (Suc i) data) = take (Suc k) p" using P(1,2) assms(2,8) k(2) by (simp add: take_Suc_conv_app_nth)
  then have part: "drop R (S @ take (Suc i) data) = p" using assms(9) by simp
  have "first u = R" using no_other_found[OF T assms(2) u(1)] u(1,2) assms(10) A(2) by auto
  then have r: "r = p" using out_phase[OF T u(1) assms(2), of f2] u(2) part by (simp add: part_def)
  have "p ! 0 = BinaryStartChar" using assms(7) by (simp add: well_formed_def)
  then show "binary_found f' = binary_found f @ [p]" using u(3) r A(6) ascii_not_binary[OF A(7)] by (simp add: binary_found_def)
  have run: "runningDataIndex f2 = length S + i" using A(3) I(3) by simp
  have "R + length p = length S + Suc i" using P(1) assms(9) by simp
  then show "progress (R + length p) q 0 S data (Suc i) startFound' f'"
    using F new_tracker_ok(2)[OF run assms(2)] assms(2,4) A(5) P(7) by (auto simp: progress_def byte_found_def byte_frame_def AsciiTracker_reset_def)
qed

lemma copy_bound:
  assumes "finder_inv S data (length data) startFound f" "progress R p k S data (length data) startFound f"
    and "binaryOnDeck f \<noteq> [] \<or> currentlyBuildingAsciiPacket (asciiOnDeck f)"
  shows "bufferAppendLocation f + (length data - copy_from startFound f) \<le> k + 1"
proof (cases "bufferAppendLocation f = 0")
  case False
  then show ?thesis using progressD(1,5)[OF assms(2)] by linarith
next
  case True
  note I = finder_invD[OF assms(1)] and P = progressD[OF assms(2)]
  have none: "kept_bytes f = []" using True by (simp add: kept_bytes_def)
  have at: "first t = length S + possibleStartIndex t \<and> startFoundInProvidedDataBuffer t" if "t \<in> set (binaryOnDeck f)" for t
    using I(4) that none by (auto simp: trackers_ok_def tracker_at_def split: if_splits)
  have here: "startFound" if "currentlyBuildingAsciiPacket (asciiOnDeck f)" using I(6) that none by (auto simp: ascii_ok_def split: if_splits)
  have "R \<le> length S + copy_from startFound f + 1"
  proof (cases "binaryOnDeck f")
    case Nil
    then show ?thesis using P(6) here assms(3) by (simp add: copy_from_def Let_def)
  next
    case (Cons t ts)
    then show ?thesis using at[of t] P(4)[of t] P(6) by (auto simp: copy_from_def Let_def)
  qed
  then show ?thesis using True P(1) by linarith
qed

lemma copy_over_progress:
  assumes "finder_inv S data (length data) startFound f" "progress R p k S data (length data) startFound f" "k \<le> 600"
    and "copy_over data startFound f = Inr f'"
  shows "progress R p k (S @ data) [] 0 False f' \<and> found f' = found f"
proof (cases "binaryOnDeck f \<noteq> [] \<or> currentlyBuildingAsciiPacket (asciiOnDeck f)")
  case False
  then show ?thesis using assms(2,4) by (auto simp: copy_over_def progress_def)
next
  case True
  note I = finder_invD[OF assms(1)] and P = progressD[OF assms(2)]
  let ?c = "copy_from startFound f" and ?loc = "bufferAppendLocation f"
  let ?f = "f\<lparr>asciiOnDeck := kept_ascii startFound f, binaryOnDeck := kept_deck startFound f\<rparr>"
  note b = copy_bound[OF assms(1,2) True]
  have "?loc + (length data - ?c) < length (rx_buffer f)" using b assms(3) P(7) by linarith
  then obtain f1 where f1: "append_bytes (drop ?c data) ?f = Inr f1" "f' = f1\<lparr>bufferAppendLocation := ?loc + (length data - ?c)\<rparr>"
    using assms(4) copy_over_eq[OF assms(1) True] by (auto simp: Let_def res_bind_Inr)
  have M: "length (rx_buffer f1) = length (rx_buffer f)" "binaryOnDeck f1 = kept_deck startFound f" "found f1 = found f"
    using f1(1) by (auto simp: append_bytes_def split: if_splits)
  have deck: "set (binaryOnDeck f') = adjust_tracker ?c ?loc ` set (binaryOnDeck f)" using f1(2) M(2) by (simp add: kept_deck_def)
  have tr: "tracks p k (adjust_tracker ?c ?loc t) = tracks p k t" for t by (simp add: tracks_def adjust_tracker_def)
  have "\<exists>t \<in> set (binaryOnDeck f'). first t = R \<and> tracks p k t" if "0 < k" using P(3)[OF that] by (simp add: deck tr adjust_first)
  moreover have "\<forall>t \<in> set (binaryOnDeck f'). R \<le> first t + 1" using P(4) by (simp add: deck adjust_first)
  ultimately show ?thesis using f1(2) M P(1,2,7) b by (simp add: progress_def)
qed

section \<open>A stream of packets\<close>

definition start_of :: "bytes list \<Rightarrow> nat \<Rightarrow> nat" where
  "start_of ps n = length (concat (take n ps))"

text \<open>No part of the stream that starts elsewhere than a packet looks like a packet.\<close>

definition unambiguous :: "bytes list \<Rightarrow> bool" where
  "unambiguous ps \<longleftrightarrow> (\<forall>j k. j < k \<longrightarrow> k \<le> length (concat ps) \<longrightarrow> concat ps ! j = BinaryStartChar \<longrightarrow>
     binary_ok (take (k - j) (drop j (concat ps))) \<longrightarrow> (\<exists>m < length ps. j = start_of ps m))"

text \<open>In the stream \<open>ps\<close> the finder has found \<open>n\<close> packets and is \<open>k\<close> bytes into the next.\<close>

definition at_packet :: "bytes list \<Rightarrow> nat \<Rightarrow> nat \<Rightarrow> bytes \<Rightarrow> bytes \<Rightarrow> nat \<Rightarrow> bool \<Rightarrow> 'ts PacketFinder \<Rightarrow> bool" where
  "at_packet ps n k S data i startFound f \<longleftrightarrow> finder_inv S data i startFound f \<and> n \<le> length ps \<and> (if n < length ps then k < length (ps ! n) else k = 0) \<and>
     binary_found f = take n ps \<and> progress (start_of ps n) (if n < length ps then ps ! n else []) k S data i startFound f"

lemma start_of_Suc: "n < length ps \<Longrightarrow> start_of ps (Suc n) = start_of ps n + length (ps ! n)"
  by (simp add: start_of_def take_Suc_conv_app_nth)

lemma start_of_mono: "m \<le> n \<Longrightarrow> start_of ps m \<le> start_of ps n"
proof -
  assume "m \<le> n"
  then have "take n ps = take m ps @ drop m (take n ps)" by (metis append_take_drop_id min.absorb1 take_take)
  then show ?thesis unfolding start_of_def by (metis concat_append le_add1 length_append)
qed

lemma concat_at: "n < length ps \<Longrightarrow> k < length (ps ! n) \<Longrightarrow> concat ps ! (start_of ps n + k) = ps ! n ! k"
proof -
  assume a: "n < length ps" "k < length (ps ! n)"
  then have "concat ps = concat (take n ps) @ ps ! n @ concat (drop (Suc n) ps)" by (metis concat.simps(2) concat_append id_take_nth_drop)
  then show ?thesis using a(2) by (simp add: start_of_def nth_append)
qed

text \<open>No packet starts at a byte that is near another packet's start or inside it.\<close>

lemma no_start_inside:
  assumes "list_all well_formed ps" "n < length ps" "start_of ps n \<le> j + 1" "j < start_of ps n + length (ps ! n)" "j = start_of ps m" "m < length ps"
  shows "j = start_of ps n"
proof (rule linorder_cases[of m n])
  assume "m < n"
  have "7 \<le> length (ps ! m)" using assms(1,6) by (simp add: list_all_length well_formed_def binary_ok_def)
  then have "j + 7 \<le> start_of ps (Suc m)" using start_of_Suc[OF assms(6)] assms(5) by simp
  also have "\<dots> \<le> start_of ps n" using start_of_mono[of "Suc m" n] \<open>m < n\<close> by simp
  finally show ?thesis using assms(3) by simp
next
  assume "n < m"
  have "start_of ps n + length (ps ! n) = start_of ps (Suc n)" using start_of_Suc[OF assms(2)] by simp
  also have "\<dots> \<le> start_of ps m" using start_of_mono[of "Suc n" m] \<open>n < m\<close> by simp
  finally show ?thesis using assms(4,5) by simp
qed (use assms(5) in simp)

lemma no_embedded:
  assumes "finder_inv S data i startFound f" "i < length data" "list_all well_formed ps" "unambiguous ps" "S @ data @ rest = concat ps"
    and "n < length ps" "progress (start_of ps n) (ps ! n) k S data i startFound f" "k < length (ps ! n)"
    and "t \<in> set (binaryOnDeck f)" "first t \<noteq> start_of ps n"
  shows "\<not> binary_ok (part S data (Suc i) t)"
proof
  assume ok: "binary_ok (part S data (Suc i) t)"
  note I = finder_invD[OF assms(1)] and P = progressD[OF assms(7)]
  let ?j = "first t"
  have j: "?j < length S + i" using first_bound[OF I(4) assms(9)] assms(2) by simp
  have T: "S @ take l data = take (length S + l) (concat ps)" if "l \<le> length data" for l
    using assms(5)[symmetric] that by simp
  have ph: "part S data i t ! 0 = BinaryStartChar" using I(4) assms(9) by (simp add: trackers_ok_def phase_def)
  have "concat ps ! ?j = (S @ take i data) ! ?j" using T[of i] assms(2) j by simp
  also have "\<dots> = part S data i t ! 0" using j assms(2) unfolding part_def by (subst nth_drop) simp_all
  finally have "concat ps ! ?j = BinaryStartChar" using ph by simp
  moreover have "part S data (Suc i) t = take (length S + Suc i - ?j) (drop ?j (concat ps))" using T[of "Suc i"] assms(2) by (simp add: part_def drop_take)
  moreover have "length S + Suc i \<le> length (concat ps)" using assms(2) by (simp flip: assms(5))
  ultimately obtain m where m: "m < length ps" "?j = start_of ps m" using ok assms(4) j unfolding unambiguous_def by (metis less_Suc_eq add_Suc_right)
  have "?j < start_of ps n + length (ps ! n)" using j P(1) assms(8) by simp
  from no_start_inside[OF assms(3,6) P(4)[OF assms(9)] this m(2,1)] show False using assms(10) by simp
qed

lemma at_packet_byte:
  assumes "at_packet ps n k S data i startFound f" "i < length data" "length S + length data < 2 ^ 64"
    and "list_all well_formed ps" "unambiguous ps" "S @ data @ rest = concat ps"
  obtains n' k' startFound' f' where "data_byte False ts data i (startFound, f) = Inr (startFound', f')" "at_packet ps n' k' S data (Suc i) startFound' f'"
proof -
  let ?R = "start_of ps n"
  have I: "finder_inv S data i startFound f" using assms(1) by (simp add: at_packet_def)
  have pos: "?R + k = length S + i" "n \<le> length ps" "n \<ge> length ps \<longrightarrow> k = 0" using assms(1) by (auto simp: at_packet_def progress_def)
  have len: "length (concat ps) = length S + length data + length rest" using assms(6) by (metis add.assoc length_append)
  have n: "n < length ps"
  proof (rule ccontr)
    assume "\<not> n < length ps"
    then have "?R + k = length (concat ps)" using pos by (simp add: start_of_def)
    then show False using pos(1) len assms(2) by simp
  qed
  let ?p = "ps ! n"
  have p: "well_formed ?p" "k < length ?p" "binary_found f = take n ps" and P: "progress ?R ?p k S data i startFound f"
    using assms(1,4) n by (simp_all add: at_packet_def list_all_length)
  have byte: "data ! i = ?p ! k"
  proof -
    have "concat ps ! (length S + i) = data ! i" using assms(2,6) by (metis nth_append nth_append_length_plus)
    then show ?thesis using concat_at[OF n p(2)] pos(1) by simp
  qed
  have other: "\<forall>t \<in> set (binaryOnDeck f). first t \<noteq> ?R \<longrightarrow> \<not> binary_ok (part S data (Suc i) t)"
    using no_embedded[OF I assms(2,4-6) n P p(2)] by blast
  obtain startFound' f2 xs f' where b: "data_byte False ts data i (startFound, f) = Inr (startFound', f')" "after_ascii data i startFound f xs startFound' f2"
      "byte_frame f2 f'" "byte_kept S ts data i f2 f' \<or> byte_found S ts data i f2 f'"
    by (rule data_byte_ok[OF I assms(2,3)])
  have I': "finder_inv S data (Suc i) startFound' f'" using b(4) byte_kept_inv[OF I assms(2) b(2,3)] byte_found_inv[OF I assms(2) b(2,3)] by blast
  show ?thesis
  proof (cases "Suc k < length ?p")
    case True
    have "at_packet ps n (Suc k) S data (Suc i) startFound' f'"
      using progress_step[OF I assms(2) b(2-4) P p(1) byte True other] I' n True p(3) by (simp add: at_packet_def)
    then show ?thesis using that b(1) by blast
  next
    case False
    then have k: "Suc k = length ?p" using p(2) by simp
    let ?q = "if Suc n < length ps then ps ! Suc n else []"
    note e = progress_end(1)[OF I assms(2) b(2-4) P p(1) byte k other, where q = ?q] progress_end(2)[OF I assms(2) b(2-4) P p(1) byte k other]
    have "Suc n < length ps \<longrightarrow> 0 < length (ps ! Suc n)" using assms(4) by (auto simp: list_all_length well_formed_def binary_ok_def)
    then have "at_packet ps (Suc n) 0 S data (Suc i) startFound' f'"
      using e I' n p(3) start_of_Suc[OF n] by (simp add: at_packet_def take_Suc_conv_app_nth)
    then show ?thesis using that b(1) by blast
  qed
qed

lemma at_packet_loop:
  assumes "length S + length data < 2 ^ 64" "list_all well_formed ps" "unambiguous ps" "S @ data @ rest = concat ps"
  shows "i \<le> length data \<Longrightarrow> at_packet ps n k S data i startFound f \<Longrightarrow>
    \<exists>n' k' startFound' f'. data_loop False ts data [i..<length data] (startFound, f) = Inr (startFound', f') \<and> at_packet ps n' k' S data (length data) startFound' f'"
proof (induction "length data - i" arbitrary: i n k startFound f)
  case 0
  then show ?case by auto
next
  case (Suc m)
  then have lt: "i < length data" by simp
  obtain n' k' sf' f' where b: "data_byte False ts data i (startFound, f) = Inr (sf', f')" "at_packet ps n' k' S data (Suc i) sf' f'"
    by (rule at_packet_byte[OF Suc.prems(2) lt assms])
  show ?case using Suc.hyps(1)[OF _ _ b(2)] Suc.hyps(2) lt b(1) by (simp add: upt_conv_Cons[OF lt])
qed

lemma at_packet_read:
  assumes "at_packet ps n k S [] 0 False f" "length S + length data < 2 ^ 64" "list_all well_formed ps" "unambiguous ps" "S @ data @ rest = concat ps"
  shows "\<exists>n' k' f'. processReceivedData False ts data f = Inr f' \<and> at_packet ps n' k' (S @ data) [] 0 False f'"
proof -
  have "at_packet ps n k S data 0 False f" using assms(1)
    by (simp add: at_packet_def finder_inv_def trackers_ok_def part_def ascii_ok_def progress_def)
  then obtain n' k' sf f1 where l: "data_loop False ts data [0..<length data] (False, f) = Inr (sf, f1)" "at_packet ps n' k' S data (length data) sf f1"
    using at_packet_loop[OF assms(2-5)] by blast
  have I: "finder_inv S data (length data) sf f1" using l(2) by (simp add: at_packet_def)
  obtain f' where f': "copy_over data sf f1 = Inr f'" "finder_inv (S @ data) [] 0 False f'" using copy_over_inv[OF I] by blast
  have "k' \<le> 600" using l(2) assms(3) by (auto simp: at_packet_def list_all_length well_formed_def binary_ok_def split: if_splits)
  then have "at_packet ps n' k' (S @ data) [] 0 False f'"
    using l(2) f'(2) copy_over_progress[OF I _ _ f'(1), of "start_of ps n'" "if n' < length ps then ps ! n' else []" k']
    unfolding at_packet_def binary_found_def by simp
  then show ?thesis using l(1) f'(1) by (auto simp: processReceivedData_def)
qed

lemma at_packet_reads:
  assumes "list_all well_formed ps" "unambiguous ps" "length (concat ps) < 2 ^ 64"
  shows "at_packet ps n k S [] 0 False f \<Longrightarrow> S @ concat (map snd reads) = concat ps \<Longrightarrow>
    \<exists>n' k' f'. process_reads reads f = Inr f' \<and> at_packet ps n' k' (concat ps) [] 0 False f'"
proof (induction reads arbitrary: n k S f)
  case Nil
  then show ?case by auto
next
  case (Cons r reads)
  obtain ts data where r: "r = (ts, data)" by (cases r)
  have cat: "S @ data @ concat (map snd reads) = concat ps" using Cons.prems(2) r by simp
  then have "length S + length data < 2 ^ 64" using assms(3) by (metis add.assoc le_add1 le_less_trans length_append)
  then obtain n' k' f1 where f1: "processReceivedData False ts data f = Inr f1" "at_packet ps n' k' (S @ data) [] 0 False f1"
    using at_packet_read[OF Cons.prems(1) _ assms(1,2) cat] by blast
  then show ?case using Cons.IH[OF f1(2)] cat r by simp
qed

section \<open>Properties\<close>

lemma finder_inv_start:
  "finder_inv [] [] 0 False ((PacketFinder_ctor mem)\<lparr>packetFoundHandler := True\<rparr>)"
  by (simp add: finder_inv_def PacketFinder_ctor_def mem_ok_def trackers_ok_def ascii_ok_def AsciiTracker_reset_def)

lemma register_start:
  "registerPossiblePacketFoundHandler (PacketFinder_ctor mem) = Inr ((PacketFinder_ctor mem)\<lparr>packetFoundHandler := True\<rparr>)"
  by (simp add: registerPossiblePacketFoundHandler_def PacketFinder_ctor_def)

text \<open>
  C13: however the bytes of the sensor are cut into reads, and whatever they are, a packet finder with a handler takes them
  without reading or writing outside of the receive buffer or of the data of a read, and without an exception. Each packet
  that it hands out is valid; a binary one is at most 600 bytes long and is the part of the stream at the index that it
  is handed out with.
\<close>

theorem finder_sound:
  assumes "length (concat (map snd reads)) < 2 ^ 64"
  shows "\<exists>f. res_bind (registerPossiblePacketFoundHandler (PacketFinder_ctor mem)) (process_reads reads) = Inr f \<and>
    list_all (from_stream (concat (map snd reads))) (found f)"
proof -
  obtain f where "process_reads reads ((PacketFinder_ctor mem)\<lparr>packetFoundHandler := True\<rparr>) = Inr f"
      "finder_inv (concat (map snd reads)) [] 0 False f"
    using reads_inv[OF finder_inv_start, of reads mem] assms by auto
  then show ?thesis by (auto simp: register_start finder_inv_def)
qed

theorem finder_sound_witness:
  "\<exists>f. res_bind (registerPossiblePacketFoundHandler (PacketFinder_ctor (replicate 1200 0)))
      (process_reads [(Some (1 :: nat), [0xFA, 0x02, 0x00]), (Some 2, [0x02, 0x07, 0xFB, 0xED])]) = Inr f \<and>
    list_all (from_stream [0xFA, 0x02, 0x00, 0x02, 0x07, 0xFB, 0xED]) (found f)"
  using finder_sound[of "[(Some (1 :: nat), [0xFA, 0x02, 0x00]), (Some 2, [0x02, 0x07, 0xFB, 0xED])]" "replicate 1200 0"] by simp

lemma at_packet_start:
  assumes "list_all well_formed ps" "602 < length mem"
  shows "at_packet ps 0 0 [] [] 0 False ((PacketFinder_ctor mem :: 'ts PacketFinder)\<lparr>packetFoundHandler := True\<rparr>)"
proof -
  have "0 < length ps \<longrightarrow> 0 < length (ps ! 0)" using assms(1) by (auto simp: list_all_length well_formed_def binary_ok_def)
  moreover have "finder_inv [] [] 0 False ((PacketFinder_ctor mem :: 'ts PacketFinder)\<lparr>packetFoundHandler := True\<rparr>)" by (rule finder_inv_start)
  ultimately show ?thesis using assms(2)
    by (simp add: at_packet_def progress_def start_of_def binary_found_def PacketFinder_ctor_def AsciiTracker_reset_def)
qed

lemma at_packet_all:
  assumes "at_packet ps n k (concat ps) [] 0 False f" "list_all well_formed ps"
  shows "n = length ps"
proof (rule ccontr)
  assume "n \<noteq> length ps"
  then have n: "n < length ps" "k < length (ps ! n)" "start_of ps n + k = length (concat ps)"
    using assms(1) by (auto simp: at_packet_def progress_def split: if_splits)
  then have "length (concat ps) < start_of ps (Suc n)" by (simp add: start_of_Suc)
  also have "\<dots> \<le> start_of ps (length ps)" using n(1) by (intro start_of_mono) simp
  finally show False by (simp add: start_of_def)
qed


lemma unambiguous_check:
  assumes "list_all (\<lambda>j. if concat ps ! j = BinaryStartChar
      then if list_ex (\<lambda>m. j = start_of ps m) [0..<length ps] then True
        else list_all (\<lambda>k. \<not> binary_ok (take (k - j) (drop j (concat ps)))) [Suc j..<Suc (length (concat ps))]
      else True) [0..<length (concat ps)]"
  shows "unambiguous ps"
  unfolding unambiguous_def
proof (intro allI impI)
  fix j k
  assume a: "j < k" "k \<le> length (concat ps)" "concat ps ! j = BinaryStartChar" "binary_ok (take (k - j) (drop j (concat ps)))"
  then have "j \<in> set [0..<length (concat ps)]" "k \<in> set [Suc j..<Suc (length (concat ps))]" by auto
  then have "list_ex (\<lambda>m. j = start_of ps m) [0..<length ps]" using assms a(3,4) unfolding list_all_iff by (metis (no_types, lifting))
  then show "\<exists>m < length ps. j = start_of ps m" by (auto simp: list_ex_iff)
qed

definition sample_packets :: "bytes list" where
  "sample_packets = [[0xFA, 0x02, 0x00, 0x02, 0xFA, 0xC5, 0x5F], [0xFA, 0x02, 0x00, 0x02, 0x07, 0xFB, 0xED]]"

lemma sample_well_formed: "list_all well_formed sample_packets"
  by code_simp

lemma sample_unambiguous: "unambiguous sample_packets"
  by (rule unambiguous_check)
    (simp add: sample_packets_def upt_rec binary_ok_def char_defs Crc16_def crc16_step_def start_of_def Let_def)


text \<open>The packets that a finder with a receive buffer of \<open>n\<close> bytes hands out.\<close>

definition finder_packets :: "nat \<Rightarrow> bytes list \<Rightarrow> bytes list res" where
  "finder_packets n reads =
    res_bind (res_bind (registerPossiblePacketFoundHandler (PacketFinder_ctor (replicate n 0))) (process_reads (map (Pair (None :: nat option)) reads)))
      (\<lambda>f. Inr (map fst (found f)))"

lemmas run_simps = finder_packets_def registerPossiblePacketFoundHandler_def PacketFinder_ctor_def AsciiTracker_reset_def processReceivedData_def
  data_byte_def ascii_byte_def ascii_end_def ascii_reset_def resetTracking_def dispatchPacket_def packet_bytes_def append_bytes_def
  binary_byte_def header_complete_def packet_complete_def BinaryTracker_ctor_def copy_over_def adjust_tracker_def isValid_def packet_type_def
  ascii_isValid_def char_defs sub64_def MaximumSizeForAsciiPacket_def MaximumSizeExpectedForBinaryPacket_def countSetBits_eq
  toUint8FromHexStr_def to_uint8_from_hexchar_def Checksum8_def Let_def upt_rec

text \<open>
  A possible ASCII packet that began in an earlier read loses bytes when a later read that goes on with it contains the
  start byte of a binary packet: only what follows that byte is kept. A packet of the other bytes is handed out.
\<close>

lemma ascii_bytes_lost:
  "finder_packets 32 [[0x24, 0x56, 0x4E], [0x41, 0x42, 0xFA, 0x43], [0x58, 0x58, 0x0D, 0x0A]] =
     Inr [[0x24, 0x56, 0x4E, 0xFA, 0x43, 0x58, 0x58, 0x0D, 0x0A]] \<and>
   finder_packets 32 [[0x24, 0x56, 0x4E, 0x41, 0x42, 0xFA, 0x43, 0x58, 0x58, 0x0D, 0x0A]] =
     Inr [[0x24, 0x56, 0x4E, 0x41, 0x42, 0xFA, 0x43, 0x58, 0x58, 0x0D, 0x0A]]"
  by (simp add: run_simps take_Cons' nth_Cons' drop_Cons')


end
