(* ===== verification/Spec2Isabelle.thy ===== *)
theory Spec2Isabelle
  imports Protocol_V2_Theorems Protocol_V1_Theorems Agilex_Base_Theorems Ranger_Messenger_Theorems
    Async_Serial Agx_Robots Protocol_Detector Waypoint_Runner_Theorems Scan_Merger_Theorems Drive_Stack Scenario
    Lifecycle_Manager_Theorems Vn_Packet_Finder_Theorems
begin

text \<open>
  Verification of the software of a Ranger robot: the SDK that speaks the robot's CAN protocol
  (\<open>ugv_sdk\<close>), the ROS node that drives the robot with it (\<open>ranger_ros2/ranger_base\<close>), the tools that
  record and follow waypoints (\<open>wego_2d_nav\<close>), the node that merges two laser scans
  (\<open>scan_merger_2\<close>), and the nodes of the navigation stack that these talk to directly: the velocity
  smoother, whose output the node drives by (\<open>navigation2/nav2_velocity_smoother\<close>), the waypoint follower, which
  the runner sends its goals to (\<open>navigation2/nav2_waypoint_follower\<close>), and the lifecycle manager that starts and
  stops both (\<open>navigation2/nav2_lifecycle_manager\<close>). Of the sensor drivers, the part that finds packets in the byte
  stream of the inertial sensor (\<open>wego_sensors/vectornav\<close>, library \<open>vnproglib\<close>).

  The program. A velocity command from ROS enters \<open>RangerROSMessenger::TwistCmdCallback\<close>, which chooses
  a motion mode and a steering angle and calls the robot class of the SDK. The robot class
  (\<open>RangerBase\<close> over \<open>AgilexBase\<close>) fills a message, a parser encodes it into a CAN frame, and
  \<open>AsyncCAN\<close> writes the frame to a socket. In the other direction a received frame is decoded and
  stored in the state groups of the robot class, from where the node's timer reads it, integrates the
  odometry and publishes the state.

  Around this core, the waypoint runner turns service requests into goals of the navigation stack and
  keeps track of how far a scenario has got, the waypoint saver appends poses to the files the runner
  loads, and the scan merger gives the navigation stack one scan around the robot.

  The theories, in the order in which they build on each other:

  \<^item> \<open>Prelude\<close>: collections of facts and lemmas on lists, sums and words, the type of results
    (\<open>Inl\<close> a fault: a thrown exception, undefined behaviour or a null pointer; \<open>Inr\<close> a value).
  \<^item> \<open>Ieee754\<close>: the floating-point arithmetic the code uses, in binary32 and binary64: values as sign,
    mantissa and exponent, operations as exact operation followed by rounding to nearest even,
    conversions to integers with the out-of-range case undefined, and error bounds.
  \<^item> \<open>Agx_Message\<close>: \<open>agilex_types.h\<close> and \<open>agilex_message.h\<close>, the messages and the tagged union.
  \<^item> \<open>Frame_Layout\<close>, \<open>Protocol_V2_Frames\<close>, \<open>Protocol_V2\<close>: the byte layouts of \<open>agilex_protocol_v2.h\<close>,
    decoder, encoder and checksum of \<open>agilex_msg_parser_v2.c\<close>; \<open>Protocol_V2_Theorems\<close> has round trips
    within the resolution of the wire, type safety of decoded messages and the conditions under
    which a conversion is undefined or a field is left uninitialised.
  \<^item> \<open>Protocol_V1_Frames\<close>, \<open>Protocol_V1\<close>, \<open>Protocol_V1_Theorems\<close>: the same for version 1, with the
    scaling of \<open>protocol_v1_parser.hpp\<close> and the limits of \<open>robot_limits.hpp\<close>.
  \<^item> \<open>Async_Can\<close>: \<open>async_can.cpp\<close>. The state holds the descriptor, the I/O thread and the frames sent;
    the results of the system calls are parameters.
  \<^item> \<open>Agilex_Base\<close>, \<open>Agilex_Base_Theorems\<close>: \<open>parser_base.hpp\<close> as a record of functions and
    \<open>agilex_base.hpp\<close>. The locale \<open>agx_parser\<close> states what the base class relies on; both parsers
    interpret it, so that the safety of the receive path is proved once for both.
  \<^item> \<open>Ranger_Base\<close>: \<open>ranger_base.hpp\<close>, \<open>ranger_interface.hpp\<close> and \<open>ranger_robot.cpp\<close>.
  \<^item> \<open>Ranger_Messenger\<close>, \<open>Ranger_Messenger_Theorems\<close>: \<open>ranger_messenger.cpp\<close> with the parameters of
    \<open>ranger_params.hpp\<close> and the models of \<open>kinematics_model.hpp\<close>. The node's run is a sequence of
    events (tick, command, frame); the invariant of the node holds along every run.

  \<^item> \<open>Agx_Robots\<close>: the other robots of the SDK (\<open>scout_base.hpp\<close>, \<open>hunter_base.hpp\<close>, \<open>tracer_base.hpp\<close>,
    \<open>bunker_base.hpp\<close>, \<open>titan_base.hpp\<close>, their interfaces and \<open>src/mobile_robot\<close>): what their commands send
    and what their reports contain.
  \<^item> \<open>Protocol_Detector\<close>: \<open>protocol_detector.cpp\<close>, with frames arriving between its reads of the flags.
  \<^item> \<open>Ring_Buffer\<close>: \<open>ring_buffer.hpp\<close> with 64-bit counters that wrap around. The locale \<open>fifo\<close> is the
    contract of a bounded queue; the ring buffer interprets it and refines a list.
  \<^item> \<open>Async_Serial\<close>: \<open>async_serial.cpp\<close>. The transmit path is an inductive step relation over sends,
    posted calls and completions; it refines a byte stream and drains.
  \<^item> \<open>Text_Io\<close>, \<open>Waypoint_Csv\<close>: lines and decimal numbers as the C++ streams read and print them, the
    loaders of \<open>waypoint_runner.cpp\<close> and \<open>waypoint_follow.hpp\<close> and the saver of \<open>waypoint_save.cpp\<close>, with
    the round trip from saver to loader.
  \<^item> \<open>Waypoint_Runner\<close>, \<open>Waypoint_Runner_Theorems\<close>: the state machine of \<open>waypoint_runner.cpp\<close> over
    service requests and action callbacks: its invariant, what a request sends, and that pausing and
    continuing skips and repeats nothing.
  \<^item> \<open>Scan_Merger\<close>, \<open>Scan_Merger_Theorems\<close>: \<open>scans_merger.cpp\<close>. Every range of a merged scan is the nearest
    point of its sector, no sequence of scans makes the node fail, and one of any two scans is published.
  \<^item> \<open>Velocity_Smoother\<close>, \<open>Velocity_Smoother_Theorems\<close>: \<open>velocity_smoother.cpp\<close> with the moving average of
    \<open>odometry_utils.cpp\<close>. With the open loop, as \<open>nav2_params.yaml\<close> configures it, the smoother never fails,
    limits the change of every axis and stops when commands cease.
  \<^item> \<open>Drive_Stack\<close>: smoother and Ranger node connected as the launch file of \<open>wego_2d_nav\<close> connects them: no
    velocity command, however malformed, makes the pair fail.
  \<^item> \<open>Simple_Action_Server\<close>, \<open>Simple_Action_Server_Theorems\<close>: \<open>simple_action_server.hpp\<close>, an inductive transition
    system of clients, worker and callback. The active goals are exactly the current and the pending one; two
    windows in which a goal is never executed.
  \<^item> \<open>Waypoint_Follower\<close>, \<open>Waypoint_Follower_Theorems\<close>: \<open>waypoint_follower.cpp\<close> on that server: safety of its runs,
    that every waypoint is visited in order, and the cases in which it misreports or goes on.
  \<^item> \<open>Scenario\<close>: runner and follower together, from the request that starts a scenario to its end.
  \<^item> \<open>Lifecycle_Manager\<close>, \<open>Lifecycle_Manager_Theorems\<close>: \<open>lifecycle_manager.cpp\<close> with the service clients of
    \<open>service_client.hpp\<close> and \<open>lifecycle_service_client.cpp\<close>, operations that keep the state they reached when they
    throw. The locale \<open>node_visit\<close> has what a pass over the nodes guarantees for any visit of a node; the manager's
    transitions interpret it. No null pointer before a shutdown, the states a successful command leaves, refinement
    of a machine with a single state, and three ways in which nodes stay active or requests fail.
  \<^item> \<open>Vn_Packet\<close>: of \<open>packet.cpp\<close> the type, validity and length of a packet, with the checks of \<open>error_detection.cpp\<close>
    and the helpers of \<open>utilities.cpp\<close>. \<open>Vn_Packet_Finder\<close>: \<open>packetfinder.cpp\<close>, the trackers of possible packets, the
    receive buffer for what a read leaves unfinished, and the handler. \<open>Vn_Packet_Finder_Stream\<close>, \<open>Vn_Packet_Finder_Theorems\<close>: an
    invariant that relates trackers and buffer to the stream of all bytes so far; memory safety and soundness for
    arbitrary bytes, that a stream of packets is found completely however it is cut into reads, and a loss of ASCII packets.
    The theorems are about the finder without the bootloader filter and streams below \<open>2 ^ 64\<close> bytes.

  Uninitialised memory is explicit: operations that read it take the old content as an argument, and
  theorems hold for every content. A union read under a wrong tag is a fault. Loops over fixed ranges
  are recursions over lists; the polling loops of \<open>RequestVersion\<close> and of the protocol detector recurse
  over the list of their observations of the clock, and the theorems on their termination need only that
  one of them is past the timeout. The loop in which a continue request waits runs at most ten times. The
  service clients wait for services without end; their loops give up as \<open>Blocked\<close> after \<open>g_patience\<close> passes, safety
  holds for every such number, and one pass is enough where the services are up.

  Parameters of the model. The C library's functions on doubles (hypotheses \<open>libm_ok\<close> and
  \<open>merger_lib_ok\<close>: they return well-formed doubles and keep within their documented ranges), the
  integrator of \<open>boost::odeint\<close>, quaternions and transforms by \<open>tf2\<close>, the projection of a scan to a point
  cloud by \<open>laser_geometry\<close>, the iterators of \<open>sensor_msgs\<close> over a cloud, the conversion of seconds to a
  duration by \<open>rclcpp\<close>, the goal handles of \<open>rclcpp_action\<close> (hypothesis \<open>handles_ok\<close>: the documented state machine of
  a goal), the services and bonds of the managed nodes (hypotheses \<open>nodes_ok\<close>: requests reach only
  the node they name; \<open>nodes_obey\<close>: the documented life cycle of a node), the plugin that acts at a waypoint, the file system, and system calls.

  Not modelled: the rest of the vendored navigation stack and of the sensor drivers (with the field parsers and command
  generators of \<open>packet.cpp\<close>), and the vendored state estimation, whose core is linear algebra by \<open>Eigen\<close>; launch
  files, message definitions, samples and tests; logging.
\<close>

end
